(* ===== verification/Prelude.thy ===== *)
theory Prelude
  imports Complex_Main "HOL-Library.Product_Lexorder"
begin

text \<open>
  What every component of the development shares: C++ exceptions as a datatype and
  fallible code as a sum (\<open>Inl\<close> the exception that leaves the function, \<open>Inr\<close> the value
  it returns), sequencing and loops over such code, the rounding of
  \<^verbatim>\<open>std::round\<close>/\<^verbatim>\<open>std::llround\<close>, two's-complement narrowing, and the
  list facts behind SQL's \<open>UPDATE .. WHERE\<close> and \<open>SELECT .. WHERE\<close>.
\<close>

named_theorems inv_intros \<open>preservation lemmas of the components' invariants\<close>
named_theorems row_simps \<open>how the table operations act on single rows\<close>

section \<open>Exceptions\<close>

datatype exn =
    InvalidArgument            \<comment> \<open>\<^verbatim>\<open>std::invalid_argument\<close>\<close>
  | DomainError                \<comment> \<open>\<^verbatim>\<open>std::domain_error\<close>\<close>
  | RuntimeError string        \<comment> \<open>\<^verbatim>\<open>std::runtime_error\<close> and what is derived from it\<close>
  | SpecErr string             \<comment> \<open>\<^verbatim>\<open>capi::server::SpecError\<close>\<close>
  | BadRequest string          \<comment> \<open>\<^verbatim>\<open>capi::server::http::BadRequest\<close>\<close>
  | ConfigErr string           \<comment> \<open>\<^verbatim>\<open>capi::client::ConfigError\<close>\<close>
  | SqlError string            \<comment> \<open>an error Postgres raises, as \<^verbatim>\<open>pqxx::sql_error\<close>\<close>
  | BrokenConnection string    \<comment> \<open>\<^verbatim>\<open>pqxx::broken_connection\<close>\<close>
  | GithubErr string bool      \<comment> \<open>\<^verbatim>\<open>capi::server::GithubError\<close> and its \<open>not_found\<close>\<close>
  | TransientErr string        \<comment> \<open>\<^verbatim>\<open>capi::client::TransientError\<close>\<close>
  | ProtocolErr string         \<comment> \<open>\<^verbatim>\<open>capi::client::ProtocolError\<close>\<close>
  | JsonErr                    \<comment> \<open>\<^verbatim>\<open>nlohmann::json::exception\<close>\<close>
  | OutOfRange                 \<comment> \<open>\<^verbatim>\<open>std::out_of_range\<close>\<close>

type_synonym 'a result = "exn + 'a"

fun bindE :: "'e + 'a \<Rightarrow> ('a \<Rightarrow> 'e + 'b) \<Rightarrow> 'e + 'b" where
  "bindE (Inl e) f = Inl e"
| "bindE (Inr x) f = f x"

lemma bindE_eq_Inr_iff [simp]: "bindE m f = Inr y \<longleftrightarrow> (\<exists>x. m = Inr x \<and> f x = Inr y)"
  by (cases m) auto

lemma bindE_eq_Inl_iff:
  "bindE m f = Inl e \<longleftrightarrow> m = Inl e \<or> (\<exists>x. m = Inr x \<and> f x = Inl e)"
  by (cases m) auto

text \<open>A statement \<open>if (!p) throw e;\<close> .\<close>

definition guardE :: "bool \<Rightarrow> 'e \<Rightarrow> 'e + unit" where
  "guardE p e = (if p then Inr () else Inl e)"

lemma guardE_Inr [simp]: "guardE p e = Inr u \<longleftrightarrow> p"
  by (simp add: guardE_def)

lemma guardE_Inl [simp]: "guardE p e = Inl e' \<longleftrightarrow> \<not> p \<and> e' = e"
  by (auto simp: guardE_def)

text \<open>A range-for loop whose body may throw.\<close>

fun foldE :: "('a \<Rightarrow> 's \<Rightarrow> 'e + 's) \<Rightarrow> 'a list \<Rightarrow> 's \<Rightarrow> 'e + 's" where
  "foldE f [] s = Inr s"
| "foldE f (x # xs) s = bindE (f x s) (foldE f xs)"

lemma foldE_invariant:
  assumes "foldE f xs s = Inr t" and "P s"
    and "\<And>x s t. x \<in> set xs \<Longrightarrow> P s \<Longrightarrow> f x s = Inr t \<Longrightarrow> P t"
  shows "P t"
  using assms
proof (induction xs arbitrary: s)
  case Nil
  then show ?case by simp
next
  case (Cons x xs)
  from Cons.prems(1) obtain s' where s': "f x s = Inr s'" "foldE f xs s' = Inr t"
    by auto
  have "P s'" using Cons.prems(2,3) s'(1) by auto
  then show ?case
    by (rule Cons.IH [OF s'(2)]) (meson Cons.prems(3) list.set_intros(2))
qed

lemma foldE_total:
  assumes "\<And>x s. x \<in> set xs \<Longrightarrow> P s \<Longrightarrow> \<exists>t. f x s = Inr t \<and> P t" and "P s"
  shows "\<exists>t. foldE f xs s = Inr t \<and> P t"
  using assms
proof (induction xs arbitrary: s)
  case Nil
  then show ?case by simp
next
  case (Cons x xs)
  from Cons.prems obtain s' where s': "f x s = Inr s'" "P s'"
    by (metis list.set_intros(1))
  from Cons.IH [OF _ s'(2)] Cons.prems(1) obtain t where "foldE f xs s' = Inr t" "P t"
    by auto
  with s'(1) show ?case by auto
qed

section \<open>Numbers\<close>

text \<open>
  \<^verbatim>\<open>std::round\<close> and \<^verbatim>\<open>std::llround\<close>: to the nearest integer, halves away from
  zero. Doubles are modelled by the real numbers.
\<close>

definition cpp_round :: "real \<Rightarrow> int" where
  "cpp_round x = (if 0 \<le> x then \<lfloor>x + 1 / 2\<rfloor> else - \<lfloor>- x + 1 / 2\<rfloor>)"

lemma cpp_round_of_int [simp]: "cpp_round (of_int k) = k"
proof -
  have "\<lfloor>real_of_int k + 1 / 2\<rfloor> = k" "\<lfloor>- real_of_int k + 1 / 2\<rfloor> = - k"
    by linarith+
  then show ?thesis by (simp add: cpp_round_def)
qed

lemma cpp_round_close: "\<bar>x - of_int (cpp_round x)\<bar> \<le> 1 / 2"
  unfolding cpp_round_def abs_le_iff by (auto, linarith+)

lemma cpp_round_unique: "\<bar>x - of_int k\<bar> < 1 / 2 \<Longrightarrow> cpp_round x = k"
  unfolding cpp_round_def abs_less_iff by (auto, linarith+)

lemma cpp_round_nonneg: "0 \<le> x \<Longrightarrow> 0 \<le> cpp_round x"
  by (simp add: cpp_round_def)

lemma cpp_round_mono: "x \<le> y \<Longrightarrow> cpp_round x \<le> cpp_round y"
  unfolding cpp_round_def by (auto simp: le_floor_iff floor_le_iff, linarith+)

text \<open>
  \<^verbatim>\<open>static_cast\<close> to a \<open>w\<close>-bit signed integer (two's complement since C++20), and
  the value range of such an integer.
\<close>

definition wrap_int :: "nat \<Rightarrow> int \<Rightarrow> int" where
  "wrap_int w k = (k + 2 ^ (w - 1)) mod 2 ^ w - 2 ^ (w - 1)"

definition in_int_range :: "nat \<Rightarrow> int \<Rightarrow> bool" where
  "in_int_range w k \<longleftrightarrow> - (2 ^ (w - 1)) \<le> k \<and> k < 2 ^ (w - 1)"

lemma wrap_int_id: "0 < w \<Longrightarrow> in_int_range w k \<Longrightarrow> wrap_int w k = k"
proof -
  assume w: "0 < w" and r: "in_int_range w k"
  have p: "(2::int) ^ w = 2 * 2 ^ (w - 1)"
    using w by (cases w) auto
  have "(k + 2 ^ (w - 1)) mod 2 ^ w = k + 2 ^ (w - 1)"
    using r unfolding in_int_range_def p by (intro mod_pos_pos_trivial) auto
  then show ?thesis by (simp add: wrap_int_def)
qed

lemma wrap_int_range: "0 < w \<Longrightarrow> in_int_range w (wrap_int w k)"
proof -
  assume w: "0 < w"
  have p: "(2::int) ^ w = 2 * 2 ^ (w - 1)"
    using w by (cases w) auto
  have "0 \<le> (k + 2 ^ (w - 1)) mod 2 ^ w" "(k + 2 ^ (w - 1)) mod 2 ^ w < 2 ^ w"
    by (auto intro: pos_mod_bound)
  then show ?thesis unfolding wrap_int_def in_int_range_def p by auto
qed

abbreviation "int32 \<equiv> in_int_range 32"
abbreviation "int64 \<equiv> in_int_range 64"

text \<open>C++ integer division truncates towards zero.\<close>

definition cpp_div :: "int \<Rightarrow> int \<Rightarrow> int" where
  "cpp_div a b = sgn a * sgn b * (\<bar>a\<bar> div \<bar>b\<bar>)"

lemma cpp_div_nonneg: "0 \<le> a \<Longrightarrow> 0 < b \<Longrightarrow> cpp_div a b = a div b"
  by (cases "a = 0") (auto simp: cpp_div_def)

section \<open>Bisection\<close>

text \<open>
  The loop of \<^verbatim>\<open>secular\<close> (common/gsprt.cpp) and of \<^verbatim>\<open>phi_inv\<close>
  (common/elo.cpp): at most \<open>n\<close> halvings of \<open>[lo, hi]\<close>, left when the midpoint no longer
  lies strictly inside; \<open>right\<close> tells whether the left end moves.
\<close>

fun bisect :: "nat \<Rightarrow> (real \<Rightarrow> bool) \<Rightarrow> real \<Rightarrow> real \<Rightarrow> real \<times> real" where
  "bisect 0 right lo hi = (lo, hi)"
| "bisect (Suc n) right lo hi =
     (let mid = 1 / 2 * (lo + hi)
      in if mid \<le> lo \<or> hi \<le> mid then (lo, hi)
         else if right mid then bisect n right mid hi else bisect n right lo mid)"

lemma bisect_width:
  "lo < hi \<Longrightarrow> bisect n right lo hi = (l, h) \<Longrightarrow> h - l = (hi - lo) / 2 ^ n"
proof (induction n arbitrary: lo hi)
  case 0
  then show ?case by simp
next
  case (Suc n)
  let ?mid = "1 / 2 * (lo + hi)"
  have mid: "lo < ?mid" "?mid < hi"
    using Suc.prems(1) by (auto simp: field_simps)
  have half: "(hi - ?mid) / 2 ^ n = (hi - lo) / 2 ^ Suc n" "(?mid - lo) / 2 ^ n = (hi - lo) / 2 ^ Suc n"
    by (simp_all add: field_simps)
  show ?case
  proof (cases "right ?mid")
    case True
    then have "bisect n right ?mid hi = (l, h)"
      using Suc.prems(2) mid by (simp add: Let_def)
    from Suc.IH [OF mid(2) this] half(1) show ?thesis by simp
  next
    case False
    then have "bisect n right lo ?mid = (l, h)"
      using Suc.prems(2) mid by (simp add: Let_def)
    from Suc.IH [OF mid(1) this] half(2) show ?thesis by simp
  qed
qed

lemma bisect_within:
  "lo \<le> hi \<Longrightarrow> bisect n right lo hi = (l, h) \<Longrightarrow> lo \<le> l \<and> l \<le> h \<and> h \<le> hi"
proof (induction n right lo hi rule: bisect.induct)
  case (1 right lo hi)
  then show ?case by simp
next
  case (2 n right lo hi)
  let ?mid = "1 / 2 * (lo + hi)"
  show ?case
  proof (cases "?mid \<le> lo \<or> hi \<le> ?mid")
    case True
    with "2.prems" show ?thesis by (simp add: Let_def)
  next
    case False
    then show ?thesis
      using "2.IH" [OF refl False] "2.prems" by (auto simp: Let_def split: if_splits)
  qed
qed

lemma bisect_degenerate: "hi \<le> lo \<Longrightarrow> bisect n right lo hi = (lo, hi)"
  by (cases n) (auto simp: Let_def field_simps)

lemma bisect_step:
  "lo < hi \<Longrightarrow> bisect (Suc n) right lo hi =
     (if right ((lo + hi) / 2) then bisect n right ((lo + hi) / 2) hi
      else bisect n right lo ((lo + hi) / 2))"
  by (simp add: Let_def field_simps)

text \<open>
  The contract of a monotone search: over the open interval the test goes from true to
  false at most once. A family of such searches, indexed by \<open>'c\<close>, is the interface under
  which both solvers are verified.
\<close>

locale monotone_search =
  fixes right :: "'c \<Rightarrow> real \<Rightarrow> bool"
    and lo hi :: "'c \<Rightarrow> real"
    and ok :: "'c \<Rightarrow> bool"
  assumes proper: "ok c \<Longrightarrow> lo c < hi c"
    and downward: "ok c \<Longrightarrow> lo c < x \<Longrightarrow> x \<le> y \<Longrightarrow> y < hi c \<Longrightarrow> right c y \<Longrightarrow> right c x"
begin

text \<open>A switching point: true before it, false after it, inside the interval.\<close>

definition switches_at :: "'c \<Rightarrow> real \<Rightarrow> bool" where
  "switches_at c r \<longleftrightarrow> lo c \<le> r \<and> r \<le> hi c
     \<and> (\<forall>x. lo c < x \<longrightarrow> x < r \<longrightarrow> right c x)
     \<and> (\<forall>x. r < x \<longrightarrow> x < hi c \<longrightarrow> \<not> right c x)"

lemma bisect_brackets_aux:
  assumes "switches_at c r" and "lo c \<le> a" "b \<le> hi c" "a < b" "a \<le> r" "r \<le> b"
    and "bisect n (right c) a b = (l, h)"
  shows "l \<le> r \<and> r \<le> h"
  using assms(2-)
proof (induction n arbitrary: a b)
  case 0
  then show ?case by simp
next
  case (Suc n)
  let ?mid = "1 / 2 * (a + b)"
  have mid: "a < ?mid" "?mid < b" "lo c < ?mid" "?mid < hi c"
    using Suc.prems by (auto simp: field_simps)
  show ?case
  proof (cases "right c ?mid")
    case True
    then have "?mid \<le> r"
      using assms(1) mid unfolding switches_at_def by (meson not_le)
    moreover have "bisect n (right c) ?mid b = (l, h)"
      using Suc.prems(6) True mid by (simp add: Let_def)
    ultimately show ?thesis
      using Suc.IH [of ?mid b] Suc.prems mid by simp
  next
    case False
    then have "r \<le> ?mid"
      using assms(1) mid unfolding switches_at_def by (meson not_le)
    moreover have "bisect n (right c) a ?mid = (l, h)"
      using Suc.prems(6) False mid by (simp add: Let_def)
    ultimately show ?thesis
      using Suc.IH [of a ?mid] Suc.prems mid by simp
  qed
qed

theorem bisect_midpoint_error:
  assumes "ok c" and "switches_at c r" and "bisect n (right c) (lo c) (hi c) = (l, h)"
  shows "\<bar>1 / 2 * (l + h) - r\<bar> \<le> (hi c - lo c) / 2 ^ Suc n"
proof -
  have "l \<le> r \<and> r \<le> h"
    using bisect_brackets_aux [OF assms(2) order.refl order.refl proper [OF assms(1)] _ _ assms(3)]
      assms(2) by (simp add: switches_at_def)
  moreover have "h - l = (hi c - lo c) / 2 ^ n"
    by (rule bisect_width [OF proper [OF assms(1)] assms(3)])
  then have half: "(h - l) / 2 = (hi c - lo c) / 2 ^ Suc n" by simp
  ultimately show ?thesis unfolding abs_le_iff half [symmetric] by (auto simp: field_simps)
qed

end

section \<open>Tables\<close>

text \<open>
  A table is the list of its rows. \<open>update_where P f\<close> is
  \<open>UPDATE .. SET f WHERE P\<close>; a \<open>SELECT .. WHERE P\<close> is \<^const>\<open>filter\<close>, and
  a lookup by primary key is \<^const>\<open>find\<close>.
\<close>

definition update_where :: "('r \<Rightarrow> bool) \<Rightarrow> ('r \<Rightarrow> 'r) \<Rightarrow> 'r list \<Rightarrow> 'r list" where
  "update_where P f rows = map (\<lambda>r. if P r then f r else r) rows"

lemma set_update_where:
  "r \<in> set (update_where P f rows) \<longleftrightarrow> (\<exists>q \<in> set rows. r = (if P q then f q else q))"
  by (auto simp: update_where_def)

lemma update_whereE:
  assumes "r \<in> set (update_where P f rows)"
  obtains q where "q \<in> set rows" "r = (if P q then f q else q)"
  using assms unfolding set_update_where by blast

lemma length_update_where [simp]: "length (update_where P f rows) = length rows"
  by (simp add: update_where_def)

lemma map_update_where [simp]:
  "(\<And>r. P r \<Longrightarrow> g (f r) = g r) \<Longrightarrow> map g (update_where P f rows) = map g rows"
  by (simp add: update_where_def)

lemma update_where_none: "(\<And>r. r \<in> set rows \<Longrightarrow> \<not> P r) \<Longrightarrow> update_where P f rows = rows"
  by (simp add: update_where_def map_idI)

lemma filter_update_where_id:
  assumes "\<And>r. r \<in> set rows \<Longrightarrow> P r \<Longrightarrow> \<not> Q r \<and> \<not> Q (f r)"
  shows "filter Q (update_where P f rows) = filter Q rows"
  using assms by (induction rows) (auto simp: update_where_def)

lemma filter_map_distinct: "distinct (map f xs) \<Longrightarrow> distinct (map f (filter P xs))"
  by (induction xs) auto

lemma distinct_map_unique:
  "distinct (map f xs) \<Longrightarrow> x \<in> set xs \<Longrightarrow> y \<in> set xs \<Longrightarrow> f x = f y \<Longrightarrow> x = y"
  by (metis distinct_map inj_onD)

lemma find_Some_in: "find P xs = Some x \<Longrightarrow> x \<in> set xs \<and> P x"
  by (auto simp: find_Some_iff)

lemma find_key:
  assumes "distinct (map key rows)" and "r \<in> set rows"
  shows "find (\<lambda>q. key q = key r) rows = Some r"
  using assms
  by (induction rows) (auto simp: rev_image_eqI)

lemma find_key_iff:
  assumes "distinct (map key rows)"
  shows "find (\<lambda>q. key q = k) rows = Some r \<longleftrightarrow> r \<in> set rows \<and> key r = k"
  using assms find_key [OF assms, of r] by (auto dest: find_Some_in)

lemma filter_key_singleton:
  assumes "distinct (map key rows)" and "r \<in> set rows"
  shows "filter (\<lambda>q. key q = key r) rows = [r]"
  using assms by (induction rows) (auto simp: filter_empty_conv image_iff)

end
