(* ===== verification/Penta.thy ===== *)
theory Penta
  imports Prelude
begin

text \<open>
  common/penta.hpp and common/penta.cpp: the pentanomial categories of a pair of games,
  their frequencies, the regularised distribution over the five scores and its moments.
\<close>

section \<open>Categories\<close>

datatype penta = LL | LD | DD_WL | WD | WW

text \<open>\<^verbatim>\<open>static_cast<int>(p)\<close> and its inverse.\<close>

fun penta_code :: "penta \<Rightarrow> nat" where
  "penta_code LL = 0"
| "penta_code LD = 1"
| "penta_code DD_WL = 2"
| "penta_code WD = 3"
| "penta_code WW = 4"

definition penta_of_code :: "nat \<Rightarrow> penta" where
  "penta_of_code n = [LL, LD, DD_WL, WD, WW] ! n"

lemma penta_code_less [simp]: "penta_code p < 5"
  by (cases p) auto

lemma penta_of_code_code [simp]: "penta_of_code (penta_code p) = p"
  by (cases p) (auto simp: penta_of_code_def)

lemma penta_code_of_code: "n < 5 \<Longrightarrow> penta_code (penta_of_code n) = n"
  by (auto simp: penta_of_code_def less_Suc_eq numeral_eq_Suc)

lemma penta_code_inject [simp]: "penta_code p = penta_code q \<longleftrightarrow> p = q"
  by (cases p; cases q) auto

text \<open>The enum is ordered by its values, from the candidate's worst result to its best.\<close>

instantiation penta :: linorder
begin

definition less_eq_penta :: "penta \<Rightarrow> penta \<Rightarrow> bool" where
  "less_eq_penta p q \<longleftrightarrow> penta_code p \<le> penta_code q"

definition less_penta :: "penta \<Rightarrow> penta \<Rightarrow> bool" where
  "less_penta p q \<longleftrightarrow> penta_code p < penta_code q"

instance
proof
  fix x y z :: penta
  show "(x < y) = (x \<le> y \<and> \<not> y \<le> x)"
    by (auto simp: less_eq_penta_def less_penta_def)
  show "x \<le> x" by (simp add: less_eq_penta_def)
  show "x \<le> y \<Longrightarrow> y \<le> z \<Longrightarrow> x \<le> z" by (simp add: less_eq_penta_def)
  show "x \<le> y \<Longrightarrow> y \<le> x \<Longrightarrow> x = y"
    using penta_code_inject [of x y] by (simp add: less_eq_penta_def)
  show "x \<le> y \<or> y \<le> x" by (auto simp: less_eq_penta_def)
qed

end

text \<open>The score of a pair and its category; any other score is rejected.\<close>

definition category_from_pair_score :: "real \<Rightarrow> penta result" where
  "category_from_pair_score pair_score =
     (let idx = pair_score * 2; rounded = cpp_round idx
      in if \<not> (0 \<le> rounded \<and> rounded \<le> 4) \<or> \<bar>idx - of_int rounded\<bar> > 1 / 10 ^ 9
         then Inl InvalidArgument
         else Inr (penta_of_code (nat rounded)))"

definition pair_score_of :: "penta \<Rightarrow> real" where
  "pair_score_of c = real (penta_code c) / 2"

lemma category_Inr_iff:
  "category_from_pair_score s = Inr c \<longleftrightarrow> \<bar>s * 2 - real (penta_code c)\<bar> \<le> 1 / 10 ^ 9"
proof
  assume "category_from_pair_score s = Inr c"
  then have h: "0 \<le> cpp_round (s * 2)" "cpp_round (s * 2) \<le> 4"
      "\<bar>s * 2 - of_int (cpp_round (s * 2))\<bar> \<le> 1 / 10 ^ 9"
      "c = penta_of_code (nat (cpp_round (s * 2)))"
    by (auto simp: category_from_pair_score_def Let_def split: if_splits)
  then have "penta_code c = nat (cpp_round (s * 2))"
    by (simp add: penta_code_of_code)
  with h show "\<bar>s * 2 - real (penta_code c)\<bar> \<le> 1 / 10 ^ 9" by simp
next
  assume a: "\<bar>s * 2 - real (penta_code c)\<bar> \<le> 1 / 10 ^ 9"
  have "cpp_round (s * 2) = int (penta_code c)"
    by (rule cpp_round_unique) (use a in simp)
  moreover have "penta_code c \<le> 4" using penta_code_less [of c] by linarith
  ultimately show "category_from_pair_score s = Inr c"
    using a by (simp add: category_from_pair_score_def Let_def)
qed

lemma category_pair_score_of [simp]: "category_from_pair_score (pair_score_of c) = Inr c"
  by (simp add: category_Inr_iff pair_score_of_def)

section \<open>Frequencies\<close>

text \<open>
  \<^verbatim>\<open>std::array<std::int64_t, 5>\<close>, indexed by the category. The counts are kept as
  integers: a test has at most ten million pairs (\<^verbatim>\<open>parse_test_spec\<close>), far from the
  64-bit limits.
\<close>

record pentanomial =
  counts :: "int list"

definition empty_pentanomial :: pentanomial where
  "empty_pentanomial = \<lparr>counts = [0, 0, 0, 0, 0]\<rparr>"

definition penta_wf :: "pentanomial \<Rightarrow> bool" where
  "penta_wf p \<longleftrightarrow> length (counts p) = 5 \<and> (\<forall>n \<in> set (counts p). 0 \<le> n)"

definition penta_add :: "pentanomial \<Rightarrow> penta \<Rightarrow> int \<Rightarrow> pentanomial" where
  "penta_add p c n = p\<lparr>counts := (counts p)[penta_code c := counts p ! penta_code c + n]\<rparr>"

definition penta_add_pair_score :: "pentanomial \<Rightarrow> real \<Rightarrow> pentanomial result" where
  "penta_add_pair_score p s = bindE (category_from_pair_score s) (\<lambda>c. Inr (penta_add p c 1))"

definition penta_get :: "pentanomial \<Rightarrow> penta \<Rightarrow> int" where
  "penta_get p c = counts p ! penta_code c"

definition penta_pairs :: "pentanomial \<Rightarrow> int" where
  "penta_pairs p = fold (\<lambda>c n. n + c) (counts p) 0"

definition penta_plus :: "pentanomial \<Rightarrow> pentanomial \<Rightarrow> pentanomial" where
  "penta_plus p q = p\<lparr>counts := map2 (+) (counts p) (counts q)\<rparr>"

lemma penta_list5: "length xs = 5 \<longleftrightarrow> (\<exists>a b c d e. xs = [a, b, c, d, e])"
  by (auto simp: length_Suc_conv numeral_eq_Suc)

lemma penta_wf_cases:
  assumes "penta_wf p"
  obtains a b c d e where "p = \<lparr>counts = [a, b, c, d, e]\<rparr>"
    and "0 \<le> a" "0 \<le> b" "0 \<le> c" "0 \<le> d" "0 \<le> e"
  using assms by (cases p) (auto simp: penta_wf_def penta_list5)

lemma penta_wf_empty [simp]: "penta_wf empty_pentanomial"
  by (simp add: penta_wf_def empty_pentanomial_def)

lemma penta_wf_add [intro]: "penta_wf p \<Longrightarrow> 0 \<le> n \<Longrightarrow> penta_wf (penta_add p c n)"
  by (erule penta_wf_cases, cases c) (auto simp: penta_wf_def penta_add_def)

lemma penta_get_add:
  "length (counts p) = 5 \<Longrightarrow>
     penta_get (penta_add p c n) d = penta_get p d + (if c = d then n else 0)"
  by (simp add: penta_get_def penta_add_def nth_list_update)

lemma penta_pairs_sum: "penta_pairs p = sum_list (counts p)"
  by (simp add: penta_pairs_def fold_plus_sum_list_rev add.commute)

lemma penta_pairs_empty [simp]: "penta_pairs empty_pentanomial = 0"
  by (simp add: penta_pairs_sum empty_pentanomial_def)

lemma penta_pairs_add: "length (counts p) = 5 \<Longrightarrow> penta_pairs (penta_add p c n) = penta_pairs p + n"
  by (cases c) (auto simp: penta_pairs_sum penta_add_def penta_list5)

lemma penta_pairs_nonneg: "penta_wf p \<Longrightarrow> 0 \<le> penta_pairs p"
  by (erule penta_wf_cases) (simp add: penta_pairs_sum)


section \<open>The regularised distribution and its moments\<close>

record penta_pdf =
  pdf_count :: real
  pdf_values :: "real list"
  pdf_probs :: "real list"

definition regularise :: "int \<Rightarrow> real" where
  "regularise n = (if n = 0 then 1 / 1000 else of_int n)"

definition to_pdf :: "pentanomial \<Rightarrow> penta_pdf" where
  "to_pdf p =
     (let reg = map regularise (counts p); n = sum_list reg
      in \<lparr>pdf_count = n,
          pdf_values = map (\<lambda>i. real i / 4) [0..<5],
          pdf_probs = map (\<lambda>r. r / n) reg\<rparr>)"

definition moments :: "real list \<Rightarrow> real list \<Rightarrow> real \<times> real" where
  "moments values probs =
     (let mean = sum_list (map2 (*) probs values);
          var = sum_list (map2 (\<lambda>p v. p * (v - mean) * (v - mean)) probs values)
      in (mean, var))"

text \<open>Five positive probabilities that sum to one.\<close>

definition is_pdf :: "real list \<Rightarrow> bool" where
  "is_pdf ps \<longleftrightarrow> length ps = 5 \<and> (\<forall>p \<in> set ps. 0 < p) \<and> sum_list ps = 1"

lemma score_values [simp]: "map (\<lambda>i. real i / 4) [0..<5] = [0, 1 / 4, 1 / 2, 3 / 4, 1]"
  by (simp add: upt_conv_Cons numeral_eq_Suc)

lemma pdf_values_to_pdf [simp]: "pdf_values (to_pdf p) = [0, 1 / 4, 1 / 2, 3 / 4, 1]"
  by (simp add: to_pdf_def Let_def)

lemma regularise_pos: "0 \<le> n \<Longrightarrow> 0 < regularise n"
  by (simp add: regularise_def)

lemma pdf_count_pos: "penta_wf p \<Longrightarrow> 0 < pdf_count (to_pdf p)"
  by (erule penta_wf_cases) (auto simp: to_pdf_def Let_def intro!: add_pos_pos regularise_pos)

lemma is_pdf_to_pdf: "penta_wf p \<Longrightarrow> is_pdf (pdf_probs (to_pdf p))"
proof (erule penta_wf_cases)
  fix a b c d e
  assume p: "p = \<lparr>counts = [a, b, c, d, e]\<rparr>" and nn: "0 \<le> a" "0 \<le> b" "0 \<le> c" "0 \<le> d" "0 \<le> e"
  let ?n = "regularise a + regularise b + regularise c + regularise d + regularise e"
  have pos: "0 < ?n" using nn by (intro add_pos_pos regularise_pos)
  have "pdf_probs (to_pdf p) = map (\<lambda>r. regularise r / ?n) [a, b, c, d, e]"
    by (simp add: p to_pdf_def Let_def add.assoc)
  moreover have "regularise a / ?n + regularise b / ?n + regularise c / ?n + regularise d / ?n
      + regularise e / ?n = 1"
    using pos by (simp flip: add_divide_distrib)
  ultimately show ?thesis
    using pos nn by (simp add: is_pdf_def add.assoc regularise_pos)
qed

lemma is_pdf_cases:
  assumes "is_pdf ps"
  obtains a b c d e where "ps = [a, b, c, d, e]" "0 < a" "0 < b" "0 < c" "0 < d" "0 < e"
    "a + b + c + d + e = 1"
  using assms by (auto simp: is_pdf_def penta_list5 add.assoc)

text \<open>The mean of a distribution over the scores is a score, and its variance is positive.\<close>

lemma moments_expand:
  "moments [u, v, w, x, y] [a, b, c, d, e] =
     (a * u + b * v + c * w + d * x + e * y,
      let m = a * u + b * v + c * w + d * x + e * y
      in a * (u - m) * (u - m) + b * (v - m) * (v - m) + c * (w - m) * (w - m)
         + d * (x - m) * (x - m) + e * (y - m) * (y - m))"
  by (simp add: moments_def Let_def add.assoc)

lemma moments_bounds:
  assumes "is_pdf ps" and "moments [0, 1 / 4, 1 / 2, 3 / 4, 1] ps = (mu, var)"
  shows "0 < mu \<and> mu < 1 \<and> 0 < var"
proof -
  obtain a b c d e where ps: "ps = [a, b, c, d, e]" "0 < a" "0 < b" "0 < c" "0 < d" "0 < e"
    "a + b + c + d + e = 1"
    using assms(1) by (rule is_pdf_cases)
  have mu: "mu = b / 4 + c / 2 + d * 3 / 4 + e"
    and var: "var = a * (mu * mu) + b * ((1 / 4 - mu) * (1 / 4 - mu))
      + c * ((1 / 2 - mu) * (1 / 2 - mu)) + d * ((3 / 4 - mu) * (3 / 4 - mu))
      + e * ((1 - mu) * (1 - mu))"
    using assms(2) by (auto simp: ps(1) moments_expand Let_def mult.assoc)
  have m: "0 < mu" "mu < 1" unfolding mu using ps by linarith+
  have "0 < a * (mu * mu)" using ps m by simp
  moreover have "0 \<le> b * ((1 / 4 - mu) * (1 / 4 - mu))" "0 \<le> c * ((1 / 2 - mu) * (1 / 2 - mu))"
    "0 \<le> d * ((3 / 4 - mu) * (3 / 4 - mu))" "0 \<le> e * ((1 - mu) * (1 - mu))"
    using ps by (simp_all add: zero_le_mult_iff)
  ultimately show ?thesis using m var by linarith
qed

section \<open>Properties\<close>

text \<open>
  The category of a pair score. A score is accepted exactly when it lies within
  \<open>5 * 10^-10\<close> of one of the five scores, and then the category is that one's; every other
  score is rejected with \<^verbatim>\<open>std::invalid_argument\<close>, never rounded to a category.
\<close>

theorem category_of_score_exact:
  "(category_from_pair_score s = Inr c \<longleftrightarrow> \<bar>s - pair_score_of c\<bar> \<le> 1 / (2 * 10 ^ 9)) \<and>
   (category_from_pair_score s = Inl e \<longleftrightarrow>
      e = InvalidArgument \<and> (\<forall>c. 1 / (2 * 10 ^ 9) < \<bar>s - pair_score_of c\<bar>))"
proof -
  have h: "category_from_pair_score s = Inr c \<longleftrightarrow> \<bar>s - pair_score_of c\<bar> \<le> 1 / (2 * 10 ^ 9)" for c
    unfolding category_Inr_iff pair_score_of_def abs_le_iff by (auto simp: field_simps)
  have e: "category_from_pair_score s = Inl e \<Longrightarrow> e = InvalidArgument" for e
    by (auto simp: category_from_pair_score_def Let_def split: if_splits)
  show ?thesis
  proof (cases "category_from_pair_score s")
    case (Inl e')
    then show ?thesis using h e [OF Inl] by (auto simp: not_le [symmetric])
  next
    case (Inr c')
    then show ?thesis using h by (auto simp: not_le [symmetric])
  qed
qed

end
