(* ===== verification/Gsprt.thy ===== *)
theory Gsprt
  imports Penta
begin

text \<open>
  common/gsprt.hpp and common/gsprt.cpp: the generalised SPRT over pentanomial results.
  The secular equation and its bisection, the fixed-point iteration for the maximum
  likelihood distribution with a given t-value, the log likelihood ratio, the Wald bounds
  and the decision. Doubles are real numbers, so the theorems speak about the algorithm and
  not about rounding.
\<close>

section \<open>The algorithm\<close>

definition kNeloDividedByNt :: real where
  "kNeloDividedByNt = 34743558552260146 / 10 ^ 14"

definition secular_fun :: "real list \<Rightarrow> real list \<Rightarrow> real \<Rightarrow> real" where
  "secular_fun a p x = sum_list (map2 (\<lambda>p a. p * a / (1 + x * a)) p a)"

definition secular_lo :: "real list \<Rightarrow> real" where
  "secular_lo a = - 1 / Max (set a) + 1 / 10 ^ 9"

definition secular_hi :: "real list \<Rightarrow> real" where
  "secular_hi a = - 1 / Min (set a) - 1 / 10 ^ 9"

definition secular :: "real list \<Rightarrow> real list \<Rightarrow> real result" where
  "secular a p =
     (let v = Min (set a); w = Max (set a)
      in if 0 \<le> v * w then Inl DomainError
         else let (lo, hi) = bisect 200 (\<lambda>x. 0 < secular_fun a p x) (secular_lo a) (secular_hi a)
              in Inr (1 / 2 * (lo + hi)))"

text \<open>The coefficients \<open>a1\<close> of one iteration, from the current estimate.\<close>

definition mle_coeffs :: "real list \<Rightarrow> real \<Rightarrow> real \<Rightarrow> real list \<Rightarrow> real list" where
  "mle_coeffs values ref s pdf_mle =
     (let (mu, var) = moments values pdf_mle; sigma = sqrt var
      in map (\<lambda>v. let z = (mu - v) / sigma in v - ref - s * sigma * (1 + z * z) / 2) values)"

definition mle_step :: "penta_pdf \<Rightarrow> real \<Rightarrow> real \<Rightarrow> real list \<Rightarrow> real list result" where
  "mle_step hat ref s pdf_mle =
     (let a1 = mle_coeffs (pdf_values hat) ref s pdf_mle
      in bindE (secular a1 (pdf_probs hat))
           (\<lambda>x. Inr (map2 (\<lambda>p a. p / (1 + x * a)) (pdf_probs hat) a1)))"

definition max_delta :: "real list \<Rightarrow> real list \<Rightarrow> real" where
  "max_delta prev pdf = fold max (map2 (\<lambda>a b. \<bar>a - b\<bar>) prev pdf) 0"

fun mle_loop :: "nat \<Rightarrow> penta_pdf \<Rightarrow> real \<Rightarrow> real \<Rightarrow> real list \<Rightarrow> real list result" where
  "mle_loop 0 hat ref s pdf_mle = Inr pdf_mle"
| "mle_loop (Suc n) hat ref s pdf_mle =
     bindE (mle_step hat ref s pdf_mle)
       (\<lambda>next. if max_delta pdf_mle next < 1 / 10 ^ 9 then Inr next
               else mle_loop n hat ref s next)"

definition mle_t_value :: "penta_pdf \<Rightarrow> real \<Rightarrow> real \<Rightarrow> real list result" where
  "mle_t_value hat ref s = mle_loop 10 hat ref s (replicate 5 (1 / 5))"

definition llr_normalized :: "real \<Rightarrow> real \<Rightarrow> pentanomial \<Rightarrow> real result" where
  "llr_normalized nelo0 nelo1 results =
     (if penta_pairs results = 0 then Inr 0
      else let t0 = nelo0 / kNeloDividedByNt * sqrt 2;
               t1 = nelo1 / kNeloDividedByNt * sqrt 2;
               pdf = to_pdf results
           in bindE (mle_t_value pdf (1 / 2) t0) (\<lambda>p0.
              bindE (mle_t_value pdf (1 / 2) t1) (\<lambda>p1.
                Inr (pdf_count pdf *
                     sum_list (map2 (\<lambda>p (q1, q0). p * (ln q1 - ln q0))
                       (pdf_probs pdf) (zip p1 p0))))))"

record sprt_bounds_t =
  bound_lower :: real
  bound_upper :: real

definition sprt_bounds :: "real \<Rightarrow> real \<Rightarrow> sprt_bounds_t" where
  "sprt_bounds alpha beta =
     \<lparr>bound_lower = ln (beta / (1 - alpha)), bound_upper = ln ((1 - beta) / alpha)\<rparr>"

datatype sprt_decision = Continue | AcceptH1 | AcceptH0

definition sprt_decide :: "real \<Rightarrow> sprt_bounds_t \<Rightarrow> sprt_decision" where
  "sprt_decide llr bounds =
     (if bound_upper bounds \<le> llr then AcceptH1
      else if llr \<le> bound_lower bounds then AcceptH0
      else Continue)"

section \<open>The secular equation\<close>

text \<open>The support straddles zero: the guard of \<^verbatim>\<open>secular\<close>.\<close>

definition straddles :: "real list \<Rightarrow> bool" where
  "straddles a \<longleftrightarrow> Min (set a) * Max (set a) < 0"

lemma straddles_signs:
  assumes "straddles a" and "a \<noteq> []"
  shows "Min (set a) < 0 \<and> 0 < Max (set a)"
proof -
  have "Min (set a) \<le> Max (set a)"
    using assms(2) by (metis List.finite_set Max_ge Min_in set_empty)
  then show ?thesis
    using assms(1) unfolding straddles_def mult_less_0_iff by linarith
qed

text \<open>Every denominator is positive strictly between the two poles.\<close>

lemma denominator_pos:
  assumes "straddles a" and "r \<in> set a"
    and "- 1 / Max (set a) < x" and "x < - 1 / Min (set a)"
  shows "0 < 1 + x * r"
proof -
  let ?v = "Min (set a)" and ?w = "Max (set a)"
  have ne: "a \<noteq> []" using assms(2) by auto
  have vw: "?v < 0" "0 < ?w" using straddles_signs [OF assms(1) ne] by auto
  have r: "?v \<le> r" "r \<le> ?w" using assms(2) by auto
  have xw: "- 1 < x * ?w" using assms(3) vw by (simp add: field_simps)
  have xv: "- 1 < x * ?v" using assms(4) vw by (simp add: field_simps)
  show ?thesis
  proof (cases "0 \<le> x")
    case True
    then have "x * ?v \<le> x * r" using r by (simp add: mult_left_mono)
    with xv show ?thesis by linarith
  next
    case False
    then have "x * ?w \<le> x * r" using r by (simp add: mult_left_mono_neg)
    with xw show ?thesis by linarith
  qed
qed

lemma secular_term_antimono:
  fixes r x y p :: real
  assumes "0 \<le> p" "x \<le> y" "0 < 1 + x * r" "0 < 1 + y * r"
  shows "p * r / (1 + y * r) \<le> p * r / (1 + x * r)"
proof -
  have "p * r / (1 + x * r) - p * r / (1 + y * r) = p * (r * r) * (y - x) / ((1 + x * r) * (1 + y * r))"
    using assms by (simp add: field_simps)
  moreover have "0 \<le> p * (r * r)" using assms(1) by simp
  then have "0 \<le> p * (r * r) * (y - x)" using assms(2) by (simp add: mult_nonneg_nonneg)
  then have "0 \<le> p * (r * r) * (y - x) / ((1 + x * r) * (1 + y * r))"
    using assms(3,4) by (simp add: divide_nonneg_pos)
  ultimately show ?thesis by linarith
qed

lemma secular_term_strict:
  fixes r x y p :: real
  assumes "0 < p" "x < y" "r \<noteq> 0" "0 < 1 + x * r" "0 < 1 + y * r"
  shows "p * r / (1 + y * r) < p * r / (1 + x * r)"
proof -
  have "p * r / (1 + x * r) - p * r / (1 + y * r) = p * (r * r) * (y - x) / ((1 + x * r) * (1 + y * r))"
    using assms by (simp add: field_simps)
  moreover have "0 < r * r" using assms(3) by (metis not_real_square_gt_zero)
  then have "0 < p * (r * r)" using assms(1) by (simp only: mult_pos_pos)
  then have "0 < p * (r * r) * (y - x)" using assms(2) by (simp only: mult_pos_pos diff_gt_0_iff_gt)
  then have "0 < p * (r * r) * (y - x) / ((1 + x * r) * (1 + y * r))"
    using assms(4,5) by (simp only: divide_pos_pos mult_pos_pos)
  ultimately show ?thesis by linarith
qed

lemma secular_fun_antimono:
  assumes "length p = length a" and "\<forall>q \<in> set p. 0 < q" and "x \<le> y"
    and "\<forall>r \<in> set a. 0 < 1 + x * r" and "\<forall>r \<in> set a. 0 < 1 + y * r"
  shows "secular_fun a p y \<le> secular_fun a p x"
  using assms
proof (induction p a rule: list_induct2)
  case Nil
  then show ?case by (simp add: secular_fun_def)
next
  case (Cons q p r a)
  then show ?case
    using secular_term_antimono [of q x y r] by (simp add: secular_fun_def add_mono)
qed

lemma secular_fun_strict:
  assumes "length p = length a" and "\<forall>q \<in> set p. 0 < q" and "x < y"
    and "\<forall>r \<in> set a. 0 < 1 + x * r" and "\<forall>r \<in> set a. 0 < 1 + y * r"
    and "\<exists>r \<in> set a. r \<noteq> 0"
  shows "secular_fun a p y < secular_fun a p x"
  using assms
proof (induction p a rule: list_induct2)
  case Nil
  then show ?case by simp
next
  case (Cons q p r a)
  show ?case
  proof (cases "r = 0")
    case True
    then show ?thesis using Cons by (simp add: secular_fun_def)
  next
    case False
    have "q * r / (1 + y * r) < q * r / (1 + x * r)"
      using Cons.prems False by (intro secular_term_strict) auto
    moreover have "secular_fun a p y \<le> secular_fun a p x"
      using Cons.prems Cons.hyps by (intro secular_fun_antimono) auto
    ultimately show ?thesis by (simp add: secular_fun_def)
  qed
qed

text \<open>The bracket \<open>[lo, hi]\<close> lies between the poles whenever it is not empty.\<close>

definition secular_ok :: "real list \<times> real list \<Rightarrow> bool" where
  "secular_ok c \<longleftrightarrow>
     (case c of (a, p) \<Rightarrow> length p = length a \<and> a \<noteq> [] \<and> (\<forall>q \<in> set p. 0 < q) \<and> straddles a
        \<and> secular_lo a < secular_hi a)"

lemma secular_bracket:
  assumes "secular_lo a \<le> x" "x \<le> secular_hi a"
  shows "- 1 / Max (set a) < x \<and> x < - 1 / Min (set a)"
proof -
  have "(0::real) < 1 / 10 ^ 9" by simp
  with assms show ?thesis unfolding secular_lo_def secular_hi_def by linarith
qed

lemma secular_denominators:
  assumes "straddles a" "secular_lo a \<le> x" "x \<le> secular_hi a"
  shows "\<forall>r \<in> set a. 0 < 1 + x * r"
  using denominator_pos [OF assms(1)] secular_bracket [OF assms(2,3)] by blast

interpretation secular_search: monotone_search
  "\<lambda>(a, p) x. 0 < secular_fun a p x" "\<lambda>(a, p). secular_lo a" "\<lambda>(a, p). secular_hi a" secular_ok
proof (unfold_locales, goal_cases)
  case (1 c)
  then show ?case by (auto simp: secular_ok_def split: prod.splits)
next
  case (2 c x y)
  obtain a p where c: "c = (a, p)" by (cases c)
  have "secular_fun a p y \<le> secular_fun a p x"
    using 2 unfolding c
    by (intro secular_fun_antimono secular_denominators) (auto simp: secular_ok_def)
  with 2 show ?case by (simp add: c)
qed

text \<open>Whatever the bracket, the returned point lies strictly between the poles.\<close>

lemma secular_between_poles:
  assumes "secular a p = Inr x" and "a \<noteq> []"
  shows "- 1 / Max (set a) < x \<and> x < - 1 / Min (set a)"
proof -
  obtain l h where lh: "bisect 200 (\<lambda>x. 0 < secular_fun a p x) (secular_lo a) (secular_hi a) = (l, h)"
    by fastforce
  have str: "straddles a" and x: "x = 1 / 2 * (l + h)"
    using assms(1) lh by (auto simp: secular_def straddles_def Let_def split: if_splits)
  have poles: "- 1 / Max (set a) < - 1 / Min (set a)"
    using straddles_signs [OF str assms(2)]
    by (meson divide_neg_neg divide_neg_pos less_trans neg_less_0_iff_less zero_less_one)
  show ?thesis
  proof (cases "secular_lo a \<le> secular_hi a")
    case True
    then have "secular_lo a \<le> l" "l \<le> h" "h \<le> secular_hi a"
      using bisect_within lh by blast+
    then show ?thesis by (intro secular_bracket) (auto simp: x)
  next
    case False
    then have "x = 1 / 2 * (- 1 / Max (set a) + - 1 / Min (set a))"
      using bisect_degenerate lh by (auto simp: x secular_lo_def secular_hi_def)
    moreover have mid: "P < Q \<Longrightarrow> x = 1 / 2 * (P + Q) \<Longrightarrow> P < x \<and> x < Q" for P Q :: real
      by (auto simp: field_simps)
    ultimately show ?thesis using poles by (intro mid)
  qed
qed

lemma secular_straddles: "secular a p = Inr x \<Longrightarrow> straddles a"
  by (auto simp: secular_def straddles_def Let_def split: if_splits)

lemma secular_error: "secular a p = Inl e \<Longrightarrow> e = DomainError"
  by (auto simp: secular_def Let_def split: if_splits prod.splits)


text \<open>
  Accuracy: at a root inside the bracket the bisection ends within the bracket's width
  over \<open>2 ^ 201\<close>.
\<close>

lemma secular_root_switches:
  assumes ok: "secular_ok (a, p)" and r: "secular_lo a \<le> r" "r \<le> secular_hi a"
    and root: "secular_fun a p r = 0"
  shows "secular_search.switches_at (a, p) r"
proof -
  have str: "straddles a" and len: "length p = length a" and pos: "\<forall>q \<in> set p. 0 < q"
    and ne: "a \<noteq> []"
    using ok by (auto simp: secular_ok_def)
  have nz: "\<exists>v \<in> set a. v \<noteq> 0"
    using straddles_signs [OF str ne] ne by (metis List.finite_set Min_in less_irrefl set_empty)
  have "0 < secular_fun a p x" if "secular_lo a < x" "x < r" for x
    using secular_fun_strict [OF len pos that(2) _ _ nz] secular_denominators [OF str] that r root
    by simp
  moreover have "\<not> 0 < secular_fun a p x" if "r < x" "x < secular_hi a" for x
    using secular_fun_strict [OF len pos that(1) _ _ nz] secular_denominators [OF str] that r root
    by simp
  ultimately show ?thesis using r by (simp add: secular_search.switches_at_def)
qed

section \<open>The maximum likelihood iteration\<close>

lemma mle_coeffs_length [simp]: "length (mle_coeffs values ref s m) = length values"
  by (simp add: mle_coeffs_def split: prod.splits)

lemma map2_pos:
  assumes "\<And>p a. (p, a) \<in> set (zip ps as) \<Longrightarrow> (0::real) < f p a"
  shows "\<forall>x \<in> set (map2 f ps as). 0 < x"
  using assms by auto

text \<open>One iteration keeps the estimate a list of five positive numbers.\<close>

definition positive5 :: "real list \<Rightarrow> bool" where
  "positive5 m \<longleftrightarrow> length m = 5 \<and> (\<forall>x \<in> set m. 0 < x)"

lemma mle_step_positive:
  assumes "mle_step hat ref s m = Inr m'" and "is_pdf (pdf_probs hat)"
    and "length (pdf_values hat) = 5"
  shows "positive5 m'"
proof -
  let ?a = "mle_coeffs (pdf_values hat) ref s m"
  obtain x where x: "secular ?a (pdf_probs hat) = Inr x"
    and m': "m' = map2 (\<lambda>p a. p / (1 + x * a)) (pdf_probs hat) ?a"
    using assms(1) by (auto simp: mle_step_def Let_def)
  have ne: "?a \<noteq> []" using assms(3) mle_coeffs_length by (metis list.size(3) zero_neq_numeral)
  have "0 < p / (1 + x * a)" if "(p, a) \<in> set (zip (pdf_probs hat) ?a)" for p a
    using set_zip_leftD [OF that] set_zip_rightD [OF that] assms(2) secular_between_poles [OF x ne]
      denominator_pos [OF secular_straddles [OF x]]
    by (simp add: is_pdf_def divide_pos_pos)
  then have "\<forall>y \<in> set m'. 0 < y" unfolding m' by (rule map2_pos)
  moreover have "length m' = 5" using assms(2,3) by (simp add: m' is_pdf_def)
  ultimately show ?thesis by (simp add: positive5_def)
qed

lemma mle_loop_positive:
  assumes "mle_loop n hat ref s m = Inr m'" and "positive5 m" and "is_pdf (pdf_probs hat)"
    and "length (pdf_values hat) = 5"
  shows "positive5 m'"
  using assms
proof (induction n arbitrary: m)
  case 0
  then show ?case by simp
next
  case (Suc n)
  from Suc.prems(1) obtain k where k: "mle_step hat ref s m = Inr k"
    and "m' = k \<or> mle_loop n hat ref s k = Inr m'"
    by (auto split: if_splits)
  moreover have "positive5 k" by (rule mle_step_positive [OF k Suc.prems(3,4)])
  ultimately show ?case using Suc.IH Suc.prems(3,4) by blast
qed

lemma mle_t_value_positive:
  assumes "mle_t_value hat ref s = Inr m" and "is_pdf (pdf_probs hat)"
    and "length (pdf_values hat) = 5"
  shows "positive5 m"
  using mle_loop_positive [OF assms(1) [unfolded mle_t_value_def]] assms(2,3)
  by (simp add: positive5_def)

lemma mle_step_error: "mle_step hat ref s m = Inl e \<Longrightarrow> e = DomainError"
  by (auto simp: mle_step_def Let_def bindE_eq_Inl_iff dest: secular_error)

lemma mle_loop_error: "mle_loop n hat ref s m = Inl e \<Longrightarrow> e = DomainError"
  by (induction n arbitrary: m) (auto simp: bindE_eq_Inl_iff dest: mle_step_error split: if_splits)

lemma llr_normalized_error: "llr_normalized nelo0 nelo1 r = Inl e \<Longrightarrow> e = DomainError"
  by (auto simp: llr_normalized_def Let_def mle_t_value_def bindE_eq_Inl_iff
        dest: mle_loop_error split: if_splits)

text \<open>
  What the root means: the new estimate's total is \<open>1 - x * f x\<close>, and its weighted
  coefficients sum to \<open>f x\<close>.
\<close>

lemma mle_total:
  assumes "length p = length a" and "\<forall>r \<in> set a. 0 < 1 + x * r"
  shows "sum_list (map2 (\<lambda>p a. p / (1 + x * a)) p a) = sum_list p - x * secular_fun a p x"
  using assms
proof (induction p a rule: list_induct2)
  case Nil
  then show ?case by (simp add: secular_fun_def)
next
  case (Cons q p r a)
  have "q / (1 + x * r) = q - x * (q * r / (1 + x * r))"
    using Cons.prems by (auto simp: field_simps)
  then show ?case using Cons by (simp add: secular_fun_def algebra_simps)
qed

lemma mle_weighted:
  assumes "length p = length a"
  shows "sum_list (map2 (*) (map2 (\<lambda>p a. p / (1 + x * a)) p a) a) = secular_fun a p x"
  using assms by (induction p a rule: list_induct2) (auto simp: secular_fun_def)

text \<open>The weighted coefficients measure the distance from the constraint.\<close>

lemma coeffs_weighted_mean:
  assumes m: "is_pdf m" and vals: "values = [0, 1 / 4, 1 / 2, 3 / 4, 1]"
    and mom: "moments values m = (mu, var)"
  shows "sum_list (map2 (*) m (mle_coeffs values ref s m)) = mu - ref - s * sqrt var"
proof -
  obtain a b c d e where ps: "m = [a, b, c, d, e]" and sum: "a + b + c + d + e = 1"
    using m by (rule is_pdf_cases)
  have pos: "0 < var" using moments_bounds [OF m] mom vals by blast
  have mu: "mu = b / 4 + c / 2 + d * 3 / 4 + e"
    and var: "var = a * (mu * mu) + b * ((1 / 4 - mu) * (1 / 4 - mu))
      + c * ((1 / 2 - mu) * (1 / 2 - mu)) + d * ((3 / 4 - mu) * (3 / 4 - mu))
      + e * ((1 - mu) * (1 - mu))"
    using mom by (auto simp: vals ps moments_expand Let_def mult.assoc)
  define k where "k = s * sqrt var / 2"
  define q where "q = (\<lambda>v. (mu - v) / sqrt var * ((mu - v) / sqrt var))"
  have q: "q v = (v - mu) * (v - mu) / var" for v
    using pos by (simp add: q_def field_simps)
  have "a * q 0 + b * q (1 / 4) + c * q (1 / 2) + d * q (3 / 4) + e * q 1 = var / var"
    unfolding q times_divide_eq_right add_divide_distrib [symmetric]
    by (rule arg_cong [where f = "\<lambda>u. u / var"]) (simp add: var)
  then have one: "a * q 0 + b * q (1 / 4) + c * q (1 / 2) + d * q (3 / 4) + e * q 1 = 1"
    using pos by simp
  have coeff: "mle_coeffs values ref s m = map (\<lambda>v. v - ref - k * (1 + q v)) values"
    by (simp add: mle_coeffs_def mom k_def q_def Let_def)
  have "sum_list (map2 (*) m (mle_coeffs values ref s m)) =
      (b / 4 + c / 2 + d * 3 / 4 + e) - ref * (a + b + c + d + e)
      - k * ((a + b + c + d + e) + (a * q 0 + b * q (1 / 4) + c * q (1 / 2) + d * q (3 / 4) + e * q 1))"
    unfolding coeff unfolding ps vals by (simp add: algebra_simps)
  then show ?thesis unfolding one sum mu [symmetric] by (simp add: k_def)
qed

section \<open>Bounds and decision\<close>

lemma sprt_bounds_signs:
  assumes "0 < alpha" "0 < beta" "alpha + beta < 1"
  shows "bound_lower (sprt_bounds alpha beta) < 0 \<and> 0 < bound_upper (sprt_bounds alpha beta)"
proof -
  have "beta / (1 - alpha) < 1" "1 < (1 - beta) / alpha" "0 < beta / (1 - alpha)"
    using assms by (simp_all add: field_simps)
  then show ?thesis by (simp add: sprt_bounds_def)
qed

lemma sprt_bounds_inverted:
  assumes "alpha < 1" "beta < 1" "0 < alpha" "0 < beta" "1 \<le> alpha + beta"
  shows "bound_upper (sprt_bounds alpha beta) \<le> 0 \<and> 0 \<le> bound_lower (sprt_bounds alpha beta)"
proof -
  have "1 \<le> beta / (1 - alpha)" "(1 - beta) / alpha \<le> 1" "0 < (1 - beta) / alpha"
    using assms by (simp_all add: field_simps)
  then show ?thesis by (simp add: sprt_bounds_def)
qed

text \<open>\<^verbatim>\<open>llr_normalized\<close> of equal hypotheses.\<close>

lemma llr_same_hypotheses: "llr_normalized n n r = Inr l \<Longrightarrow> l = 0"
proof -
  have zero: "sum_list (map2 (\<lambda>p (q1, q0). p * (ln q1 - ln q0)) ps (zip m m)) = 0"
    for ps m :: "real list"
    by (induction ps m rule: list_induct2') auto
  assume "llr_normalized n n r = Inr l"
  then show "l = 0" by (auto simp: llr_normalized_def Let_def zero split: if_splits)
qed

text \<open>
  The first iteration starts from the uniform distribution, whose mean is 1/2 and whose
  variance is 1/8: its coefficients in closed form.
\<close>

lemma uniform_moments: "moments [0, 1 / 4, 1 / 2, 3 / 4, 1] (replicate 5 (1 / 5)) = (1 / 2, 1 / 8)"
  by (simp add: numeral_eq_Suc moments_expand [simplified numeral_eq_Suc] Let_def)

lemma uniform_coeffs:
  "mle_coeffs [0, 1 / 4, 1 / 2, 3 / 4, 1] (1 / 2) s (replicate 5 (1 / 5)) =
     (let k = s * sqrt (1 / 8)
      in [- 1 / 2 - k * 3 / 2, - 1 / 4 - k * 3 / 4, - k / 2, 1 / 4 - k * 3 / 4, 1 / 2 - k * 3 / 2])"
  unfolding mle_coeffs_def uniform_moments by (simp add: Let_def field_simps)

lemma mle_large_t_value:
  assumes "pdf_values hat = [0, 1 / 4, 1 / 2, 3 / 4, 1]" and "1 / 3 \<le> s * sqrt (1 / 8)"
  shows "mle_t_value hat (1 / 2) s = Inl DomainError"
proof -
  define k where "k = s * sqrt (1 / 8)"
  let ?a = "[- 1 / 2 - k * 3 / 2, - 1 / 4 - k * 3 / 4, - k / 2, 1 / 4 - k * 3 / 4, 1 / 2 - k * 3 / 2]"
  have k: "1 / 3 \<le> k" using assms(2) by (simp add: k_def)
  have neg: "x \<le> 0" if "x \<in> set ?a" for x using that k by auto
  have "Min (set ?a) \<in> set ?a" "Max (set ?a) \<in> set ?a" by (intro Min_in Max_in; simp)+
  then have "0 \<le> Min (set ?a) * Max (set ?a)"
    by (intro mult_nonpos_nonpos neg)
  then have "secular ?a (pdf_probs hat) = Inl DomainError"
    by (simp add: secular_def Let_def)
  moreover have "mle_coeffs (pdf_values hat) (1 / 2) s (replicate 5 (1 / 5)) = ?a"
    unfolding assms(1) uniform_coeffs by (simp add: Let_def k_def)
  ultimately have "mle_step hat (1 / 2) s (replicate 5 (1 / 5)) = Inl DomainError"
    by (simp add: mle_step_def Let_def)
  then show ?thesis
    by (simp add: mle_t_value_def numeral_eq_Suc)
qed

section \<open>Properties\<close>

text \<open>
  Accuracy of the solver. When the secular function has a root \<open>r\<close> inside the bracket the
  bisection starts from, \<^verbatim>\<open>secular\<close> returns a number within the bracket's width
  over \<open>2 ^ 201\<close> of it.
\<close>

theorem secular_accuracy:
  assumes "secular_ok (a, p)" and "secular_lo a \<le> r" "r \<le> secular_hi a" and "secular_fun a p r = 0"
  shows "\<exists>x. secular a p = Inr x \<and> \<bar>x - r\<bar> \<le> (secular_hi a - secular_lo a) / 2 ^ 201"
proof -
  obtain l h where lh: "bisect 200 (\<lambda>x. 0 < secular_fun a p x) (secular_lo a) (secular_hi a) = (l, h)"
    by fastforce
  have "straddles a" using assms(1) by (simp add: secular_ok_def)
  then have "secular a p = Inr (1 / 2 * (l + h))"
    using lh by (simp add: secular_def straddles_def Let_def)
  moreover have "\<bar>1 / 2 * (l + h) - r\<bar> \<le> (secular_hi a - secular_lo a) / 2 ^ Suc 200"
    using secular_search.bisect_midpoint_error
      [OF assms(1) secular_root_switches [OF assms], unfolded split_conv, OF lh] .
  then have "\<bar>1 / 2 * (l + h) - r\<bar> \<le> (secular_hi a - secular_lo a) / 2 ^ 201"
    by (simp only: Suc_numeral semiring_norm)
  ultimately show ?thesis by blast
qed

theorem secular_accuracy_witness:
  "\<exists>x. secular [- 1, 1] [1 / 2, 1 / 2] = Inr x \<and>
       \<bar>x - 0\<bar> \<le> (secular_hi [- 1, 1] - secular_lo [- 1, 1]) / 2 ^ 201"
  by (rule secular_accuracy)
    (simp_all add: secular_ok_def straddles_def secular_lo_def secular_hi_def secular_fun_def)

text \<open>
  The maximum likelihood distribution of well-formed frequencies consists of five positive
  numbers, so the logarithms of the likelihood ratio are defined; the only other outcome is the
  domain error of the solver.
\<close>

theorem mle_positive:
  assumes "penta_wf r"
  shows "case mle_t_value (to_pdf r) ref s of
           Inl e \<Rightarrow> e = DomainError
         | Inr m \<Rightarrow> length m = 5 \<and> list_all (\<lambda>q. 0 < q) m"
  using mle_t_value_positive [of "to_pdf r" ref s] is_pdf_to_pdf [OF assms]
    mle_loop_error [of 10 "to_pdf r" ref s "replicate 5 (1 / 5)"]
  by (auto simp: positive5_def list_all_iff mle_t_value_def split: sum.split)

theorem mle_positive_witness:
  "case mle_t_value (to_pdf \<lparr>counts = [1, 2, 3, 2, 1]\<rparr>) (1 / 2) 0 of
     Inl e \<Rightarrow> e = DomainError
   | Inr m \<Rightarrow> length m = 5 \<and> list_all (\<lambda>q. 0 < q) m"
  by (rule mle_positive) (simp add: penta_wf_def)

text \<open>
  A fixed point of the iteration is what the iteration looks for. If the current estimate
  is reproduced from a root of the secular equation, it is a probability distribution over the
  five scores whose t-value with respect to \<open>ref\<close> is \<open>s\<close>.
\<close>

theorem mle_fixed_point:
  assumes "penta_wf r" and "length m = 5"
    and "\<forall>q \<in> set (mle_coeffs (pdf_values (to_pdf r)) ref s m). 0 < 1 + x * q"
    and "secular_fun (mle_coeffs (pdf_values (to_pdf r)) ref s m) (pdf_probs (to_pdf r)) x = 0"
    and "m = map2 (\<lambda>p a. p / (1 + x * a)) (pdf_probs (to_pdf r))
               (mle_coeffs (pdf_values (to_pdf r)) ref s m)"
  shows "is_pdf m \<and> (case moments (pdf_values (to_pdf r)) m of (mu, var) \<Rightarrow> mu - ref = s * sqrt var)"
proof -
  let ?v = "pdf_values (to_pdf r)" and ?p = "pdf_probs (to_pdf r)"
  let ?a = "mle_coeffs ?v ref s m"
  have pdf: "is_pdf ?p" by (rule is_pdf_to_pdf [OF assms(1)])
  then have len: "length ?p = length ?a" by (simp add: is_pdf_def)
  have "sum_list m = sum_list ?p - x * secular_fun ?a ?p x"
    using mle_total [OF len assms(3)] assms(5) by metis
  then have total: "sum_list m = 1"
    using pdf assms(4) by (simp add: is_pdf_def)
  have "\<forall>q \<in> set (map2 (\<lambda>p a. p / (1 + x * a)) ?p ?a). 0 < q"
  proof (rule map2_pos)
    fix q a
    assume "(q, a) \<in> set (zip ?p ?a)"
    then have "q \<in> set ?p" "a \<in> set ?a" by (auto dest: set_zip_leftD set_zip_rightD)
    then show "0 < q / (1 + x * a)" using pdf assms(3) by (auto simp: is_pdf_def)
  qed
  then have "\<forall>q \<in> set m. 0 < q" using assms(5) by metis
  then have m: "is_pdf m" using total assms(2) by (simp add: is_pdf_def)
  obtain mu var where mom: "moments ?v m = (mu, var)" by fastforce
  have "sum_list (map2 (*) m ?a) = secular_fun ?a ?p x"
    using mle_weighted [OF len, of x] assms(5) by metis
  then have "mu - ref - s * sqrt var = 0"
    using coeffs_weighted_mean [OF m pdf_values_to_pdf mom, of ref s] assms(4) by simp
  then show ?thesis using m mom by simp
qed

lemma uniform_pdf: "pdf_probs (to_pdf \<lparr>counts = [1, 1, 1, 1, 1]\<rparr>) = replicate 5 (1 / 5)"
  by (simp add: to_pdf_def Let_def regularise_def numeral_eq_Suc)

lemma uniform_coeffs_even:
  "mle_coeffs [0, 1 / 4, 1 / 2, 3 / 4, 1] (1 / 2) 0 (replicate 5 (1 / 5)) = [- 1 / 2, - 1 / 4, 0, 1 / 4, 1 / 2]"
  by (simp add: uniform_coeffs Let_def)

theorem mle_fixed_point_witness:
  "is_pdf (replicate 5 (1 / 5)) \<and>
   (case moments (pdf_values (to_pdf \<lparr>counts = [1, 1, 1, 1, 1]\<rparr>)) (replicate 5 (1 / 5)) of
      (mu, var) \<Rightarrow> mu - 1 / 2 = 0 * sqrt var)"
proof (rule mle_fixed_point [where x = 0], unfold pdf_values_to_pdf uniform_pdf uniform_coeffs_even)
  show "penta_wf \<lparr>counts = [1, 1, 1, 1, 1]\<rparr>" by (simp add: penta_wf_def)
qed (simp_all add: secular_fun_def numeral_eq_Suc)

text \<open>
  exchanging the two hypotheses negates the log likelihood ratio, and fails exactly when
  the original order fails.
\<close>

theorem llr_swap:
  "llr_normalized nelo1 nelo0 r = map_sum id uminus (llr_normalized nelo0 nelo1 r)"
proof -
  let ?m = "\<lambda>n. mle_t_value (to_pdf r) (1 / 2) (n / kNeloDividedByNt * sqrt 2)"
  have neg: "sum_list (map2 (\<lambda>p (q1, q0). p * (ln q1 - ln q0)) ps (zip a b)) =
      - sum_list (map2 (\<lambda>p (q1, q0). p * (ln q1 - ln q0)) ps (zip b a))" for ps a b :: "real list"
    by (induction ps a arbitrary: b rule: list_induct2') (auto simp: zip_Cons1 field_simps split: list.split)
  have err: "?m n = Inl e \<Longrightarrow> e = DomainError" for n e
    unfolding mle_t_value_def by (rule mle_loop_error)
  show ?thesis
  proof (cases "penta_pairs r = 0")
    case True
    then show ?thesis by (simp add: llr_normalized_def)
  next
    case False
    then have unf: "llr_normalized a b r = bindE (?m a) (\<lambda>p0. bindE (?m b) (\<lambda>p1.
        Inr (pdf_count (to_pdf r) * sum_list (map2 (\<lambda>p (q1, q0). p * (ln q1 - ln q0))
          (pdf_probs (to_pdf r)) (zip p1 p0)))))" for a b
      by (simp only: llr_normalized_def Let_def if_False)
    show ?thesis
    proof (cases "?m nelo0")
      case Inl0: (Inl e)
      show ?thesis
      proof (cases "?m nelo1")
        case (Inl e1)
        then have "e1 = e" using err [OF Inl0] err [OF Inl] by simp
        then show ?thesis by (simp only: unf Inl0 Inl bindE.simps map_sum.simps id_apply)
      next
        case (Inr m1)
        then show ?thesis by (simp only: unf Inl0 bindE.simps map_sum.simps id_apply)
      qed
    next
      case m0: (Inr m0)
      show ?thesis
      proof (cases "?m nelo1")
        case (Inl e)
        then show ?thesis by (simp only: unf m0 bindE.simps map_sum.simps id_apply)
      next
        case (Inr m1)
        then show ?thesis
          by (simp only: unf m0 neg [of _ m0 m1] bindE.simps map_sum.simps mult_minus_right)
      qed
    qed
  qed
qed

text \<open>
  C37: with error rates whose sum is below one, the decision is Wald's test: \<open>H1\<close> is accepted
  exactly from the likelihood ratio \<open>(1 - beta) / alpha\<close> on, \<open>H0\<close> exactly up to
  \<open>beta / (1 - alpha)\<close>, and a test that has seen nothing continues.
\<close>

theorem sprt_decide_wald:
  assumes "0 < alpha" "0 < beta" "alpha + beta < 1"
  shows "(sprt_decide llr (sprt_bounds alpha beta) = AcceptH1 \<longleftrightarrow> (1 - beta) / alpha \<le> exp llr) \<and>
         (sprt_decide llr (sprt_bounds alpha beta) = AcceptH0 \<longleftrightarrow> exp llr \<le> beta / (1 - alpha)) \<and>
         sprt_decide 0 (sprt_bounds alpha beta) = Continue"
proof -
  have up: "ln ((1 - beta) / alpha) \<le> llr \<longleftrightarrow> (1 - beta) / alpha \<le> exp llr"
    using assms ln_le_cancel_iff [of "(1 - beta) / alpha" "exp llr"] by simp
  have lo: "llr \<le> ln (beta / (1 - alpha)) \<longleftrightarrow> exp llr \<le> beta / (1 - alpha)"
    using assms ln_le_cancel_iff [of "exp llr" "beta / (1 - alpha)"] by simp
  have "ln (beta / (1 - alpha)) < 0" "0 < ln ((1 - beta) / alpha)"
    using sprt_bounds_signs [OF assms] by (simp_all add: sprt_bounds_def)
  then show ?thesis unfolding up [symmetric] lo [symmetric]
    by (auto simp: sprt_decide_def sprt_bounds_def)
qed

theorem sprt_decide_wald_witness:
  "(sprt_decide 1 (sprt_bounds (1 / 20) (1 / 20)) = AcceptH1 \<longleftrightarrow> (1 - 1 / 20) / (1 / 20) \<le> exp (1 :: real)) \<and>
   (sprt_decide 1 (sprt_bounds (1 / 20) (1 / 20)) = AcceptH0 \<longleftrightarrow> exp 1 \<le> (1 / 20) / (1 - 1 / 20 :: real)) \<and>
   sprt_decide 0 (sprt_bounds (1 / 20) (1 / 20)) = Continue"
  by (rule sprt_decide_wald) simp_all

text \<open>
  with error rates whose sum reaches one the bounds are inverted and every value of the
  likelihood ratio stops the test, a test without information included.
\<close>

theorem sprt_decide_inverted:
  assumes "0 < alpha" "alpha < 1" "0 < beta" "beta < 1" "1 \<le> alpha + beta"
  shows "sprt_decide llr (sprt_bounds alpha beta) \<noteq> Continue"
  using sprt_bounds_inverted [OF assms(2,4,1,3,5)] by (auto simp: sprt_decide_def)

theorem sprt_decide_inverted_witness:
  "sprt_decide 0 (sprt_bounds (1 / 2) (1 / 2)) \<noteq> Continue"
  by (rule sprt_decide_inverted) simp_all

text \<open>
  C38: hypotheses beyond the scale. An upper hypothesis of two thirds of
  \<^verbatim>\<open>kNeloDividedByNt\<close> (about 231.6 normalised Elo) or more has no solution in the first
  iteration, whatever the results: the ratio cannot be computed once there is a pair.
\<close>

theorem llr_out_of_scale:
  assumes "penta_pairs r \<noteq> 0" and "2 * kNeloDividedByNt / 3 \<le> nelo1"
  shows "llr_normalized nelo0 nelo1 r = Inl DomainError"
proof -
  let ?s = "\<lambda>n. n / kNeloDividedByNt * sqrt 2"
  have sq: "sqrt 2 * sqrt (1 / 8) = (1 / 2 :: real)"
  proof -
    have "sqrt 2 * sqrt (1 / 8) = sqrt (2 * (1 / 8 :: real))" by (rule real_sqrt_mult [symmetric])
    also have "\<dots> = 1 / 2" by (rule real_sqrt_unique) (simp_all add: power2_eq_square)
    finally show ?thesis .
  qed
  have "?s nelo1 * sqrt (1 / 8) = nelo1 / kNeloDividedByNt * (sqrt 2 * sqrt (1 / 8))"
    by (simp only: mult.assoc)
  then have eq: "?s nelo1 * sqrt (1 / 8) = nelo1 / kNeloDividedByNt / 2"
    by (simp add: sq)
  have "1 / 3 \<le> ?s nelo1 * sqrt (1 / 8)"
    unfolding eq using assms(2) by (simp add: kNeloDividedByNt_def field_simps)
  then have "mle_t_value (to_pdf r) (1 / 2) (?s nelo1) = Inl DomainError"
    by (rule mle_large_t_value [OF pdf_values_to_pdf])
  moreover have "mle_t_value (to_pdf r) (1 / 2) (?s nelo0) = Inl e \<Longrightarrow> e = DomainError" for e
    unfolding mle_t_value_def by (rule mle_loop_error)
  ultimately show ?thesis
    by (cases "mle_t_value (to_pdf r) (1 / 2) (?s nelo0)")
      (simp_all add: llr_normalized_def Let_def assms(1))
qed

theorem llr_out_of_scale_witness:
  "llr_normalized 0 240 \<lparr>counts = [0, 0, 1, 0, 0]\<rparr> = Inl DomainError"
  by (rule llr_out_of_scale) (simp_all add: penta_pairs_def kNeloDividedByNt_def)

end
