(* ===== verification/Elo.thy ===== *)
theory Elo
  imports Gsprt
begin

text \<open>
  common/elo.hpp and common/elo.cpp: logistic and normalised Elo, the normal distribution
  function and its inverse by bisection, and the estimate with its 95% interval. The C
  library's \<^verbatim>\<open>erfc\<close> is written out as its power series.
\<close>

section \<open>The error function\<close>

definition erf_coeff :: "nat \<Rightarrow> real" where
  "erf_coeff n =
     (if even n then (- 1) ^ (n div 2) / (fact (n div 2) * real (Suc n)) else 0)"

definition std_erf :: "real \<Rightarrow> real" where
  "std_erf x = 2 / sqrt pi * (\<Sum>n. erf_coeff n * x ^ Suc n)"

definition std_erfc :: "real \<Rightarrow> real" where
  "std_erfc x = 1 - std_erf x"

lemma erf_deriv_sums: "(\<lambda>n. erf_coeff n * real (Suc n) * x ^ n) sums exp (- (x * x))"
proof -
  have "(\<lambda>n. (- (x * x)) ^ n /\<^sub>R fact n) sums exp (- (x * x))"
    by (rule exp_converges)
  from sums_if [OF sums_zero this]
  have "(\<lambda>n. if even n then (- (x * x)) ^ (n div 2) /\<^sub>R fact (n div 2) else 0) sums exp (- (x * x))"
    by simp
  moreover have "(if even n then (- (x * x)) ^ (n div 2) /\<^sub>R fact (n div 2) else 0)
      = erf_coeff n * real (Suc n) * x ^ n" for n
  proof (cases "even n")
    case True
    then obtain k where n: "n = 2 * k" by (rule evenE)
    have "(- (x * x)) ^ k = (- 1) ^ k * (x ^ (2 * k))"
      by (metis mult_minus1 power2_eq_square power_mult power_mult_distrib)
    then show ?thesis by (simp add: n erf_coeff_def divide_simps del: of_nat_Suc)
  next
    case False
    then show ?thesis by (simp add: erf_coeff_def)
  qed
  ultimately show ?thesis by simp
qed

lemma std_erf_deriv: "DERIV std_erf x :> 2 / sqrt pi * exp (- (x * x))"
proof -
  have "DERIV (\<lambda>x. \<Sum>n. erf_coeff n * x ^ Suc n) x :> (\<Sum>n. erf_coeff n * real (Suc n) * x ^ n)"
    by (rule DERIV_power_series' [where R = "\<bar>x\<bar> + 1"])
       (use erf_deriv_sums in \<open>auto simp: sums_iff abs_if split: if_splits\<close>)
  then have "DERIV (\<lambda>x. \<Sum>n. erf_coeff n * x ^ Suc n) x :> exp (- (x * x))"
    using erf_deriv_sums [of x] by (simp add: sums_iff)
  then show ?thesis
    unfolding std_erf_def [abs_def] by (rule DERIV_cmult)
qed

lemma std_erf_strict_mono: "x < y \<Longrightarrow> std_erf x < std_erf y"
proof -
  have "0 < 2 / sqrt pi * exp (- (z * z))" for z :: real by simp
  then have "\<exists>d. DERIV std_erf z :> d \<and> 0 < d" for z using std_erf_deriv by blast
  moreover assume "x < y"
  ultimately show ?thesis by (intro DERIV_pos_imp_increasing [of x y std_erf]) auto
qed

lemma std_erf_0 [simp]: "std_erf 0 = 0"
  by (simp add: std_erf_def)

section \<open>The code\<close>

definition cpp_clamp :: "real \<Rightarrow> real \<Rightarrow> real \<Rightarrow> real" where
  "cpp_clamp x lo hi = (if x < lo then lo else if hi < x then hi else x)"

definition logistic_elo :: "real \<Rightarrow> real" where
  "logistic_elo score =
     (let score = cpp_clamp score (1 / 1000) (1 - 1 / 1000)
      in - 400 * log 10 (1 / score - 1))"

definition phi :: "real \<Rightarrow> real" where
  "phi x = 1 / 2 * std_erfc (- x / sqrt 2)"

definition phi_inv :: "real \<Rightarrow> real result" where
  "phi_inv p =
     (if \<not> (0 < p \<and> p < 1) then Inl DomainError
      else let (lo, hi) = bisect 200 (\<lambda>mid. phi mid < p) (- 40) 40
           in Inr (1 / 2 * (lo + hi)))"

record elo_est =
  est_elo :: real
  est_ci95_half :: real
  est_ci_low :: real
  est_ci_high :: real
  est_los :: real
  est_nelo :: real

definition elo_estimate :: "pentanomial \<Rightarrow> elo_est result" where
  "elo_estimate results =
     (let pdf = to_pdf results;
          games = 2 * pdf_count pdf;
          mu = sum_list (map2 (\<lambda>p i. p * pdf_count pdf * (real i / 2)) (pdf_probs pdf) [0..<5]) / games;
          mu_pair = 2 * mu;
          var = sum_list (map2 (\<lambda>p i. let d = real i / 2 - mu_pair in p * pdf_count pdf * d * d)
                  (pdf_probs pdf) [0..<5]) / games;
          stderr_mu = sqrt var / sqrt games
      in bindE (phi_inv (25 / 1000)) (\<lambda>q_low.
         bindE (phi_inv (975 / 1000)) (\<lambda>q_high.
           let mu_min = mu + q_low * stderr_mu;
               mu_max = mu + q_high * stderr_mu;
               ci_low = logistic_elo mu_min;
               ci_high = logistic_elo mu_max;
               (pmu, pvar) = moments (pdf_values pdf) (pdf_probs pdf)
           in Inr \<lparr>est_elo = logistic_elo mu,
                   est_ci95_half = (ci_high - ci_low) / 2,
                   est_ci_low = ci_low,
                   est_ci_high = ci_high,
                   est_los = phi ((mu - 1 / 2) / stderr_mu),
                   est_nelo = (pmu - 1 / 2) / sqrt (2 * pvar) * kNeloDividedByNt\<rparr>)))"

section \<open>Monotonicity\<close>

lemma phi_strict_mono: "x < y \<Longrightarrow> phi x < phi y"
proof -
  assume "x < y"
  then have "- y / sqrt 2 < - x / sqrt 2" by (simp add: divide_strict_right_mono)
  then show ?thesis using std_erf_strict_mono by (simp add: phi_def std_erfc_def)
qed

lemma phi_mono: "x \<le> y \<Longrightarrow> phi x \<le> phi y"
  using phi_strict_mono by (auto simp: le_less)

lemma phi_0 [simp]: "phi 0 = 1 / 2"
  by (simp add: phi_def std_erfc_def)

interpretation phi_search: monotone_search "\<lambda>p x. phi x < p" "\<lambda>_. - 40" "\<lambda>_. 40" "\<lambda>_. True"
  by unfold_locales (auto intro: le_less_trans phi_mono)

lemma phi_switches: "phi r = p \<Longrightarrow> - 40 \<le> r \<Longrightarrow> r \<le> 40 \<Longrightarrow> phi_search.switches_at p r"
  unfolding phi_search.switches_at_def by (auto dest: phi_strict_mono)

lemma phi_inv_total: "0 < p \<Longrightarrow> p < 1 \<Longrightarrow> \<exists>x. phi_inv p = Inr x"
proof -
  obtain l h where "bisect 200 (\<lambda>mid. phi mid < p) (- 40) 40 = (l, h)" by fastforce
  moreover assume "0 < p" "p < 1"
  ultimately have "phi_inv p = Inr (1 / 2 * (l + h))" by (simp add: phi_inv_def)
  then show ?thesis by blast
qed

lemma phi_inv_first_half:
  "bisect 200 (\<lambda>mid. phi mid < p) (- 40) 40 =
     (if 1 / 2 < p then bisect 199 (\<lambda>mid. phi mid < p) 0 40
      else bisect 199 (\<lambda>mid. phi mid < p) (- 40) 0)"
proof -
  have "bisect 200 (\<lambda>mid. phi mid < p) (- 40) 40 = bisect (Suc 199) (\<lambda>mid. phi mid < p) (- 40) 40"
    by (rule arg_cong [where f = "\<lambda>n. bisect n _ _ _"]) simp
  also have "\<dots> = (if 1 / 2 < p then bisect 199 (\<lambda>mid. phi mid < p) 0 40
      else bisect 199 (\<lambda>mid. phi mid < p) (- 40) 0)"
    by (subst bisect_step) simp_all
  finally show ?thesis .
qed

text \<open>Zero is the first midpoint, so the quantile's sign is that of \<open>p - 1/2\<close>.\<close>

lemma phi_inv_below: "phi_inv p = Inr x \<Longrightarrow> p \<le> 1 / 2 \<Longrightarrow> x \<le> 0"
proof -
  assume a: "phi_inv p = Inr x" "p \<le> 1 / 2"
  obtain l h where lh: "bisect 199 (\<lambda>mid. phi mid < p) (- 40) 0 = (l, h)" by fastforce
  have "x = 1 / 2 * (l + h)"
    using a lh by (simp add: phi_inv_def phi_inv_first_half split: if_splits)
  moreover have "l \<le> h \<and> h \<le> 0" using bisect_within [OF _ lh] by simp
  ultimately show "x \<le> 0" by simp
qed

lemma phi_inv_above: "phi_inv p = Inr x \<Longrightarrow> 1 / 2 < p \<Longrightarrow> 0 \<le> x"
proof -
  assume a: "phi_inv p = Inr x" "1 / 2 < p"
  obtain l h where lh: "bisect 199 (\<lambda>mid. phi mid < p) 0 40 = (l, h)" by fastforce
  have "x = 1 / 2 * (l + h)"
    using a lh by (simp add: phi_inv_def phi_inv_first_half split: if_splits)
  moreover have "0 \<le> l \<and> l \<le> h" using bisect_within [OF _ lh] by simp
  ultimately show "0 \<le> x" by simp
qed

lemma clamp_mono: "lo \<le> hi \<Longrightarrow> x \<le> y \<Longrightarrow> cpp_clamp x lo hi \<le> cpp_clamp y lo hi"
  by (auto simp: cpp_clamp_def)

lemma clamp_range: "lo \<le> hi \<Longrightarrow> lo \<le> cpp_clamp x lo hi \<and> cpp_clamp x lo hi \<le> hi"
  by (auto simp: cpp_clamp_def)

lemma logistic_elo_mono: "x \<le> y \<Longrightarrow> logistic_elo x \<le> logistic_elo y"
proof -
  assume xy: "x \<le> y"
  let ?c = "\<lambda>z. cpp_clamp z (1 / 1000) (1 - 1 / 1000)"
  have c: "?c x \<le> ?c y" "1 / 1000 \<le> ?c x" "?c y \<le> 1 - 1 / 1000"
    using clamp_mono [OF _ xy, of "1 / 1000" "1 - 1 / 1000"]
      clamp_range [of "1 / 1000" "1 - 1 / 1000" x] clamp_range [of "1 / 1000" "1 - 1 / 1000" y]
    by simp_all
  then have "1 / ?c y - 1 \<le> 1 / ?c x - 1" "0 < 1 / ?c y - 1"
    by (auto simp: field_simps)
  then have "log 10 (1 / ?c y - 1) \<le> log 10 (1 / ?c x - 1)" by simp
  then show ?thesis by (simp add: logistic_elo_def Let_def)
qed

lemma logistic_elo_reflect: "logistic_elo (1 - x) = - logistic_elo x"
proof -
  let ?c = "\<lambda>z. cpp_clamp z (1 / 1000) (1 - 1 / 1000)"
  have c: "?c (1 - x) = 1 - ?c x" by (auto simp: cpp_clamp_def)
  have "1 / 1000 \<le> ?c x" "?c x \<le> 1 - 1 / 1000"
    using clamp_range [of "1 / 1000" "1 - 1 / 1000" x] by simp_all
  then have "1 / (1 - ?c x) - 1 = inverse (1 / ?c x - 1)" "0 < 1 / ?c x - 1"
    by (auto simp: field_simps)
  then have "log 10 (1 / (1 - ?c x) - 1) = - log 10 (1 / ?c x - 1)"
    by (simp add: log_inverse)
  then show ?thesis unfolding logistic_elo_def Let_def c by simp
qed

lemma logistic_elo_half [simp]: "logistic_elo (1 / 2) = 0"
  using logistic_elo_reflect [of "1 / 2"] by simp

section \<open>The estimate\<close>

text \<open>The mean per game is the distribution's mean, the variance per game twice its variance.\<close>

lemma elo_estimate_total: "\<exists>e. elo_estimate r = Inr e"
proof -
  obtain a b where "phi_inv (25 / 1000) = Inr a" "phi_inv (975 / 1000) = Inr b"
    using phi_inv_total [of "25 / 1000"] phi_inv_total [of "975 / 1000"] by auto
  then show ?thesis by (simp add: elo_estimate_def Let_def split: prod.split)
qed

lemma estimate_mean:
  assumes "is_pdf ps" and "n \<noteq> 0"
  shows "sum_list (map2 (\<lambda>p i. p * n * (real i / 2)) ps [0..<5]) / (2 * n)
         = fst (moments [0, 1 / 4, 1 / 2, 3 / 4, 1] ps)"
  using assms(1) by (rule is_pdf_cases)
    (use assms(2) in \<open>simp add: moments_expand upt_conv_Cons numeral_eq_Suc field_simps\<close>)

section \<open>Properties\<close>

text \<open>
  Accuracy of the quantile. For a probability that the normal distribution reaches between
  -40 and 40, \<^verbatim>\<open>phi_inv\<close> returns that point up to \<open>80 / 2 ^ 201\<close>.
\<close>

theorem phi_inv_accuracy:
  assumes "0 < p" "p < 1" "phi r = p" "- 40 \<le> r" "r \<le> 40"
  shows "\<exists>x. phi_inv p = Inr x \<and> \<bar>x - r\<bar> \<le> 80 / 2 ^ 201"
proof -
  obtain l h where lh: "bisect 200 (\<lambda>mid. phi mid < p) (- 40) 40 = (l, h)" by fastforce
  then have "phi_inv p = Inr (1 / 2 * (l + h))" using assms(1,2) by (simp add: phi_inv_def)
  moreover have "\<bar>1 / 2 * (l + h) - r\<bar> \<le> (40 - - 40) / 2 ^ Suc 200"
    by (rule phi_search.bisect_midpoint_error [OF TrueI phi_switches [OF assms(3-5)] lh])
  then have "\<bar>1 / 2 * (l + h) - r\<bar> \<le> (40 - - 40) / 2 ^ 201"
    by (simp only: Suc_numeral semiring_norm)
  ultimately show ?thesis by (intro exI [of _ "1 / 2 * (l + h)"] conjI) simp_all
qed

theorem phi_inv_accuracy_witness: "\<exists>x. phi_inv (1 / 2) = Inr x \<and> \<bar>x - 0\<bar> \<le> 80 / 2 ^ 201"
  by (rule phi_inv_accuracy) simp_all

text \<open>
  The logistic scale. The Elo difference is a monotone function of the score, odd around
  one half, and within the Elo of the clamped scores 0.001 and 0.999.
\<close>

theorem logistic_elo_shape:
  "logistic_elo (1 - x) = - logistic_elo x \<and> logistic_elo (min x y) \<le> logistic_elo (max x y) \<and>
   \<bar>logistic_elo x\<bar> \<le> logistic_elo (999 / 1000)"
proof -
  have c: "logistic_elo x = logistic_elo (cpp_clamp x (1 / 1000) (999 / 1000))" for x
    by (simp add: logistic_elo_def cpp_clamp_def Let_def)
  have r: "1 / 1000 \<le> cpp_clamp x (1 / 1000) (999 / 1000)" "cpp_clamp x (1 / 1000) (999 / 1000) \<le> 999 / 1000"
    using clamp_range [of "1 / 1000" "999 / 1000" x] by auto
  have "logistic_elo x \<le> logistic_elo (999 / 1000)"
    unfolding c [of x] by (rule logistic_elo_mono [OF r(2)])
  moreover have "logistic_elo (1 - 999 / 1000) \<le> logistic_elo x"
    unfolding c [of x] by (rule logistic_elo_mono) (use r(1) in simp)
  then have "- logistic_elo (999 / 1000) \<le> logistic_elo x"
    unfolding logistic_elo_reflect .
  ultimately show ?thesis
    using logistic_elo_reflect [of x] logistic_elo_mono [of "min x y" "max x y"] by auto
qed

text \<open>
  C39: the estimate of well-formed frequencies always exists, is the Elo of the mean score of
  the regularised distribution, and lies inside its confidence interval.
\<close>

theorem elo_estimate_interval:
  assumes "penta_wf r"
  shows "\<exists>e. elo_estimate r = Inr e \<and>
     est_elo e = logistic_elo (fst (moments (pdf_values (to_pdf r)) (pdf_probs (to_pdf r)))) \<and>
     est_ci_low e \<le> est_elo e \<and> est_elo e \<le> est_ci_high e \<and> 0 \<le> est_ci95_half e"
proof -
  let ?pdf = "to_pdf r"
  let ?n = "pdf_count ?pdf"
  let ?mu = "sum_list (map2 (\<lambda>p i. p * ?n * (real i / 2)) (pdf_probs ?pdf) [0..<5]) / (2 * ?n)"
  let ?var = "sum_list (map2 (\<lambda>p i. let d = real i / 2 - 2 * ?mu in p * ?n * d * d)
      (pdf_probs ?pdf) [0..<5]) / (2 * ?n)"
  let ?se = "sqrt ?var / sqrt (2 * ?n)"
  have pdf: "is_pdf (pdf_probs ?pdf)" and n: "0 < ?n"
    using assms by (simp_all add: is_pdf_to_pdf pdf_count_pos)
  have "0 \<le> p * ?n * d * d" if "p \<in> set (pdf_probs ?pdf)" for p d
    using that pdf n by (simp add: is_pdf_def mult.assoc [of "p * ?n"] less_imp_le mult_nonneg_nonneg)
  then have "0 \<le> ?var"
    using n by (intro divide_nonneg_pos sum_list_nonneg) (auto simp: Let_def dest!: set_zip_leftD)
  then have se: "0 \<le> ?se" using n by simp
  have mean: "?mu = fst (moments (pdf_values ?pdf) (pdf_probs ?pdf))"
    using estimate_mean [OF pdf, of ?n] n by simp
  obtain ql qh where q: "phi_inv (25 / 1000) = Inr ql" "phi_inv (975 / 1000) = Inr qh"
    using phi_inv_total [of "25 / 1000"] phi_inv_total [of "975 / 1000"] by auto
  have "ql \<le> 0" "0 \<le> qh" using phi_inv_below [OF q(1)] phi_inv_above [OF q(2)] by auto
  then have spread: "m + ql * s \<le> m \<and> m \<le> m + qh * s" if "0 \<le> s" for m s
    using that by (simp add: mult_nonpos_nonneg)
  have "?mu + ql * ?se \<le> ?mu" "?mu \<le> ?mu + qh * ?se"
    using spread [OF se] by blast+
  then have ci: "logistic_elo (?mu + ql * ?se) \<le> logistic_elo ?mu"
    "logistic_elo ?mu \<le> logistic_elo (?mu + qh * ?se)"
    by (auto intro: logistic_elo_mono)
  obtain pmu pvar where mom: "moments (pdf_values ?pdf) (pdf_probs ?pdf) = (pmu, pvar)" by fastforce
  define e where "e = \<lparr>est_elo = logistic_elo ?mu,
      est_ci95_half = (logistic_elo (?mu + qh * ?se) - logistic_elo (?mu + ql * ?se)) / 2,
      est_ci_low = logistic_elo (?mu + ql * ?se), est_ci_high = logistic_elo (?mu + qh * ?se),
      est_los = phi ((?mu - 1 / 2) / ?se),
      est_nelo = (pmu - 1 / 2) / sqrt (2 * pvar) * kNeloDividedByNt\<rparr>"
  have "elo_estimate r = Inr e"
    unfolding elo_estimate_def Let_def q bindE.simps mom split_conv e_def ..
  moreover have "est_elo e = logistic_elo (fst (moments (pdf_values ?pdf) (pdf_probs ?pdf)))"
    unfolding e_def mean [symmetric] by simp
  moreover have "est_ci_low e \<le> est_elo e" "est_elo e \<le> est_ci_high e" "0 \<le> est_ci95_half e"
    unfolding e_def using ci by simp_all
  ultimately show ?thesis by blast
qed

theorem elo_estimate_interval_witness:
  "\<exists>e. elo_estimate \<lparr>counts = [3, 10, 20, 12, 5]\<rparr> = Inr e \<and>
     est_elo e = logistic_elo (fst (moments (pdf_values (to_pdf \<lparr>counts = [3, 10, 20, 12, 5]\<rparr>))
       (pdf_probs (to_pdf \<lparr>counts = [3, 10, 20, 12, 5]\<rparr>)))) \<and>
     est_ci_low e \<le> est_elo e \<and> est_elo e \<le> est_ci_high e \<and> 0 \<le> est_ci95_half e"
  by (rule elo_estimate_interval) (simp add: penta_wf_def)

end
