(* ===== verification/CppStrings.thy ===== *)
theory CppStrings
  imports Prelude
begin

text \<open>
  What the program uses of \<^verbatim>\<open>std::string\<close>, \<^verbatim>\<open><cctype>\<close> and string
  streams. A string is the list of its bytes.
\<close>

section \<open>Character classes (C locale)\<close>

definition byte :: "char \<Rightarrow> nat" where
  "byte c = of_char c"

definition is_digit :: "char \<Rightarrow> bool" where
  "is_digit c \<longleftrightarrow> 48 \<le> byte c \<and> byte c \<le> 57"

definition is_alpha :: "char \<Rightarrow> bool" where
  "is_alpha c \<longleftrightarrow> 65 \<le> byte c \<and> byte c \<le> 90 \<or> 97 \<le> byte c \<and> byte c \<le> 122"

definition is_alnum :: "char \<Rightarrow> bool" where
  "is_alnum c \<longleftrightarrow> is_digit c \<or> is_alpha c"

text \<open>Space, tab, newline, vertical tab, form feed, carriage return.\<close>

definition is_space :: "char \<Rightarrow> bool" where
  "is_space c \<longleftrightarrow> byte c = 32 \<or> 9 \<le> byte c \<and> byte c \<le> 13"

definition newline :: char where "newline = CHR 0x0A"
definition carriage_return :: char where "carriage_return = CHR 0x0D"
definition tab :: char where "tab = CHR 0x09"

lemmas char_class_defs = byte_def is_digit_def is_alpha_def is_alnum_def is_space_def

lemma digit_not_space: "is_digit c \<Longrightarrow> \<not> is_space c"
  by (auto simp: is_digit_def is_space_def)

section \<open>Searching and cutting\<close>

text \<open>\<^verbatim>\<open>s.find(c)\<close>; \<^const>\<open>None\<close> is \<^verbatim>\<open>npos\<close>.\<close>

fun find_char :: "char \<Rightarrow> string \<Rightarrow> nat option" where
  "find_char c [] = None"
| "find_char c (x # xs) = (if x = c then Some 0 else map_option Suc (find_char c xs))"

text \<open>\<^verbatim>\<open>s.starts_with(p)\<close>, \<^verbatim>\<open>s.find(p)\<close> and whether \<open>p\<close> occurs.\<close>

definition starts_with :: "string \<Rightarrow> string \<Rightarrow> bool" where
  "starts_with s p \<longleftrightarrow> take (length p) s = p"

fun find_str :: "string \<Rightarrow> string \<Rightarrow> nat option" where
  "find_str p [] = (if p = [] then Some 0 else None)"
| "find_str p (x # xs) =
     (if starts_with (x # xs) p then Some 0 else map_option Suc (find_str p xs))"

definition contains_str :: "string \<Rightarrow> string \<Rightarrow> bool" where
  "contains_str p s \<longleftrightarrow> find_str p s \<noteq> None"

lemma starts_with_iff: "starts_with s p \<longleftrightarrow> (\<exists>t. s = p @ t)"
  unfolding starts_with_def by (metis append_eq_conv_conj append_take_drop_id)

lemma find_char_Some:
  "find_char c s = Some i \<longleftrightarrow> i < length s \<and> s ! i = c \<and> c \<notin> set (take i s)"
proof (induction s arbitrary: i)
  case Nil
  then show ?case by simp
next
  case (Cons x s)
  show ?case
  proof (cases i)
    case 0
    then show ?thesis by auto
  next
    case (Suc j)
    then show ?thesis using Cons.IH [of j] by auto
  qed
qed

lemma find_char_None: "find_char c s = None \<longleftrightarrow> c \<notin> set s"
  by (induction s) auto

lemma find_str_Some: "find_str p s = Some i \<Longrightarrow> i \<le> length s \<and> starts_with (drop i s) p"
  by (induction s arbitrary: i) (auto simp: starts_with_def split: if_splits)

lemma find_str_None: "find_str p s = None \<longleftrightarrow> (\<nexists>u v. s = u @ p @ v)"
proof (induction s)
  case Nil
  then show ?case by simp
next
  case (Cons x s)
  have "(\<exists>u v. x # s = u @ p @ v) \<longleftrightarrow> (\<exists>v. x # s = p @ v) \<or> (\<exists>u v. s = u @ p @ v)"
    by (metis Cons_eq_append_conv append_Cons append_Nil)
  then show ?case using Cons by (auto simp: starts_with_iff)
qed

lemma contains_str_iff: "contains_str p s \<longleftrightarrow> (\<exists>u v. s = u @ p @ v)"
  unfolding contains_str_def find_str_None by simp

text \<open>\<^verbatim>\<open>while (!s.empty() && P(s.back())) s.pop_back();\<close> .\<close>

definition strip_back :: "(char \<Rightarrow> bool) \<Rightarrow> string \<Rightarrow> string" where
  "strip_back P s = rev (dropWhile P (rev s))"

lemma strip_back_Nil [simp]: "strip_back P [] = []"
  by (simp add: strip_back_def)

lemma strip_back_last: "strip_back P s \<noteq> [] \<Longrightarrow> \<not> P (last (strip_back P s))"
  unfolding strip_back_def by (metis hd_dropWhile last_rev rev_is_Nil_conv)

lemma strip_back_prefix: "\<exists>t. s = strip_back P s @ t \<and> (\<forall>c \<in> set t. P c)"
proof -
  have "rev s = takeWhile P (rev s) @ dropWhile P (rev s)" by simp
  then have "s = rev (dropWhile P (rev s)) @ rev (takeWhile P (rev s))"
    by (metis rev_append rev_rev_ident)
  then show ?thesis unfolding strip_back_def by (metis set_rev set_takeWhileD)
qed

text \<open>\<^verbatim>\<open>trim\<close> of client/config.cpp: \<^verbatim>\<open>find_first_not_of\<close> and \<^verbatim>\<open>find_last_not_of\<close>.\<close>

definition trim_chars :: "(char \<Rightarrow> bool) \<Rightarrow> string \<Rightarrow> string" where
  "trim_chars P s = strip_back P (dropWhile P s)"

section \<open>Streams\<close>

text \<open>
  The pieces that \<^verbatim>\<open>while (std::getline(in, piece, d))\<close> delivers: no final empty piece
  after a trailing delimiter, none for an empty stream.
\<close>

function getlines :: "char \<Rightarrow> string \<Rightarrow> string list" where
  "getlines d [] = []"
| "getlines d (c # cs) =
     takeWhile (\<lambda>x. x \<noteq> d) (c # cs) # getlines d (drop 1 (dropWhile (\<lambda>x. x \<noteq> d) (c # cs)))"
  by pat_completeness auto
termination
proof (relation "measure (\<lambda>(d, s). length s)", simp)
  fix d :: char and c :: char and cs :: string
  show "((d, drop 1 (dropWhile (\<lambda>x. x \<noteq> d) (c # cs))), d, c # cs) \<in> measure (\<lambda>(d, s). length s)"
    using length_dropWhile_le [of "\<lambda>x. x \<noteq> d" "cs"] by (auto simp: less_Suc_eq_le)
qed

lemma getlines_no_delim: "l \<in> set (getlines d s) \<Longrightarrow> d \<notin> set l"
  by (induction d s rule: getlines.induct) (auto dest: set_takeWhileD)

text \<open>The words that repeated \<^verbatim>\<open>in >> word\<close> delivers.\<close>

function stream_words :: "string \<Rightarrow> string list" where
  "stream_words s =
     (case dropWhile is_space s of
        [] \<Rightarrow> []
      | c # cs \<Rightarrow> takeWhile (\<lambda>x. \<not> is_space x) (c # cs)
                  # stream_words (dropWhile (\<lambda>x. \<not> is_space x) (c # cs)))"
  by pat_completeness auto
termination
proof (relation "measure length", simp)
  fix s c cs
  assume s: "dropWhile is_space s = c # cs"
  then have "\<not> is_space c" by (metis hd_dropWhile list.distinct(1) list.sel(1))
  then have "length (dropWhile (\<lambda>x. \<not> is_space x) (c # cs)) \<le> length cs"
    using length_dropWhile_le [of "\<lambda>x. \<not> is_space x" cs] by simp
  moreover have "length (c # cs) \<le> length s"
    using length_dropWhile_le [of is_space s] s by simp
  ultimately show "(dropWhile (\<lambda>x. \<not> is_space x) (c # cs), s) \<in> measure length" by simp
qed

declare stream_words.simps [simp del]

definition is_word :: "string \<Rightarrow> bool" where
  "is_word w \<longleftrightarrow> w \<noteq> [] \<and> (\<forall>c \<in> set w. \<not> is_space c)"

lemma stream_words_are_words: "w \<in> set (stream_words s) \<Longrightarrow> is_word w"
proof (induction s rule: stream_words.induct)
  case (1 s)
  show ?case
  proof (cases "dropWhile is_space s")
    case Nil
    then have "stream_words s = []" by (simp only: stream_words.simps [of s] list.case)
    then show ?thesis using "1.prems" by simp
  next
    case (Cons c cs)
    have c: "\<not> is_space c" using Cons by (metis hd_dropWhile list.distinct(1) list.sel(1))
    have "w = takeWhile (\<lambda>x. \<not> is_space x) (c # cs)
        \<or> w \<in> set (stream_words (dropWhile (\<lambda>x. \<not> is_space x) (c # cs)))"
      using "1.prems" Cons by (simp add: stream_words.simps [of s])
    then show ?thesis
    proof
      assume "w = takeWhile (\<lambda>x. \<not> is_space x) (c # cs)"
      then show ?thesis using c by (auto simp: is_word_def dest: set_takeWhileD)
    next
      assume "w \<in> set (stream_words (dropWhile (\<lambda>x. \<not> is_space x) (c # cs)))"
      then show ?thesis using "1.IH" Cons by blast
    qed
  qed
qed

lemma stream_words_Nil [simp]: "stream_words [] = []"
  by (simp add: stream_words.simps)

lemma stream_words_word:
  assumes "is_word w" and "rest = [] \<or> is_space (hd rest)"
  shows "stream_words (w @ rest) = w # stream_words rest"
proof -
  obtain c cs where w: "w = c # cs" using assms(1) by (cases w) (auto simp: is_word_def)
  have "dropWhile is_space (w @ rest) = w @ rest"
    using assms(1) by (simp add: w is_word_def)
  moreover have "takeWhile (\<lambda>x. \<not> is_space x) (w @ rest) = w
      \<and> dropWhile (\<lambda>x. \<not> is_space x) (w @ rest) = rest"
    using assms by (cases rest) (auto simp: is_word_def takeWhile_append dropWhile_append)
  ultimately show ?thesis by (subst stream_words.simps) (simp add: w)
qed

lemma stream_words_skip: "is_space c \<Longrightarrow> stream_words (c # s) = stream_words s"
  by (subst stream_words.simps) (subst (2) stream_words.simps, simp)

text \<open>\<open>join_with d\<close> puts a separator between the words; reading them back gives the words.\<close>

fun join_with :: "string \<Rightarrow> string list \<Rightarrow> string" where
  "join_with d [] = []"
| "join_with d [w] = w"
| "join_with d (w # ws) = w @ d @ join_with d ws"

lemma is_space_blank [simp]: "is_space (CHR '' '')"
  by (simp add: is_space_def byte_def)

lemma stream_words_join: "(\<And>w. w \<in> set ws \<Longrightarrow> is_word w) \<Longrightarrow> stream_words (join_with '' '' ws) = ws"
proof (induction "'' ''::string" ws rule: join_with.induct)
  case 1
  then show ?case by simp
next
  case (2 w)
  then show ?case using stream_words_word [of w "[]"] by simp
next
  case (3 w v vs)
  then show ?case
    using stream_words_word [of w "'' '' @ join_with '' '' (v # vs)"] by (simp add: stream_words_skip)
qed

section \<open>Numbers\<close>

definition digit_value :: "char \<Rightarrow> int" where
  "digit_value c = int (byte c) - 48"

definition digits_value :: "string \<Rightarrow> int" where
  "digits_value s = fold (\<lambda>c n. 10 * n + digit_value c) s 0"

text \<open>
  \<^verbatim>\<open>std::stoll(s, &pos)\<close>: leading white space, a sign, as many digits as there are.
  \<^const>\<open>None\<close> when it throws: no digit, or a value outside the \<open>w\<close>-bit range.
\<close>

definition cpp_sto :: "nat \<Rightarrow> string \<Rightarrow> (int \<times> nat) option" where
  "cpp_sto w s =
     (let ws = length (takeWhile is_space s);
          t = drop ws s;
          neg = starts_with t ''-'';
          sg = (if neg \<or> starts_with t ''+'' then 1 else 0);
          ds = takeWhile is_digit (drop sg t);
          v = (if neg then - digits_value ds else digits_value ds)
      in if ds = [] \<or> \<not> in_int_range w v then None else Some (v, ws + sg + length ds))"

abbreviation "cpp_stoi \<equiv> cpp_sto 32"
abbreviation "cpp_stoll \<equiv> cpp_sto 64"

text \<open>\<^verbatim>\<open>std::to_string\<close> of an integer.\<close>

definition digit_char :: "nat \<Rightarrow> char" where
  "digit_char d = char_of (48 + d)"

fun show_nat :: "nat \<Rightarrow> string" where
  "show_nat n = (if n < 10 then [digit_char n] else show_nat (n div 10) @ [digit_char (n mod 10)])"

declare show_nat.simps [simp del]

definition show_int :: "int \<Rightarrow> string" where
  "show_int k = (if k < 0 then ''-'' @ show_nat (nat (- k)) else show_nat (nat k))"

lemma byte_digit_char: "d < 10 \<Longrightarrow> byte (digit_char d) = 48 + d"
  by (simp add: byte_def digit_char_def)

lemma is_digit_digit_char [simp]: "d < 10 \<Longrightarrow> is_digit (digit_char d)"
  by (simp add: is_digit_def byte_digit_char)

lemma digits_value_snoc: "digits_value (s @ [c]) = 10 * digits_value s + digit_value c"
  by (simp add: digits_value_def)

lemma digits_value_nonneg: "\<forall>c \<in> set s. is_digit c \<Longrightarrow> 0 \<le> digits_value s"
proof (induction s rule: rev_induct)
  case Nil
  then show ?case by (simp add: digits_value_def)
next
  case (snoc c s)
  then show ?case by (simp add: digits_value_snoc digit_value_def is_digit_def)
qed

lemma show_nat_digits: "show_nat n \<noteq> [] \<and> (\<forall>c \<in> set (show_nat n). is_digit c)"
proof (induction n rule: show_nat.induct)
  case (1 n)
  show ?case
  proof (cases "n < 10")
    case True
    then show ?thesis by (simp add: show_nat.simps [of n])
  next
    case False
    then show ?thesis using "1.IH" by (auto simp: show_nat.simps [of n])
  qed
qed

lemma digits_value_show_nat [simp]: "digits_value (show_nat n) = int n"
proof (induction n rule: show_nat.induct)
  case (1 n)
  show ?case
  proof (cases "n < 10")
    case True
    then show ?thesis
      by (simp add: show_nat.simps [of n] digits_value_def digit_value_def byte_digit_char)
  next
    case False
    then have "digits_value (show_nat n) = 10 * int (n div 10) + int (n mod 10)"
      using "1.IH" by (simp add: show_nat.simps [of n] digits_value_snoc digit_value_def byte_digit_char)
    then show ?thesis by (simp add: zdiv_int zmod_int)
  qed
qed

lemma takeWhile_all: "\<forall>c \<in> set s. P c \<Longrightarrow> takeWhile P s = s"
  by (simp add: takeWhile_eq_all_conv)

text \<open>Parsing what was printed gives the number back and consumes the whole string.\<close>

lemma sto_show_nat:
  assumes "in_int_range w (int n)"
  shows "cpp_sto w (show_nat n) = Some (int n, length (show_nat n))"
proof -
  obtain c cs where s: "show_nat n = c # cs" and c: "is_digit c" "\<forall>c \<in> set cs. is_digit c"
    using show_nat_digits [of n] by (cases "show_nat n") auto
  have v: "digits_value (c # cs) = int n" using digits_value_show_nat [of n] s by simp
  have "c \<noteq> CHR ''-''" "c \<noteq> CHR ''+''"
    using c(1) by (auto simp: is_digit_def byte_def)
  then show ?thesis
    using digit_not_space [OF c(1)] c v assms unfolding s
    by (simp add: cpp_sto_def starts_with_def takeWhile_all)
qed

section \<open>Paths\<close>

text \<open>\<^verbatim>\<open>fs::path::operator/\<close>, on POSIX.\<close>

definition path_join :: "string \<Rightarrow> string \<Rightarrow> string" where
  "path_join a b = (if a = [] \<or> starts_with b ''/'' then (if starts_with b ''/'' then b else a @ b)
     else if last a = CHR ''/'' then a @ b else a @ ''/'' @ b)"

end
