(* ===== verification/Json.thy ===== *)
theory Json
  imports CppStrings
begin

text \<open>
  JSON documents, as values, and the accessors the program uses on them. An object is the
  association list of its members; the parser has kept one member per key.
\<close>

datatype json =
    JNull
  | JBool bool
  | JInt int
  | JReal real
  | JString string
  | JArray "json list"
  | JObject "(string \<times> json) list"

fun is_object :: "json \<Rightarrow> bool" where
  "is_object (JObject kvs) = True"
| "is_object _ = False"

text \<open>\<^verbatim>\<open>j.find(key)\<close>, with \<^const>\<open>None\<close> for \<^verbatim>\<open>end()\<close>.\<close>

fun json_find :: "json \<Rightarrow> string \<Rightarrow> json option" where
  "json_find (JObject kvs) k = map_of kvs k"
| "json_find _ k = None"

text \<open>A member that is present and not null.\<close>

definition json_member :: "json \<Rightarrow> string \<Rightarrow> json option" where
  "json_member j k = (case json_find j k of None \<Rightarrow> None | Some v \<Rightarrow> if v = JNull then None else Some v)"

text \<open>
  Integers of a document are 64-bit, signed or unsigned; reading one as
  \<^verbatim>\<open>std::int64_t\<close> converts modulo \<open>2 ^ 64\<close>.
\<close>

definition int64_of_json :: "int \<Rightarrow> int" where
  "int64_of_json k = wrap_int 64 k"

fun json_number :: "json \<Rightarrow> real option" where
  "json_number (JInt k) = Some (of_int k)"
| "json_number (JReal r) = Some r"
| "json_number _ = None"

fun json_string :: "json \<Rightarrow> string option" where
  "json_string (JString s) = Some s"
| "json_string _ = None"

fun json_int :: "json \<Rightarrow> int option" where
  "json_int (JInt k) = Some (int64_of_json k)"
| "json_int _ = None"

fun json_bool :: "json \<Rightarrow> bool option" where
  "json_bool (JBool b) = Some b"
| "json_bool _ = None"

lemma int64_of_json_id: "int64 k \<Longrightarrow> int64_of_json k = k"
  by (simp add: int64_of_json_def wrap_int_id)

lemma int64_of_json_range: "int64 (int64_of_json k)"
  by (simp add: int64_of_json_def wrap_int_range)

lemma json_member_not_null: "json_member j k = Some v \<Longrightarrow> v \<noteq> JNull"
  by (auto simp: json_member_def split: option.splits if_splits)

text \<open>\<^verbatim>\<open>opt ? json( *opt) : json(nullptr)\<close> .\<close>

definition nullable :: "('a \<Rightarrow> json) \<Rightarrow> 'a option \<Rightarrow> json" where
  "nullable f v = (case v of None \<Rightarrow> JNull | Some x \<Rightarrow> f x)"

lemma nullable_simps [simp]: "nullable f None = JNull" "nullable f (Some x) = f x"
  by (simp_all add: nullable_def)

end
