(* ===== verification/Sanity.thy ===== *)
theory Sanity
  imports CppStrings
begin

text \<open>
  server/types.hpp, server/sanity.hpp and server/sanity.cpp: the reported pair of games and
  the first sanity layer, which decides for each game whether it counts.
\<close>

section \<open>Reports\<close>

record draw_adjudication =
  dr_movenumber :: int
  dr_movecount :: int
  dr_score_cp :: int

record resign_adjudication =
  rs_movecount :: int
  rs_score_cp :: int
  rs_twosided :: bool

record adjudication =
  adj_draw :: "draw_adjudication option"
  adj_resign :: "resign_adjudication option"

record game_report =
  gr_game_in_pair :: int
  gr_candidate_is_white :: bool
  gr_outcome :: string
  gr_termination :: string
  gr_ply_count :: "int option"
  gr_duration_ms :: "int option"
  gr_cpu_factor_at_play :: real
  gr_tc_base_effective_ms :: int
  gr_tc_increment_effective_ms :: int
  gr_slot_index :: int
  gr_core_id :: "int option"
  gr_pgn :: string
  gr_candidate_nodes :: "int option"
  gr_candidate_time_ms :: "int option"
  gr_baseline_nodes :: "int option"
  gr_baseline_time_ms :: "int option"

text \<open>The array of two games, \<open>games[i].game_in_pair == i\<close>.\<close>

record pair_report =
  pr_client_id :: int
  pr_games :: "game_report list"

definition report_wf :: "pair_report \<Rightarrow> bool" where
  "report_wf r \<longleftrightarrow> map gr_game_in_pair (pr_games r) = [0, 1]"

lemma report_wf_cases:
  assumes "report_wf r"
  obtains g0 g1 where "pr_games r = [g0, g1]" "gr_game_in_pair g0 = 0" "gr_game_in_pair g1 = 1"
  using assms unfolding report_wf_def by auto

section \<open>The checks\<close>

definition kMaxPlyCount :: int where
  "kMaxPlyCount = 2000"

text \<open>
  The arithmetic is on \<^verbatim>\<open>std::int64_t\<close>: every operation is followed by the reduction
  to 64 bits.
\<close>

definition max_plausible_duration_ms :: "int \<Rightarrow> int \<Rightarrow> int \<Rightarrow> int" where
  "max_plausible_duration_ms tc_base_ms tc_increment_ms ply_count =
     (let clocks = wrap_int 64 (wrap_int 64 (2 * tc_base_ms) + wrap_int 64 (tc_increment_ms * ply_count))
      in wrap_int 64 (wrap_int 64 (clocks + cpp_div clocks 4) + 5000))"

record game_verdict =
  v_valid :: bool
  v_reason :: string

definition accept_game :: game_verdict where
  "accept_game = \<lparr>v_valid = True, v_reason = []\<rparr>"

definition reject_game :: "string \<Rightarrow> game_verdict" where
  "reject_game reason = \<lparr>v_valid = False, v_reason = reason\<rparr>"

definition check_game :: "game_report \<Rightarrow> game_verdict" where
  "check_game g =
     (if gr_termination g = ''crash'' \<or> gr_termination g = ''illegal_move''
      then reject_game (''termination_'' @ gr_termination g)
      else case gr_ply_count g of
        None \<Rightarrow> reject_game ''ply_count_out_of_range''
      | Some ply \<Rightarrow>
          if ply \<le> 0 \<or> kMaxPlyCount < ply then reject_game ''ply_count_out_of_range''
          else case gr_duration_ms g of
            None \<Rightarrow> reject_game ''duration_missing''
          | Some d \<Rightarrow>
              if d < 0 then reject_game ''duration_missing''
              else if max_plausible_duration_ms (gr_tc_base_effective_ms g)
                        (gr_tc_increment_effective_ms g) ply < d
              then reject_game ''duration_implausible''
              else accept_game)"

definition check_pair :: "pair_report \<Rightarrow> game_verdict list" where
  "check_pair report =
     (let g0 = pr_games report ! 0; g1 = pr_games report ! 1;
          v = [check_game g0, check_game g1]
      in if gr_candidate_is_white g0 = gr_candidate_is_white g1
         then map (\<lambda>verdict. if v_valid verdict then reject_game ''pair_colors_not_inverted''
                             else verdict) v
         else v)"

section \<open>Lemmas\<close>

text \<open>With 32-bit arguments no intermediate result leaves the 64-bit range.\<close>

lemma int32_bounds: "int32 k \<longleftrightarrow> - 2147483648 \<le> k \<and> k < 2147483648"
  by (simp add: in_int_range_def)

lemma int64_bounds: "int64 k \<longleftrightarrow> - 9223372036854775808 \<le> k \<and> k < 9223372036854775808"
  by (simp add: in_int_range_def)

lemma abs_cpp_div: "\<bar>cpp_div a 4\<bar> = \<bar>a\<bar> div 4"
  by (cases "a = 0") (simp_all add: cpp_div_def abs_mult abs_sgn_eq)

lemma int32_product_bound: "int32 a \<Longrightarrow> int32 b \<Longrightarrow> \<bar>a * b\<bar> \<le> 2147483648 * 2147483648"
  unfolding abs_mult by (rule mult_mono) (auto simp: int32_bounds)

lemma max_plausible_exact:
  assumes "int32 base" "int32 inc" "int32 ply"
  shows "max_plausible_duration_ms base inc ply =
           (let clocks = 2 * base + inc * ply in clocks + cpp_div clocks 4 + 5000)"
    and "int64 (max_plausible_duration_ms base inc ply)"
proof -
  let ?p = "inc * ply" and ?c = "2 * base + inc * ply"
  have p: "\<bar>?p\<bar> \<le> 4611686018427387904"
    using int32_product_bound [OF assms(2,3)] by simp
  have b: "\<bar>2 * base\<bar> \<le> 4294967296" using assms(1) by (auto simp: int32_bounds)
  have c: "\<bar>?c\<bar> \<le> 4611686022722355200" using p b by linarith
  have d: "\<bar>cpp_div ?c 4\<bar> \<le> 1152921505680588800" unfolding abs_cpp_div using c by linarith
  have r: "int64 (2 * base)" "int64 ?p" "int64 ?c" "int64 (?c + cpp_div ?c 4)"
    "int64 (?c + cpp_div ?c 4 + 5000)"
    using p b c d unfolding int64_bounds by linarith+
  then show eq: "max_plausible_duration_ms base inc ply =
      (let clocks = ?c in clocks + cpp_div clocks 4 + 5000)"
    by (simp add: max_plausible_duration_ms_def Let_def wrap_int_id)
  show "int64 (max_plausible_duration_ms base inc ply)"
    using r(5) unfolding eq Let_def .
qed

lemma accept_reject [simp]:
  "v_valid accept_game" "\<not> v_valid (reject_game r)" "v_reason accept_game = []"
  "v_reason (reject_game r) = r"
  by (simp_all add: accept_game_def reject_game_def)

lemma check_game_valid_iff:
  "v_valid (check_game g) \<longleftrightarrow>
     gr_termination g \<noteq> ''crash'' \<and> gr_termination g \<noteq> ''illegal_move'' \<and>
     (\<exists>ply d. gr_ply_count g = Some ply \<and> 0 < ply \<and> ply \<le> kMaxPlyCount \<and>
        gr_duration_ms g = Some d \<and> 0 \<le> d \<and>
        d \<le> max_plausible_duration_ms (gr_tc_base_effective_ms g) (gr_tc_increment_effective_ms g) ply)"
  by (auto simp: check_game_def not_le not_less split: option.splits)

lemma check_game_reason: "v_reason (check_game g) = [] \<longleftrightarrow> v_valid (check_game g)"
  by (auto simp: check_game_def split: option.splits)

lemma length_check_pair [simp]: "length (check_pair r) = 2"
  by (simp add: check_pair_def Let_def)

lemma check_pair_reason: "v \<in> set (check_pair r) \<Longrightarrow> v_reason v = [] \<longleftrightarrow> v_valid v"
  by (auto simp: check_pair_def Let_def check_game_reason split: if_splits)

lemma check_pair_nth:
  "i < 2 \<Longrightarrow> v_valid (check_pair r ! i) \<longleftrightarrow>
     v_valid (check_game (pr_games r ! i)) \<and>
     gr_candidate_is_white (pr_games r ! 0) \<noteq> gr_candidate_is_white (pr_games r ! 1)"
  by (auto simp: check_pair_def Let_def less_2_cases_iff)

section \<open>Properties\<close>

text \<open>
  No overflow. On 32-bit reports the plausible duration is computed exactly: every
  intermediate of the 64-bit arithmetic is in range, and so is the result.
\<close>

theorem max_plausible_no_overflow:
  assumes "int32 base" "int32 inc" "int32 ply"
  shows "max_plausible_duration_ms base inc ply =
           (let clocks = 2 * base + inc * ply in clocks + cpp_div clocks 4 + 5000) \<and>
         int64 (max_plausible_duration_ms base inc ply)"
  using max_plausible_exact [OF assms] by simp

theorem max_plausible_no_overflow_witness:
  "max_plausible_duration_ms 2147483647 2147483647 2147483647 =
     (let clocks = 2 * 2147483647 + 2147483647 * 2147483647 in clocks + cpp_div clocks 4 + 5000) \<and>
   int64 (max_plausible_duration_ms 2147483647 2147483647 2147483647)"
  by (rule max_plausible_no_overflow) (simp_all add: int32_bounds)

text \<open>
  C40: the verdict on a game of a pair. It counts exactly when the candidate changed colours
  between the two games, the game did not end by a crash or an illegal move, it has between 1
  and 2000 plies and its duration is known and at most the plausible one; a reason is given
  exactly when the game does not count.
\<close>

theorem check_pair_verdict:
  assumes "i < 2"
  shows "(v_valid (check_pair r ! i) \<longleftrightarrow>
           gr_candidate_is_white (pr_games r ! 0) \<noteq> gr_candidate_is_white (pr_games r ! 1) \<and>
           gr_termination (pr_games r ! i) \<noteq> ''crash'' \<and>
           gr_termination (pr_games r ! i) \<noteq> ''illegal_move'' \<and>
           (\<exists>ply d. gr_ply_count (pr_games r ! i) = Some ply \<and> 0 < ply \<and> ply \<le> 2000 \<and>
              gr_duration_ms (pr_games r ! i) = Some d \<and> 0 \<le> d \<and>
              d \<le> max_plausible_duration_ms (gr_tc_base_effective_ms (pr_games r ! i))
                    (gr_tc_increment_effective_ms (pr_games r ! i)) ply)) \<and>
         (v_reason (check_pair r ! i) = [] \<longleftrightarrow> v_valid (check_pair r ! i))"
proof -
  have "check_pair r ! i \<in> set (check_pair r)" using assms by (simp add: nth_mem)
  then show ?thesis
    using check_pair_reason check_pair_nth [OF assms, of r]
    by (auto simp: check_game_valid_iff kMaxPlyCount_def)
qed

definition sample_report :: pair_report where
  "sample_report =
     \<lparr>pr_client_id = 1,
      pr_games = map (\<lambda>i. \<lparr>gr_game_in_pair = i, gr_candidate_is_white = (i = 0),
        gr_outcome = ''draw'', gr_termination = ''normal'', gr_ply_count = Some 80,
        gr_duration_ms = Some 20000, gr_cpu_factor_at_play = 1, gr_tc_base_effective_ms = 10000,
        gr_tc_increment_effective_ms = 100, gr_slot_index = 0, gr_core_id = None, gr_pgn = '''',
        gr_candidate_nodes = None, gr_candidate_time_ms = None, gr_baseline_nodes = None,
        gr_baseline_time_ms = None\<rparr>) [0, 1]\<rparr>"

theorem check_pair_verdict_witness:
  "v_valid (check_pair sample_report ! 1)"
  by (rule check_pair_verdict [THEN conjunct1, THEN iffD2])
    (simp_all add: sample_report_def max_plausible_exact int32_bounds cpp_div_nonneg)

end
