(* ===== verification/Spec.thy ===== *)
theory Spec
  imports Json
begin

text \<open>
  server/spec.hpp and server/spec.cpp: the time control, git refs, book names, and the
  validation of the body of \<^verbatim>\<open>POST /api/admin/tests\<close>.

  \<^verbatim>\<open>std::llround\<close> returns an unspecified value when the rounded number is not a
  \<^verbatim>\<open>long long\<close>; that value is the parameter \<open>oob\<close> (on x86-64 it is \<open>- (2 ^ 63)\<close>).
\<close>

section \<open>Time control\<close>

text \<open>
  \<^verbatim>\<open>std::strtod\<close> on a string of digits and points: the value and the number of bytes
  consumed, \<^const>\<open>None\<close> when there is no conversion.
\<close>

definition strtod_decimal :: "string \<Rightarrow> (real \<times> nat) option" where
  "strtod_decimal s =
     (let ip = takeWhile is_digit s; rest = dropWhile is_digit s
      in case rest of
           [] \<Rightarrow> if ip = [] then None else Some (of_int (digits_value ip), length ip)
         | c # cs \<Rightarrow>
             if c = CHR ''.'' then
               (let fp = takeWhile is_digit cs
                in if ip = [] \<and> fp = [] then None
                   else Some (of_int (digits_value ip) + of_int (digits_value fp) / 10 ^ length fp,
                              length ip + 1 + length fp))
             else if ip = [] then None
             else Some (of_int (digits_value ip), length ip))"

text \<open>Decimal values from here on round to infinity.\<close>

definition double_overflow :: real where
  "double_overflow = 2 ^ 1024 - 2 ^ 970"

definition parse_seconds :: "string \<Rightarrow> string \<Rightarrow> real result" where
  "parse_seconds s tc =
     (let err = Inl (SpecErr (''invalid tc: '' @ tc))
      in if s = [] then err
         else if \<not> list_all (\<lambda>c. is_digit c \<or> c = CHR ''.'') s then err
         else case strtod_decimal s of
           None \<Rightarrow> err
         | Some (v, n) \<Rightarrow> if n \<noteq> length s \<or> double_overflow \<le> v then err else Inr v)"

definition cpp_llround :: "int \<Rightarrow> real \<Rightarrow> int" where
  "cpp_llround oob x = (if int64 (cpp_round x) then cpp_round x else oob)"

record time_control =
  tc_base :: int
  tc_increment :: int

definition parse_tc :: "int \<Rightarrow> string \<Rightarrow> time_control result" where
  "parse_tc oob tc =
     (let plus = find_char (CHR ''+'') tc
      in bindE (parse_seconds (case plus of None \<Rightarrow> tc | Some i \<Rightarrow> take i tc) tc) (\<lambda>base.
         bindE (case plus of None \<Rightarrow> Inr 0 | Some i \<Rightarrow> parse_seconds (drop (i + 1) tc) tc) (\<lambda>inc.
           let base_ms = cpp_llround oob (base * 1000);
               inc_ms = cpp_llround oob (inc * 1000)
           in if base_ms \<le> 0 then Inl (SpecErr (''tc base must be positive: '' @ tc))
              else if 24 * 3600 * 1000 < base_ms \<or> 3600 * 1000 < inc_ms
              then Inl (SpecErr (''tc out of range: '' @ tc))
              else Inr \<lparr>tc_base = wrap_int 32 base_ms, tc_increment = wrap_int 32 inc_ms\<rparr>)))"

section \<open>Names\<close>

definition ref_char :: "char \<Rightarrow> bool" where
  "ref_char c \<longleftrightarrow> is_alnum c \<or> c = CHR ''.'' \<or> c = CHR ''_'' \<or> c = CHR ''/'' \<or> c = CHR ''-''"

definition valid_ref :: "string \<Rightarrow> bool" where
  "valid_ref ref =
     (if ref = [] \<or> 255 < length ref \<or> hd ref = CHR ''-'' \<or> hd ref = CHR ''/''
         \<or> last ref = CHR ''/'' \<or> contains_str ''..'' ref
      then False else list_all ref_char ref)"

definition valid_book_name :: "string \<Rightarrow> bool" where
  "valid_book_name name =
     (if name = [] \<or> 255 < length name \<or> hd name = CHR ''.'' then False
      else list_all (\<lambda>c. is_alnum c \<or> c = CHR ''.'' \<or> c = CHR ''_'' \<or> c = CHR ''-'') name)"

section \<open>Fields of the body\<close>

definition spec_req_string :: "json \<Rightarrow> string \<Rightarrow> string result" where
  "spec_req_string j key =
     (case json_member j key of
        None \<Rightarrow> Inl (SpecErr (''missing field: '' @ key))
      | Some v \<Rightarrow> (case json_string v of
            None \<Rightarrow> Inl (SpecErr (key @ '' must be a string''))
          | Some s \<Rightarrow> Inr s))"

definition spec_opt_string :: "json \<Rightarrow> string \<Rightarrow> string option result" where
  "spec_opt_string j key =
     (if json_member j key = None then Inr None
      else bindE (spec_req_string j key) (\<lambda>s. Inr (Some s)))"

definition spec_opt_integer :: "json \<Rightarrow> string \<Rightarrow> int option result" where
  "spec_opt_integer j key =
     (case json_member j key of
        None \<Rightarrow> Inr None
      | Some v \<Rightarrow> (case json_int v of
            None \<Rightarrow> Inl (SpecErr (key @ '' must be an integer''))
          | Some k \<Rightarrow> Inr (Some k)))"

definition spec_opt_number :: "json \<Rightarrow> string \<Rightarrow> real option result" where
  "spec_opt_number j key =
     (case json_member j key of
        None \<Rightarrow> Inr None
      | Some v \<Rightarrow> (case json_number v of
            None \<Rightarrow> Inl (SpecErr (key @ '' must be a number''))
          | Some r \<Rightarrow> Inr (Some r)))"

section \<open>The specification of a test\<close>

record sprt_preset_bounds =
  ps_elo0 :: real
  ps_elo1 :: real
  ps_alpha :: real
  ps_beta :: real

record sprt_presets =
  preset_gainer :: sprt_preset_bounds
  preset_nonreg :: sprt_preset_bounds

definition default_presets :: sprt_presets where
  "default_presets =
     \<lparr>preset_gainer = \<lparr>ps_elo0 = 0, ps_elo1 = 5, ps_alpha = 5 / 100, ps_beta = 5 / 100\<rparr>,
      preset_nonreg = \<lparr>ps_elo0 = - 5, ps_elo1 = 0, ps_alpha = 5 / 100, ps_beta = 5 / 100\<rparr>\<rparr>"

record test_spec =
  sp_name :: string
  sp_kind :: string
  sp_candidate_ref :: string
  sp_baseline_ref :: string
  sp_tc_base_ms :: int
  sp_tc_increment_ms :: int
  sp_hash_mb :: int
  sp_book_name :: string
  sp_total_pairs :: int
  sp_sprt_preset :: "string option"
  sp_sprt_elo0 :: "real option"
  sp_sprt_elo1 :: "real option"
  sp_sprt_alpha :: "real option"
  sp_sprt_beta :: "real option"
  sp_priority :: int
  sp_submitted_by :: "string option"

definition has_sprt_bounds :: "json \<Rightarrow> bool" where
  "has_sprt_bounds body \<longleftrightarrow>
     json_member body ''sprt_elo0'' \<noteq> None \<or> json_member body ''sprt_elo1'' \<noteq> None \<or>
     json_member body ''sprt_alpha'' \<noteq> None \<or> json_member body ''sprt_beta'' \<noteq> None"

text \<open>The branches on the preset: name and bounds of an SPRT test.\<close>

definition parse_sprt :: "json \<Rightarrow> sprt_presets \<Rightarrow> (string \<times> sprt_preset_bounds) result" where
  "parse_sprt body presets =
     bindE (spec_opt_string body ''preset'') (\<lambda>preset.
       case preset of
         None \<Rightarrow> Inl (SpecErr ''missing field: preset (gainer, nonreg or custom)'')
       | Some p \<Rightarrow>
           bindE
             (if p = ''custom'' then
                bindE (spec_opt_number body ''sprt_elo0'') (\<lambda>elo0.
                bindE (spec_opt_number body ''sprt_elo1'') (\<lambda>elo1.
                  case (elo0, elo1) of
                    (Some e0, Some e1) \<Rightarrow>
                      bindE (spec_opt_number body ''sprt_alpha'') (\<lambda>alpha.
                      bindE (spec_opt_number body ''sprt_beta'') (\<lambda>beta.
                        Inr \<lparr>ps_elo0 = e0, ps_elo1 = e1,
                             ps_alpha = (case alpha of None \<Rightarrow> 5 / 100 | Some a \<Rightarrow> a),
                             ps_beta = (case beta of None \<Rightarrow> 5 / 100 | Some b \<Rightarrow> b)\<rparr>))
                  | _ \<Rightarrow> Inl (SpecErr ''preset custom requires sprt_elo0 and sprt_elo1'')))
              else if p = ''gainer'' \<or> p = ''nonreg'' then
                (if has_sprt_bounds body
                 then Inl (SpecErr ''SPRT bounds are only accepted with preset custom'')
                 else Inr (if p = ''gainer'' then preset_gainer presets else preset_nonreg presets))
              else Inl (SpecErr ''preset must be gainer, nonreg or custom''))
             (\<lambda>b. if \<not> ps_elo0 b < ps_elo1 b then Inl (SpecErr ''sprt_elo0 must be < sprt_elo1'')
                  else if \<not> (0 < ps_alpha b \<and> ps_alpha b < 1) \<or> \<not> (0 < ps_beta b \<and> ps_beta b < 1)
                  then Inl (SpecErr ''sprt_alpha and sprt_beta must be in (0, 1)'')
                  else Inr (p, b)))"

definition parse_test_spec :: "int \<Rightarrow> sprt_presets \<Rightarrow> json \<Rightarrow> test_spec result" where
  "parse_test_spec oob presets body =
     bindE (guardE (is_object body) (SpecErr ''body must be a JSON object'')) (\<lambda>_.
     bindE (spec_req_string body ''kind'') (\<lambda>kind.
     bindE (guardE (kind = ''sprt'' \<or> kind = ''gauntlet'') (SpecErr ''kind must be sprt or gauntlet'')) (\<lambda>_.
     bindE (spec_req_string body ''candidate_ref'') (\<lambda>candidate_ref.
     bindE (spec_req_string body ''baseline_ref'') (\<lambda>baseline_ref.
     bindE (guardE (valid_ref candidate_ref) (SpecErr (''invalid git ref: '' @ candidate_ref))) (\<lambda>_.
     bindE (guardE (valid_ref baseline_ref) (SpecErr (''invalid git ref: '' @ baseline_ref))) (\<lambda>_.
     bindE (spec_req_string body ''tc'') (\<lambda>tc_text.
     bindE (parse_tc oob tc_text) (\<lambda>tc.
     bindE (spec_opt_integer body ''hash_mb'') (\<lambda>h.
     bindE (case h of None \<Rightarrow> Inr 16
                    | Some h \<Rightarrow> if h < 1 \<or> 4096 < h then Inl (SpecErr ''hash_mb must be in [1, 4096]'')
                               else Inr (wrap_int 32 h)) (\<lambda>hash_mb.
     bindE (spec_req_string body ''book_name'') (\<lambda>book_name.
     bindE (guardE (valid_book_name book_name) (SpecErr (''invalid book_name: '' @ book_name))) (\<lambda>_.
     bindE (spec_opt_integer body ''total_pairs'') (\<lambda>pairs.
     bindE (case pairs of None \<Rightarrow> Inl (SpecErr ''missing field: total_pairs'')
                        | Some p \<Rightarrow> if p < 1 \<or> 10000000 < p then Inl (SpecErr ''total_pairs must be positive'')
                                   else Inr (wrap_int 32 p)) (\<lambda>total_pairs.
     bindE (spec_opt_integer body ''priority'') (\<lambda>prio.
     bindE (spec_opt_string body ''submitted_by'') (\<lambda>submitted_by.
     bindE (if kind = ''gauntlet'' then
              (if json_member body ''preset'' \<noteq> None \<or> has_sprt_bounds body
               then Inl (SpecErr ''gauntlet does not take preset or SPRT bounds'')
               else Inr None)
            else bindE (parse_sprt body presets) (\<lambda>pb. Inr (Some pb))) (\<lambda>sprt.
     bindE (spec_opt_string body ''name'') (\<lambda>name_opt.
       let name = (case name_opt of None \<Rightarrow> candidate_ref @ '' vs '' @ baseline_ref | Some n \<Rightarrow> n)
       in if name = [] then Inl (SpecErr ''name must not be empty'')
          else Inr \<lparr>sp_name = name, sp_kind = kind,
                    sp_candidate_ref = candidate_ref, sp_baseline_ref = baseline_ref,
                    sp_tc_base_ms = tc_base tc, sp_tc_increment_ms = tc_increment tc,
                    sp_hash_mb = hash_mb, sp_book_name = book_name, sp_total_pairs = total_pairs,
                    sp_sprt_preset = map_option fst sprt,
                    sp_sprt_elo0 = map_option (ps_elo0 \<circ> snd) sprt,
                    sp_sprt_elo1 = map_option (ps_elo1 \<circ> snd) sprt,
                    sp_sprt_alpha = map_option (ps_alpha \<circ> snd) sprt,
                    sp_sprt_beta = map_option (ps_beta \<circ> snd) sprt,
                    sp_priority = (case prio of None \<Rightarrow> 0 | Some p \<Rightarrow> wrap_int 32 p),
                    sp_submitted_by = submitted_by\<rparr>)))))))))))))))))))"


section \<open>What a validated specification satisfies\<close>

definition sprt_fields_ok :: "test_spec \<Rightarrow> bool" where
  "sprt_fields_ok s \<longleftrightarrow>
     (\<exists>p e0 e1 a b. sp_sprt_preset s = Some p \<and> p \<in> {''gainer'', ''nonreg'', ''custom''} \<and>
        sp_sprt_elo0 s = Some e0 \<and> sp_sprt_elo1 s = Some e1 \<and> e0 < e1 \<and>
        sp_sprt_alpha s = Some a \<and> 0 < a \<and> a < 1 \<and>
        sp_sprt_beta s = Some b \<and> 0 < b \<and> b < 1)"

definition no_sprt_fields :: "test_spec \<Rightarrow> bool" where
  "no_sprt_fields s \<longleftrightarrow>
     sp_sprt_preset s = None \<and> sp_sprt_elo0 s = None \<and> sp_sprt_elo1 s = None \<and>
     sp_sprt_alpha s = None \<and> sp_sprt_beta s = None"

definition spec_wf :: "test_spec \<Rightarrow> bool" where
  "spec_wf s \<longleftrightarrow>
     sp_name s \<noteq> [] \<and> valid_ref (sp_candidate_ref s) \<and> valid_ref (sp_baseline_ref s) \<and>
     valid_book_name (sp_book_name s) \<and>
     0 < sp_tc_base_ms s \<and> sp_tc_base_ms s \<le> 86400000 \<and>
     0 \<le> sp_tc_increment_ms s \<and> sp_tc_increment_ms s \<le> 3600000 \<and>
     1 \<le> sp_hash_mb s \<and> sp_hash_mb s \<le> 4096 \<and>
     1 \<le> sp_total_pairs s \<and> sp_total_pairs s \<le> 10000000 \<and>
     int32 (sp_priority s) \<and>
     (sp_kind s = ''sprt'' \<and> sprt_fields_ok s \<or> sp_kind s = ''gauntlet'' \<and> no_sprt_fields s)"

lemma strtod_nonneg: "strtod_decimal s = Some (v, n) \<Longrightarrow> 0 \<le> v"
proof -
  assume a: "strtod_decimal s = Some (v, n)"
  have d: "0 \<le> digits_value (takeWhile is_digit t)" for t
    by (rule digits_value_nonneg) (auto dest: set_takeWhileD)
  show "0 \<le> v"
    using a by (auto simp: strtod_decimal_def Let_def d split: list.splits if_splits)
qed

lemma parse_seconds_nonneg: "parse_seconds s tc = Inr v \<Longrightarrow> 0 \<le> v"
  by (auto simp: parse_seconds_def Let_def split: if_splits option.splits prod.splits
      dest: strtod_nonneg)

lemma llround_nonneg:
  "0 \<le> x \<Longrightarrow> cpp_llround oob x = oob \<and> \<not> int64 (cpp_round x) \<or> 0 \<le> cpp_llround oob x"
  by (simp add: cpp_llround_def cpp_round_nonneg)

text \<open>
  The two numbers behind a parsed time control; an absent increment counts as zero.
\<close>

lemma parse_tc_cases:
  assumes "parse_tc oob tc = Inr t"
  obtains base inc where "0 \<le> base" "0 \<le> inc"
    "0 < cpp_llround oob (base * 1000)" "cpp_llround oob (base * 1000) \<le> 86400000"
    "cpp_llround oob (inc * 1000) \<le> 3600000"
    "t = \<lparr>tc_base = wrap_int 32 (cpp_llround oob (base * 1000)),
          tc_increment = wrap_int 32 (cpp_llround oob (inc * 1000))\<rparr>"
proof (cases "find_char (CHR ''+'') tc")
  case None
  with assms obtain base where "parse_seconds tc tc = Inr base" and
    "0 < cpp_llround oob (base * 1000)" "cpp_llround oob (base * 1000) \<le> 86400000"
    "cpp_llround oob (0 * 1000) \<le> 3600000"
    "t = \<lparr>tc_base = wrap_int 32 (cpp_llround oob (base * 1000)),
          tc_increment = wrap_int 32 (cpp_llround oob (0 * 1000))\<rparr>"
    by (auto simp: parse_tc_def Let_def not_less not_le split: if_splits)
  then show thesis using that [of base 0] parse_seconds_nonneg by blast
next
  case (Some i)
  with assms obtain base inc where "parse_seconds (take i tc) tc = Inr base" and
    "parse_seconds (drop (i + 1) tc) tc = Inr inc" and
    "0 < cpp_llround oob (base * 1000)" "cpp_llround oob (base * 1000) \<le> 86400000"
    "cpp_llround oob (inc * 1000) \<le> 3600000"
    "t = \<lparr>tc_base = wrap_int 32 (cpp_llround oob (base * 1000)),
          tc_increment = wrap_int 32 (cpp_llround oob (inc * 1000))\<rparr>"
    by (auto simp: parse_tc_def Let_def not_less not_le split: if_splits)
  then show thesis using that [of base inc] parse_seconds_nonneg by blast
qed

lemma parse_tc_range:
  assumes "parse_tc oob tc = Inr t"
  shows "0 < tc_base t \<and> tc_base t \<le> 86400000 \<and>
         (0 \<le> tc_increment t \<and> tc_increment t \<le> 3600000 \<or> tc_increment t = wrap_int 32 oob)"
proof -
  from assms obtain base inc where nn: "0 \<le> base" "0 \<le> inc"
    and b: "0 < cpp_llround oob (base * 1000)" "cpp_llround oob (base * 1000) \<le> 86400000"
    and i: "cpp_llround oob (inc * 1000) \<le> 3600000"
    and t: "t = \<lparr>tc_base = wrap_int 32 (cpp_llround oob (base * 1000)),
                 tc_increment = wrap_int 32 (cpp_llround oob (inc * 1000))\<rparr>"
    by (rule parse_tc_cases)
  have base: "tc_base t = cpp_llround oob (base * 1000)"
    using b by (simp add: t wrap_int_id in_int_range_def)
  have inc: "tc_increment t = wrap_int 32 oob \<or> 0 \<le> tc_increment t \<and> tc_increment t \<le> 3600000"
    using llround_nonneg [of "inc * 1000" oob] nn(2) i
    by (auto simp: t wrap_int_id in_int_range_def)
  show ?thesis using b base inc by auto
qed

lemma parse_sprt_ok:
  assumes "parse_sprt body presets = Inr (p, b)"
  shows "p \<in> {''gainer'', ''nonreg'', ''custom''} \<and> ps_elo0 b < ps_elo1 b \<and>
         0 < ps_alpha b \<and> ps_alpha b < 1 \<and> 0 < ps_beta b \<and> ps_beta b < 1"
proof -
  from assms obtain q where q: "spec_opt_string body ''preset'' = Inr (Some q)"
    by (auto simp: parse_sprt_def split: option.splits)
  consider "q = ''custom''" | "q = ''gainer''" | "q = ''nonreg''"
    | "q \<noteq> ''custom''" "q \<noteq> ''gainer''" "q \<noteq> ''nonreg''"
    by blast
  then show ?thesis
  proof cases
    case 1
    then show ?thesis using assms q
      by (auto simp: parse_sprt_def split: option.splits if_split_asm)
  next
    case 2
    then show ?thesis using assms q by (auto simp: parse_sprt_def split: if_split_asm)
  next
    case 3
    then show ?thesis using assms q by (auto simp: parse_sprt_def split: if_split_asm)
  next
    case 4
    then show ?thesis using assms q by (auto simp: parse_sprt_def)
  qed
qed

lemma opt_integer_range: "spec_opt_integer j k = Inr (Some n) \<Longrightarrow> int64 n"
  by (auto simp: spec_opt_integer_def int64_of_json_range split: option.splits
      elim!: json_int.elims)

lemma parse_test_spec_wf:
  assumes "parse_test_spec oob presets body = Inr s" and "wrap_int 32 oob = 0"
  shows "spec_wf s"
proof -
  from assms(1) obtain kind cand base tc_text tc h hash_mb book pairs total prio submitted sprt nm where
    kind: "kind = ''sprt'' \<or> kind = ''gauntlet''" and
    refs: "valid_ref cand" "valid_ref base" and
    tc: "parse_tc oob tc_text = Inr tc" and
    hash: "(case h of None \<Rightarrow> Inr 16
            | Some h \<Rightarrow> if h < 1 \<or> 4096 < h then Inl (SpecErr ''hash_mb must be in [1, 4096]'')
                       else Inr (wrap_int 32 h)) = Inr hash_mb" and
    book: "valid_book_name book" and
    pairs: "(case pairs of None \<Rightarrow> Inl (SpecErr ''missing field: total_pairs'')
            | Some p \<Rightarrow> if p < 1 \<or> 10000000 < p then Inl (SpecErr ''total_pairs must be positive'')
                       else Inr (wrap_int 32 p)) = Inr total" and
    sprt: "(if kind = ''gauntlet'' then
              (if json_member body ''preset'' \<noteq> None \<or> has_sprt_bounds body
               then Inl (SpecErr ''gauntlet does not take preset or SPRT bounds'')
               else Inr None)
            else bindE (parse_sprt body presets) (\<lambda>pb. Inr (Some pb))) = Inr sprt" and
    nm: "nm \<noteq> []" and
    s: "s = \<lparr>sp_name = nm, sp_kind = kind, sp_candidate_ref = cand, sp_baseline_ref = base,
             sp_tc_base_ms = tc_base tc, sp_tc_increment_ms = tc_increment tc,
             sp_hash_mb = hash_mb, sp_book_name = book, sp_total_pairs = total,
             sp_sprt_preset = map_option fst sprt,
             sp_sprt_elo0 = map_option (ps_elo0 \<circ> snd) sprt,
             sp_sprt_elo1 = map_option (ps_elo1 \<circ> snd) sprt,
             sp_sprt_alpha = map_option (ps_alpha \<circ> snd) sprt,
             sp_sprt_beta = map_option (ps_beta \<circ> snd) sprt,
             sp_priority = (case prio of None \<Rightarrow> 0 | Some p \<Rightarrow> wrap_int 32 p),
             sp_submitted_by = submitted\<rparr>"
    unfolding parse_test_spec_def Let_def bindE_eq_Inr_iff guardE_Inr
    apply (elim exE conjE)
    subgoal for u1 kind u2 cand base u3 u4 tc_text tc h hash_mb book u5 pairs total prio submitted sprt name_opt
      by (rule that [of kind cand base tc_text tc h hash_mb book pairs total sprt _ prio submitted])
        (auto split: if_split_asm)
    done
  have "1 \<le> hash_mb \<and> hash_mb \<le> 4096"
    using hash by (auto simp: wrap_int_id in_int_range_def not_less split: option.splits if_splits)
  moreover have "1 \<le> total \<and> total \<le> 10000000"
    using pairs by (auto simp: wrap_int_id in_int_range_def not_less split: option.splits if_splits)
  moreover have "kind = ''sprt'' \<and> sprt_fields_ok s \<or> kind = ''gauntlet'' \<and> no_sprt_fields s"
    using kind sprt parse_sprt_ok [of body presets]
    by (auto simp: s sprt_fields_ok_def no_sprt_fields_def split: if_splits)
  moreover have "int32 (case prio of None \<Rightarrow> 0 | Some p \<Rightarrow> wrap_int 32 p)"
    by (auto simp: wrap_int_range in_int_range_def [of 32 0] split: option.split)
  ultimately show ?thesis
    using parse_tc_range [OF tc] assms(2) refs book nm by (auto simp: spec_wf_def s)
qed

text \<open>A valid ref or book name never leaves its place in a URL or a path.\<close>

lemma valid_ref_safe:
  assumes "valid_ref r"
  shows "(\<forall>c \<in> set r. ref_char c) \<and> hd r \<noteq> CHR ''-'' \<and> hd r \<noteq> CHR ''/'' \<and> last r \<noteq> CHR ''/'' \<and>
         (\<nexists>u v. r = u @ ''..'' @ v) \<and> r \<noteq> [] \<and> length r \<le> 255"
  using assms by (auto simp: valid_ref_def contains_str_iff list_all_iff split: if_splits)

lemma valid_book_name_safe:
  assumes "valid_book_name n"
  shows "CHR ''/'' \<notin> set n \<and> hd n \<noteq> CHR ''.'' \<and> n \<noteq> [] \<and> length n \<le> 255"
  using assms
  by (auto simp: valid_book_name_def list_all_iff is_alnum_def is_digit_def is_alpha_def byte_def
      split: if_splits)

section \<open>Properties\<close>

definition sample_body :: json where
  "sample_body = JObject [(''kind'', JString ''sprt''), (''candidate_ref'', JString ''dev''),
     (''baseline_ref'', JString ''main''), (''tc'', JString ''10+0.1''),
     (''book_name'', JString ''uho.epd''), (''total_pairs'', JInt 20000),
     (''preset'', JString ''gainer'')]"

lemma sample_seconds:
  "parse_seconds ''10'' tc = Inr 10" "parse_seconds ''0.1'' tc = Inr (1 / 10)"
  "parse_seconds ''99999999999999999999'' tc = Inr 99999999999999999999"
  by (simp_all add: parse_seconds_def strtod_decimal_def char_class_defs digits_value_def
      digit_value_def double_overflow_def)

lemma sample_round: "cpp_round 10000 = 10000" "cpp_round 100 = 100"
  "cpp_round 99999999999999999999000 = 99999999999999999999000"
  using cpp_round_of_int [of 10000] cpp_round_of_int [of 100]
    cpp_round_of_int [of 99999999999999999999000] by simp_all

lemma sample_tc: "parse_tc oob ''10+0.1'' = Inr \<lparr>tc_base = 10000, tc_increment = 100\<rparr>"
  by (simp add: parse_tc_def Let_def sample_seconds sample_round cpp_llround_def in_int_range_def
      wrap_int_def del: bindE_eq_Inr_iff)

lemma sample_names: "valid_ref ''dev''" "valid_ref ''main''" "valid_book_name ''uho.epd''"
  by code_simp+

lemma sample_sprt: "parse_sprt sample_body default_presets = Inr (''gainer'', preset_gainer default_presets)"
  by (simp add: parse_sprt_def sample_body_def spec_opt_string_def spec_req_string_def
      json_member_def has_sprt_bounds_def default_presets_def del: bindE_eq_Inr_iff)

lemma sample_parsed: "\<exists>s. parse_test_spec oob default_presets sample_body = Inr s"
  by (simp add: parse_test_spec_def sample_tc sample_names spec_opt_string_def spec_req_string_def
      spec_opt_integer_def json_member_def guardE_def del: bindE_eq_Inr_iff)
    (simp add: sample_body_def sample_tc sample_names has_sprt_bounds_def json_member_def
      sample_sprt [unfolded sample_body_def] int64_of_json_def wrap_int_def Let_def
      del: bindE_eq_Inr_iff)

text \<open>
  What validation guarantees. If the platform's out-of-range result of
  \<^verbatim>\<open>std::llround\<close> is a multiple of \<open>2 ^ 32\<close>, as it is on x86-64, every accepted body gives
  a specification with a name, safe refs and book, positive and bounded time control, hash,
  pair count, a 32-bit priority, and SPRT parameters exactly for an SPRT test.
\<close>

theorem parse_test_spec_sound:
  assumes "parse_test_spec oob presets body = Inr s" and "wrap_int 32 oob = 0"
  shows "spec_wf s"
  using assms by (rule parse_test_spec_wf)

theorem parse_test_spec_sound_witness:
  "\<exists>s. parse_test_spec (- (2 ^ 63)) default_presets sample_body = Inr s \<and> spec_wf s"
  using parse_test_spec_sound [of "- (2 ^ 63)" default_presets sample_body] sample_parsed [of "- (2 ^ 63)"]
  by (auto simp: wrap_int_def)

text \<open>
  an increment beyond the range of \<^verbatim>\<open>long long\<close> passes the range check. With the
  out-of-range result of x86-64 the time control \<open>10+99999999999999999999\<close> is accepted, with
  an increment of zero, although the limit is one hour.
\<close>

theorem parse_tc_increment_overflow:
  "parse_tc (- (2 ^ 63)) ''10+99999999999999999999'' = Inr \<lparr>tc_base = 10000, tc_increment = 0\<rparr>"
  by (simp add: parse_tc_def Let_def sample_seconds sample_round cpp_llround_def in_int_range_def
      wrap_int_def del: bindE_eq_Inr_iff)

text \<open>
  Names that reach the shell, a URL or a path. A valid ref has no character outside
  \<open>[A-Za-z0-9._/-]\<close>, no leading dash or slash, no trailing slash and no \<open>..\<close>; a valid book
  name has no slash and does not start with a dot.
\<close>

theorem valid_names_safe:
  "(valid_ref r \<longleftrightarrow> r \<noteq> [] \<and> length r \<le> 255 \<and> list_all ref_char r \<and>
      hd r \<noteq> CHR ''-'' \<and> hd r \<noteq> CHR ''/'' \<and> last r \<noteq> CHR ''/'' \<and> (\<nexists>u v. r = u @ ''..'' @ v)) \<and>
   \<not> (valid_book_name n \<and> (CHR ''/'' \<in> set n \<or> n = [] \<or> hd n = CHR ''.'' \<or> 255 < length n))"
proof
  show "valid_ref r \<longleftrightarrow> r \<noteq> [] \<and> length r \<le> 255 \<and> list_all ref_char r \<and>
      hd r \<noteq> CHR ''-'' \<and> hd r \<noteq> CHR ''/'' \<and> last r \<noteq> CHR ''/'' \<and> (\<nexists>u v. r = u @ ''..'' @ v)"
    by (auto simp: valid_ref_def contains_str_iff)
next
  show "\<not> (valid_book_name n \<and> (CHR ''/'' \<in> set n \<or> n = [] \<or> hd n = CHR ''.'' \<or> 255 < length n))"
    using valid_book_name_safe [of n] by auto
qed

end
