(* ===== verification/Books.thy ===== *)
theory Books
  imports CppStrings "HOL-Library.Word"
begin

unbundle bit_operations_syntax

text \<open>
  server/books.hpp and server/books.cpp: EPD lines to FENs, the cached count of a book's
  positions, the SplitMix64 generator and the reservoir sample of a book.

  The file system is a parameter: a map from a path to the size, modification time and
  contents of the file there.
\<close>

section \<open>Positions\<close>

definition is_counter :: "string \<Rightarrow> bool" where
  "is_counter s \<longleftrightarrow> s \<noteq> [] \<and> list_all is_digit s"

definition board_chars :: string where
  "board_chars = ''pnbrqkPNBRQK12345678''"

text \<open>The loop over the board: counts ranks, fails on a foreign character.\<close>

fun count_ranks :: "string \<Rightarrow> nat \<Rightarrow> nat option" where
  "count_ranks [] ranks = Some ranks"
| "count_ranks (c # cs) ranks =
     (if c = CHR ''/'' then count_ranks cs (ranks + 1)
      else if c \<notin> set board_chars then None
      else count_ranks cs ranks)"

definition valid_board :: "string \<Rightarrow> bool" where
  "valid_board board \<longleftrightarrow> count_ranks board 1 = Some 8"

definition epd_to_fen :: "string \<Rightarrow> string option" where
  "epd_to_fen line =
     (case stream_words line of
        board # side # castling # ep # rest \<Rightarrow>
          if hd board = CHR ''#'' then None
          else if side \<noteq> ''w'' \<and> side \<noteq> ''b'' then None
          else if \<not> valid_board board then None
          else let fen = board @ '' '' @ side @ '' '' @ castling @ '' '' @ ep
               in (case rest of
                     halfmove # fullmove # _ \<Rightarrow>
                       if is_counter halfmove \<and> is_counter fullmove
                       then Some (fen @ '' '' @ halfmove @ '' '' @ fullmove)
                       else Some (fen @ '' 0 1'')
                   | _ \<Rightarrow> Some (fen @ '' 0 1''))
      | _ \<Rightarrow> None)"

record file_info =
  f_size :: int
  f_mtime :: int
  f_contents :: string

type_synonym file_system = "string \<Rightarrow> file_info option"

text \<open>
  \<^verbatim>\<open>for_each_position\<close>: the valid positions of a book in order; a file that cannot be
  opened throws.
\<close>

definition book_positions :: "string \<Rightarrow> string list" where
  "book_positions contents = List.map_filter epd_to_fen (getlines newline contents)"

definition for_each_position :: "file_system \<Rightarrow> string \<Rightarrow> string list result" where
  "for_each_position fs book =
     (case fs book of
        None \<Rightarrow> Inl (RuntimeError (''cannot open book: '' @ book))
      | Some f \<Rightarrow> Inr (book_positions (f_contents f)))"

text \<open>
  The cache maps a path to the size, time and count it was filled with. A missing file fails in
  \<^verbatim>\<open>fs::file_size\<close>; the wording of that error is the standard library's.
\<close>

type_synonym book_cache = "string \<Rightarrow> (int \<times> int \<times> nat) option"

definition count_book_positions ::
  "file_system \<Rightarrow> book_cache \<Rightarrow> string \<Rightarrow> (nat \<times> book_cache) result" where
  "count_book_positions fs cache book =
     (case fs book of
        None \<Rightarrow> Inl (RuntimeError (''filesystem error: cannot get file size: '' @ book))
      | Some f \<Rightarrow>
          (case cache book of
             Some (sz, mt, n) \<Rightarrow>
               if sz = f_size f \<and> mt = f_mtime f then Inr (n, cache)
               else bindE (for_each_position fs book) (\<lambda>ps.
                      Inr (length ps, cache(book \<mapsto> (f_size f, f_mtime f, length ps))))
           | None \<Rightarrow>
               bindE (for_each_position fs book) (\<lambda>ps.
                 Inr (length ps, cache(book \<mapsto> (f_size f, f_mtime f, length ps))))))"

section \<open>The generator and the sample\<close>

type_synonym u64 = "64 word"

record splitmix64 =
  sm_state :: u64

definition splitmix_next :: "splitmix64 \<Rightarrow> u64 \<times> splitmix64" where
  "splitmix_next g =
     (let s = sm_state g + 0x9e3779b97f4a7c15;
          z = (s XOR drop_bit 30 s) * 0xbf58476d1ce4e5b9;
          z = (z XOR drop_bit 27 z) * 0x94d049bb133111eb
      in (z XOR drop_bit 31 z, g\<lparr>sm_state := s\<rparr>))"

text \<open>
  One call of the lambda of \<^verbatim>\<open>sample_book\<close>: the reservoir, the generator and the number
  of positions seen.
\<close>

definition reservoir_step ::
  "nat \<Rightarrow> 'a \<Rightarrow> 'a list \<times> splitmix64 \<times> nat \<Rightarrow> 'a list \<times> splitmix64 \<times> nat" where
  "reservoir_step k fen st =
     (case st of (reservoir, rng, seen) \<Rightarrow>
        if length reservoir < k then (reservoir @ [fen], rng, seen + 1)
        else let (r, rng) = splitmix_next rng; j = unat r mod (seen + 1)
             in (if j < k then reservoir[j := fen] else reservoir, rng, seen + 1))"

definition reservoir_sample :: "nat \<Rightarrow> u64 \<Rightarrow> 'a list \<Rightarrow> 'a list" where
  "reservoir_sample k seed xs =
     fst (fold (reservoir_step k) xs ([], \<lparr>sm_state = seed\<rparr>, 0))"

definition sample_book :: "file_system \<Rightarrow> string \<Rightarrow> nat \<Rightarrow> u64 \<Rightarrow> string list result" where
  "sample_book fs book k seed =
     bindE (for_each_position fs book) (\<lambda>ps. Inr (reservoir_sample k seed ps))"

section \<open>Lemmas on positions\<close>

lemma is_counter_word: "is_counter w \<Longrightarrow> is_word w"
  by (auto simp: is_counter_def is_word_def list_all_iff digit_not_space)

lemma side_words: "is_word ''w''" "is_word ''b''" "is_word ''0''" "is_word ''1''"
  by (auto simp: is_word_def is_space_def byte_def)

text \<open>A result of the conversion is a line of six words: its fields, joined by blanks.\<close>

lemma epd_to_fen_fields:
  assumes "epd_to_fen line = Some fen"
  obtains board side castling ep half full where
    "fen = join_with '' '' [board, side, castling, ep, half, full]"
    "stream_words fen = [board, side, castling, ep, half, full]"
    "hd board \<noteq> CHR ''#''" "side = ''w'' \<or> side = ''b''" "valid_board board"
    "is_counter half" "is_counter full"
    "take 4 (stream_words line) = [board, side, castling, ep]"
proof -
  from assms obtain board side castling ep rest where
    ws: "stream_words line = board # side # castling # ep # rest" and
    ok: "hd board \<noteq> CHR ''#''" "side = ''w'' \<or> side = ''b''" "valid_board board"
    by (auto simp: epd_to_fen_def split: list.splits if_splits)
  have words: "is_word board" "is_word side" "is_word castling" "is_word ep"
    using stream_words_are_words [of _ line] by (auto simp: ws)
  have counters: "is_counter ''0''" "is_counter ''1''"
    by (auto simp: is_counter_def is_digit_def byte_def)
  obtain half full where c: "is_counter half" "is_counter full" and
    fen: "fen = join_with '' '' [board, side, castling, ep, half, full]"
  proof (cases "\<exists>h f r. rest = h # f # r \<and> is_counter h \<and> is_counter f")
    case True
    then obtain h f r where "rest = h # f # r" "is_counter h" "is_counter f" by blast
    then show thesis using assms ok that [of h f] by (auto simp: epd_to_fen_def ws Let_def)
  next
    case False
    then have "fen = join_with '' '' [board, side, castling, ep, ''0'', ''1'']"
      using assms ok by (auto simp: epd_to_fen_def ws Let_def split: list.splits if_splits)
    then show thesis using counters that by blast
  qed
  moreover have "stream_words fen = [board, side, castling, ep, half, full]"
    unfolding fen using words c by (intro stream_words_join) (auto dest: is_counter_word)
  ultimately show thesis using ok that ws by simp
qed

lemma epd_to_fen_idem:
  assumes "epd_to_fen line = Some fen"
  shows "epd_to_fen fen = Some fen"
proof -
  from assms obtain board side castling ep half full where
    fen: "fen = join_with '' '' [board, side, castling, ep, half, full]" and
    ws: "stream_words fen = [board, side, castling, ep, half, full]" and
    ok: "hd board \<noteq> CHR ''#''" "side = ''w'' \<or> side = ''b''" "valid_board board"
      "is_counter half" "is_counter full"
    by (rule epd_to_fen_fields)
  have "epd_to_fen fen = Some (join_with '' '' [board, side, castling, ep, half, full])"
    unfolding epd_to_fen_def ws using ok by auto
  then show ?thesis by (simp only: fen)
qed

text \<open>A coherent cache entry agrees with the file it was made from while that file is unchanged.\<close>

definition cache_coherent :: "file_system \<Rightarrow> book_cache \<Rightarrow> bool" where
  "cache_coherent fs cache \<longleftrightarrow>
     (\<forall>book f n. cache book = Some (f_size f, f_mtime f, n) \<longrightarrow> fs book = Some f \<longrightarrow> n = length (book_positions (f_contents f)))"

lemma count_book_positions_correct:
  assumes "cache_coherent fs cache" and "fs book = Some f"
  shows "\<exists>cache'. count_book_positions fs cache book = Inr (length (book_positions (f_contents f)), cache')
           \<and> cache_coherent fs cache'"
proof (cases "\<exists>n. cache book = Some (f_size f, f_mtime f, n)")
  case True
  then show ?thesis using assms by (auto simp: count_book_positions_def cache_coherent_def)
next
  case False
  let ?n = "length (book_positions (f_contents f))"
  have "count_book_positions fs cache book = Inr (?n, cache(book \<mapsto> (f_size f, f_mtime f, ?n)))"
    using False assms(2)
    by (auto simp: count_book_positions_def for_each_position_def split: option.splits)
  moreover have "cache_coherent fs (cache(book \<mapsto> (f_size f, f_mtime f, ?n)))"
    using assms by (auto simp: cache_coherent_def)
  ultimately show ?thesis by blast
qed

section \<open>Lemmas on the sample\<close>

text \<open>
  After \<open>n\<close> positions the reservoir holds the positions at distinct indices below \<open>n\<close>,
  \<open>min k n\<close> of them.
\<close>

definition reservoir_inv :: "nat \<Rightarrow> 'a list \<Rightarrow> nat \<Rightarrow> 'a list \<times> splitmix64 \<times> nat \<Rightarrow> bool" where
  "reservoir_inv k xs n st \<longleftrightarrow>
     (case st of (reservoir, rng, seen) \<Rightarrow>
        seen = n \<and> length reservoir = min k n \<and>
        (\<exists>is. distinct is \<and> set is \<subseteq> {..<n} \<and> reservoir = map ((!) xs) is))"

lemma reservoir_invI:
  "length res = min k n \<Longrightarrow> distinct js \<Longrightarrow> set js \<subseteq> {..<n} \<Longrightarrow> res = map ((!) xs) js
    \<Longrightarrow> reservoir_inv k xs n (res, rng, n)"
  by (auto simp: reservoir_inv_def)

lemma reservoir_step_inv:
  assumes "reservoir_inv k xs n st"
  shows "reservoir_inv k xs (Suc n) (reservoir_step k (xs ! n) st)"
proof -
  obtain res rng seen where st: "st = (res, rng, seen)" by (cases st)
  obtain r rng' where next_r: "splitmix_next rng = (r, rng')" by fastforce
  from assms obtain js where seen: "seen = n" and len: "length res = min k n"
    and js: "distinct js" "set js \<subseteq> {..<n}" "res = map ((!) xs) js"
    unfolding st reservoir_inv_def by auto
  define j where "j = unat r mod Suc n"
  consider "length res < k" | "\<not> length res < k" "j < k" | "\<not> length res < k" "\<not> j < k"
    by blast
  then show ?thesis
  proof cases
    case 1
    then have "reservoir_step k (xs ! n) st = (res @ [xs ! n], rng, Suc n)"
      by (simp add: st reservoir_step_def seen)
    moreover have "reservoir_inv k xs (Suc n) (res @ [xs ! n], rng, Suc n)"
      using 1 js len by (intro reservoir_invI [of _ _ _ "js @ [n]"]) auto
    ultimately show ?thesis by simp
  next
    case 2
    then have "reservoir_step k (xs ! n) st = (res[j := xs ! n], rng', Suc n)"
      by (simp add: st reservoir_step_def seen next_r j_def)
    moreover have "set (js[j := n]) \<subseteq> {..<Suc n}"
      using js(2) set_update_subset_insert [of js j n] by auto
    then have "reservoir_inv k xs (Suc n) (res[j := xs ! n], rng', Suc n)"
      using 2 js len
      by (intro reservoir_invI [of _ _ _ "js[j := n]"])
        (auto simp: map_update intro!: distinct_list_update)
    ultimately show ?thesis by simp
  next
    case 3
    then have "reservoir_step k (xs ! n) st = (res, rng', Suc n)"
      by (simp add: st reservoir_step_def seen next_r j_def)
    moreover have "reservoir_inv k xs (Suc n) (res, rng', Suc n)"
      using 3 js len by (intro reservoir_invI [of _ _ _ js]) auto
    ultimately show ?thesis by simp
  qed
qed

lemma reservoir_fold_inv:
  assumes "n \<le> length xs"
  shows "reservoir_inv k xs n (fold (reservoir_step k) (take n xs) ([], rng, 0))"
  using assms
proof (induction n)
  case 0
  then show ?case by (simp add: reservoir_inv_def)
next
  case (Suc n)
  then have "fold (reservoir_step k) (take (Suc n) xs) ([], rng, 0)
      = reservoir_step k (xs ! n) (fold (reservoir_step k) (take n xs) ([], rng, 0))"
    by (simp add: take_Suc_conv_app_nth)
  then show ?case using reservoir_step_inv Suc by (metis Suc_leD)
qed

lemma reservoir_sample_indices:
  obtains js where "distinct js" "set js \<subseteq> {..<length xs}" "length js = min k (length xs)"
    "reservoir_sample k seed xs = map ((!) xs) js"
  using reservoir_fold_inv [of "length xs" xs k "\<lparr>sm_state = seed\<rparr>"]
  unfolding reservoir_inv_def reservoir_sample_def by (auto split: prod.splits)

section \<open>Properties\<close>

lemma sample_epd:
  "epd_to_fen ''8/8/8/4k3/8/8/4K3/8 b  -  - 3 41 x'' = Some ''8/8/8/4k3/8/8/4K3/8 b - - 3 41''"
  by code_simp

text \<open>
  The conversion of a line. A position it accepts is a FEN of six fields that keeps the
  line's first four, has eight ranks, a side to move and two counters, and that the conversion
  maps to itself.
\<close>

theorem epd_to_fen_normal_form:
  assumes "epd_to_fen line = Some fen"
  shows "epd_to_fen fen = Some fen \<and> length (stream_words fen) = 6 \<and>
         take 4 (stream_words fen) = take 4 (stream_words line) \<and>
         valid_board (stream_words fen ! 0) \<and> stream_words fen ! 1 \<in> {''w'', ''b''} \<and>
         list_all is_counter (drop 4 (stream_words fen))"
proof -
  from assms obtain board side castling ep half full where
    ws: "stream_words fen = [board, side, castling, ep, half, full]" and
    ok: "side = ''w'' \<or> side = ''b''" "valid_board board" "is_counter half" "is_counter full"
      "take 4 (stream_words line) = [board, side, castling, ep]"
    by (rule epd_to_fen_fields)
  show ?thesis
    unfolding ws ok(5) using epd_to_fen_idem [OF assms] ok(1-4) by simp
qed

theorem epd_to_fen_normal_form_witness:
  "epd_to_fen ''8/8/8/4k3/8/8/4K3/8 b - - 3 41'' = Some ''8/8/8/4k3/8/8/4K3/8 b - - 3 41'' \<and>
   length (stream_words ''8/8/8/4k3/8/8/4K3/8 b - - 3 41'') = 6"
  using epd_to_fen_normal_form [of "''8/8/8/4k3/8/8/4K3/8 b  -  - 3 41 x''" "''8/8/8/4k3/8/8/4K3/8 b - - 3 41''"]
    sample_epd by blast

text \<open>
  the sample of a book. For \<open>k\<close> requested positions the result holds \<open>min k n\<close> of the
  book's \<open>n\<close> positions, taken at distinct indices: no position of the book is used twice.
\<close>

theorem sample_book_distinct:
  assumes "fs book = Some f"
  shows "\<exists>js. sample_book fs book k seed = Inr (map ((!) (book_positions (f_contents f))) js) \<and>
     distinct js \<and> list_all (\<lambda>j. j < length (book_positions (f_contents f))) js \<and>
     length js = min k (length (book_positions (f_contents f)))"
proof -
  let ?xs = "book_positions (f_contents f)"
  obtain js where js: "distinct js" "set js \<subseteq> {..<length ?xs}" "length js = min k (length ?xs)"
    "reservoir_sample k seed ?xs = map ((!) ?xs) js"
    by (rule reservoir_sample_indices)
  then have "sample_book fs book k seed = Inr (map ((!) ?xs) js)"
    using assms by (simp add: sample_book_def for_each_position_def)
  then show ?thesis using js by (auto simp: list_all_iff)
qed

theorem sample_book_distinct_witness:
  "\<exists>js. sample_book [''b'' \<mapsto> \<lparr>f_size = 0, f_mtime = 0, f_contents = ''''\<rparr>] ''b'' 3 7 =
       Inr (map ((!) (book_positions '''')) js) \<and>
     distinct js \<and> list_all (\<lambda>j. j < length (book_positions '''')) js \<and>
     length js = min 3 (length (book_positions ''''))"
  using sample_book_distinct [of "[''b'' \<mapsto> \<lparr>f_size = 0, f_mtime = 0, f_contents = ''''\<rparr>]" "''b''"
      "\<lparr>f_size = 0, f_mtime = 0, f_contents = ''''\<rparr>" 3 7] by simp

text \<open>
  The cached count. While the files behind the cache's entries keep their contents when
  they keep size and time, the count is the number of positions of the book, and the updated
  cache is coherent again.
\<close>

theorem count_book_positions_exact:
  assumes "cache_coherent fs cache" and "fs book = Some f"
  shows "\<exists>cache'. count_book_positions fs cache book = Inr (length (book_positions (f_contents f)), cache')
           \<and> cache_coherent fs cache'"
  using assms by (rule count_book_positions_correct)

theorem count_book_positions_exact_witness:
  "\<exists>cache'. count_book_positions [''b'' \<mapsto> \<lparr>f_size = 0, f_mtime = 0, f_contents = ''''\<rparr>] Map.empty ''b''
       = Inr (length (book_positions ''''), cache')
     \<and> cache_coherent [''b'' \<mapsto> \<lparr>f_size = 0, f_mtime = 0, f_contents = ''''\<rparr>] cache'"
  using count_book_positions_exact [of "[''b'' \<mapsto> \<lparr>f_size = 0, f_mtime = 0, f_contents = ''''\<rparr>]"
      Map.empty "''b''" "\<lparr>f_size = 0, f_mtime = 0, f_contents = ''''\<rparr>"]
  by (simp add: cache_coherent_def)

end
