(* ===== verification/Database.thy ===== *)
theory Database
  imports Sanity Spec
begin

text \<open>
  The database of migrations/*.sql: enum types, one record per table row, the database as
  the lists of its rows with the identity sequences, the texts of the enums, the inserts
  with the constraints Postgres checks, and the view \<^verbatim>\<open>pair_outcomes\<close>.

  Points in time are real numbers (seconds). A row is identified by its primary key.
\<close>

section \<open>Enum types\<close>

datatype test_kind = Sprt | Gauntlet

datatype test_status = Validating | InvalidTest | Queued | Running | Finished | Stopped

datatype sprt_preset = Gainer | Nonreg | Custom

datatype test_result = ResultPending | ResultAccepted | ResultRejected | ResultInconclusive
  | ResultCompleted

datatype client_status = Active | Idle | Banned

datatype pinning_mode = Pinned | HomogeneousUnpinned | QosHint

datatype job_status = Pending | Leased | Completed | Discarded

datatype game_outcome = CandidateWin | Drawn | CandidateLoss

datatype game_termination = NormalEnd | Timeout | IllegalMove | Crash | AdjudicatedEnd | OtherEnd

text \<open>Casts between an enum and its text; a text that is no label is an error of Postgres.\<close>

fun kind_text :: "test_kind \<Rightarrow> string" where
  "kind_text Sprt = ''sprt''"
| "kind_text Gauntlet = ''gauntlet''"

fun status_text :: "test_status \<Rightarrow> string" where
  "status_text Validating = ''validating''"
| "status_text InvalidTest = ''invalid''"
| "status_text Queued = ''queued''"
| "status_text Running = ''running''"
| "status_text Finished = ''finished''"
| "status_text Stopped = ''stopped''"

fun result_text :: "test_result \<Rightarrow> string" where
  "result_text ResultPending = ''pending''"
| "result_text ResultAccepted = ''accepted''"
| "result_text ResultRejected = ''rejected''"
| "result_text ResultInconclusive = ''inconclusive''"
| "result_text ResultCompleted = ''completed''"

definition sql_enum :: "(string \<times> 'a) list \<Rightarrow> string \<Rightarrow> 'a result" where
  "sql_enum labels s =
     (case map_of labels s of
        None \<Rightarrow> Inl (SqlError (''invalid input value for enum: '' @ s))
      | Some v \<Rightarrow> Inr v)"

definition sql_opt :: "('a \<Rightarrow> 'b result) \<Rightarrow> 'a option \<Rightarrow> 'b option result" where
  "sql_opt f v = (case v of None \<Rightarrow> Inr None | Some x \<Rightarrow> bindE (f x) (\<lambda>y. Inr (Some y)))"

definition kind_of_text :: "string \<Rightarrow> test_kind result" where
  "kind_of_text = sql_enum [(''sprt'', Sprt), (''gauntlet'', Gauntlet)]"

definition preset_of_text :: "string \<Rightarrow> sprt_preset result" where
  "preset_of_text = sql_enum [(''gainer'', Gainer), (''nonreg'', Nonreg), (''custom'', Custom)]"

definition pinning_of_text :: "string \<Rightarrow> pinning_mode result" where
  "pinning_of_text = sql_enum [(''pinned'', Pinned), (''homogeneous_unpinned'', HomogeneousUnpinned),
     (''qos_hint'', QosHint)]"

definition outcome_of_text :: "string \<Rightarrow> game_outcome result" where
  "outcome_of_text = sql_enum [(''candidate_win'', CandidateWin), (''draw'', Drawn),
     (''candidate_loss'', CandidateLoss)]"

definition termination_of_text :: "string \<Rightarrow> game_termination result" where
  "termination_of_text = sql_enum [(''normal'', NormalEnd), (''timeout'', Timeout),
     (''illegal_move'', IllegalMove), (''crash'', Crash), (''adjudication'', AdjudicatedEnd),
     (''other'', OtherEnd)]"

section \<open>Rows\<close>

record test_row =
  t_id :: int
  t_name :: string
  t_kind :: test_kind
  t_status :: test_status
  t_result :: test_result
  t_candidate_ref :: string
  t_candidate_commit :: string
  t_baseline_ref :: string
  t_baseline_commit :: string
  t_tc_base_ms :: int
  t_tc_increment_ms :: int
  t_hash_mb :: int
  t_threads :: int
  t_book_name :: string
  t_total_pairs :: int
  t_sprt_preset :: "sprt_preset option"
  t_sprt_elo0 :: "real option"
  t_sprt_elo1 :: "real option"
  t_sprt_alpha :: "real option"
  t_sprt_beta :: "real option"
  t_priority :: int
  t_validation_log :: "string option"
  t_submitted_by :: "string option"
  t_created_at :: real
  t_started_at :: "real option"
  t_finished_at :: "real option"
  t_adj_draw_movenumber :: "int option"
  t_adj_draw_movecount :: "int option"
  t_adj_draw_score_cp :: "int option"
  t_adj_resign_movecount :: "int option"
  t_adj_resign_score_cp :: "int option"
  t_adj_resign_twosided :: "bool option"

record client_row =
  c_id :: int
  c_name :: string
  c_hostname :: "string option"
  c_os :: "string option"
  c_cpu_model :: "string option"
  c_cpu_arch_target :: "string option"
  c_pinning_mode :: pinning_mode
  c_core_topology :: "string option"
  c_bench_ref_commit :: "string option"
  c_nproc_total :: "int option"
  c_slots :: int
  c_fastchess_version :: "string option"
  c_cpu_factor :: "real option"
  c_status :: client_status
  c_first_seen :: real
  c_last_seen :: real

record position_row =
  op_id :: int
  op_test :: int
  op_seq :: int
  op_fen :: string

record pair_row =
  jp_id :: int
  jp_test :: int
  jp_position :: int
  jp_status :: job_status
  jp_dispatch_order :: real
  jp_leased_to :: "int option"
  jp_leased_at :: "real option"
  jp_lease_expires_at :: "real option"
  jp_attempts :: int
  jp_completed_at :: "real option"
  jp_discarded_reason :: "string option"

record game_row =
  g_id :: int
  g_pair :: int
  g_test :: int
  g_client :: int
  g_slot_index :: int
  g_core_id :: "int option"
  g_game_in_pair :: int
  g_candidate_is_white :: bool
  g_outcome :: game_outcome
  g_termination :: game_termination
  g_ply_count :: "int option"
  g_duration_ms :: "int option"
  g_cpu_factor_at_play :: real
  g_tc_base_effective_ms :: int
  g_tc_increment_effective_ms :: int
  g_valid :: bool
  g_invalid_reason :: "string option"
  g_candidate_nodes :: "int option"
  g_candidate_time_ms :: "int option"
  g_baseline_nodes :: "int option"
  g_baseline_time_ms :: "int option"
  g_created_at :: real

record pgn_row =
  pg_game :: int
  pg_pgn_gz :: string

record stats_row =
  st_test :: int
  st_pairs_valid :: int
  st_penta_ll :: int
  st_penta_ld :: int
  st_penta_dd_wl :: int
  st_penta_wd :: int
  st_penta_ww :: int
  st_llr :: "real option"
  st_llr_lower :: "real option"
  st_llr_upper :: "real option"
  st_elo :: "real option"
  st_elo_ci_low :: "real option"
  st_elo_ci_high :: "real option"
  st_games_wins :: int
  st_games_draws :: int
  st_games_losses :: int
  st_updated_at :: real

record history_row =
  h_id :: int
  h_test :: int
  h_pairs_valid :: int
  h_llr :: "real option"
  h_elo :: "real option"
  h_recorded_at :: real

text \<open>The tables, in insertion order, and the next value of each identity sequence.\<close>

record db =
  db_tests :: "test_row list"
  db_clients :: "client_row list"
  db_positions :: "position_row list"
  db_pairs :: "pair_row list"
  db_games :: "game_row list"
  db_pgns :: "pgn_row list"
  db_stats :: "stats_row list"
  db_history :: "history_row list"
  next_test :: int
  next_client :: int
  next_position :: int
  next_pair :: int
  next_game :: int
  next_history :: int

definition empty_db :: db where
  "empty_db = \<lparr>db_tests = [], db_clients = [], db_positions = [], db_pairs = [], db_games = [],
     db_pgns = [], db_stats = [], db_history = [], next_test = 1, next_client = 1,
     next_position = 1, next_pair = 1, next_game = 1, next_history = 1\<rparr>"

section \<open>Lookups\<close>

definition find_test :: "db \<Rightarrow> int \<Rightarrow> test_row option" where
  "find_test db i = find (\<lambda>t. t_id t = i) (db_tests db)"

definition find_client :: "db \<Rightarrow> int \<Rightarrow> client_row option" where
  "find_client db i = find (\<lambda>c. c_id c = i) (db_clients db)"

definition find_pair :: "db \<Rightarrow> int \<Rightarrow> pair_row option" where
  "find_pair db i = find (\<lambda>p. jp_id p = i) (db_pairs db)"

definition find_position :: "db \<Rightarrow> int \<Rightarrow> position_row option" where
  "find_position db i = find (\<lambda>p. op_id p = i) (db_positions db)"

definition running_test :: "db \<Rightarrow> test_row option" where
  "running_test db = find (\<lambda>t. t_status t = Running) (db_tests db)"

section \<open>The view \<^verbatim>\<open>pair_outcomes\<close>\<close>

fun outcome_score :: "game_outcome \<Rightarrow> real" where
  "outcome_score CandidateWin = 1"
| "outcome_score Drawn = 1 / 2"
| "outcome_score CandidateLoss = 0"

record pair_outcome =
  po_pair :: int
  po_test :: int
  po_client :: int
  po_score :: real

text \<open>The valid games of a pair, one group per client.\<close>

definition valid_games :: "db \<Rightarrow> int \<Rightarrow> game_row list" where
  "valid_games db i = filter (\<lambda>g. g_pair g = i \<and> g_valid g) (db_games db)"

definition pair_outcome_rows :: "db \<Rightarrow> pair_row \<Rightarrow> pair_outcome list" where
  "pair_outcome_rows db p =
     (if jp_status p \<noteq> Completed then []
      else let gs = valid_games db (jp_id p)
           in map (\<lambda>c. \<lparr>po_pair = jp_id p, po_test = jp_test p, po_client = c,
                        po_score = sum_list (map (outcome_score \<circ> g_outcome)
                                              (filter (\<lambda>g. g_client g = c) gs))\<rparr>)
                (filter (\<lambda>c. length (filter (\<lambda>g. g_client g = c) gs) = 2)
                   (remdups (map g_client gs))))"

definition pair_outcomes :: "db \<Rightarrow> pair_outcome list" where
  "pair_outcomes db = concat (map (pair_outcome_rows db) (db_pairs db))"

section \<open>Postgres arithmetic\<close>

text \<open>The value of an \<^verbatim>\<open>INTEGER\<close> expression.\<close>

definition pg_int4 :: "int \<Rightarrow> int result" where
  "pg_int4 k = (if int32 k then Inr k else Inl (SqlError ''integer out of range''))"

lemma pg_int4_Inr [simp]: "pg_int4 k = Inr n \<longleftrightarrow> int32 k \<and> n = k"
  by (auto simp: pg_int4_def)

section \<open>Lemmas\<close>

lemma sql_enum_Inr: "sql_enum labels s = Inr v \<Longrightarrow> (s, v) \<in> set labels"
  by (auto simp: sql_enum_def dest: map_of_SomeD split: option.splits)

lemma find_test_Some: "find_test db i = Some t \<Longrightarrow> t \<in> set (db_tests db) \<and> t_id t = i"
  unfolding find_test_def by (drule find_Some_in)

lemma find_client_Some: "find_client db i = Some c \<Longrightarrow> c \<in> set (db_clients db) \<and> c_id c = i"
  unfolding find_client_def by (drule find_Some_in)

lemma find_pair_Some: "find_pair db i = Some p \<Longrightarrow> p \<in> set (db_pairs db) \<and> jp_id p = i"
  unfolding find_pair_def by (drule find_Some_in)

lemma running_test_Some: "running_test db = Some t \<Longrightarrow> t \<in> set (db_tests db) \<and> t_status t = Running"
  unfolding running_test_def by (drule find_Some_in)

lemma running_test_None: "running_test db = None \<longleftrightarrow> (\<forall>t \<in> set (db_tests db). t_status t \<noteq> Running)"
  unfolding running_test_def by (auto simp: find_None_iff)

end
