(* ===== verification/Lifecycle.thy ===== *)
theory Lifecycle
  imports Database Gsprt Elo
begin

text \<open>
  server/test_lifecycle.hpp and server/test_lifecycle.cpp: the recalculation of a test's
  statistics, its stop conditions, the promotion of the next test of the queue, and the
  snapshot of a test. A function on a \<^verbatim>\<open>pqxx::work\<close> is a function of the database;
  \<open>now\<close> is the transaction's \<^verbatim>\<open>now()\<close>. An exception leaves the transaction, and
  with it every change of the caller.
\<close>

section \<open>Promotion\<close>

text \<open>\<^verbatim>\<open>ORDER BY priority DESC, created_at, id\<close> over the queued tests.\<close>

definition queue_key :: "test_row \<Rightarrow> int \<times> real \<times> int" where
  "queue_key t = (- t_priority t, t_created_at t, t_id t)"

definition queue_order :: "db \<Rightarrow> test_row list" where
  "queue_order db = sort_key queue_key (filter (\<lambda>t. t_status t = Queued) (db_tests db))"

definition set_running :: "real \<Rightarrow> test_row \<Rightarrow> test_row" where
  "set_running now t = t\<lparr>t_status := Running, t_started_at := Some now\<rparr>"

definition update_test :: "int \<Rightarrow> (test_row \<Rightarrow> test_row) \<Rightarrow> db \<Rightarrow> db" where
  "update_test i f db = db\<lparr>db_tests := update_where (\<lambda>t. t_id t = i) f (db_tests db)\<rparr>"

definition promote_next_test :: "real \<Rightarrow> db \<Rightarrow> int option \<times> db" where
  "promote_next_test now db =
     (case queue_order db of
        [] \<Rightarrow> (None, db)
      | t # _ \<Rightarrow> if running_test db \<noteq> None then (None, db)
                else (Some (t_id t), update_test (t_id t) (set_running now) db))"

section \<open>Recalculation\<close>

text \<open>The scores of a test's pairs, grouped: one addition to the frequencies per distinct score.\<close>

definition test_outcomes :: "db \<Rightarrow> int \<Rightarrow> pair_outcome list" where
  "test_outcomes db test = filter (\<lambda>po. po_test po = test) (pair_outcomes db)"

definition count_scores :: "pair_outcome list \<Rightarrow> real \<Rightarrow> int" where
  "count_scores pos s = int (length (filter (\<lambda>po. po_score po = s) pos))"

definition collect_penta :: "pair_outcome list \<Rightarrow> pentanomial result" where
  "collect_penta pos =
     foldE (\<lambda>s p. bindE (category_from_pair_score s) (\<lambda>c. Inr (penta_add p c (count_scores pos s))))
       (remdups (map po_score pos)) empty_pentanomial"

text \<open>The games of the join with \<^verbatim>\<open>pair_outcomes\<close>, one entry per joined pair of rows.\<close>

definition scored_games :: "db \<Rightarrow> int \<Rightarrow> game_row list" where
  "scored_games db test =
     concat (map (\<lambda>g. map (\<lambda>_. g) (filter (\<lambda>po. po_pair po = g_pair g) (pair_outcomes db)))
       (filter (\<lambda>g. g_test g = test \<and> g_valid g) (db_games db)))"

definition count_outcome :: "game_row list \<Rightarrow> game_outcome \<Rightarrow> int" where
  "count_outcome gs oc = int (length (filter (\<lambda>g. g_outcome g = oc) gs))"

text \<open>A value read from a column that is \<^verbatim>\<open>NULL\<close> throws.\<close>

definition not_null :: "'a option \<Rightarrow> 'a result" where
  "not_null v = (case v of None \<Rightarrow> Inl (RuntimeError ''unexpected null'') | Some x \<Rightarrow> Inr x)"

record sprt_values =
  sv_llr :: "real option"
  sv_lower :: "real option"
  sv_upper :: "real option"
  sv_decision :: sprt_decision

definition sprt_evaluate :: "test_row \<Rightarrow> pentanomial \<Rightarrow> sprt_values result" where
  "sprt_evaluate t penta =
     (if t_kind t \<noteq> Sprt
      then Inr \<lparr>sv_llr = None, sv_lower = None, sv_upper = None, sv_decision = Continue\<rparr>
      else bindE (not_null (t_sprt_elo0 t)) (\<lambda>elo0.
           bindE (not_null (t_sprt_elo1 t)) (\<lambda>elo1.
             let alpha = (case t_sprt_alpha t of None \<Rightarrow> 5 / 100 | Some a \<Rightarrow> a);
                 beta = (case t_sprt_beta t of None \<Rightarrow> 5 / 100 | Some b \<Rightarrow> b);
                 bounds = sprt_bounds alpha beta
             in bindE (llr_normalized elo0 elo1 penta) (\<lambda>llr.
                  Inr \<lparr>sv_llr = Some llr, sv_lower = Some (bound_lower bounds),
                       sv_upper = Some (bound_upper bounds),
                       sv_decision = (if 0 < penta_pairs penta then sprt_decide llr bounds
                                      else Continue)\<rparr>))))"

definition elo_evaluate :: "pentanomial \<Rightarrow> elo_est option result" where
  "elo_evaluate penta =
     (if 0 < penta_pairs penta then bindE (elo_estimate penta) (\<lambda>e. Inr (Some e)) else Inr None)"

definition make_stats ::
  "real \<Rightarrow> int \<Rightarrow> pentanomial \<Rightarrow> game_row list \<Rightarrow> elo_est option \<Rightarrow> sprt_values \<Rightarrow> stats_row" where
  "make_stats now test penta gs e sv =
     \<lparr>st_test = test, st_pairs_valid = penta_pairs penta,
      st_penta_ll = penta_get penta LL, st_penta_ld = penta_get penta LD,
      st_penta_dd_wl = penta_get penta DD_WL, st_penta_wd = penta_get penta WD,
      st_penta_ww = penta_get penta WW,
      st_llr = sv_llr sv, st_llr_lower = sv_lower sv, st_llr_upper = sv_upper sv,
      st_elo = map_option est_elo e, st_elo_ci_low = map_option est_ci_low e,
      st_elo_ci_high = map_option est_ci_high e,
      st_games_wins = count_outcome gs CandidateWin, st_games_draws = count_outcome gs Drawn,
      st_games_losses = count_outcome gs CandidateLoss, st_updated_at = now\<rparr>"

text \<open>\<^verbatim>\<open>INSERT .. ON CONFLICT (test_id) DO UPDATE\<close> .\<close>

definition upsert_stats :: "stats_row \<Rightarrow> db \<Rightarrow> db" where
  "upsert_stats s db =
     (if \<exists>r \<in> set (db_stats db). st_test r = st_test s
      then db\<lparr>db_stats := update_where (\<lambda>r. st_test r = st_test s) (\<lambda>_. s) (db_stats db)\<rparr>
      else db\<lparr>db_stats := db_stats db @ [s]\<rparr>)"

text \<open>The last line of a test's history, by id.\<close>

definition last_history :: "db \<Rightarrow> int \<Rightarrow> history_row option" where
  "last_history db test =
     (case rev (sort_key h_id (filter (\<lambda>h. h_test h = test) (db_history db))) of
        [] \<Rightarrow> None
      | h # _ \<Rightarrow> Some h)"

definition record_history :: "real \<Rightarrow> stats_row \<Rightarrow> db \<Rightarrow> db" where
  "record_history now s db =
     (if map_option h_pairs_valid (last_history db (st_test s)) = Some (st_pairs_valid s) then db
      else db\<lparr>db_history := db_history db @
                [\<lparr>h_id = next_history db, h_test = st_test s, h_pairs_valid = st_pairs_valid s,
                  h_llr = st_llr s, h_elo = st_elo s, h_recorded_at = now\<rparr>],
              next_history := next_history db + 1\<rparr>)"

section \<open>Stop conditions\<close>

definition finish_test :: "real \<Rightarrow> int \<Rightarrow> test_result \<Rightarrow> db \<Rightarrow> db" where
  "finish_test now test res db =
     snd (promote_next_test now
       (update_test test (\<lambda>t. t\<lparr>t_status := Finished, t_result := res, t_finished_at := Some now\<rparr>) db))"

definition live_pairs :: "db \<Rightarrow> int \<Rightarrow> pair_row list" where
  "live_pairs db test =
     filter (\<lambda>p. jp_test p = test \<and> (jp_status p = Pending \<or> jp_status p = Leased)) (db_pairs db)"

definition apply_decision :: "real \<Rightarrow> test_row \<Rightarrow> sprt_decision \<Rightarrow> db \<Rightarrow> db" where
  "apply_decision now t decision db =
     (if t_status t \<noteq> Running then db
      else if decision = AcceptH1 then finish_test now (t_id t) ResultAccepted db
      else if decision = AcceptH0 then finish_test now (t_id t) ResultRejected db
      else if live_pairs db (t_id t) = []
      then finish_test now (t_id t)
             (if t_kind t = Sprt then ResultInconclusive else ResultCompleted) db
      else db)"

definition refresh_test :: "real \<Rightarrow> int \<Rightarrow> db \<Rightarrow> db result" where
  "refresh_test now test db =
     (case find_test db test of
        None \<Rightarrow> Inr db
      | Some t \<Rightarrow>
          bindE (collect_penta (test_outcomes db test)) (\<lambda>penta.
          bindE (elo_evaluate penta) (\<lambda>e.
          bindE (sprt_evaluate t penta) (\<lambda>sv.
            let s = make_stats now test penta (scored_games db test) e sv;
                db = record_history now s (upsert_stats s db)
            in Inr (apply_decision now t (sv_decision sv) db)))))"

section \<open>Reads\<close>

definition running_test_id :: "db \<Rightarrow> int option" where
  "running_test_id db = map_option t_id (running_test db)"

definition adjudication_of :: "test_row \<Rightarrow> adjudication" where
  "adjudication_of t =
     \<lparr>adj_draw = (case t_adj_draw_movenumber t of None \<Rightarrow> None
                  | Some n \<Rightarrow> Some \<lparr>dr_movenumber = n, dr_movecount = the (t_adj_draw_movecount t),
                                    dr_score_cp = the (t_adj_draw_score_cp t)\<rparr>),
      adj_resign = (case t_adj_resign_movecount t of None \<Rightarrow> None
                    | Some n \<Rightarrow> Some \<lparr>rs_movecount = n, rs_score_cp = the (t_adj_resign_score_cp t),
                                      rs_twosided = the (t_adj_resign_twosided t)\<rparr>)\<rparr>"

record test_stats_snapshot =
  sn_test_id :: int
  sn_name :: string
  sn_kind :: string
  sn_status :: string
  sn_result :: string
  sn_total_pairs :: int
  sn_pairs_pending :: int
  sn_pairs_leased :: int
  sn_pairs_completed :: int
  sn_pairs_discarded :: int
  sn_has_stats :: bool
  sn_penta :: pentanomial
  sn_llr :: "real option"
  sn_llr_lower :: "real option"
  sn_llr_upper :: "real option"
  sn_elo :: "real option"
  sn_elo_ci_low :: "real option"
  sn_elo_ci_high :: "real option"
  sn_sprt_elo0 :: "real option"
  sn_sprt_elo1 :: "real option"
  sn_sprt_alpha :: "real option"
  sn_sprt_beta :: "real option"
  sn_updated_at :: "real option"
  sn_candidate_ref :: string
  sn_candidate_commit :: string
  sn_baseline_ref :: string
  sn_baseline_commit :: string
  sn_tc_base_ms :: int
  sn_tc_increment_ms :: int
  sn_hash_mb :: int
  sn_threads :: int
  sn_priority :: int
  sn_book_name :: string
  sn_created_at :: real
  sn_started_at :: "real option"
  sn_finished_at :: "real option"
  sn_adjudication :: adjudication
  sn_wins :: int
  sn_draws :: int
  sn_losses :: int

definition count_pairs :: "db \<Rightarrow> int \<Rightarrow> job_status \<Rightarrow> int" where
  "count_pairs db test st =
     int (length (filter (\<lambda>p. jp_test p = test \<and> jp_status p = st) (db_pairs db)))"

definition find_stats :: "db \<Rightarrow> int \<Rightarrow> stats_row option" where
  "find_stats db test = find (\<lambda>s. st_test s = test) (db_stats db)"

definition stats_penta :: "stats_row \<Rightarrow> pentanomial" where
  "stats_penta s =
     \<lparr>counts = [st_penta_ll s, st_penta_ld s, st_penta_dd_wl s, st_penta_wd s, st_penta_ww s]\<rparr>"

definition load_test_stats :: "db \<Rightarrow> int \<Rightarrow> test_stats_snapshot option" where
  "load_test_stats db test =
     (case find_test db test of
        None \<Rightarrow> None
      | Some t \<Rightarrow>
          let s = find_stats db test; col = (\<lambda>f. Option.bind s f)
          in Some
            \<lparr>sn_test_id = t_id t, sn_name = t_name t, sn_kind = kind_text (t_kind t),
             sn_status = status_text (t_status t), sn_result = result_text (t_result t),
             sn_total_pairs = t_total_pairs t,
             sn_pairs_pending = count_pairs db test Pending,
             sn_pairs_leased = count_pairs db test Leased,
             sn_pairs_completed = count_pairs db test Completed,
             sn_pairs_discarded = count_pairs db test Discarded,
             sn_has_stats = (s \<noteq> None),
             sn_penta = (case s of None \<Rightarrow> empty_pentanomial | Some s \<Rightarrow> stats_penta s),
             sn_llr = col st_llr, sn_llr_lower = col st_llr_lower, sn_llr_upper = col st_llr_upper,
             sn_elo = col st_elo, sn_elo_ci_low = col st_elo_ci_low,
             sn_elo_ci_high = col st_elo_ci_high,
             sn_sprt_elo0 = t_sprt_elo0 t, sn_sprt_elo1 = t_sprt_elo1 t,
             sn_sprt_alpha = t_sprt_alpha t, sn_sprt_beta = t_sprt_beta t,
             sn_updated_at = map_option st_updated_at s,
             sn_candidate_ref = t_candidate_ref t, sn_candidate_commit = t_candidate_commit t,
             sn_baseline_ref = t_baseline_ref t, sn_baseline_commit = t_baseline_commit t,
             sn_tc_base_ms = t_tc_base_ms t, sn_tc_increment_ms = t_tc_increment_ms t,
             sn_hash_mb = t_hash_mb t, sn_threads = t_threads t, sn_priority = t_priority t,
             sn_book_name = t_book_name t, sn_created_at = t_created_at t,
             sn_started_at = t_started_at t, sn_finished_at = t_finished_at t,
             sn_adjudication = adjudication_of t,
             sn_wins = (case s of None \<Rightarrow> 0 | Some s \<Rightarrow> st_games_wins s),
             sn_draws = (case s of None \<Rightarrow> 0 | Some s \<Rightarrow> st_games_draws s),
             sn_losses = (case s of None \<Rightarrow> 0 | Some s \<Rightarrow> st_games_losses s)\<rparr>)"

section \<open>Lemmas on the queue\<close>

lemma queue_order_set: "set (queue_order db) = {t \<in> set (db_tests db). t_status t = Queued}"
  by (auto simp: queue_order_def)

text \<open>The promoted test is a queued one that no other queued test precedes.\<close>

lemma promote_Some:
  assumes "promote_next_test now db = (Some i, db')"
  obtains t where "t \<in> set (db_tests db)" "t_status t = Queued" "t_id t = i"
    "running_test db = None" "db' = update_test i (set_running now) db"
    "\<And>u. u \<in> set (db_tests db) \<Longrightarrow> t_status u = Queued \<Longrightarrow> queue_key t \<le> queue_key u"
proof -
  from assms obtain t ts where q: "queue_order db = t # ts" and none: "running_test db = None"
    and i: "t_id t = i" and db': "db' = update_test i (set_running now) db"
    by (auto simp: promote_next_test_def split: list.splits if_splits)
  have sorted: "sorted (map queue_key (t # ts))"
    using sorted_sort_key [of queue_key] unfolding q [symmetric] queue_order_def by blast
  have t: "t \<in> set (db_tests db) \<and> t_status t = Queued"
    using queue_order_set [of db] q by auto
  have "queue_key t \<le> queue_key u" if "u \<in> set (db_tests db)" "t_status u = Queued" for u
  proof -
    have "u \<in> set (t # ts)" using that queue_order_set [of db] q by auto
    then show ?thesis using sorted by auto
  qed
  then show thesis using that t i none db' by blast
qed

lemma promote_None:
  "promote_next_test now db = (None, db') \<longleftrightarrow>
     db' = db \<and> (running_test db \<noteq> None \<or> (\<forall>t \<in> set (db_tests db). t_status t \<noteq> Queued))"
  using queue_order_set [of db]
  by (auto simp: promote_next_test_def split: list.splits)

text \<open>
  What a change of the life cycle may do to a test: its status, result and dates; the
  parameters of the test stay as they were frozen.
\<close>

definition frozen :: "test_row \<Rightarrow> test_row" where
  "frozen t = t\<lparr>t_status := Validating, t_result := ResultPending, t_started_at := None,
     t_finished_at := None, t_validation_log := None, t_priority := 0\<rparr>"

text \<open>All other tables but the statistics.\<close>

definition same_work :: "db \<Rightarrow> db \<Rightarrow> bool" where
  "same_work db db' \<longleftrightarrow> db_clients db' = db_clients db \<and> db_positions db' = db_positions db \<and>
     db_pairs db' = db_pairs db \<and> db_games db' = db_games db \<and> db_pgns db' = db_pgns db \<and>
     next_test db' = next_test db \<and> next_client db' = next_client db \<and>
     next_position db' = next_position db \<and> next_pair db' = next_pair db \<and>
     next_game db' = next_game db \<and> map frozen (db_tests db') = map frozen (db_tests db)"

lemma same_work_refl [simp]: "same_work db db"
  by (simp add: same_work_def)

lemma same_work_trans: "same_work a b \<Longrightarrow> same_work b c \<Longrightarrow> same_work a c"
  by (simp add: same_work_def)

lemma frozen_id: "frozen t = frozen u \<Longrightarrow> t_id t = t_id u"
  by (metis frozen_def test_row.select_convs(1) test_row.surjective test_row.update_convs)

end
