(* ===== verification/Invariants.thy ===== *)
theory Invariants
  imports Lifecycle
begin

text \<open>
  What the database satisfies between transactions, one predicate per concern, and the part
  the life cycle of tests plays in it: promotion re-establishes the rule on running tests, a
  recalculation re-establishes the statistics and the rule on live pairs of its test.
\<close>

section \<open>Definitions\<close>

text \<open>The parameters a validated specification gives a test; they never change.\<close>

definition test_params_ok :: "test_row \<Rightarrow> bool" where
  "test_params_ok t \<longleftrightarrow>
     0 < t_tc_base_ms t \<and> t_tc_base_ms t \<le> 86400000 \<and>
     0 \<le> t_tc_increment_ms t \<and> t_tc_increment_ms t \<le> 3600000 \<and> 1 \<le> t_total_pairs t \<and>
     (t_kind t = Sprt \<longrightarrow> (\<exists>e0 e1. t_sprt_elo0 t = Some e0 \<and> t_sprt_elo1 t = Some e1 \<and> e0 < e1))"

definition tests_core :: "db \<Rightarrow> bool" where
  "tests_core db \<longleftrightarrow> distinct (map t_id (db_tests db)) \<and>
     (\<forall>t \<in> set (db_tests db). t_id t < next_test db \<and> test_params_ok t) \<and>
     (\<forall>t \<in> set (db_tests db). \<forall>u \<in> set (db_tests db).
        t_status t = Running \<longrightarrow> t_status u = Running \<longrightarrow> t_id t = t_id u)"

text \<open>While a test is queued, one is running.\<close>

definition queue_served :: "db \<Rightarrow> bool" where
  "queue_served db \<longleftrightarrow>
     (\<forall>t \<in> set (db_tests db). t_status t = Queued \<longrightarrow> running_test db \<noteq> None)"

definition tests_inv :: "db \<Rightarrow> bool" where
  "tests_inv db \<longleftrightarrow> tests_core db \<and> queue_served db"

text \<open>Tests whose positions and pairs may exist.\<close>

definition prepared :: "db \<Rightarrow> int \<Rightarrow> bool" where
  "prepared db i \<longleftrightarrow> (\<exists>t \<in> set (db_tests db). t_id t = i \<and>
     t_status t \<noteq> Validating \<and> t_status t \<noteq> InvalidTest)"

definition clients_inv :: "db \<Rightarrow> bool" where
  "clients_inv db \<longleftrightarrow> distinct (map c_id (db_clients db)) \<and> distinct (map c_name (db_clients db)) \<and>
     (\<forall>c \<in> set (db_clients db). c_id c < next_client db \<and> 1 \<le> c_slots c)"

definition positions_inv :: "db \<Rightarrow> bool" where
  "positions_inv db \<longleftrightarrow> distinct (map op_id (db_positions db)) \<and>
     (\<forall>op \<in> set (db_positions db). op_id op < next_position db \<and> prepared db (op_test op))"

definition pair_shape :: "pair_row \<Rightarrow> bool" where
  "pair_shape p \<longleftrightarrow>
     (if jp_status p = Pending
      then jp_leased_to p = None \<and> jp_lease_expires_at p = None \<and> 0 \<le> jp_attempts p
      else jp_leased_to p \<noteq> None \<and> jp_lease_expires_at p \<noteq> None \<and> 1 \<le> jp_attempts p)"

definition pairs_inv :: "db \<Rightarrow> bool" where
  "pairs_inv db \<longleftrightarrow> distinct (map jp_id (db_pairs db)) \<and> distinct (map jp_position (db_pairs db)) \<and>
     (\<forall>p \<in> set (db_pairs db). jp_id p < next_pair db \<and> pair_shape p \<and> prepared db (jp_test p) \<and>
        (\<exists>op \<in> set (db_positions db). op_id op = jp_position p \<and> op_test op = jp_test p))"

definition pair_games :: "db \<Rightarrow> int \<Rightarrow> game_row list" where
  "pair_games db i = filter (\<lambda>g. g_pair g = i) (db_games db)"

text \<open>
  A completed pair has its two games, in order, of its test and of the client that held the
  lease; every other pair has none.
\<close>

definition games_inv :: "db \<Rightarrow> bool" where
  "games_inv db \<longleftrightarrow> distinct (map g_id (db_games db)) \<and>
     (\<forall>g \<in> set (db_games db). g_id g < next_game db \<and>
        (\<exists>p \<in> set (db_pairs db). jp_id p = g_pair g \<and> jp_test p = g_test g \<and>
           jp_leased_to p = Some (g_client g))) \<and>
     (\<forall>p \<in> set (db_pairs db).
        map g_game_in_pair (pair_games db (jp_id p)) = (if jp_status p = Completed then [0, 1] else []))"

text \<open>
  A queued test has pairs and all of them are pending; a running test outside \<open>S\<close> has a
  pending or leased pair.
\<close>

definition live_inv :: "int set \<Rightarrow> db \<Rightarrow> bool" where
  "live_inv S db \<longleftrightarrow>
     (\<forall>t \<in> set (db_tests db). t_status t = Queued \<longrightarrow>
        (\<exists>p \<in> set (db_pairs db). jp_test p = t_id t) \<and>
        (\<forall>p \<in> set (db_pairs db). jp_test p = t_id t \<longrightarrow> jp_status p = Pending)) \<and>
     (\<forall>t \<in> set (db_tests db). t_status t = Running \<longrightarrow> t_id t \<notin> S \<longrightarrow> live_pairs db (t_id t) \<noteq> [])"

text \<open>A row of the statistics agrees with the games it summarises.\<close>

definition stats_current :: "db \<Rightarrow> stats_row \<Rightarrow> bool" where
  "stats_current db s \<longleftrightarrow>
     collect_penta (test_outcomes db (st_test s)) = Inr (stats_penta s) \<and>
     st_pairs_valid s = penta_pairs (stats_penta s) \<and>
     st_games_wins s = count_outcome (scored_games db (st_test s)) CandidateWin \<and>
     st_games_draws s = count_outcome (scored_games db (st_test s)) Drawn \<and>
     st_games_losses s = count_outcome (scored_games db (st_test s)) CandidateLoss"

definition stats_inv :: "int set \<Rightarrow> db \<Rightarrow> bool" where
  "stats_inv S db \<longleftrightarrow> distinct (map st_test (db_stats db)) \<and>
     (\<forall>s \<in> set (db_stats db). st_test s \<notin> S \<longrightarrow> stats_current db s)"

definition db_inv :: "db \<Rightarrow> bool" where
  "db_inv db \<longleftrightarrow> tests_inv db \<and> clients_inv db \<and> positions_inv db \<and> pairs_inv db \<and> games_inv db \<and>
     live_inv {} db \<and> stats_inv {} db"

lemmas inv_defs = tests_core_def queue_served_def tests_inv_def clients_inv_def positions_inv_def
  pairs_inv_def games_inv_def live_inv_def stats_inv_def

lemma tests_invD: "tests_inv db \<Longrightarrow> tests_core db"
  by (simp add: tests_inv_def)

lemma db_invD:
  assumes "db_inv db"
  shows "tests_inv db" "tests_core db" "queue_served db" "clients_inv db" "positions_inv db"
    "pairs_inv db" "games_inv db" "live_inv {} db" "stats_inv {} db"
  using assms by (auto simp: db_inv_def tests_inv_def)

lemma db_inv_empty: "db_inv empty_db"
  by (simp add: db_inv_def inv_defs empty_db_def)

section \<open>Changes of tests\<close>

lemma test_params_frozen: "test_params_ok (frozen t) = test_params_ok t"
  by (simp add: test_params_ok_def frozen_def)

lemma tests_update_test [simp]:
  "db_tests (update_test i f db) = update_where (\<lambda>t. t_id t = i) f (db_tests db)"
  by (simp add: update_test_def)

lemma others_update_test [simp]:
  "db_clients (update_test i f db) = db_clients db" "db_positions (update_test i f db) = db_positions db"
  "db_pairs (update_test i f db) = db_pairs db" "db_games (update_test i f db) = db_games db"
  "db_pgns (update_test i f db) = db_pgns db" "db_stats (update_test i f db) = db_stats db"
  "db_history (update_test i f db) = db_history db"
  "next_test (update_test i f db) = next_test db" "next_client (update_test i f db) = next_client db"
  "next_position (update_test i f db) = next_position db" "next_pair (update_test i f db) = next_pair db"
  "next_game (update_test i f db) = next_game db" "next_history (update_test i f db) = next_history db"
  by (simp_all add: update_test_def)

lemma set_running_simps [simp]:
  "t_id (set_running now t) = t_id t" "t_status (set_running now t) = Running"
  "frozen (set_running now t) = frozen t"
  by (simp_all add: set_running_def frozen_def)

text \<open>An update of one row that keeps its parameters and does not start the test.\<close>

lemma same_work_update_test:
  "(\<And>t. frozen (f t) = frozen t) \<Longrightarrow> same_work db (update_test i f db)"
  by (simp add: same_work_def)

lemma find_test_unique:
  assumes "tests_core db" and "t \<in> set (db_tests db)"
  shows "find_test db (t_id t) = Some t"
  using assms find_key [of t_id "db_tests db" t] by (simp add: tests_core_def find_test_def)

lemma tests_coreD:
  assumes "tests_core db"
  shows "distinct (map t_id (db_tests db))"
    and "t \<in> set (db_tests db) \<Longrightarrow> t_id t < next_test db"
    and "t \<in> set (db_tests db) \<Longrightarrow> test_params_ok t"
    and "t \<in> set (db_tests db) \<Longrightarrow> u \<in> set (db_tests db) \<Longrightarrow> t_status t = Running \<Longrightarrow>
      t_status u = Running \<Longrightarrow> t_id t = t_id u"
  using assms unfolding tests_core_def by blast+

lemma tests_coreI:
  assumes "distinct (map t_id (db_tests db))"
    and "\<And>t. t \<in> set (db_tests db) \<Longrightarrow> t_id t < next_test db \<and> test_params_ok t"
    and "\<And>t u. t \<in> set (db_tests db) \<Longrightarrow> u \<in> set (db_tests db) \<Longrightarrow> t_status t = Running \<Longrightarrow>
      t_status u = Running \<Longrightarrow> t_id t = t_id u"
  shows "tests_core db"
  unfolding tests_core_def
proof (intro conjI ballI impI)
  show "distinct (map t_id (db_tests db))" by (rule assms(1))
  show "t_id t < next_test db" "test_params_ok t" if "t \<in> set (db_tests db)" for t
    using assms(2) [OF that] by auto
  show "t_id t = t_id u" if "t \<in> set (db_tests db)" "u \<in> set (db_tests db)" "t_status t = Running"
    "t_status u = Running" for t u
    by (rule assms(3) [OF that])
qed

lemma test_unique:
  "tests_core db \<Longrightarrow> t \<in> set (db_tests db) \<Longrightarrow> u \<in> set (db_tests db) \<Longrightarrow> t_id t = t_id u \<Longrightarrow> t = u"
  unfolding tests_core_def by (metis distinct_map_unique)

lemma tests_core_update:
  assumes "tests_core db" and fr: "\<And>t. frozen (f t) = frozen t"
    and "\<And>t. t_status (f t) = Running \<Longrightarrow> t_status t = Running"
  shows "tests_core (update_test i f db)"
proof -
  have id: "t_id (f t) = t_id t" for t using frozen_id [OF fr] .
  have ok: "test_params_ok (f t) = test_params_ok t" for t
    using test_params_frozen [of "f t"] test_params_frozen [of t] fr [of t] by simp
  let ?ts = "update_where (\<lambda>t. t_id t = i) f (db_tests db)"
  have row: "\<exists>u \<in> set (db_tests db). t_id u = t_id t \<and> test_params_ok t = test_params_ok u \<and>
      (t_status t = Running \<longrightarrow> t_status u = Running)" if "t \<in> set ?ts" for t
  proof -
    obtain q where "q \<in> set (db_tests db)" "t = (if t_id q = i then f q else q)"
      using \<open>t \<in> set ?ts\<close> by (auto simp: set_update_where)
    then show ?thesis using id ok assms(3) by (intro bexI [of _ q]) auto
  qed
  show ?thesis
  proof (rule tests_coreI)
    show "distinct (map t_id (db_tests (update_test i f db)))"
      using assms(1) id by (simp add: tests_core_def)
  next
    fix t assume "t \<in> set (db_tests (update_test i f db))"
    then have "t \<in> set ?ts" by simp
    from row [OF this] show "t_id t < next_test (update_test i f db) \<and> test_params_ok t"
      using tests_coreD(2,3) [OF assms(1)] by fastforce
  next
    fix t u
    assume "t \<in> set (db_tests (update_test i f db))" "u \<in> set (db_tests (update_test i f db))"
      and r: "t_status t = Running" "t_status u = Running"
    then have "t \<in> set ?ts" "u \<in> set ?ts" by simp_all
    from this [THEN row] obtain t' u' where "t' \<in> set (db_tests db)" "t_id t' = t_id t"
      "t_status t' = Running" "u' \<in> set (db_tests db)" "t_id u' = t_id u" "t_status u' = Running"
      using r by blast
    then show "t_id t = t_id u" using tests_coreD(4) [OF assms(1)] by metis
  qed
qed

lemma running_test_update_start:
  assumes "t \<in> set (db_tests db)"
  shows "running_test (update_test (t_id t) (set_running now) db) \<noteq> None"
proof -
  have "set_running now t \<in> set (update_where (\<lambda>u. t_id u = t_id t) (set_running now) (db_tests db))"
    unfolding set_update_where using assms by (intro bexI [of _ t]) simp_all
  then show ?thesis unfolding running_test_None by force
qed

text \<open>Promotion re-establishes the rule on running and queued tests.\<close>

lemma promote_tests_inv [inv_intros]:
  assumes "tests_core db"
  shows "tests_inv (snd (promote_next_test now db))"
proof (cases "promote_next_test now db")
  case (Pair r db')
  show ?thesis
  proof (cases r)
    case None
    then have "db' = db" "queue_served db"
      using Pair promote_None [of now db db'] by (auto simp: queue_served_def)
    then show ?thesis using Pair assms by (simp add: tests_inv_def)
  next
    case (Some i)
    with Pair obtain t where t: "t \<in> set (db_tests db)" "t_id t = i" and
      none: "running_test db = None" and db': "db' = update_test i (set_running now) db"
      by (auto elim: promote_Some)
    have "queue_served db'"
      using running_test_update_start [OF t(1), of now] t(2) db' by (auto simp: queue_served_def)
    moreover have "tests_core db'"
    proof -
      have other: "t_id u = i \<and> u = set_running now t \<or> u \<in> set (db_tests db) \<and> t_status u \<noteq> Running"
        if "u \<in> set (db_tests db')" for u
      proof -
        from that obtain q where q: "q \<in> set (db_tests db)" "u = (if t_id q = i then set_running now q else q)"
          unfolding db' by (auto simp: set_update_where)
        show ?thesis
        proof (cases "t_id q = i")
          case True
          then have "q = t" using test_unique [OF assms q(1) t(1)] t(2) by simp
          then show ?thesis using q True by simp
        next
          case False
          then show ?thesis using q none by (simp add: running_test_None)
        qed
      qed
      have "test_params_ok (set_running now t)"
        using assms t(1) test_params_frozen [of "set_running now t"] test_params_frozen [of t]
        by (simp add: tests_core_def)
      then have "\<forall>u \<in> set (db_tests db'). t_id u < next_test db' \<and> test_params_ok u"
        using other t assms unfolding db' by (fastforce simp: tests_core_def)
      moreover have "distinct (map t_id (db_tests db'))"
        using assms unfolding db' by (simp add: tests_core_def)
      ultimately show ?thesis
        by (intro tests_coreI) (use other in blast)+
    qed
    ultimately show ?thesis using Pair by (simp add: tests_inv_def)
  qed
qed

lemma promote_same_work: "same_work db (snd (promote_next_test now db))"
proof (cases "promote_next_test now db")
  case (Pair r db')
  show ?thesis
  proof (cases r)
    case None
    then show ?thesis using Pair promote_None [of now db db'] by simp
  next
    case (Some i)
    then obtain t where "db' = update_test i (set_running now) db"
      using Pair by (auto elim: promote_Some)
    then show ?thesis using Pair by (simp add: same_work_update_test)
  qed
qed

section \<open>Frames\<close>

definition keeps_prepared :: "db \<Rightarrow> db \<Rightarrow> bool" where
  "keeps_prepared db db' \<longleftrightarrow> (\<forall>i. prepared db i \<longrightarrow> prepared db' i)"

lemma keeps_prepared_refl [simp]: "keeps_prepared db db"
  by (simp add: keeps_prepared_def)

lemma keeps_prepared_trans: "keeps_prepared a b \<Longrightarrow> keeps_prepared b c \<Longrightarrow> keeps_prepared a c"
  by (simp add: keeps_prepared_def)

lemma keeps_prepared_tests: "db_tests db' = db_tests db \<Longrightarrow> keeps_prepared db db'"
  by (simp add: keeps_prepared_def prepared_def)

lemma keeps_prepared_update:
  assumes "\<And>t. t_id (f t) = t_id t"
    and "\<And>t. t_status t \<notin> {Validating, InvalidTest} \<Longrightarrow> t_status (f t) \<notin> {Validating, InvalidTest}"
  shows "keeps_prepared db (update_test i f db)"
  unfolding keeps_prepared_def
proof (intro allI impI)
  fix j assume "prepared db j"
  then obtain t where t: "t \<in> set (db_tests db)" "t_id t = j" "t_status t \<noteq> Validating"
    "t_status t \<noteq> InvalidTest" by (auto simp: prepared_def)
  let ?t = "if t_id t = i then f t else t"
  have "?t \<in> set (db_tests (update_test i f db))"
    unfolding tests_update_test set_update_where using t(1) by blast
  moreover have "t_id ?t = j" "t_status ?t \<noteq> Validating" "t_status ?t \<noteq> InvalidTest"
    using t assms(1) assms(2) [of t] by auto
  ultimately show "prepared (update_test i f db) j" unfolding prepared_def by blast
qed

lemma promote_keeps_prepared: "keeps_prepared db (snd (promote_next_test now db))"
proof (cases "promote_next_test now db")
  case (Pair r db')
  show ?thesis
  proof (cases r)
    case None
    then show ?thesis using Pair promote_None [of now db db'] by simp
  next
    case (Some i)
    then have "db' = update_test i (set_running now) db"
      using Pair by (auto elim: promote_Some)
    then show ?thesis using Pair by (simp add: keeps_prepared_update)
  qed
qed

text \<open>The part of the invariant that only speaks of the work and of prepared tests.\<close>

definition work_inv :: "db \<Rightarrow> bool" where
  "work_inv db \<longleftrightarrow> clients_inv db \<and> positions_inv db \<and> pairs_inv db \<and> games_inv db"

lemma work_inv_frame:
  assumes "same_work db db'" and "keeps_prepared db db'" and "work_inv db"
  shows "work_inv db'"
  using assms unfolding work_inv_def clients_inv_def positions_inv_def pairs_inv_def games_inv_def
    same_work_def keeps_prepared_def pair_games_def
  by simp

lemma db_inv_split: "db_inv db \<longleftrightarrow> tests_inv db \<and> work_inv db \<and> live_inv {} db \<and> stats_inv {} db"
  by (auto simp: db_inv_def work_inv_def)

lemma outcome_rows_cong:
  assumes "db_games db' = db_games db"
  shows "pair_outcome_rows db' p = pair_outcome_rows db p"
proof -
  have "valid_games db' i = valid_games db i" for i using assms by (simp add: valid_games_def)
  then show ?thesis by (simp add: pair_outcome_rows_def)
qed

lemma outcomes_cong:
  assumes "db_pairs db' = db_pairs db" and "db_games db' = db_games db"
  shows "pair_outcomes db' = pair_outcomes db"
proof -
  have "pair_outcome_rows db' = pair_outcome_rows db"
    using outcome_rows_cong [OF assms(2)] by (rule ext)
  then show ?thesis by (simp add: pair_outcomes_def assms(1))
qed

lemma stats_current_cong:
  assumes "test_outcomes db' (st_test s) = test_outcomes db (st_test s)"
    and "scored_games db' (st_test s) = scored_games db (st_test s)"
  shows "stats_current db' s = stats_current db s"
  using assms by (simp add: stats_current_def)

lemma stats_frame:
  assumes "db_pairs db' = db_pairs db" and "db_games db' = db_games db"
  shows "stats_current db' s = stats_current db s"
  by (rule stats_current_cong)
    (simp_all add: test_outcomes_def scored_games_def outcomes_cong [OF assms] assms(2))

lemma stats_inv_frame:
  assumes "db_pairs db' = db_pairs db" "db_games db' = db_games db" "db_stats db' = db_stats db"
  shows "stats_inv S db' = stats_inv S db"
  using stats_frame [OF assms(1,2)] assms(3) by (simp add: stats_inv_def)

lemma live_pairs_frame: "db_pairs db' = db_pairs db \<Longrightarrow> live_pairs db' i = live_pairs db i"
  by (simp add: live_pairs_def)

lemma live_inv_frame:
  "db_pairs db' = db_pairs db \<Longrightarrow> db_tests db' = db_tests db \<Longrightarrow> live_inv S db' = live_inv S db"
  by (simp add: live_inv_def live_pairs_def)

text \<open>A test that leaves the queue or stops running has nothing more to satisfy.\<close>

lemma live_inv_retire:
  assumes "live_inv S db" and id: "\<And>t. t_id (f t) = t_id t"
    and st: "\<And>t. t_status (f t) \<noteq> Queued \<and> t_status (f t) \<noteq> Running"
  shows "live_inv (S - {i}) (update_test i f db)"
proof -
  have row: "t \<in> set (db_tests db) \<and> t_id t \<noteq> i"
    if "t \<in> set (db_tests (update_test i f db))" "t_status t = Queued \<or> t_status t = Running" for t
  proof -
    from that obtain q where q: "q \<in> set (db_tests db)" "t = (if t_id q = i then f q else q)"
      by (auto simp: set_update_where)
    moreover have "t_id q \<noteq> i" using q that(2) st [of q] by (metis (full_types))
    ultimately show ?thesis by simp
  qed
  show ?thesis
    unfolding live_inv_def
  proof (intro conjI ballI impI)
    fix t assume t: "t \<in> set (db_tests (update_test i f db))" "t_status t = Queued"
    then have "t \<in> set (db_tests db)" using row by blast
    then show "\<exists>p \<in> set (db_pairs (update_test i f db)). jp_test p = t_id t"
      using assms(1) t(2) by (simp add: live_inv_def)
    fix p assume "p \<in> set (db_pairs (update_test i f db))" "jp_test p = t_id t"
    then show "jp_status p = Pending"
      using assms(1) t(2) \<open>t \<in> set (db_tests db)\<close> by (simp add: live_inv_def)
  next
    fix t assume t: "t \<in> set (db_tests (update_test i f db))" "t_status t = Running" "t_id t \<notin> S - {i}"
    then have "t \<in> set (db_tests db)" "t_id t \<notin> S" using row by blast+
    then show "live_pairs (update_test i f db) (t_id t) \<noteq> []"
      using assms(1) t(2) by (simp add: live_inv_def live_pairs_def)
  qed
qed

text \<open>A promoted test was queued, so its pairs are waiting.\<close>

lemma live_inv_promote:
  assumes "tests_core db" and live: "live_inv S db"
  shows "live_inv S (snd (promote_next_test now db))"
proof (cases "promote_next_test now db")
  case (Pair r db')
  show ?thesis
  proof (cases r)
    case None
    then show ?thesis using Pair promote_None [of now db db'] assms by simp
  next
    case (Some i)
    with Pair obtain t where t: "t \<in> set (db_tests db)" "t_status t = Queued" "t_id t = i" and
      db': "db' = update_test i (set_running now) db"
      by (auto elim: promote_Some)
    have old: "u \<in> set (db_tests db) \<or> u = set_running now t" if "u \<in> set (db_tests db')" for u
    proof -
      from that obtain q where q: "q \<in> set (db_tests db)" "u = (if t_id q = i then set_running now q else q)"
        unfolding db' by (auto simp: set_update_where)
      then show ?thesis using test_unique [OF assms(1) q(1) t(1)] t(3) by (cases "t_id q = i") auto
    qed
    obtain p where p: "p \<in> set (db_pairs db)" "jp_test p = i" "jp_status p = Pending"
      using live t unfolding live_inv_def by blast
    then have "p \<in> set (live_pairs db i)" by (simp add: live_pairs_def)
    then have waiting: "live_pairs db' i \<noteq> []" 
      using live_pairs_frame [of db' db i] unfolding db' by auto
    have "live_inv S db'"
      unfolding live_inv_def
    proof (intro conjI ballI impI)
      fix u assume u: "u \<in> set (db_tests db')" "t_status u = Queued"
      then have mem: "u \<in> set (db_tests db)" using old by fastforce
      then show "\<exists>p \<in> set (db_pairs db'). jp_test p = t_id u"
        using live u(2) by (simp add: live_inv_def db')
      fix p assume "p \<in> set (db_pairs db')" "jp_test p = t_id u"
      then show "jp_status p = Pending" using live u(2) mem by (simp add: live_inv_def db')
    next
      fix u assume u: "u \<in> set (db_tests db')" "t_status u = Running" "t_id u \<notin> S"
      show "live_pairs db' (t_id u) \<noteq> []"
      proof (cases "u = set_running now t")
        case True
        then show ?thesis using waiting t(3) by simp
      next
        case False
        then have "u \<in> set (db_tests db)" using old u(1) by blast
        then show ?thesis using live u(2,3) by (simp add: live_inv_def live_pairs_def db')
      qed
    qed
    then show ?thesis using Pair by simp
  qed
qed

section \<open>A recalculation\<close>

lemma upsert_stats_fields [simp]:
  "db_tests (upsert_stats s db) = db_tests db" "db_pairs (upsert_stats s db) = db_pairs db"
  "db_games (upsert_stats s db) = db_games db" "same_work db (upsert_stats s db)"
  by (simp_all add: upsert_stats_def same_work_def)

lemma record_history_fields [simp]:
  "db_tests (record_history now s db) = db_tests db" "db_pairs (record_history now s db) = db_pairs db"
  "db_games (record_history now s db) = db_games db" "db_stats (record_history now s db) = db_stats db"
  "same_work db (record_history now s db)"
  by (simp_all add: record_history_def same_work_def)

definition store_stats :: "real \<Rightarrow> stats_row \<Rightarrow> db \<Rightarrow> db" where
  "store_stats now s db = record_history now s (upsert_stats s db)"

lemma store_stats_fields [simp]:
  "db_tests (store_stats now s db) = db_tests db" "db_pairs (store_stats now s db) = db_pairs db"
  "db_games (store_stats now s db) = db_games db" "same_work db (store_stats now s db)"
  "db_stats (store_stats now s db) = db_stats (upsert_stats s db)"
  "keeps_prepared db (store_stats now s db)"
  by (auto simp: store_stats_def intro: same_work_trans [of db "upsert_stats s db"] keeps_prepared_tests)

lemma refresh_cases:
  assumes "refresh_test now i db = Inr db'"
  obtains "find_test db i = None" "db' = db"
  | t penta e sv s where "t \<in> set (db_tests db)" "t_id t = i"
      "collect_penta (test_outcomes db i) = Inr penta"
      "elo_evaluate penta = Inr e" "sprt_evaluate t penta = Inr sv"
      "s = make_stats now i penta (scored_games db i) e sv"
      "db' = apply_decision now t (sv_decision sv) (store_stats now s db)"
proof (cases "find_test db i")
  case None
  then have "db' = db" using assms by (simp add: refresh_test_def)
  then show thesis by (rule that(1) [OF None])
next
  case (Some t)
  then obtain penta e sv where p: "collect_penta (test_outcomes db i) = Inr penta"
    "elo_evaluate penta = Inr e" "sprt_evaluate t penta = Inr sv"
    "db' = apply_decision now t (sv_decision sv)
       (store_stats now (make_stats now i penta (scored_games db i) e sv) db)"
    using assms by (auto simp: refresh_test_def store_stats_def Let_def)
  then show thesis using find_test_Some [OF Some] that(2) by blast
qed

lemma apply_decision_cases:
  obtains "apply_decision now t d db = db" "t_status t = Running \<Longrightarrow> live_pairs db (t_id t) \<noteq> []"
  | res where "t_status t = Running" "apply_decision now t d db = finish_test now (t_id t) res db"
proof -
  consider "t_status t \<noteq> Running" | "t_status t = Running" "d = AcceptH1"
    | "t_status t = Running" "d = AcceptH0"
    | "t_status t = Running" "d \<noteq> AcceptH1" "d \<noteq> AcceptH0" "live_pairs db (t_id t) = []"
    | "t_status t = Running" "d \<noteq> AcceptH1" "d \<noteq> AcceptH0" "live_pairs db (t_id t) \<noteq> []"
    by blast
  then show thesis
  proof cases
    case 1
    then show thesis using that(1) by (simp add: apply_decision_def)
  next
    case 2
    then show thesis using that(2) [of ResultAccepted] by (simp add: apply_decision_def)
  next
    case 3
    then show thesis using that(2) [of ResultRejected] by (simp add: apply_decision_def)
  next
    case 4
    then show thesis
      using that(2) [of "if t_kind t = Sprt then ResultInconclusive else ResultCompleted"]
      by (simp add: apply_decision_def)
  next
    case 5
    then show thesis using that(1) by (simp add: apply_decision_def)
  qed
qed

definition finished_row :: "real \<Rightarrow> test_result \<Rightarrow> test_row \<Rightarrow> test_row" where
  "finished_row now res t = t\<lparr>t_status := Finished, t_result := res, t_finished_at := Some now\<rparr>"

lemma finished_row_simps [simp]:
  "t_id (finished_row now res t) = t_id t" "t_status (finished_row now res t) = Finished"
  "frozen (finished_row now res t) = frozen t"
  by (simp_all add: finished_row_def frozen_def)

lemma finish_test_alt:
  "finish_test now i res db = snd (promote_next_test now (update_test i (finished_row now res) db))"
  by (simp add: finish_test_def finished_row_def [abs_def])

text \<open>Retiring a test and promoting the next one: the common end of a stop and of a finish.\<close>

lemma retire_promote:
  assumes fr: "\<And>t. frozen (f t) = frozen t" and st: "\<And>t. t_status (f t) = Finished \<or> t_status (f t) = Stopped"
    and "tests_core db" and db'_def: "db' = snd (promote_next_test now (update_test i f db))"
  shows "tests_inv db'" and "same_work db db'" and "keeps_prepared db db'"
    and "live_inv S db \<Longrightarrow> live_inv (S - {i}) db'"
proof -
  have id: "t_id (f t) = t_id t" for t using frozen_id [OF fr] .
  have nr: "t_status (f t) \<noteq> Running" "t_status (f t) \<noteq> Queued"
    "t_status (f t) \<notin> {Validating, InvalidTest}" for t
    using st [of t] by auto
  have core: "tests_core (update_test i f db)"
    by (rule tests_core_update [OF assms(3) fr]) (use nr in simp)
  show "tests_inv db'" unfolding db'_def by (rule promote_tests_inv [OF core])
  show "same_work db db'"
    unfolding db'_def by (rule same_work_trans [OF same_work_update_test [OF fr] promote_same_work])
  show "keeps_prepared db db'"
    unfolding db'_def
    by (rule keeps_prepared_trans [OF keeps_prepared_update promote_keeps_prepared]) (use id nr in simp_all)
  show "live_inv (S - {i}) db'" if "live_inv S db"
    unfolding db'_def by (rule live_inv_promote [OF core live_inv_retire [OF that id]]) (use nr in simp)
qed

lemma promote_db_stats [simp]: "db_stats (snd (promote_next_test now db)) = db_stats db"
  by (simp add: promote_next_test_def split: list.split)

lemma finish_test_facts:
  assumes "tests_core db"
  shows "tests_inv (finish_test now i res db)" "same_work db (finish_test now i res db)"
    "keeps_prepared db (finish_test now i res db)" "db_stats (finish_test now i res db) = db_stats db"
    "live_inv S db \<Longrightarrow> live_inv (S - {i}) (finish_test now i res db)"
  unfolding finish_test_alt
  using retire_promote [of "finished_row now res", OF _ _ assms refl] by simp_all

lemma tests_core_frame:
  assumes "db_tests db' = db_tests db" "next_test db' = next_test db"
  shows "tests_core db' = tests_core db"
  unfolding tests_core_def assms by (rule refl)

lemma store_stats_core: "tests_core (store_stats now s db) = tests_core db"
  by (rule tests_core_frame) (simp_all add: store_stats_def record_history_def upsert_stats_def)

lemma tests_inv_frame:
  "db_tests db' = db_tests db \<Longrightarrow> next_test db' = next_test db \<Longrightarrow> tests_inv db' = tests_inv db"
  by (simp add: tests_inv_def tests_core_def queue_served_def running_test_def)

lemma same_workD:
  assumes "same_work db db'"
  shows "db_pairs db' = db_pairs db" "db_games db' = db_games db" "db_positions db' = db_positions db"
    "db_clients db' = db_clients db" "next_test db' = next_test db" "db_pgns db' = db_pgns db"
  using assms by (simp_all add: same_work_def)

lemma live_inv_settled:
  assumes "live_inv S db" and "tests_core db" and "t \<in> set (db_tests db)"
    and "t_status t = Running \<Longrightarrow> live_pairs db (t_id t) \<noteq> []"
  shows "live_inv (S - {t_id t}) db"
  unfolding live_inv_def
proof (intro conjI ballI impI)
  fix u assume u: "u \<in> set (db_tests db)" "t_status u = Queued"
  then show "\<exists>p \<in> set (db_pairs db). jp_test p = t_id u"
    using assms(1) by (simp add: live_inv_def)
  fix p assume "p \<in> set (db_pairs db)" "jp_test p = t_id u"
  then show "jp_status p = Pending" using u assms(1) by (simp add: live_inv_def)
next
  fix u assume u: "u \<in> set (db_tests db)" "t_status u = Running" "t_id u \<notin> S - {t_id t}"
  show "live_pairs db (t_id u) \<noteq> []"
  proof (cases "t_id u = t_id t")
    case True
    then have "u = t" using test_unique [OF assms(2) u(1) assms(3)] by simp
    then show ?thesis using assms(4) u(2) by simp
  next
    case False
    then show ?thesis using assms(1) u by (simp add: live_inv_def)
  qed
qed

text \<open>Without the test there is nothing to recalculate.\<close>

lemma live_inv_gone:
  assumes "live_inv S db" and "find_test db i = None"
  shows "live_inv (S - {i}) db"
proof -
  have "t_id t \<noteq> i" if "t \<in> set (db_tests db)" for t
    using assms(2) that by (auto simp: find_test_def find_None_iff)
  then show ?thesis using assms(1) by (auto simp: live_inv_def)
qed

lemma refresh_facts:
  assumes "refresh_test now i db = Inr db'" and "tests_core db"
  shows "tests_core db'" and "tests_inv db \<Longrightarrow> tests_inv db'"
    and "same_work db db'" and "keeps_prepared db db'"
    and "live_inv S db \<Longrightarrow> live_inv (S - {i}) db'"
proof -
  have "tests_core db' \<and> (tests_inv db \<longrightarrow> tests_inv db') \<and> same_work db db' \<and> keeps_prepared db db' \<and>
    (live_inv S db \<longrightarrow> live_inv (S - {i}) db')"
    using assms(1)
  proof (cases rule: refresh_cases)
    case 1
    show ?thesis
      unfolding 1(2) using assms(2) live_inv_gone [OF _ 1(1)] by (intro conjI impI) auto
  next
    case (2 t penta e sv s)
    let ?d = "store_stats now s db"
    have inv: "tests_inv ?d" if "tests_inv db"
      using that tests_inv_frame [of ?d db] same_workD [of db ?d] by simp
    have core: "tests_core ?d"
      using assms(2) store_stats_core by blast
    have live: "live_inv S ?d" if "live_inv S db" using that live_inv_frame [of ?d db] by simp
    show ?thesis
    proof (cases rule: apply_decision_cases [of now t "sv_decision sv" ?d])
      case 1
      have "live_inv (S - {i}) ?d" if "live_inv S db"
        using live_inv_settled [OF live [OF that] core, of t] 2(1,2) 1(2) by simp
      then show ?thesis using 1(1) 2(7) inv core by simp
    next
      case (2 res)
      note f = finish_test_facts [OF core, where now = now and i = "t_id t" and res = res]
      have "same_work db (finish_test now (t_id t) res ?d)"
        by (rule same_work_trans [OF _ f(2)]) simp
      moreover have "keeps_prepared db (finish_test now (t_id t) res ?d)"
        by (rule keeps_prepared_trans [OF _ f(3)]) simp
      ultimately show ?thesis
        using f(1) tests_invD [OF f(1)] f(5) [OF live] 2(2) \<open>t_id t = i\<close> \<open>db' = _\<close> by simp
    qed
  qed
  then show "tests_core db'" "tests_inv db \<Longrightarrow> tests_inv db'" "same_work db db'" "keeps_prepared db db'"
    "live_inv S db \<Longrightarrow> live_inv (S - {i}) db'" by blast+
qed

end
