(* ===== verification/Scores.thy ===== *)
theory Scores
  imports Invariants
begin

text \<open>
  The statistics of a test: what the frequencies and the score count, that a recalculation
  cannot fail on the scores of stored games, and that it leaves a row that agrees with them.
\<close>

section \<open>The frequencies\<close>

lemma length_filter_keys:
  "distinct ys \<Longrightarrow> sum_list (map (\<lambda>s. length (filter (\<lambda>x. f x = s) l)) ys)
     = length (filter (\<lambda>x. f x \<in> set ys) l)"
proof (induction ys)
  case Nil
  then show ?case by simp
next
  case (Cons y ys)
  have "length (filter (\<lambda>x. f x = y) l) + length (filter (\<lambda>x. f x \<in> set ys) l)
      = length (filter (\<lambda>x. f x \<in> set (y # ys)) l)"
    using Cons.prems by (induction l) auto
  then show ?case using Cons by simp
qed

lemma sum_list_int: "sum_list (map (\<lambda>x. int (f x)) xs) = int (sum_list (map f xs))"
  by (induction xs) simp_all

lemma foldE_total_indexed:
  assumes "\<And>ys x zs s. xs = ys @ x # zs \<Longrightarrow> P ys s \<Longrightarrow> \<exists>t. f x s = Inr t \<and> P (ys @ [x]) t" and "P [] s"
  shows "\<exists>t. foldE f xs s = Inr t \<and> P xs t"
proof -
  have "\<exists>t. foldE f zs s = Inr t \<and> P xs t" if "xs = ys @ zs" "P ys s" for ys zs s
    using that
  proof (induction zs arbitrary: ys s)
    case Nil
    then show ?case by simp
  next
    case (Cons z zs)
    then obtain t where "f z s = Inr t" "P (ys @ [z]) t" using assms(1) by blast
    then show ?case using Cons.IH [of "ys @ [z]" t] Cons.prems(1) by simp
  qed
  then show ?thesis using assms(2) by (metis append_Nil)
qed

definition score_count :: "pair_outcome list \<Rightarrow> penta \<Rightarrow> int" where
  "score_count pos c = int (length (filter (\<lambda>po. category_from_pair_score (po_score po) = Inr c) pos))"

lemma collect_penta_counts:
  assumes "\<forall>po \<in> set pos. \<exists>c. category_from_pair_score (po_score po) = Inr c"
  shows "\<exists>p. collect_penta pos = Inr p \<and> penta_wf p \<and> (\<forall>c. penta_get p c = score_count pos c)"
proof -
  let ?xs = "remdups (map po_score pos)"
  let ?n = "\<lambda>ys c. sum_list (map (count_scores pos) (filter (\<lambda>s. category_from_pair_score s = Inr c) ys))"
  let ?f = "\<lambda>s p. bindE (category_from_pair_score s) (\<lambda>c. Inr (penta_add p c (count_scores pos s)))"
  have "\<exists>p. foldE ?f ?xs empty_pentanomial = Inr p \<and> penta_wf p \<and> (\<forall>c. penta_get p c = ?n ?xs c)"
  proof (rule foldE_total_indexed)
    have "penta_get empty_pentanomial c = 0" for c
      by (cases c) (simp_all add: penta_get_def empty_pentanomial_def)
    then show "penta_wf empty_pentanomial \<and> (\<forall>c. penta_get empty_pentanomial c = ?n [] c)"
      by simp
  next
    fix ys x zs p
    assume xs: "?xs = ys @ x # zs" and inv: "penta_wf p \<and> (\<forall>c. penta_get p c = ?n ys c)"
    have "x \<in> set ?xs" unfolding xs by simp
    then obtain c where c: "category_from_pair_score x = Inr c" using assms by auto
    have nn: "0 \<le> count_scores pos x" by (simp add: count_scores_def)
    have wf: "penta_wf (penta_add p c (count_scores pos x))" using inv nn by auto
    have "penta_get (penta_add p c (count_scores pos x)) d = ?n (ys @ [x]) d" for d
      using inv c penta_get_add [of p c "count_scores pos x" d] by (auto simp: penta_wf_def)
    then show "\<exists>t. ?f x p = Inr t \<and> penta_wf t \<and> (\<forall>c. penta_get t c = ?n (ys @ [x]) c)"
      using c wf by auto
  qed
  moreover have "?n ?xs c = score_count pos c" for c
  proof -
    let ?ys = "filter (\<lambda>s. category_from_pair_score s = Inr c) ?xs"
    have "?n ?xs c = int (sum_list (map (\<lambda>s. length (filter (\<lambda>po. po_score po = s) pos)) ?ys))"
      unfolding count_scores_def [abs_def] by (rule sum_list_int)
    also have "\<dots> = int (length (filter (\<lambda>po. po_score po \<in> set ?ys) pos))"
      by (subst length_filter_keys) simp_all
    also have "filter (\<lambda>po. po_score po \<in> set ?ys) pos
        = filter (\<lambda>po. category_from_pair_score (po_score po) = Inr c) pos"
      by (rule filter_cong) auto
    finally show ?thesis by (simp add: score_count_def)
  qed
  ultimately show ?thesis unfolding collect_penta_def by simp
qed

lemma collect_penta_length: "collect_penta pos = Inr p \<Longrightarrow> length (counts p) = 5"
  unfolding collect_penta_def
  by (erule foldE_invariant) (auto simp: empty_pentanomial_def penta_add_def)

section \<open>A recalculated row\<close>

lemma stats_penta_make_stats:
  "length (counts p) = 5 \<Longrightarrow> stats_penta (make_stats now i p gs e sv) = p"
  unfolding penta_list5
  by (cases p) (auto simp: stats_penta_def make_stats_def penta_get_def)

lemma make_stats_current:
  assumes "collect_penta (test_outcomes db i) = Inr p"
  shows "stats_current db (make_stats now i p (scored_games db i) e sv)"
proof -
  have t: "st_test (make_stats now i p (scored_games db i) e sv) = i" by (simp add: make_stats_def)
  show ?thesis
    unfolding stats_current_def t stats_penta_make_stats [OF collect_penta_length [OF assms]]
    using assms by (simp add: make_stats_def)
qed

lemma upsert_stats_set:
  "r \<in> set (db_stats (upsert_stats s db)) \<Longrightarrow> r = s \<or> r \<in> set (db_stats db) \<and> st_test r \<noteq> st_test s"
  by (auto simp: upsert_stats_def set_update_where split: if_splits)

lemma upsert_stats_in: "s \<in> set (db_stats (upsert_stats s db))"
  by (auto simp: upsert_stats_def set_update_where)

lemma upsert_stats_distinct:
  assumes "distinct (map st_test (db_stats db))"
  shows "distinct (map st_test (db_stats (upsert_stats s db)))"
proof (cases "\<exists>r \<in> set (db_stats db). st_test r = st_test s")
  case True
  have "map st_test (update_where (\<lambda>r. st_test r = st_test s) (\<lambda>_. s) (db_stats db)) = map st_test (db_stats db)"
    by (rule map_update_where) simp
  then show ?thesis using True assms by (simp add: upsert_stats_def)
next
  case False
  then show ?thesis using assms by (auto simp: upsert_stats_def)
qed

lemma apply_decision_stats [simp]: "db_stats (apply_decision now t d db) = db_stats db"
  by (cases rule: apply_decision_cases [of now t d db]) (simp_all add: finish_test_alt)

lemma apply_decision_work:
  assumes "tests_core db"
  shows "db_pairs (apply_decision now t d db) = db_pairs db \<and>
         db_games (apply_decision now t d db) = db_games db"
proof (cases rule: apply_decision_cases [of now t d db])
  case (2 res)
  then show ?thesis using same_workD [OF finish_test_facts(2) [OF assms]] by simp
qed simp

lemma refresh_stats:
  assumes "refresh_test now i db = Inr db'" and "tests_core db" and "stats_inv S db"
    and "i \<in> S \<Longrightarrow> find_test db i \<noteq> None"
  shows "stats_inv (S - {i}) db'"
  using assms(1)
proof (cases rule: refresh_cases)
  case 1
  then have "S - {i} = S" using assms(4) by blast
  then show ?thesis using assms(3) 1(2) by (simp only:)
next
  case (2 t penta e sv s)
  let ?d = "store_stats now s db"
  have core: "tests_core ?d"
    using assms(2) by (simp only: store_stats_core)
  have stats: "db_stats db' = db_stats (upsert_stats s db)" using 2(7) by simp
  have work: "db_pairs db' = db_pairs db" "db_games db' = db_games db"
    using apply_decision_work [OF core] 2(7) by simp_all
  have st: "st_test s = i" using 2(6) by (simp add: make_stats_def)
  have cur: "stats_current db s" unfolding 2(6) by (rule make_stats_current [OF 2(3)])
  show ?thesis
    unfolding stats_inv_def
  proof (intro conjI ballI impI)
    show "distinct (map st_test (db_stats db'))"
      unfolding stats using assms(3) by (intro upsert_stats_distinct) (simp add: stats_inv_def)
  next
    fix r assume r: "r \<in> set (db_stats db')" "st_test r \<notin> S - {i}"
    then consider "r = s" | "r \<in> set (db_stats db)" "st_test r \<noteq> i"
      using upsert_stats_set [of r s db] stats st by auto
    then show "stats_current db' r"
    proof cases
      case 1
      then show ?thesis using cur stats_frame [OF work] by simp
    next
      case 2
      then show ?thesis using assms(3) r(2) stats_frame [OF work] by (simp add: stats_inv_def)
    qed
  qed
qed

section \<open>What the rows of the view stand for\<close>

lemma remdups_const: "xs \<noteq> [] \<Longrightarrow> set xs \<subseteq> {c} \<Longrightarrow> remdups xs = [c]"
proof (induction xs rule: induct_list012)
  case (3 x y zs)
  then have "x = c" "y = c" "remdups (y # zs) = [c]" by auto
  moreover have "remdups (x # y # zs) = (if x \<in> set (y # zs) then remdups (y # zs) else x # remdups (y # zs))"
    by (rule remdups.simps(2))
  ultimately show ?case by (metis list.set_intros(1))
qed auto

lemma outcome_rows_single:
  assumes "\<forall>g \<in> set (valid_games db (jp_id p)). g_client g = c"
  shows "pair_outcome_rows db p =
    (if jp_status p = Completed \<and> length (valid_games db (jp_id p)) = 2
     then [\<lparr>po_pair = jp_id p, po_test = jp_test p, po_client = c,
            po_score = sum_list (map (outcome_score \<circ> g_outcome) (valid_games db (jp_id p)))\<rparr>]
     else [])"
proof (cases "valid_games db (jp_id p) = []")
  case True
  then show ?thesis by (simp add: pair_outcome_rows_def)
next
  case False
  then have "remdups (map g_client (valid_games db (jp_id p))) = [c]"
    using assms by (intro remdups_const) auto
  moreover have "filter (\<lambda>g. g_client g = c) (valid_games db (jp_id p)) = valid_games db (jp_id p)"
    using assms by (simp add: filter_id_conv)
  ultimately show ?thesis by (simp add: pair_outcome_rows_def Let_def)
qed

lemma pairs_unique:
  "pairs_inv db \<Longrightarrow> p \<in> set (db_pairs db) \<Longrightarrow> q \<in> set (db_pairs db) \<Longrightarrow> jp_id p = jp_id q \<Longrightarrow> p = q"
  unfolding pairs_inv_def by (metis distinct_map_unique)

lemma valid_game_of_pair:
  assumes "pairs_inv db" "games_inv db" "p \<in> set (db_pairs db)" "g \<in> set (valid_games db (jp_id p))"
  shows "g_test g = jp_test p \<and> jp_leased_to p = Some (g_client g)"
proof -
  have "g \<in> set (db_games db)" "g_pair g = jp_id p" using assms(4) by (auto simp: valid_games_def)
  then obtain q where "q \<in> set (db_pairs db)" "jp_id q = jp_id p" "jp_test q = g_test g"
    "jp_leased_to q = Some (g_client g)"
    using assms(2) by (auto simp: games_inv_def)
  then show ?thesis using pairs_unique [OF assms(1)] assms(3) by metis
qed

lemma outcome_facts:
  assumes "pairs_inv db" "games_inv db" "po \<in> set (pair_outcomes db)"
  obtains p where "p \<in> set (db_pairs db)" "po_pair po = jp_id p" "po_test po = jp_test p"
    "jp_status p = Completed" "length (valid_games db (jp_id p)) = 2"
    "po_score po = sum_list (map (outcome_score \<circ> g_outcome) (valid_games db (jp_id p)))"
proof -
  obtain p where p: "p \<in> set (db_pairs db)" "po \<in> set (pair_outcome_rows db p)"
    using assms(3) by (auto simp: pair_outcomes_def)
  have "\<forall>g \<in> set (valid_games db (jp_id p)). g_client g = the (jp_leased_to p)"
    using valid_game_of_pair [OF assms(1,2) p(1)] by auto
  from outcome_rows_single [OF this] p that show thesis by (auto split: if_splits)
qed

text \<open>Wins, draws and losses among the valid games of an outcome's pair.\<close>

definition outcome_tally :: "db \<Rightarrow> pair_outcome \<Rightarrow> game_outcome \<Rightarrow> int" where
  "outcome_tally db po oc = count_outcome (valid_games db (po_pair po)) oc"

lemma tally_total: "int (length gs) = count_outcome gs CandidateWin + count_outcome gs Drawn
    + count_outcome gs CandidateLoss"
proof (induction gs)
  case (Cons g gs)
  then show ?case by (cases "g_outcome g") (simp_all add: count_outcome_def)
qed (simp add: count_outcome_def)

lemma tally_score: "2 * sum_list (map (outcome_score \<circ> g_outcome) gs)
    = of_int (2 * count_outcome gs CandidateWin + count_outcome gs Drawn)"
proof (induction gs)
  case (Cons g gs)
  then show ?case by (cases "g_outcome g") (simp_all add: count_outcome_def)
qed (simp add: count_outcome_def)

lemma outcome_category:
  assumes "pairs_inv db" "games_inv db" "po \<in> set (pair_outcomes db)"
  shows "outcome_tally db po CandidateWin + outcome_tally db po Drawn + outcome_tally db po CandidateLoss = 2"
    and "\<exists>c. category_from_pair_score (po_score po) = Inr c \<and>
           int (penta_code c) = 2 * outcome_tally db po CandidateWin + outcome_tally db po Drawn"
proof -
  obtain p where "p \<in> set (db_pairs db)" and p: "po_pair po = jp_id p" and "po_test po = jp_test p"
    "jp_status p = Completed" and l: "length (valid_games db (jp_id p)) = 2"
    and sc: "po_score po = sum_list (map (outcome_score \<circ> g_outcome) (valid_games db (jp_id p)))"
    by (rule outcome_facts [OF assms])
  let ?k = "2 * outcome_tally db po CandidateWin + outcome_tally db po Drawn"
  have nn: "0 \<le> outcome_tally db po oc" for oc by (simp add: outcome_tally_def count_outcome_def)
  show total: "outcome_tally db po CandidateWin + outcome_tally db po Drawn + outcome_tally db po CandidateLoss = 2"
    using tally_total [of "valid_games db (jp_id p)"] p l by (simp add: outcome_tally_def)
  then have k: "0 \<le> ?k" "?k \<le> 4"
    using nn [of CandidateWin] nn [of Drawn] nn [of CandidateLoss] by linarith+
  have "po_score po * 2 = of_int ?k"
    using tally_score [of "valid_games db (jp_id p)"] p sc by (simp add: outcome_tally_def)
  moreover have "penta_code (penta_of_code (nat ?k)) = nat ?k"
    using k by (intro penta_code_of_code) linarith
  ultimately have "category_from_pair_score (po_score po) = Inr (penta_of_code (nat ?k)) \<and>
      int (penta_code (penta_of_code (nat ?k))) = ?k"
    using k(1) by (simp add: category_Inr_iff)
  then show "\<exists>c. category_from_pair_score (po_score po) = Inr c \<and> int (penta_code c) = ?k" by blast
qed

section \<open>The score and the frequencies agree\<close>

lemma count_joined:
  "length (filter Q (concat (map (\<lambda>g. map (\<lambda>_. g) (filter (R g) pos)) gs)))
     = sum_list (map (\<lambda>po. length (filter (\<lambda>g. Q g \<and> R g po) gs)) pos)"
proof (induction gs)
  case Nil
  then show ?case by (induction pos) simp_all
next
  case (Cons g gs)
  have "length (filter Q (map (\<lambda>_. g) (filter (R g) pos))) + sum_list (map (\<lambda>po. length (filter (\<lambda>g. Q g \<and> R g po) gs)) pos)
      = sum_list (map (\<lambda>po. length (filter (\<lambda>g. Q g \<and> R g po) (g # gs))) pos)"
    by (induction pos) auto
  then show ?case using Cons by simp
qed

lemma sum_list_if_filter:
  "sum_list (map (\<lambda>x. if P x then f x else (0 :: int)) xs) = sum_list (map f (filter P xs))"
  by (induction xs) simp_all

lemma scored_games_count:
  assumes "pairs_inv db" "games_inv db"
  shows "count_outcome (scored_games db i) oc
    = sum_list (map (\<lambda>po. outcome_tally db po oc) (test_outcomes db i))"
proof -
  let ?pos = "pair_outcomes db"
  let ?f = "\<lambda>po. length (filter (\<lambda>g. g_outcome g = oc \<and> po_pair po = g_pair g)
      (filter (\<lambda>g. g_test g = i \<and> g_valid g) (db_games db)))"
  have f: "int (?f po) = (if po_test po = i then outcome_tally db po oc else 0)" if po: "po \<in> set ?pos" for po
  proof -
    obtain p where p: "p \<in> set (db_pairs db)" "po_pair po = jp_id p" "po_test po = jp_test p"
      and "jp_status p = Completed" "length (valid_games db (jp_id p)) = 2"
      "po_score po = sum_list (map (outcome_score \<circ> g_outcome) (valid_games db (jp_id p)))"
      by (rule outcome_facts [OF assms po])
    have "filter (\<lambda>g. g_outcome g = oc \<and> po_pair po = g_pair g)
            (filter (\<lambda>g. g_test g = i \<and> g_valid g) (db_games db))
        = filter (\<lambda>g. g_outcome g = oc \<and> g_test g = i) (valid_games db (jp_id p))"
      unfolding valid_games_def filter_filter using p(2) by (intro filter_cong) auto
    also have "\<dots> = (if jp_test p = i then filter (\<lambda>g. g_outcome g = oc) (valid_games db (jp_id p)) else [])"
      using valid_game_of_pair [OF assms p(1)] by (auto intro: filter_cong simp: filter_empty_conv)
    finally show ?thesis using p by (simp add: outcome_tally_def count_outcome_def)
  qed
  have "count_outcome (scored_games db i) oc = sum_list (map (\<lambda>po. int (?f po)) ?pos)"
    unfolding count_outcome_def scored_games_def
    by (subst count_joined) (simp only: sum_list_int)
  also have "\<dots> = sum_list (map (\<lambda>po. if po_test po = i then outcome_tally db po oc else 0) ?pos)"
    using f by (intro arg_cong [where f = sum_list] map_cong) auto
  also have "\<dots> = sum_list (map (\<lambda>po. outcome_tally db po oc) (test_outcomes db i))"
    unfolding test_outcomes_def by (rule sum_list_if_filter)
  finally show ?thesis .
qed

lemma sum_codes:
  assumes "\<forall>po \<in> set pos. \<exists>c. category_from_pair_score (po_score po) = Inr c \<and> int (penta_code c) = h po"
  shows "sum_list (map h pos) = score_count pos LD + 2 * score_count pos DD_WL + 3 * score_count pos WD
           + 4 * score_count pos WW"
    and "int (length pos) = score_count pos LL + score_count pos LD + score_count pos DD_WL
           + score_count pos WD + score_count pos WW"
proof -
  have "sum_list (map h pos) = score_count pos LD + 2 * score_count pos DD_WL + 3 * score_count pos WD
           + 4 * score_count pos WW \<and>
        int (length pos) = score_count pos LL + score_count pos LD + score_count pos DD_WL
           + score_count pos WD + score_count pos WW"
    using assms
  proof (induction pos)
    case (Cons po pos)
    then obtain c where "category_from_pair_score (po_score po) = Inr c" "int (penta_code c) = h po"
      by auto
    then show ?case using Cons by (cases c) (auto simp: score_count_def)
  qed (simp add: score_count_def)
  then show "sum_list (map h pos) = score_count pos LD + 2 * score_count pos DD_WL + 3 * score_count pos WD
           + 4 * score_count pos WW"
    "int (length pos) = score_count pos LL + score_count pos LD + score_count pos DD_WL
           + score_count pos WD + score_count pos WW" by auto
qed

lemma test_outcomes_categories:
  assumes "pairs_inv db" "games_inv db"
  shows "\<forall>po \<in> set (test_outcomes db i). \<exists>c. category_from_pair_score (po_score po) = Inr c \<and>
     int (penta_code c) = 2 * outcome_tally db po CandidateWin + outcome_tally db po Drawn"
  using outcome_category(2) [OF assms] by (simp add: test_outcomes_def)

lemma score_table_agrees:
  assumes "pairs_inv db" "games_inv db" "stats_current db s"
  shows "2 * st_games_wins s + st_games_draws s
       = st_penta_ld s + 2 * st_penta_dd_wl s + 3 * st_penta_wd s + 4 * st_penta_ww s"
    and "st_games_wins s + st_games_draws s + st_games_losses s = 2 * st_pairs_valid s"
    and "st_pairs_valid s = int (length (test_outcomes db (st_test s)))"
proof -
  let ?pos = "test_outcomes db (st_test s)"
  note cats = test_outcomes_categories [OF assms(1,2), of "st_test s"]
  have "\<forall>po \<in> set ?pos. \<exists>c. category_from_pair_score (po_score po) = Inr c" using cats by blast
  then have get: "penta_get (stats_penta s) c = score_count ?pos c" for c
    using collect_penta_counts [of ?pos] assms(3) by (auto simp: stats_current_def)
  have p: "st_penta_ll s = score_count ?pos LL" "st_penta_ld s = score_count ?pos LD"
    "st_penta_dd_wl s = score_count ?pos DD_WL" "st_penta_wd s = score_count ?pos WD"
    "st_penta_ww s = score_count ?pos WW"
    using get [of LL] get [of LD] get [of DD_WL] get [of WD] get [of WW]
    by (simp_all add: penta_get_def stats_penta_def)
  have n: "st_pairs_valid s = st_penta_ll s + st_penta_ld s + st_penta_dd_wl s + st_penta_wd s + st_penta_ww s"
    using assms(3) by (simp add: stats_current_def penta_pairs_def stats_penta_def)
  note g = scored_games_count [OF assms(1,2), of "st_test s"]
  have w: "st_games_wins s = sum_list (map (\<lambda>po. outcome_tally db po CandidateWin) ?pos)"
    "st_games_draws s = sum_list (map (\<lambda>po. outcome_tally db po Drawn) ?pos)"
    "st_games_losses s = sum_list (map (\<lambda>po. outcome_tally db po CandidateLoss) ?pos)"
    using assms(3) g by (simp_all add: stats_current_def)
  show "st_pairs_valid s = int (length ?pos)" unfolding n p using sum_codes(2) [OF cats] by simp
  have "2 * st_games_wins s + st_games_draws s
      = sum_list (map (\<lambda>po. 2 * outcome_tally db po CandidateWin + outcome_tally db po Drawn) ?pos)"
    unfolding w by (simp add: sum_list_addf sum_list_const_mult)
  then show "2 * st_games_wins s + st_games_draws s
      = st_penta_ld s + 2 * st_penta_dd_wl s + 3 * st_penta_wd s + 4 * st_penta_ww s"
    unfolding p using sum_codes(1) [OF cats] by simp
  have "st_games_wins s + st_games_draws s + st_games_losses s
      = sum_list (map (\<lambda>po. outcome_tally db po CandidateWin + outcome_tally db po Drawn
          + outcome_tally db po CandidateLoss) ?pos)"
    unfolding w by (simp add: sum_list_addf)
  also have "\<dots> = sum_list (map (\<lambda>po. 2) ?pos)"
    using outcome_category(1) [OF assms(1,2)]
    by (intro arg_cong [where f = sum_list] map_cong) (auto simp: test_outcomes_def)
  also have "\<dots> = 2 * int (length ?pos)" by (simp add: sum_list_triv)
  finally show "st_games_wins s + st_games_draws s + st_games_losses s = 2 * st_pairs_valid s"
    using \<open>st_pairs_valid s = int (length ?pos)\<close> by simp
qed

text \<open>On stored games the only thing that can fail in a recalculation is the likelihood ratio.\<close>

lemma refresh_fails:
  assumes "pairs_inv db" "games_inv db" "tests_core db" and "refresh_test now i db = Inl e"
  shows "\<exists>t p. t \<in> set (db_tests db) \<and> t_id t = i \<and> t_kind t = Sprt \<and>
     collect_penta (test_outcomes db i) = Inr p \<and> penta_pairs p \<noteq> 0 \<and>
     llr_normalized (the (t_sprt_elo0 t)) (the (t_sprt_elo1 t)) p = Inl e"
proof -
  have "\<forall>po \<in> set (test_outcomes db i). \<exists>c. category_from_pair_score (po_score po) = Inr c"
    using test_outcomes_categories [OF assms(1,2)] by blast
  then obtain p where p: "collect_penta (test_outcomes db i) = Inr p"
    using collect_penta_counts by blast
  obtain ev where ev: "elo_evaluate p = Inr ev"
  proof -
    obtain est where "elo_estimate p = Inr est" using elo_estimate_total [of p] by blast
    then have "\<exists>ev. elo_evaluate p = Inr ev" by (simp add: elo_evaluate_def)
    then show thesis using that by blast
  qed
  from assms(4) obtain t where t: "find_test db i = Some t"
    by (cases "find_test db i") (auto simp: refresh_test_def)
  have mem: "t \<in> set (db_tests db)" "t_id t = i" using find_test_Some [OF t] by auto
  have err: "sprt_evaluate t p = Inl e"
    using assms(4) t p ev by (auto simp: refresh_test_def bindE_eq_Inl_iff Let_def)
  then have sprt: "t_kind t = Sprt" by (auto simp: sprt_evaluate_def split: if_splits)
  then obtain e0 e1 where b: "t_sprt_elo0 t = Some e0" "t_sprt_elo1 t = Some e1"
    using tests_coreD(3) [OF assms(3) mem(1)] by (auto simp: test_params_ok_def)
  have llr: "llr_normalized e0 e1 p = Inl e"
    using err sprt b by (auto simp: sprt_evaluate_def not_null_def Let_def bindE_eq_Inl_iff)
  then have "penta_pairs p \<noteq> 0" by (auto simp: llr_normalized_def)
  then show ?thesis using mem sprt p llr b by auto
qed

end
