(* ===== verification/ServerConfig.thy ===== *)
theory ServerConfig
  imports Spec
begin

text \<open>
  server/config.hpp and server/config.cpp: the server's configuration, read from environment
  variables, and the ref and URL helpers of server/github.cpp that depend on it. The
  environment is a parameter: a map from names to values.
\<close>

record server_config =
  db_url :: string
  http_host :: string
  http_port :: int
  db_pool_size :: int
  lease_ttl_min :: int
  max_attempts :: int
  maintenance_interval :: int
  bench_reference_commit :: string
  github_repo :: string
  github_api :: string
  github_codeload :: string
  github_token :: string
  books_dir :: string
  work_dir :: string
  web_dir :: string
  smoke_bench_depth :: int
  build_make_args :: "string list"
  cfg_sprt_presets :: sprt_presets

definition default_config :: server_config where
  "default_config =
     \<lparr>db_url = ''dbname=capi_net'', http_host = ''0.0.0.0'', http_port = 8080, db_pool_size = 8,
      lease_ttl_min = 600, max_attempts = 5, maintenance_interval = 30,
      bench_reference_commit = [], github_repo = ''fatorius/capizero'',
      github_api = ''https://api.github.com'', github_codeload = ''https://codeload.github.com'',
      github_token = [], books_dir = ''books'', work_dir = ''work'', web_dir = ''web'',
      smoke_bench_depth = 6, build_make_args = [], cfg_sprt_presets = default_presets\<rparr>"

type_synonym environment = "string \<Rightarrow> string option"

definition env :: "environment \<Rightarrow> string \<Rightarrow> string option" where
  "env e name = (case e name of None \<Rightarrow> None | Some v \<Rightarrow> if v = [] then None else Some v)"

text \<open>
  \<^verbatim>\<open>std::stoi\<close> with the position after the number; a failed conversion leaves
  position 0.
\<close>

definition env_int :: "environment \<Rightarrow> string \<Rightarrow> int \<Rightarrow> int \<Rightarrow> int result" where
  "env_int e name fallback min_value =
     (case env e name of
        None \<Rightarrow> Inr fallback
      | Some v \<Rightarrow>
          let (parsed, pos) = (case cpp_stoi v of None \<Rightarrow> (0, 0) | Some (k, p) \<Rightarrow> (k, p))
          in if pos = 0 \<or> pos \<noteq> length v \<or> parsed < min_value
             then Inl (RuntimeError (name @ '': invalid value '' @ [CHR 0x27] @ v @ [CHR 0x27]))
             else Inr parsed)"

definition env_or :: "environment \<Rightarrow> string \<Rightarrow> string \<Rightarrow> string" where
  "env_or e name fallback = (case env e name of None \<Rightarrow> fallback | Some v \<Rightarrow> v)"

definition load_config_from_env :: "environment \<Rightarrow> server_config result" where
  "load_config_from_env e =
     (let c = default_config
      in bindE (env_int e ''CAPI_SMOKE_BENCH_DEPTH'' (smoke_bench_depth c) 1) (\<lambda>depth.
         bindE (env_int e ''CAPI_HTTP_PORT'' (http_port c) 1) (\<lambda>port.
         bindE (env_int e ''CAPI_DB_POOL_SIZE'' (db_pool_size c) 1) (\<lambda>pool.
         bindE (env_int e ''CAPI_LEASE_TTL_MIN_S'' (lease_ttl_min c) 1) (\<lambda>ttl.
         bindE (env_int e ''CAPI_MAX_ATTEMPTS'' (max_attempts c) 1) (\<lambda>attempts.
         bindE (env_int e ''CAPI_MAINTENANCE_INTERVAL_S'' (maintenance_interval c) 1) (\<lambda>interval.
           Inr (c\<lparr>db_url := env_or e ''CAPI_DB_URL'' (db_url c),
                  http_host := env_or e ''CAPI_HTTP_HOST'' (http_host c),
                  bench_reference_commit :=
                    env_or e ''CAPI_BENCH_REFERENCE_COMMIT'' (bench_reference_commit c),
                  github_repo := env_or e ''CAPI_GITHUB_REPO'' (github_repo c),
                  github_api := env_or e ''CAPI_GITHUB_API'' (github_api c),
                  github_codeload := env_or e ''CAPI_GITHUB_CODELOAD'' (github_codeload c),
                  github_token := env_or e ''CAPI_GITHUB_TOKEN'' (github_token c),
                  books_dir := env_or e ''CAPI_BOOKS_DIR'' (books_dir c),
                  work_dir := env_or e ''CAPI_WORK_DIR'' (work_dir c),
                  web_dir := env_or e ''CAPI_WEB_DIR'' (web_dir c),
                  build_make_args := (case env e ''CAPI_BUILD_MAKE_ARGS'' of
                      None \<Rightarrow> build_make_args c | Some v \<Rightarrow> stream_words v),
                  smoke_bench_depth := depth, http_port := port, db_pool_size := pool,
                  lease_ttl_min := ttl, max_attempts := attempts,
                  maintenance_interval := interval\<rparr>))))))))"

section \<open>GitHub references\<close>

definition is_full_sha :: "string \<Rightarrow> bool" where
  "is_full_sha s \<longleftrightarrow> length s = 40 \<and>
     list_all (\<lambda>c. is_digit c \<or> 97 \<le> byte c \<and> byte c \<le> 102) s"

definition tarball_url :: "server_config \<Rightarrow> string \<Rightarrow> string" where
  "tarball_url cfg sha = github_codeload cfg @ ''/'' @ github_repo cfg @ ''/tar.gz/'' @ sha"

end
