(* ===== verification/Queue.thy ===== *)
theory Queue
  imports Lifecycle ServerConfig
begin

text \<open>
  server/queue.hpp and server/queue.cpp: registration and heartbeat of clients, the active
  test, the claim of pairs under a lease, the submission of a result, the abandonment of a
  pair and the recovery of expired leases. Each function is one transaction on the database.

  Parameters: \<open>now\<close>, the transaction's \<^verbatim>\<open>now()\<close>; \<open>locked\<close>, the pairs whose row another
  transaction holds locked (\<^verbatim>\<open>SKIP LOCKED\<close> passes over them); \<open>gzip\<close>, the compression of
  a PGN by zlib.
\<close>

section \<open>Clients\<close>

record client_registration =
  rg_name :: string
  rg_hostname :: "string option"
  rg_os :: "string option"
  rg_cpu_model :: "string option"
  rg_cpu_arch_target :: "string option"
  rg_pinning_mode :: string
  rg_core_topology :: "string option"
  rg_bench_ref_commit :: "string option"
  rg_fastchess_version :: "string option"
  rg_nproc_total :: "int option"
  rg_slots :: int

record registered_client =
  rc_client_id :: int
  rc_banned :: bool

definition keep_ban :: "client_status \<Rightarrow> client_status" where
  "keep_ban s = (if s = Banned then Banned else Active)"

definition insert_client_row :: "real \<Rightarrow> int \<Rightarrow> pinning_mode \<Rightarrow> client_registration \<Rightarrow> client_row" where
  "insert_client_row now i mode reg =
     \<lparr>c_id = i, c_name = rg_name reg, c_hostname = rg_hostname reg, c_os = rg_os reg,
      c_cpu_model = rg_cpu_model reg, c_cpu_arch_target = rg_cpu_arch_target reg,
      c_pinning_mode = mode, c_core_topology = rg_core_topology reg,
      c_bench_ref_commit = rg_bench_ref_commit reg, c_nproc_total = rg_nproc_total reg,
      c_slots = rg_slots reg, c_fastchess_version = rg_fastchess_version reg,
      c_cpu_factor = None, c_status = Active, c_first_seen = now, c_last_seen = now\<rparr>"

definition update_client_row :: "real \<Rightarrow> pinning_mode \<Rightarrow> client_registration \<Rightarrow> client_row \<Rightarrow> client_row" where
  "update_client_row now mode reg c =
     c\<lparr>c_hostname := rg_hostname reg, c_os := rg_os reg, c_cpu_model := rg_cpu_model reg,
       c_cpu_arch_target := rg_cpu_arch_target reg, c_pinning_mode := mode,
       c_core_topology := rg_core_topology reg, c_bench_ref_commit := rg_bench_ref_commit reg,
       c_nproc_total := rg_nproc_total reg, c_slots := rg_slots reg,
       c_fastchess_version := rg_fastchess_version reg,
       c_status := keep_ban (c_status c), c_last_seen := now\<rparr>"

text \<open>
  \<^verbatim>\<open>INSERT .. ON CONFLICT (name) DO UPDATE\<close>: a conflict has already drawn a value
  from the sequence.
\<close>

definition register_client :: "real \<Rightarrow> client_registration \<Rightarrow> db \<Rightarrow> (registered_client \<times> db) result" where
  "register_client now reg db =
     bindE (pinning_of_text (rg_pinning_mode reg)) (\<lambda>mode.
       case find (\<lambda>c. c_name c = rg_name reg) (db_clients db) of
         Some c \<Rightarrow>
           Inr (\<lparr>rc_client_id = c_id c, rc_banned = (keep_ban (c_status c) = Banned)\<rparr>,
                db\<lparr>db_clients := update_where (\<lambda>r. c_name r = rg_name reg)
                      (update_client_row now mode reg) (db_clients db),
                   next_client := next_client db + 1\<rparr>)
       | None \<Rightarrow>
           Inr (\<lparr>rc_client_id = next_client db, rc_banned = False\<rparr>,
                db\<lparr>db_clients := db_clients db @ [insert_client_row now (next_client db) mode reg],
                   next_client := next_client db + 1\<rparr>))"

definition heartbeat :: "real \<Rightarrow> int \<Rightarrow> real option \<Rightarrow> db \<Rightarrow> bool option \<times> db" where
  "heartbeat now client cpu_factor db =
     (case find_client db client of
        None \<Rightarrow> (None, db)
      | Some c \<Rightarrow>
          (Some (keep_ban (c_status c) = Banned),
           db\<lparr>db_clients := update_where (\<lambda>r. c_id r = client)
                (\<lambda>r. r\<lparr>c_last_seen := now,
                       c_cpu_factor := (case cpu_factor of None \<Rightarrow> c_cpu_factor r | Some f \<Rightarrow> Some f),
                       c_status := keep_ban (c_status r)\<rparr>) (db_clients db)\<rparr>))"

section \<open>The active test\<close>

record active_test_info =
  at_test_id :: int
  at_kind :: string
  at_candidate_commit :: string
  at_baseline_commit :: string
  at_tc_base_ms :: int
  at_tc_increment_ms :: int
  at_hash_mb :: int
  at_threads :: int
  at_book_name :: string
  at_adjudication :: adjudication

definition active_test :: "db \<Rightarrow> active_test_info option" where
  "active_test db = map_option (\<lambda>t.
     \<lparr>at_test_id = t_id t, at_kind = kind_text (t_kind t),
      at_candidate_commit = t_candidate_commit t, at_baseline_commit = t_baseline_commit t,
      at_tc_base_ms = t_tc_base_ms t, at_tc_increment_ms = t_tc_increment_ms t,
      at_hash_mb = t_hash_mb t, at_threads = t_threads t, at_book_name = t_book_name t,
      at_adjudication = adjudication_of t\<rparr>) (running_test db)"

section \<open>Claim\<close>

record claimed_pair =
  cp_pair_id :: int
  cp_position_id :: int
  cp_position_seq :: int
  cp_fen :: string
  cp_lease_expires_at :: real

datatype claim_status = ClaimOk | ClaimUnknownClient | ClaimBanned | ClaimNoActiveTest

record claim_result =
  cr_status :: claim_status
  cr_test_id :: int
  cr_pairs :: "claimed_pair list"

text \<open>\<^verbatim>\<open>4.0 * (tc_base_ms + 60 * tc_increment_ms)\<close>, the inner expression an \<^verbatim>\<open>INTEGER\<close> .\<close>

definition est_pair_ms :: "test_row \<Rightarrow> real result" where
  "est_pair_ms t =
     bindE (pg_int4 (60 * t_tc_increment_ms t)) (\<lambda>inc.
     bindE (pg_int4 (t_tc_base_ms t + inc)) (\<lambda>ms. Inr (4 * of_int ms)))"

text \<open>
  The CTE \<^verbatim>\<open>picked\<close>: pending pairs of the test in dispatch order, locked ones passed over,
  at most \<open>limit\<close> of them.
\<close>

definition picked_pairs :: "(int \<Rightarrow> bool) \<Rightarrow> int \<Rightarrow> int \<Rightarrow> db \<Rightarrow> pair_row list" where
  "picked_pairs locked test limit db =
     take (nat limit)
       (filter (\<lambda>p. \<not> locked (jp_id p))
         (sort_key jp_dispatch_order
           (filter (\<lambda>p. jp_test p = test \<and> jp_status p = Pending) (db_pairs db))))"

definition lease_pair :: "int \<Rightarrow> real \<Rightarrow> real \<Rightarrow> pair_row \<Rightarrow> pair_row" where
  "lease_pair client now expires p =
     p\<lparr>jp_status := Leased, jp_leased_to := Some client, jp_leased_at := Some now,
       jp_lease_expires_at := Some expires, jp_attempts := jp_attempts p + 1\<rparr>"

text \<open>The rows of the final join, by pair id.\<close>

definition claimed_rows :: "db \<Rightarrow> real \<Rightarrow> pair_row list \<Rightarrow> claimed_pair list" where
  "claimed_rows db expires ps =
     concat (map (\<lambda>p. map (\<lambda>op. \<lparr>cp_pair_id = jp_id p, cp_position_id = jp_position p,
                                 cp_position_seq = op_seq op, cp_fen = op_fen op,
                                 cp_lease_expires_at = expires\<rparr>)
                       (filter (\<lambda>op. op_id op = jp_position p) (db_positions db)))
       (sort_key jp_id ps))"

text \<open>The answer when nothing was handed out.\<close>

definition claim_nothing :: "int \<Rightarrow> db \<Rightarrow> claim_result" where
  "claim_nothing client db =
     (let none = \<lparr>cr_status = ClaimOk, cr_test_id = 0, cr_pairs = []\<rparr>
      in case find_client db client of
           None \<Rightarrow> none\<lparr>cr_status := ClaimUnknownClient\<rparr>
         | Some c \<Rightarrow>
             if c_status c = Banned then none\<lparr>cr_status := ClaimBanned\<rparr>
             else case running_test db of
                    None \<Rightarrow> none\<lparr>cr_status := ClaimNoActiveTest\<rparr>
                  | Some t \<Rightarrow> none\<lparr>cr_test_id := t_id t\<rparr>)"

text \<open>The caller's row when it is known and not banned.\<close>

definition caller :: "db \<Rightarrow> int \<Rightarrow> client_row option" where
  "caller db client =
     (case find_client db client of
        None \<Rightarrow> None
      | Some c \<Rightarrow> if c_status c = Banned then None else Some c)"

definition claim_pairs ::
  "server_config \<Rightarrow> (int \<Rightarrow> bool) \<Rightarrow> real \<Rightarrow> int \<Rightarrow> int \<Rightarrow> db \<Rightarrow> (claim_result \<times> db) result" where
  "claim_pairs cfg locked now client slots_free db =
     (case (running_test db, caller db client) of
        (Some t, Some c) \<Rightarrow>
          bindE (est_pair_ms t) (\<lambda>est.
            let limit = min (max slots_free 0) (c_slots c)
            in if limit < 0 then Inl (SqlError ''LIMIT must not be negative'')
               else
                 let picked = picked_pairs locked (t_id t) limit db;
                     factor = (case c_cpu_factor c of None \<Rightarrow> 1 | Some f \<Rightarrow> f);
                     expires = now + max (of_int (lease_ttl_min cfg)) (6 * est * factor / 1000);
                     rows = claimed_rows db expires picked;
                     db' = db\<lparr>db_pairs := update_where (\<lambda>p. jp_id p \<in> set (map jp_id picked))
                                (lease_pair client now expires) (db_pairs db)\<rparr>
                 in if rows \<noteq> []
                    then Inr (\<lparr>cr_status = ClaimOk, cr_test_id = t_id t, cr_pairs = rows\<rparr>, db')
                    else Inr (claim_nothing client db', db'))
      | _ \<Rightarrow> Inr (claim_nothing client db, db))"

section \<open>Results\<close>

datatype submit_status = Accepted | PairNotFound | UnknownClient | LeaseLost | AlreadyCompleted
  | TestFinished | ClientBanned

record submit_reply =
  sr_status :: submit_status
  sr_valid_games :: int

definition submit_status_only :: "submit_status \<Rightarrow> submit_reply" where
  "submit_status_only s = \<lparr>sr_status = s, sr_valid_games = 0\<rparr>"

text \<open>
  \<^verbatim>\<open>INSERT INTO games\<close> with its casts and constraints, then \<^verbatim>\<open>INSERT INTO game_pgns\<close>: the body
  of the loop over the two games.
\<close>

definition game_row_of ::
  "real \<Rightarrow> int \<Rightarrow> int \<Rightarrow> int \<Rightarrow> int \<Rightarrow> game_report \<Rightarrow> game_verdict \<Rightarrow> game_outcome \<Rightarrow>
   game_termination \<Rightarrow> game_row" where
  "game_row_of now i pair test client game v outcome termination =
     \<lparr>g_id = i, g_pair = pair, g_test = test, g_client = client,
      g_slot_index = gr_slot_index game, g_core_id = gr_core_id game,
      g_game_in_pair = gr_game_in_pair game,
      g_candidate_is_white = gr_candidate_is_white game,
      g_outcome = outcome, g_termination = termination,
      g_ply_count = gr_ply_count game, g_duration_ms = gr_duration_ms game,
      g_cpu_factor_at_play = gr_cpu_factor_at_play game,
      g_tc_base_effective_ms = gr_tc_base_effective_ms game,
      g_tc_increment_effective_ms = gr_tc_increment_effective_ms game,
      g_valid = v_valid v, g_invalid_reason = (if v_valid v then None else Some (v_reason v)),
      g_candidate_nodes = gr_candidate_nodes game,
      g_candidate_time_ms = gr_candidate_time_ms game,
      g_baseline_nodes = gr_baseline_nodes game, g_baseline_time_ms = gr_baseline_time_ms game,
      g_created_at = now\<rparr>"

definition insert_game ::
  "(string \<Rightarrow> string result) \<Rightarrow> real \<Rightarrow> int \<Rightarrow> int \<Rightarrow> int \<Rightarrow> game_report \<times> game_verdict \<Rightarrow> db \<Rightarrow> db result" where
  "insert_game gzip now pair test client gv db =
     (case gv of (game, v) \<Rightarrow>
        bindE (outcome_of_text (gr_outcome game)) (\<lambda>outcome.
        bindE (termination_of_text (gr_termination game)) (\<lambda>termination.
        bindE (guardE (gr_game_in_pair game = 0 \<or> gr_game_in_pair game = 1)
                 (SqlError ''games_game_in_pair_check'')) (\<lambda>_.
        bindE (guardE (\<nexists>g. g \<in> set (db_games db) \<and> g_pair g = pair
                          \<and> g_game_in_pair g = gr_game_in_pair game)
                 (SqlError ''games_pair_id_game_in_pair_key'')) (\<lambda>_.
        bindE (gzip (gr_pgn game)) (\<lambda>gz.
          Inr (db\<lparr>db_games := db_games db @
                     [game_row_of now (next_game db) pair test client game v outcome termination],
                  db_pgns := db_pgns db @ [\<lparr>pg_game = next_game db, pg_pgn_gz = gz\<rparr>],
                  next_game := next_game db + 1\<rparr>)))))))"

definition complete_pair :: "real \<Rightarrow> int \<Rightarrow> db \<Rightarrow> db" where
  "complete_pair now pair db =
     db\<lparr>db_pairs := update_where (\<lambda>p. jp_id p = pair)
          (\<lambda>p. p\<lparr>jp_status := Completed, jp_completed_at := Some now\<rparr>) (db_pairs db)\<rparr>"

definition count_valid :: "game_verdict list \<Rightarrow> int" where
  "count_valid vs = int (length (filter v_valid vs))"

definition submit_result ::
  "(string \<Rightarrow> string result) \<Rightarrow> real \<Rightarrow> int \<Rightarrow> pair_report \<Rightarrow> db \<Rightarrow> (submit_reply \<times> db) result" where
  "submit_result gzip now pair report db =
     (case find_pair db pair of
        None \<Rightarrow> Inr (submit_status_only PairNotFound, db)
      | Some p \<Rightarrow>
        case find_test db (jp_test p) of
          None \<Rightarrow> Inr (submit_status_only PairNotFound, db)
        | Some t \<Rightarrow>
          let mine = (jp_leased_to p = Some (pr_client_id report))
          in case find_client db (pr_client_id report) of
               None \<Rightarrow> Inr (submit_status_only UnknownClient, db)
             | Some c \<Rightarrow>
               if c_status c = Banned then Inr (submit_status_only ClientBanned, db)
               else if jp_status p = Completed \<and> mine
               then Inr (submit_status_only AlreadyCompleted, db)
               else if t_status t \<noteq> Running then Inr (submit_status_only TestFinished, db)
               else if jp_status p \<noteq> Leased \<or> \<not> mine then Inr (submit_status_only LeaseLost, db)
               else
                 let verdicts = check_pair report
                 in bindE (foldE (insert_game gzip now pair (jp_test p) (pr_client_id report))
                            (zip (pr_games report) verdicts) (complete_pair now pair db)) (\<lambda>db.
                    bindE (refresh_test now (jp_test p) db) (\<lambda>db.
                      Inr (\<lparr>sr_status = Accepted, sr_valid_games = count_valid verdicts\<rparr>, db))))"

section \<open>Abandonment and recovery\<close>

definition release_pair :: "pair_row \<Rightarrow> pair_row" where
  "release_pair p =
     p\<lparr>jp_status := Pending, jp_leased_to := None, jp_leased_at := None, jp_lease_expires_at := None\<rparr>"

definition held_by :: "int \<Rightarrow> int \<Rightarrow> pair_row \<Rightarrow> bool" where
  "held_by pair client p \<longleftrightarrow> jp_id p = pair \<and> jp_status p = Leased \<and> jp_leased_to p = Some client"

definition abandon_pair :: "int \<Rightarrow> int \<Rightarrow> db \<Rightarrow> bool \<times> db" where
  "abandon_pair pair client db =
     (length (filter (held_by pair client) (db_pairs db)) = 1,
      db\<lparr>db_pairs := update_where (held_by pair client) release_pair (db_pairs db)\<rparr>)"

record lease_recovery =
  lr_requeued :: int
  lr_discarded :: int

definition lease_expired :: "(int \<Rightarrow> bool) \<Rightarrow> real \<Rightarrow> pair_row \<Rightarrow> bool" where
  "lease_expired locked now p \<longleftrightarrow> jp_status p = Leased \<and> \<not> locked (jp_id p) \<and>
     (case jp_lease_expires_at p of None \<Rightarrow> False | Some e \<Rightarrow> e < now)"

definition expire_pair :: "int \<Rightarrow> pair_row \<Rightarrow> pair_row" where
  "expire_pair max_att p =
     (if max_att \<le> jp_attempts p
      then p\<lparr>jp_status := Discarded, jp_discarded_reason := Some ''too_many_attempts''\<rparr>
      else (release_pair p)\<lparr>jp_discarded_reason := None\<rparr>)"

definition recover_expired_leases ::
  "(int \<Rightarrow> bool) \<Rightarrow> real \<Rightarrow> int \<Rightarrow> db \<Rightarrow> (lease_recovery \<times> db) result" where
  "recover_expired_leases locked now max_att db =
     (let expired = filter (lease_expired locked now) (db_pairs db);
          discarded = filter (\<lambda>p. max_att \<le> jp_attempts p) expired;
          db = db\<lparr>db_pairs := update_where (lease_expired locked now) (expire_pair max_att) (db_pairs db)\<rparr>
      in bindE (foldE (refresh_test now) (sort (remdups (map jp_test discarded))) db) (\<lambda>db.
           Inr (\<lparr>lr_requeued = int (length expired) - int (length discarded),
                 lr_discarded = int (length discarded)\<rparr>, db)))"

end
