(* ===== verification/Admin.thy ===== *)
theory Admin
  imports Lifecycle
begin

text \<open>
  server/admin.hpp and server/admin.cpp: creation, stop and priority of tests, the validation
  log and the list of tests.
\<close>

section \<open>Creation\<close>

definition test_row_of ::
  "real \<Rightarrow> int \<Rightarrow> test_kind \<Rightarrow> sprt_preset option \<Rightarrow> test_spec \<Rightarrow> string \<Rightarrow> string \<Rightarrow> test_row" where
  "test_row_of now i kind preset s candidate_commit baseline_commit =
     \<lparr>t_id = i, t_name = sp_name s, t_kind = kind, t_status = Validating, t_result = ResultPending,
      t_candidate_ref = sp_candidate_ref s, t_candidate_commit = candidate_commit,
      t_baseline_ref = sp_baseline_ref s, t_baseline_commit = baseline_commit,
      t_tc_base_ms = sp_tc_base_ms s, t_tc_increment_ms = sp_tc_increment_ms s,
      t_hash_mb = sp_hash_mb s, t_threads = 1, t_book_name = sp_book_name s,
      t_total_pairs = sp_total_pairs s, t_sprt_preset = preset,
      t_sprt_elo0 = sp_sprt_elo0 s, t_sprt_elo1 = sp_sprt_elo1 s,
      t_sprt_alpha = sp_sprt_alpha s, t_sprt_beta = sp_sprt_beta s,
      t_priority = sp_priority s, t_validation_log = None, t_submitted_by = sp_submitted_by s,
      t_created_at = now, t_started_at = None, t_finished_at = None,
      t_adj_draw_movenumber = Some 34, t_adj_draw_movecount = Some 8, t_adj_draw_score_cp = Some 20,
      t_adj_resign_movecount = Some 5, t_adj_resign_score_cp = Some 1000,
      t_adj_resign_twosided = Some True\<rparr>"

text \<open>The table's checks on the bounds of an SPRT test.\<close>

definition sprt_check :: "test_row \<Rightarrow> bool" where
  "sprt_check t \<longleftrightarrow> t_kind t \<noteq> Sprt \<or>
     (case (t_sprt_elo0 t, t_sprt_elo1 t) of (Some e0, Some e1) \<Rightarrow> e0 < e1 | _ \<Rightarrow> False)"

definition insert_test ::
  "real \<Rightarrow> test_spec \<Rightarrow> string \<Rightarrow> string \<Rightarrow> db \<Rightarrow> (int \<times> db) result" where
  "insert_test now s candidate_commit baseline_commit db =
     bindE (kind_of_text (sp_kind s)) (\<lambda>kind.
     bindE (sql_opt preset_of_text (sp_sprt_preset s)) (\<lambda>preset.
       let t = test_row_of now (next_test db) kind preset s candidate_commit baseline_commit
       in bindE (guardE (candidate_commit \<noteq> baseline_commit) (SqlError ''tests_check'')) (\<lambda>_.
          bindE (guardE (sprt_check t) (SqlError ''tests_check1'')) (\<lambda>_.
            Inr (next_test db, db\<lparr>db_tests := db_tests db @ [t], next_test := next_test db + 1\<rparr>)))))"

section \<open>Stop and priority\<close>

datatype stop_status = StopStopped | StopNotFound | StopAlreadyTerminal

record stop_outcome =
  so_status :: stop_status
  so_previous_status :: string
  so_promoted :: "int option"

definition stop_test :: "real \<Rightarrow> int \<Rightarrow> db \<Rightarrow> stop_outcome \<times> db" where
  "stop_test now test db =
     (case find_test db test of
        None \<Rightarrow> (\<lparr>so_status = StopNotFound, so_previous_status = [], so_promoted = None\<rparr>, db)
      | Some t \<Rightarrow>
          let prev = t_status t
          in if prev \<noteq> Validating \<and> prev \<noteq> Queued \<and> prev \<noteq> Running
             then (\<lparr>so_status = StopAlreadyTerminal, so_previous_status = status_text prev,
                    so_promoted = None\<rparr>, db)
             else
               let db = update_test test (\<lambda>t. t\<lparr>t_status := Stopped, t_finished_at := Some now\<rparr>) db;
                   (promoted, db) = (if prev = Running then promote_next_test now db else (None, db))
               in (\<lparr>so_status = StopStopped, so_previous_status = status_text prev,
                    so_promoted = promoted\<rparr>, db))"

datatype priority_status = PriorityUpdated | PriorityNotFound | PriorityNotQueued

record priority_outcome =
  pro_status :: priority_status
  pro_test_status :: string

definition set_priority :: "int \<Rightarrow> int \<Rightarrow> db \<Rightarrow> priority_outcome \<times> db" where
  "set_priority test priority db =
     (case find_test db test of
        None \<Rightarrow> (\<lparr>pro_status = PriorityNotFound, pro_test_status = []\<rparr>, db)
      | Some t \<Rightarrow>
          if t_status t \<noteq> Validating \<and> t_status t \<noteq> Queued
          then (\<lparr>pro_status = PriorityNotQueued, pro_test_status = status_text (t_status t)\<rparr>, db)
          else (\<lparr>pro_status = PriorityUpdated, pro_test_status = status_text (t_status t)\<rparr>,
                update_test test (\<lambda>t. t\<lparr>t_priority := priority\<rparr>) db))"

section \<open>Reads\<close>

record validation_info =
  vi_status :: string
  vi_log :: "string option"

definition get_validation :: "db \<Rightarrow> int \<Rightarrow> validation_info option" where
  "get_validation db test = map_option (\<lambda>t. \<lparr>vi_status = status_text (t_status t),
     vi_log = t_validation_log t\<rparr>) (find_test db test)"

record test_summary =
  su_id :: int
  su_name :: string
  su_kind :: string
  su_status :: string
  su_result :: string
  su_candidate_ref :: string
  su_candidate_commit :: string
  su_baseline_ref :: string
  su_baseline_commit :: string
  su_priority :: int
  su_total_pairs :: int
  su_pairs_valid :: int
  su_llr :: "real option"
  su_llr_lower :: "real option"
  su_llr_upper :: "real option"
  su_elo :: "real option"
  su_created_at :: real
  su_wins :: int
  su_draws :: int
  su_losses :: int

definition waiting :: "test_row \<Rightarrow> bool" where
  "waiting t \<longleftrightarrow> t_status t = Queued \<or> t_status t = Validating"

text \<open>
  The sort keys, ascending: the group, the negated priority and the id of a waiting test
  (\<^verbatim>\<open>NULL\<close>, so equal, in the other groups), the negated id.
\<close>

definition list_key :: "test_row \<Rightarrow> int \<times> int \<times> int \<times> int" where
  "list_key t =
     ((if t_status t = Running then 0 else if waiting t then 1 else 2),
      (if waiting t then - t_priority t else 0), (if waiting t then t_id t else 0), - t_id t)"

definition summary_of :: "db \<Rightarrow> test_row \<Rightarrow> test_summary" where
  "summary_of db t =
     (let s = find_stats db (t_id t); col = (\<lambda>f. Option.bind s f);
          n = (\<lambda>f. case s of None \<Rightarrow> 0 | Some s \<Rightarrow> f s)
      in \<lparr>su_id = t_id t, su_name = t_name t, su_kind = kind_text (t_kind t),
          su_status = status_text (t_status t), su_result = result_text (t_result t),
          su_candidate_ref = t_candidate_ref t, su_candidate_commit = t_candidate_commit t,
          su_baseline_ref = t_baseline_ref t, su_baseline_commit = t_baseline_commit t,
          su_priority = t_priority t, su_total_pairs = t_total_pairs t,
          su_pairs_valid = n st_pairs_valid, su_llr = col st_llr, su_llr_lower = col st_llr_lower,
          su_llr_upper = col st_llr_upper, su_elo = col st_elo, su_created_at = t_created_at t,
          su_wins = n st_games_wins, su_draws = n st_games_draws, su_losses = n st_games_losses\<rparr>)"

text \<open>The negation is an \<^verbatim>\<open>INTEGER\<close> expression, evaluated for every waiting test.\<close>

definition list_tests :: "db \<Rightarrow> int \<Rightarrow> test_summary list result" where
  "list_tests db limit =
     bindE (foldE (\<lambda>t u. bindE (pg_int4 (- t_priority t)) (\<lambda>_. Inr u))
              (filter waiting (db_tests db)) ()) (\<lambda>_.
     bindE (guardE (0 \<le> limit) (SqlError ''LIMIT must not be negative'')) (\<lambda>_.
       Inr (map (summary_of db) (take (nat limit) (sort_key list_key (db_tests db))))))"

end
