(* ===== verification/Smoke.thy ===== *)
theory Smoke
  imports Lifecycle ServerConfig Books
begin

text \<open>
  server/smoke.hpp and server/smoke.cpp: the validation of a test, one pass of
  \<^verbatim>\<open>process_next\<close> in its three parts. The first transaction picks the test; no transaction
  is open while the engines are built; the last one stores the verdict and, on success, the
  positions and the pairs.

  Parameters: \<open>build\<close>, what \<^verbatim>\<open>build::build_engine\<close> and \<^verbatim>\<open>build::check_engine\<close> do for a
  commit (an exception's message or whether the engine is usable, and the extended log);
  \<open>dispatch\<close>, the values \<^verbatim>\<open>random()\<close> gives to the new pairs.
\<close>

section \<open>Picking\<close>

definition smoke_pick :: "db \<Rightarrow> test_row option" where
  "smoke_pick db =
     (case sort_key t_id (filter (\<lambda>t. t_status t = Validating) (db_tests db)) of
        [] \<Rightarrow> None
      | t # _ \<Rightarrow> Some t)"

section \<open>The smoke test\<close>

type_synonym builder = "string \<Rightarrow> string \<Rightarrow> (string + bool) \<times> string"

fun smoke_builds :: "builder \<Rightarrow> (string \<times> string) list \<Rightarrow> string \<Rightarrow> (string + bool) \<times> string" where
  "smoke_builds build [] vlog = (Inr True, vlog)"
| "smoke_builds build ((role, sha) # rest) vlog =
     (let vlog = vlog @ ''== '' @ role @ '' '' @ sha @ '' =='' @ [newline];
          (r, vlog) = build sha vlog
      in if r = Inr True then smoke_builds build rest vlog else (r, vlog))"

record smoke_verdict =
  sm_ok :: bool
  sm_log :: string
  sm_positions :: "string list"

definition internal_error :: "string \<Rightarrow> string \<Rightarrow> smoke_verdict" where
  "internal_error vlog m =
     \<lparr>sm_ok = False, sm_log = vlog @ ''internal error: '' @ m @ [newline], sm_positions = []\<rparr>"

definition smoke_test :: "server_config \<Rightarrow> file_system \<Rightarrow> builder \<Rightarrow> test_row \<Rightarrow> smoke_verdict" where
  "smoke_test cfg fs build t =
     (case smoke_builds build [(''candidate'', t_candidate_commit t), (''baseline'', t_baseline_commit t)] [] of
        (Inl m, vlog) \<Rightarrow> internal_error vlog m
      | (Inr False, vlog) \<Rightarrow> \<lparr>sm_ok = False, sm_log = vlog, sm_positions = []\<rparr>
      | (Inr True, vlog) \<Rightarrow>
          (case sample_book fs (path_join (books_dir cfg) (t_book_name t)) (nat (t_total_pairs t))
                  (of_int (t_id t)) of
             Inl e \<Rightarrow> internal_error vlog (case e of RuntimeError m \<Rightarrow> m | _ \<Rightarrow> [])
           | Inr ps \<Rightarrow>
               if length ps < nat (t_total_pairs t)
               then \<lparr>sm_ok = False,
                     sm_log = vlog @ ''book '' @ t_book_name t @ '' has only '' @ show_nat (length ps) @
                       '' positions, '' @ show_int (t_total_pairs t) @ '' required'' @ [newline],
                     sm_positions = ps\<rparr>
               else \<lparr>sm_ok = True,
                     sm_log = vlog @ ''sampled '' @ show_nat (length ps) @ '' positions from '' @
                       t_book_name t @ '' (seed '' @ show_int (t_id t) @ '')'' @ [newline],
                     sm_positions = ps\<rparr>))"

section \<open>The verdict\<close>

definition position_rows :: "int \<Rightarrow> int \<Rightarrow> string list \<Rightarrow> position_row list" where
  "position_rows first test fens =
     map (\<lambda>(i, fen). \<lparr>op_id = first + int i, op_test = test, op_seq = int i + 1, op_fen = fen\<rparr>)
       (zip [0..<length fens] fens)"

definition insert_positions :: "int \<Rightarrow> string list \<Rightarrow> db \<Rightarrow> db result" where
  "insert_positions test fens db =
     (let new = position_rows (next_position db) test fens
      in bindE (guardE (\<nexists>p. p \<in> set (db_positions db) \<and> op_test p = test
                          \<and> (\<exists>q \<in> set new. op_seq q = op_seq p))
                 (SqlError ''opening_positions_test_id_seq_key'')) (\<lambda>_.
           Inr (db\<lparr>db_positions := db_positions db @ new,
                  next_position := next_position db + int (length fens)\<rparr>)))"

text \<open>\<^verbatim>\<open>INSERT INTO job_pairs .. SELECT test_id, id, random() FROM opening_positions\<close> .\<close>

definition pair_rows :: "int \<Rightarrow> (int \<Rightarrow> real) \<Rightarrow> position_row list \<Rightarrow> pair_row list" where
  "pair_rows first dispatch ops =
     map (\<lambda>(i, op). \<lparr>jp_id = first + int i, jp_test = op_test op, jp_position = op_id op,
                      jp_status = Pending, jp_dispatch_order = dispatch (op_id op),
                      jp_leased_to = None, jp_leased_at = None, jp_lease_expires_at = None,
                      jp_attempts = 0, jp_completed_at = None, jp_discarded_reason = None\<rparr>)
       (zip [0..<length ops] ops)"

definition insert_pairs :: "int \<Rightarrow> (int \<Rightarrow> real) \<Rightarrow> db \<Rightarrow> db" where
  "insert_pairs test dispatch db =
     (let ops = filter (\<lambda>op. op_test op = test) (db_positions db)
      in db\<lparr>db_pairs := db_pairs db @ pair_rows (next_pair db) dispatch ops,
            next_pair := next_pair db + int (length ops)\<rparr>)"

text \<open>
  The last transaction: \<open>None\<close> when the test has left \<^verbatim>\<open>validating\<close>, otherwise the test
  promoted with it, if any.
\<close>

definition smoke_commit ::
  "real \<Rightarrow> int \<Rightarrow> (int \<Rightarrow> real) \<Rightarrow> smoke_verdict \<Rightarrow> db \<Rightarrow> (int option option \<times> db) result" where
  "smoke_commit now test dispatch v db =
     (case find_test db test of
        None \<Rightarrow> Inl (RuntimeError ''unexpected number of rows'')
      | Some t \<Rightarrow>
          if t_status t \<noteq> Validating then Inr (None, db)
          else if \<not> sm_ok v
          then Inr (Some None,
                    update_test test (\<lambda>t. t\<lparr>t_status := InvalidTest,
                      t_validation_log := Some (sm_log v @ ''SMOKE TEST FAILED'' @ [newline])\<rparr>) db)
          else
            bindE (insert_positions test (sm_positions v) db) (\<lambda>db.
            bindE (refresh_test now test
                    (update_test test (\<lambda>t. t\<lparr>t_status := Queued,
                       t_validation_log := Some (sm_log v @ ''SMOKE TEST PASSED'' @ [newline])\<rparr>)
                       (insert_pairs test dispatch db))) (\<lambda>db.
              let (promoted, db) = promote_next_test now db
              in Inr (Some promoted, db))))"

end
