(* ===== verification/Preservation.thy ===== *)
theory Preservation
  imports Scores Queue Admin Smoke
begin

text \<open>
  Every operation of the server keeps the invariant of the database: one lemma per operation,
  collected in \<open>inv_intros\<close>.
\<close>

section \<open>Clients\<close>

lemma db_inv_clients:
  assumes "db_inv db" and "clients_inv (db\<lparr>db_clients := cs, next_client := n\<rparr>)"
  shows "db_inv (db\<lparr>db_clients := cs, next_client := n\<rparr>)"
proof -
  let ?d = "db\<lparr>db_clients := cs, next_client := n\<rparr>"
  have "keeps_prepared db ?d" by (rule keeps_prepared_tests) simp
  then have "positions_inv ?d" "pairs_inv ?d" "games_inv ?d"
    using db_invD [OF assms(1)]
    by (simp_all add: positions_inv_def pairs_inv_def games_inv_def keeps_prepared_def pair_games_def)
  moreover have "tests_inv ?d" "live_inv {} ?d" "stats_inv {} ?d"
    using db_invD [OF assms(1)] tests_inv_frame [of ?d db] live_inv_frame [of ?d db] stats_inv_frame [of ?d db]
    by simp_all
  ultimately show ?thesis using assms(2) by (simp add: db_inv_def)
qed

lemma client_names:
  assumes "clients_inv db" "find (\<lambda>c. c_name c = n) (db_clients db) = Some c"
  shows "c \<in> set (db_clients db) \<and> c_name c = n"
  using find_Some_in [OF assms(2)] .

lemma register_client_inv [inv_intros]:
  assumes "db_inv db" and "register_client now reg db = Inr (r, db')" and slots: "1 \<le> rg_slots reg"
  shows "db_inv db'"
proof -
  note cl = db_invD(4) [OF assms(1)]
  obtain mode where db': "(db' = db\<lparr>db_clients := update_where (\<lambda>r. c_name r = rg_name reg)
                      (update_client_row now mode reg) (db_clients db), next_client := next_client db + 1\<rparr>) \<or>
     (db' = db\<lparr>db_clients := db_clients db @ [insert_client_row now (next_client db) mode reg],
                   next_client := next_client db + 1\<rparr> \<and> find (\<lambda>c. c_name c = rg_name reg) (db_clients db) = None)"
  proof -
    from assms(2) obtain mode where m: "pinning_of_text (rg_pinning_mode reg) = Inr mode"
      by (cases "pinning_of_text (rg_pinning_mode reg)") (simp_all add: register_client_def)
    show thesis
      using assms(2) that [of mode] m
      by (cases "find (\<lambda>c. c_name c = rg_name reg) (db_clients db)")
        (simp_all add: register_client_def)
  qed
  then show ?thesis
  proof
    assume db': "db' = db\<lparr>db_clients := update_where (\<lambda>r. c_name r = rg_name reg)
                      (update_client_row now mode reg) (db_clients db), next_client := next_client db + 1\<rparr>"
    show ?thesis
      unfolding db'
      by (rule db_inv_clients [OF assms(1)])
        (use cl slots in \<open>fastforce simp: clients_inv_def update_client_row_def set_update_where\<close>)
  next
    assume db': "db' = db\<lparr>db_clients := db_clients db @ [insert_client_row now (next_client db) mode reg],
        next_client := next_client db + 1\<rparr> \<and> find (\<lambda>c. c_name c = rg_name reg) (db_clients db) = None"
    then have "\<forall>c \<in> set (db_clients db). c_name c \<noteq> rg_name reg" by (auto simp: find_None_iff)
    then show ?thesis
      using db' cl slots
      by (fastforce intro!: db_inv_clients [OF assms(1)] simp: clients_inv_def insert_client_row_def)
  qed
qed

lemma heartbeat_inv [inv_intros]:
  assumes "db_inv db" and "heartbeat now client f db = (r, db')"
  shows "db_inv db'"
proof (cases "find_client db client")
  case None
  then show ?thesis using assms by (simp add: heartbeat_def)
next
  case (Some c)
  let ?cs = "update_where (\<lambda>r. c_id r = client)
                (\<lambda>r. r\<lparr>c_last_seen := now,
                       c_cpu_factor := (case f of None \<Rightarrow> c_cpu_factor r | Some f \<Rightarrow> Some f),
                       c_status := keep_ban (c_status r)\<rparr>) (db_clients db)"
  have eq: "db' = db\<lparr>db_clients := ?cs\<rparr>"
    using assms(2) Some by (auto simp: heartbeat_def)
  have "db' = db\<lparr>db_clients := ?cs, next_client := next_client db\<rparr>"
    unfolding eq by (cases db) simp
  moreover have "clients_inv (db\<lparr>db_clients := ?cs, next_client := next_client db\<rparr>)"
    using db_invD(4) [OF assms(1)] by (auto simp: clients_inv_def set_update_where)
  ultimately show ?thesis using db_inv_clients [OF assms(1)] by (simp only:)
qed

section \<open>Changes of pairs\<close>

text \<open>An update of pairs that are not completed and do not become so.\<close>

definition update_pairs :: "(pair_row \<Rightarrow> bool) \<Rightarrow> (pair_row \<Rightarrow> pair_row) \<Rightarrow> db \<Rightarrow> db" where
  "update_pairs P f db = db\<lparr>db_pairs := update_where P f (db_pairs db)\<rparr>"

lemma update_pairs_fields [simp]:
  "db_tests (update_pairs P f db) = db_tests db" "db_clients (update_pairs P f db) = db_clients db"
  "db_positions (update_pairs P f db) = db_positions db" "db_games (update_pairs P f db) = db_games db"
  "db_stats (update_pairs P f db) = db_stats db" "next_test (update_pairs P f db) = next_test db"
  "next_client (update_pairs P f db) = next_client db" "next_pair (update_pairs P f db) = next_pair db"
  "next_position (update_pairs P f db) = next_position db" "next_game (update_pairs P f db) = next_game db"
  "db_pairs (update_pairs P f db) = update_where P f (db_pairs db)"
  "db_pgns (update_pairs P f db) = db_pgns db"
  by (simp_all add: update_pairs_def)

definition same_pair :: "pair_row \<Rightarrow> pair_row \<Rightarrow> bool" where
  "same_pair p q \<longleftrightarrow> jp_id p = jp_id q \<and> jp_test p = jp_test q \<and> jp_position p = jp_position q"

lemma update_pairs_rows:
  assumes "\<And>p. same_pair (f p) p" and "pairs_inv db"
    and "\<And>p. p \<in> set (db_pairs db) \<Longrightarrow> P p \<Longrightarrow> pair_shape (f p)"
  shows "pairs_inv (update_pairs P f db)"
proof -
  have keys: "map jp_id (update_where P f (db_pairs db)) = map jp_id (db_pairs db)"
    "map jp_position (update_where P f (db_pairs db)) = map jp_position (db_pairs db)"
    using assms(1) by (simp_all add: same_pair_def)
  have row: "\<exists>q \<in> set (db_pairs db). same_pair p q \<and> pair_shape p"
    if "p \<in> set (update_where P f (db_pairs db))" for p
  proof -
    obtain q where q: "q \<in> set (db_pairs db)" "p = (if P q then f q else q)"
      by (rule update_whereE [OF \<open>p \<in> set (update_where P f (db_pairs db))\<close>])
    have "pair_shape p" using q assms(2,3) by (auto simp: pairs_inv_def)
    then show ?thesis using q assms(1) [of q] by (intro bexI [of _ q]) (auto simp: same_pair_def)
  qed
  have prep: "prepared (update_pairs P f db) i = prepared db i" for i by (simp add: prepared_def)
  show ?thesis
    unfolding pairs_inv_def update_pairs_fields keys prep
  proof (intro conjI ballI)
    show "distinct (map jp_id (db_pairs db))" "distinct (map jp_position (db_pairs db))"
      using assms(2) by (simp_all add: pairs_inv_def)
  next
    fix p assume "p \<in> set (update_where P f (db_pairs db))"
    then obtain q where "q \<in> set (db_pairs db)" "same_pair p q" "pair_shape p" using row by blast
    then show "jp_id p < next_pair db" "pair_shape p" "prepared db (jp_test p)"
      "\<exists>op \<in> set (db_positions db). op_id op = jp_position p \<and> op_test op = jp_test p"
      using assms(2) by (auto simp: pairs_inv_def same_pair_def)
  qed
qed

lemma update_pairs_games:
  assumes "\<And>p. same_pair (f p) p" and "games_inv db"
    and "\<And>p. p \<in> set (db_pairs db) \<Longrightarrow> P p \<Longrightarrow> jp_status p \<noteq> Completed \<and> jp_status (f p) \<noteq> Completed"
  shows "games_inv (update_pairs P f db)"
proof -
  have games: "pair_games (update_pairs P f db) i = pair_games db i" for i by (simp add: pair_games_def)
  have completed: "jp_status p = Completed" if "p \<in> set (db_pairs db)" "g \<in> set (db_games db)" "g_pair g = jp_id p" for p g
  proof -
    have "g \<in> set (pair_games db (jp_id p))" using that by (simp add: pair_games_def)
    then have "map g_game_in_pair (pair_games db (jp_id p)) \<noteq> []" by auto
    then show ?thesis using assms(2) that(1) by (auto simp: games_inv_def split: if_splits)
  qed
  show ?thesis
    unfolding games_inv_def games update_pairs_fields
  proof (intro conjI ballI)
    show "distinct (map g_id (db_games db))" using assms(2) by (simp add: games_inv_def)
  next
    fix g assume g: "g \<in> set (db_games db)"
    show "g_id g < next_game db" using assms(2) g by (simp add: games_inv_def)
    obtain p where p: "p \<in> set (db_pairs db)" "jp_id p = g_pair g" "jp_test p = g_test g"
      "jp_leased_to p = Some (g_client g)"
      using assms(2) g by (auto simp: games_inv_def)
    then have "\<not> P p" using completed [OF p(1) g] assms(3) [OF p(1)] by auto
    then have "p \<in> set (update_where P f (db_pairs db))" using p(1) by (auto simp: set_update_where)
    then show "\<exists>p \<in> set (update_where P f (db_pairs db)). jp_id p = g_pair g \<and> jp_test p = g_test g \<and>
        jp_leased_to p = Some (g_client g)"
      using p by blast
  next
    fix p assume "p \<in> set (update_where P f (db_pairs db))"
    then obtain q where q: "q \<in> set (db_pairs db)" "p = (if P q then f q else q)"
      by (auto simp: set_update_where)
    have "jp_id p = jp_id q" "(jp_status p = Completed) = (jp_status q = Completed)"
      using q assms(1) [of q] assms(3) [OF q(1)] by (auto simp: same_pair_def)
    then show "map g_game_in_pair (pair_games db (jp_id p)) = (if jp_status p = Completed then [0, 1] else [])"
      using assms(2) q(1) by (simp add: games_inv_def)
  qed
qed

lemma update_pairs_outcomes:
  assumes "\<And>p. p \<in> set (db_pairs db) \<Longrightarrow> P p \<Longrightarrow> jp_status p \<noteq> Completed \<and> jp_status (f p) \<noteq> Completed"
  shows "pair_outcomes (update_pairs P f db) = pair_outcomes db"
proof -
  have rows: "pair_outcome_rows (update_pairs P f db) = pair_outcome_rows db"
    using outcome_rows_cong [of "update_pairs P f db" db] by (intro ext) simp
  have "pair_outcome_rows db (if P p then f p else p) = pair_outcome_rows db p" if "p \<in> set (db_pairs db)" for p
    using assms [OF that] by (simp add: pair_outcome_rows_def)
  then show ?thesis
    unfolding pair_outcomes_def rows update_pairs_fields update_where_def map_map
    by (intro arg_cong [where f = concat] map_cong) auto
qed

lemma update_pairs_stats:
  assumes "\<And>p. p \<in> set (db_pairs db) \<Longrightarrow> P p \<Longrightarrow> jp_status p \<noteq> Completed \<and> jp_status (f p) \<noteq> Completed"
  shows "stats_inv S (update_pairs P f db) = stats_inv S db"
proof -
  note o = update_pairs_outcomes [of db P f, OF assms]
  have "stats_current (update_pairs P f db) s = stats_current db s" for s
    by (rule stats_current_cong) (simp_all add: test_outcomes_def scored_games_def o)
  then show ?thesis by (simp add: stats_inv_def)
qed

lemma update_pairs_live:
  assumes "\<And>p. same_pair (f p) p" and "live_inv S db"
    and queued: "\<And>p t. p \<in> set (db_pairs db) \<Longrightarrow> P p \<Longrightarrow> t \<in> set (db_tests db) \<Longrightarrow> t_status t = Queued
      \<Longrightarrow> jp_test p \<noteq> t_id t"
    and dead: "\<And>p. p \<in> set (db_pairs db) \<Longrightarrow> P p \<Longrightarrow> jp_status (f p) \<noteq> Pending \<Longrightarrow>
      jp_status (f p) \<noteq> Leased \<Longrightarrow> jp_test p \<in> S"
  shows "live_inv S (update_pairs P f db)"
  unfolding live_inv_def update_pairs_fields
proof (intro conjI ballI impI)
  fix t assume t: "t \<in> set (db_tests db)" "t_status t = Queued"
  then obtain p where p: "p \<in> set (db_pairs db)" "jp_test p = t_id t"
    using assms(2) by (auto simp: live_inv_def)
  then have "\<not> P p" using queued [OF p(1) _ t] by auto
  then have "p \<in> set (update_where P f (db_pairs db))" using p(1) by (auto simp: set_update_where)
  then show "\<exists>p \<in> set (update_where P f (db_pairs db)). jp_test p = t_id t" using p(2) by blast
  fix q assume "q \<in> set (update_where P f (db_pairs db))" and qt: "jp_test q = t_id t"
  then obtain r where r: "r \<in> set (db_pairs db)" "q = (if P r then f r else r)"
    by (auto simp: set_update_where)
  have "jp_test r = t_id t" using qt r(2) assms(1) [of r] by (auto simp: same_pair_def split: if_splits)
  then have "\<not> P r" using queued [OF r(1) _ t] by auto
  then show "jp_status q = Pending"
    using r assms(2) t \<open>jp_test r = t_id t\<close> by (auto simp: live_inv_def)
next
  fix t assume t: "t \<in> set (db_tests db)" "t_status t = Running" "t_id t \<notin> S"
  then obtain p where "p \<in> set (live_pairs db (t_id t))"
    using assms(2) by (fastforce simp: live_inv_def neq_Nil_conv)
  then have p: "p \<in> set (db_pairs db)" "jp_test p = t_id t" "jp_status p = Pending \<or> jp_status p = Leased"
    by (auto simp: live_pairs_def)
  let ?q = "if P p then f p else p"
  have "jp_test ?q = t_id t" using p(2) assms(1) [of p] by (simp add: same_pair_def)
  moreover have "jp_status ?q = Pending \<or> jp_status ?q = Leased"
    using dead [OF p(1)] p(2,3) t(3) by auto
  moreover have "?q \<in> set (update_where P f (db_pairs db))" using p(1) by (auto simp: set_update_where)
  ultimately have "?q \<in> set (live_pairs (update_pairs P f db) (t_id t))" by (simp add: live_pairs_def)
  then show "live_pairs (update_pairs P f db) (t_id t) \<noteq> []" by auto
qed

text \<open>All but the rule on live pairs.\<close>

definition base_inv :: "db \<Rightarrow> bool" where
  "base_inv db \<longleftrightarrow> tests_inv db \<and> work_inv db \<and> stats_inv {} db"

lemma db_inv_base: "db_inv db \<longleftrightarrow> base_inv db \<and> live_inv {} db"
  by (auto simp: db_inv_split base_inv_def)

lemma update_pairs_base:
  assumes "\<And>p. same_pair (f p) p" and "base_inv db"
    and shape: "\<And>p. p \<in> set (db_pairs db) \<Longrightarrow> P p \<Longrightarrow> pair_shape (f p)"
    and st: "\<And>p. p \<in> set (db_pairs db) \<Longrightarrow> P p \<Longrightarrow> jp_status p \<noteq> Completed \<and> jp_status (f p) \<noteq> Completed"
  shows "base_inv (update_pairs P f db)"
proof -
  have parts: "tests_inv db" "clients_inv db" "positions_inv db" "pairs_inv db" "games_inv db" "stats_inv {} db"
    using assms(2) by (auto simp: base_inv_def work_inv_def)
  have prep: "prepared (update_pairs P f db) i = prepared db i" for i by (simp add: prepared_def)
  have "clients_inv (update_pairs P f db)" "positions_inv (update_pairs P f db)"
    using parts(2,3) by (simp_all add: clients_inv_def positions_inv_def prep)
  moreover have "tests_inv (update_pairs P f db)"
    using parts(1) tests_inv_frame [of "update_pairs P f db" db] by simp
  moreover have "stats_inv {} (update_pairs P f db)"
    using update_pairs_stats [OF st, where S = "{}"] parts(6) by blast
  ultimately show ?thesis
    using update_pairs_rows [OF assms(1) parts(4) shape] update_pairs_games [OF assms(1) parts(5) st]
    by (simp add: base_inv_def work_inv_def)
qed

section \<open>Claim, abandonment, recovery\<close>

lemma same_pair_ops [simp]:
  "same_pair (lease_pair client now expires p) p" "same_pair (release_pair p) p"
  "same_pair (expire_pair m p) p" "same_pair p p"
  "same_pair (p\<lparr>jp_status := st, jp_completed_at := c\<rparr>) p"
  by (simp_all add: same_pair_def lease_pair_def release_pair_def expire_pair_def)

lemma picked_pairs_facts:
  assumes "p \<in> set (picked_pairs locked test limit db)"
  shows "p \<in> set (db_pairs db) \<and> jp_test p = test \<and> jp_status p = Pending \<and> \<not> locked (jp_id p)"
  using assms by (auto simp: picked_pairs_def dest!: in_set_takeD)

lemma if_result:
  "(if c then Inl x else if d then Inr (a, e) else Inr (b, e)) = Inr (r, db')
    \<Longrightarrow> \<not> c \<and> db' = e \<and> r = (if d then a else b)"
  by (auto split: if_splits)

lemma claim_cases:
  assumes "claim_pairs cfg locked now client slots_free db = Inr (r, db')"
  obtains "db' = db" "r = claim_nothing client db" "running_test db = None \<or> caller db client = None"
  | t c est expires where "running_test db = Some t" "caller db client = Some c" "est_pair_ms t = Inr est"
      "0 \<le> min (max slots_free 0) (c_slots c)"
      "expires = now + max (of_int (lease_ttl_min cfg))
          (6 * est * (case c_cpu_factor c of None \<Rightarrow> 1 | Some f \<Rightarrow> f) / 1000)"
      "db' = update_pairs
         (\<lambda>p. jp_id p \<in> set (map jp_id (picked_pairs locked (t_id t) (min (max slots_free 0) (c_slots c)) db)))
         (lease_pair client now expires) db"
      "r = (let rows = claimed_rows db expires (picked_pairs locked (t_id t) (min (max slots_free 0) (c_slots c)) db)
            in if rows \<noteq> [] then \<lparr>cr_status = ClaimOk, cr_test_id = t_id t, cr_pairs = rows\<rparr>
               else claim_nothing client db')"
proof (cases "running_test db")
  case None
  then show thesis using assms that(1) by (auto simp: claim_pairs_def)
next
  case t: (Some t)
  show thesis
  proof (cases "caller db client")
    case None
    then show thesis using assms t that(1) by (auto simp: claim_pairs_def)
  next
    case (Some c)
    from assms t Some obtain est where est: "est_pair_ms t = Inr est"
      by (cases "est_pair_ms t") (simp_all add: claim_pairs_def)
    note b = if_result [OF assms [unfolded claim_pairs_def t Some prod.case option.case est bindE.simps Let_def]]
    show thesis
    proof (rule that(2) [OF t Some est _ refl])
      show "0 \<le> min (max slots_free 0) (c_slots c)" using b by linarith
      show db': "db' = update_pairs (\<lambda>p. jp_id p \<in> set (map jp_id
            (picked_pairs locked (t_id t) (min (max slots_free 0) (c_slots c)) db)))
          (lease_pair client now (now + max (of_int (lease_ttl_min cfg))
            (6 * est * (case c_cpu_factor c of None \<Rightarrow> 1 | Some f \<Rightarrow> f) / 1000))) db"
        unfolding update_pairs_def using b by blast
      show "r = (let rows = claimed_rows db (now + max (of_int (lease_ttl_min cfg))
              (6 * est * (case c_cpu_factor c of None \<Rightarrow> 1 | Some f \<Rightarrow> f) / 1000))
              (picked_pairs locked (t_id t) (min (max slots_free 0) (c_slots c)) db)
          in if rows \<noteq> [] then \<lparr>cr_status = ClaimOk, cr_test_id = t_id t, cr_pairs = rows\<rparr>
             else claim_nothing client db')"
        unfolding Let_def using b by metis
    qed
  qed
qed

lemma queued_pairs_pending:
  assumes "live_inv S db" "p \<in> set (db_pairs db)" "t \<in> set (db_tests db)" "t_status t = Queued"
    "jp_test p = t_id t"
  shows "jp_status p = Pending"
  using assms by (simp add: live_inv_def)

lemma picked_iff:
  assumes "pairs_inv db" "p \<in> set (db_pairs db)"
    and "jp_id p \<in> set (map jp_id (picked_pairs locked test limit db))"
  shows "p \<in> set (picked_pairs locked test limit db)"
proof -
  obtain q where q: "q \<in> set (picked_pairs locked test limit db)" "jp_id q = jp_id p" using assms(3) by auto
  then have "q = p" using pairs_unique [OF assms(1) _ assms(2)] picked_pairs_facts [OF q(1)] by blast
  then show ?thesis using q by simp
qed

lemma claim_pairs_inv [inv_intros]:
  assumes inv: "db_inv db" and "claim_pairs cfg locked now client slots_free db = Inr (r, db')"
  shows "db_inv db'"
  using assms(2)
proof (cases rule: claim_cases)
  case 1
  then show ?thesis using inv by simp
next
  case (2 t c est expires)
  let ?limit = "min (max slots_free 0) (c_slots c)"
  let ?P = "\<lambda>p. jp_id p \<in> set (map jp_id (picked_pairs locked (t_id t) ?limit db))"
  let ?f = "lease_pair client now expires"
  have t: "t \<in> set (db_tests db)" "t_status t = Running" using running_test_Some [OF 2(1)] by auto
  have P: "jp_test p = t_id t \<and> jp_status p = Pending" if "p \<in> set (db_pairs db)" "?P p" for p
    using picked_pairs_facts [OF picked_iff [OF db_invD(6) [OF inv] that]] by blast
  have "base_inv (update_pairs ?P ?f db)"
  proof (rule update_pairs_base)
    show "base_inv db" using inv by (simp add: db_inv_base)
    show "pair_shape (?f p)" if "p \<in> set (db_pairs db)" "?P p" for p
      using P [OF that] that(1) db_invD(6) [OF inv] by (simp add: pairs_inv_def pair_shape_def lease_pair_def)
    show "jp_status p \<noteq> Completed \<and> jp_status (?f p) \<noteq> Completed" if "p \<in> set (db_pairs db)" "?P p" for p
      using P [OF that] by (simp add: lease_pair_def)
  qed simp
  moreover have "live_inv {} (update_pairs ?P ?f db)"
  proof (rule update_pairs_live [OF _ db_invD(8) [OF inv]])
    fix p u assume "p \<in> set (db_pairs db)" "?P p" "u \<in> set (db_tests db)" "t_status u = Queued"
    then show "jp_test p \<noteq> t_id u"
      using P test_unique [OF db_invD(2) [OF inv] t(1), of u] t(2) by fastforce
  qed (simp_all add: lease_pair_def same_pair_def)
  ultimately show ?thesis unfolding 2(6) db_inv_base by blast
qed

lemma leased_not_queued:
  assumes "live_inv S db" "p \<in> set (db_pairs db)" "jp_status p = Leased" "t \<in> set (db_tests db)"
    "t_status t = Queued"
  shows "jp_test p \<noteq> t_id t"
  using queued_pairs_pending [OF assms(1,2,4,5)] assms(3) by auto

lemma abandon_pair_alt: "snd (abandon_pair pair client db) = update_pairs (held_by pair client) release_pair db"
  by (simp add: abandon_pair_def update_pairs_def)

lemma leased_shape:
  "pairs_inv db \<Longrightarrow> p \<in> set (db_pairs db) \<Longrightarrow> jp_status p = Leased \<Longrightarrow>
    jp_leased_to p \<noteq> None \<and> jp_lease_expires_at p \<noteq> None \<and> 1 \<le> jp_attempts p"
  by (auto simp: pairs_inv_def pair_shape_def)

lemma abandon_pair_inv [inv_intros]:
  assumes inv: "db_inv db" and "abandon_pair pair client db = (r, db')"
  shows "db_inv db'"
proof -
  have held: "jp_status p = Leased" if "held_by pair client p" for p using that by (simp add: held_by_def)
  have "base_inv (update_pairs (held_by pair client) release_pair db)"
  proof (rule update_pairs_base)
    show "base_inv db" using inv by (simp add: db_inv_base)
    show "pair_shape (release_pair p)" if "p \<in> set (db_pairs db)" "held_by pair client p" for p
      using leased_shape [OF db_invD(6) [OF inv] that(1) held [OF that(2)]]
      by (simp add: pair_shape_def release_pair_def)
  qed (auto simp: held_by_def release_pair_def same_pair_def)
  moreover have "live_inv {} (update_pairs (held_by pair client) release_pair db)"
    by (rule update_pairs_live [OF _ db_invD(8) [OF inv]])
      (use leased_not_queued [OF db_invD(8) [OF inv]] held in \<open>auto simp: release_pair_def same_pair_def\<close>)
  ultimately show ?thesis
    using abandon_pair_alt [of pair client db] assms(2) by (simp add: db_inv_base)
qed

text \<open>The recalculations of a recovery, one test after the other.\<close>

lemma refresh_all:
  assumes "foldE (refresh_test now) is db = Inr db'" and "base_inv db" and "live_inv (set is) db"
  shows "db_inv db'"
proof -
  have "base_inv db' \<and> live_inv {} db'"
    using assms
  proof (induction "is" arbitrary: db)
    case Nil
    then show ?case by simp
  next
    case (Cons i "is")
    then obtain d where d: "refresh_test now i db = Inr d" "foldE (refresh_test now) is d = Inr db'" by auto
    have parts: "tests_inv db" "tests_core db" "work_inv db" "stats_inv {} db"
      using Cons.prems(2) by (auto simp: base_inv_def tests_inv_def)
    note f = refresh_facts [OF d(1) parts(2)]
    have "work_inv d" by (rule work_inv_frame [OF f(3,4) parts(3)])
    moreover have "stats_inv {} d" using refresh_stats [OF d(1) parts(2,4)] by simp
    ultimately have "base_inv d" using f(2) [OF parts(1)] by (simp add: base_inv_def)
    moreover have "live_inv (set is) d"
      using f(5) [OF Cons.prems(3)] by (auto simp: live_inv_def)
    ultimately show ?case using Cons.IH [OF d(2)] by blast
  qed
  then show ?thesis by (simp add: db_inv_base)
qed

lemma lease_expiredD: "lease_expired locked now p \<Longrightarrow> jp_status p = Leased"
  by (simp add: lease_expired_def)

lemma recover_cases:
  assumes "recover_expired_leases locked now m db = Inr (r, db')"
  shows "foldE (refresh_test now)
           (sort (remdups (map jp_test (filter (\<lambda>p. m \<le> jp_attempts p)
              (filter (lease_expired locked now) (db_pairs db))))))
           (update_pairs (lease_expired locked now) (expire_pair m) db) = Inr db'"
  using assms by (auto simp: recover_expired_leases_def update_pairs_def Let_def)

lemma recover_expired_leases_inv [inv_intros]:
  assumes inv: "db_inv db" and "recover_expired_leases locked now m db = Inr (r, db')"
  shows "db_inv db'"
proof (rule refresh_all [OF recover_cases [OF assms(2)]])
  let ?S = "set (sort (remdups (map jp_test (filter (\<lambda>p. m \<le> jp_attempts p)
              (filter (lease_expired locked now) (db_pairs db))))))"
  show "base_inv (update_pairs (lease_expired locked now) (expire_pair m) db)"
  proof (rule update_pairs_base)
    show "base_inv db" using inv by (simp add: db_inv_base)
    show "pair_shape (expire_pair m p)" if "p \<in> set (db_pairs db)" "lease_expired locked now p" for p
      using leased_shape [OF db_invD(6) [OF inv] that(1) lease_expiredD [OF that(2)]]
      by (simp add: pair_shape_def expire_pair_def release_pair_def)
    show "jp_status p \<noteq> Completed \<and> jp_status (expire_pair m p) \<noteq> Completed"
      if "p \<in> set (db_pairs db)" "lease_expired locked now p" for p
      using lease_expiredD [OF that(2)] by (simp add: expire_pair_def release_pair_def)
  qed simp
  have "live_inv ?S db" using db_invD(8) [OF inv] by (simp add: live_inv_def)
  then show "live_inv ?S (update_pairs (lease_expired locked now) (expire_pair m) db)"
  proof (rule update_pairs_live [rotated])
    fix p t assume "p \<in> set (db_pairs db)" "lease_expired locked now p" "t \<in> set (db_tests db)" "t_status t = Queued"
    then show "jp_test p \<noteq> t_id t"
      using leased_not_queued [OF db_invD(8) [OF inv]] lease_expiredD by blast
  next
    fix p assume p: "p \<in> set (db_pairs db)" "lease_expired locked now p"
      "jp_status (expire_pair m p) \<noteq> Pending"
    then show "jp_test p \<in> ?S" by (auto simp: expire_pair_def release_pair_def split: if_splits)
  qed simp
qed

section \<open>A submitted result\<close>

definition add_game :: "game_row \<Rightarrow> string \<Rightarrow> db \<Rightarrow> db" where
  "add_game row gz db = db\<lparr>db_games := db_games db @ [row],
     db_pgns := db_pgns db @ [\<lparr>pg_game = g_id row, pg_pgn_gz = gz\<rparr>], next_game := next_game db + 1\<rparr>"

lemma add_game_fields [simp]:
  "db_tests (add_game row gz db) = db_tests db" "db_clients (add_game row gz db) = db_clients db"
  "db_positions (add_game row gz db) = db_positions db" "db_pairs (add_game row gz db) = db_pairs db"
  "db_stats (add_game row gz db) = db_stats db" "db_games (add_game row gz db) = db_games db @ [row]"
  "next_test (add_game row gz db) = next_test db" "next_client (add_game row gz db) = next_client db"
  "next_position (add_game row gz db) = next_position db" "next_pair (add_game row gz db) = next_pair db"
  "next_game (add_game row gz db) = next_game db + 1"
  "db_pgns (add_game row gz db) = db_pgns db @ [\<lparr>pg_game = g_id row, pg_pgn_gz = gz\<rparr>]"
  by (simp_all add: add_game_def)

text \<open>What one inserted row is.\<close>

definition row_for :: "int \<Rightarrow> int \<Rightarrow> int \<Rightarrow> int \<Rightarrow> game_report \<Rightarrow> game_verdict \<Rightarrow> game_row \<Rightarrow> bool" where
  "row_for i pair test client game v row \<longleftrightarrow> g_id row = i \<and> g_pair row = pair \<and> g_test row = test \<and>
     g_client row = client \<and> g_game_in_pair row = gr_game_in_pair game \<and> g_valid row = v_valid v \<and>
     outcome_of_text (gr_outcome game) = Inr (g_outcome row)"

lemma insert_game_Inr:
  assumes "insert_game gzip now pair test client (game, v) db = Inr db'"
  obtains row gz where "db' = add_game row gz db" "row_for (next_game db) pair test client game v row"
proof -
  from assms obtain oc tm gz where out: "outcome_of_text (gr_outcome game) = Inr oc"
    "db' = db\<lparr>db_games := db_games db @
                     [game_row_of now (next_game db) pair test client game v oc tm],
                  db_pgns := db_pgns db @ [\<lparr>pg_game = next_game db, pg_pgn_gz = gz\<rparr>],
                  next_game := next_game db + 1\<rparr>"
    by (auto simp: insert_game_def)
  show thesis
  proof (rule that)
    show "db' = add_game (game_row_of now (next_game db) pair test client game v oc tm) gz db"
      unfolding out(2) by (simp add: add_game_def game_row_of_def)
    show "row_for (next_game db) pair test client game v
        (game_row_of now (next_game db) pair test client game v oc tm)"
      using out(1) by (simp add: row_for_def game_row_of_def)
  qed
qed

definition completed_row :: "real \<Rightarrow> pair_row \<Rightarrow> pair_row" where
  "completed_row now p = p\<lparr>jp_status := Completed, jp_completed_at := Some now\<rparr>"

lemma completed_row_simps [simp]:
  "same_pair (completed_row now p) p" "jp_status (completed_row now p) = Completed"
  "jp_id (completed_row now p) = jp_id p" "jp_test (completed_row now p) = jp_test p"
  "jp_leased_to (completed_row now p) = jp_leased_to p"
  by (simp_all add: completed_row_def same_pair_def)

lemma complete_pair_alt: "complete_pair now pair db = update_pairs (\<lambda>p. jp_id p = pair) (completed_row now) db"
  by (simp add: complete_pair_def update_pairs_def completed_row_def [abs_def])

text \<open>The database when both games are stored, before the recalculation.\<close>

definition with_result :: "real \<Rightarrow> int \<Rightarrow> game_row \<times> game_row \<Rightarrow> string \<times> string \<Rightarrow> db \<Rightarrow> db" where
  "with_result now pair rows gzs db =
     add_game (snd rows) (snd gzs) (add_game (fst rows) (fst gzs) (complete_pair now pair db))"

text \<open>The loop over the two games of a report adds their two rows.\<close>

lemma stored_games:
  assumes "foldE (insert_game gzip now pair test client) (zip (pr_games report) (check_pair report)) db = Inr d"
    and "report_wf report"
  obtains r0 r1 z0 z1 where "d = add_game r1 z1 (add_game r0 z0 db)"
    "row_for (next_game db) pair test client (pr_games report ! 0) (check_pair report ! 0) r0"
    "row_for (next_game db + 1) pair test client (pr_games report ! 1) (check_pair report ! 1) r1"
proof -
  let ?ins = "insert_game gzip now pair test client"
  obtain g0 g1 where g: "pr_games report = [g0, g1]" by (rule report_wf_cases [OF assms(2)])
  obtain v0 v1 where v: "check_pair report = [v0, v1]"
    using length_check_pair [of report] by (cases "check_pair report" rule: remdups_adj.cases) auto
  obtain d0 where d: "?ins (g0, v0) db = Inr d0" "?ins (g1, v1) d0 = Inr d"
    using assms(1) by (auto simp: g v)
  obtain r0 z0 where r0: "d0 = add_game r0 z0 db" "row_for (next_game db) pair test client g0 v0 r0"
    by (rule insert_game_Inr [OF d(1)])
  obtain r1 z1 where "d = add_game r1 z1 d0" "row_for (next_game d0) pair test client g1 v1 r1"
    by (rule insert_game_Inr [OF d(2)])
  then show thesis using that r0 g v by simp
qed

lemma submit_cases:
  assumes "submit_result gzip now pair report db = Inr (r, db')" and "report_wf report"
  obtains "db' = db" "sr_status r \<noteq> Accepted"
  | p t r0 r1 gz where "p \<in> set (db_pairs db)" "jp_id p = pair" "jp_status p = Leased"
      "jp_leased_to p = Some (pr_client_id report)"
      "t \<in> set (db_tests db)" "t_id t = jp_test p" "t_status t = Running"
      "row_for (next_game db) pair (jp_test p) (pr_client_id report) (pr_games report ! 0)
         (check_pair report ! 0) r0"
      "row_for (next_game db + 1) pair (jp_test p) (pr_client_id report) (pr_games report ! 1)
         (check_pair report ! 1) r1"
      "refresh_test now (jp_test p) (with_result now pair (r0, r1) gz db) = Inr db'"
      "r = \<lparr>sr_status = Accepted, sr_valid_games = count_valid (check_pair report)\<rparr>"
proof (cases "find_pair db pair")
  case None
  then show thesis using assms that(1) by (auto simp: submit_result_def submit_status_only_def)
next
  case p: (Some p)
  show thesis
  proof (cases "find_test db (jp_test p)")
    case None
    then show thesis using assms p that(1) by (auto simp: submit_result_def submit_status_only_def)
  next
    case t: (Some t)
    show thesis
    proof (cases "find_client db (pr_client_id report)")
      case None
      then show thesis using assms p t that(1) by (auto simp: submit_result_def submit_status_only_def)
    next
      case c: (Some c)
      show thesis
      proof (cases "c_status c \<noteq> Banned \<and> t_status t = Running \<and> jp_status p = Leased \<and>
          jp_leased_to p = Some (pr_client_id report)")
        case False
        then have "db' = db \<and> sr_status r \<noteq> Accepted"
          using assms p t c by (auto simp: submit_result_def submit_status_only_def Let_def split: if_splits)
        then show thesis using that(1) by blast
      next
        case True
        let ?ins = "insert_game gzip now pair (jp_test p) (pr_client_id report)"
        from assms(1) obtain d1 where d: "foldE ?ins (zip (pr_games report) (check_pair report))
            (complete_pair now pair db) = Inr d1" "refresh_test now (jp_test p) d1 = Inr db'"
          "r = \<lparr>sr_status = Accepted, sr_valid_games = count_valid (check_pair report)\<rparr>"
          using True p t c by (auto simp: submit_result_def Let_def)
        obtain r0 r1 z0 z1 where r: "d1 = add_game r1 z1 (add_game r0 z0 (complete_pair now pair db))"
          "row_for (next_game (complete_pair now pair db)) pair (jp_test p) (pr_client_id report)
             (pr_games report ! 0) (check_pair report ! 0) r0"
          "row_for (next_game (complete_pair now pair db) + 1) pair (jp_test p) (pr_client_id report)
             (pr_games report ! 1) (check_pair report ! 1) r1"
          by (rule stored_games [OF d(1) assms(2)])
        show thesis
          using that(2) [of p t r0 r1 "(z0, z1)"] find_pair_Some [OF p] find_test_Some [OF t] True r d(2,3)
          by (simp add: with_result_def complete_pair_alt)
      qed
    qed
  qed
qed

lemma filter_concat_cong:
  "(\<And>x. x \<in> set xs \<Longrightarrow> filter P (f x) = filter P (g x)) \<Longrightarrow>
    filter P (concat (map f xs)) = filter P (concat (map g xs))"
  by (induction xs) auto

lemma outcome_row_keys:
  "po \<in> set (pair_outcome_rows db p) \<Longrightarrow> po_pair po = jp_id p \<and> po_test po = jp_test p"
  by (auto simp: pair_outcome_rows_def Let_def split: if_splits)

lemma with_result_fields [simp]:
  "db_tests (with_result now pair rows gzs db) = db_tests db"
  "db_clients (with_result now pair rows gzs db) = db_clients db"
  "db_positions (with_result now pair rows gzs db) = db_positions db"
  "db_pairs (with_result now pair rows gzs db) = update_where (\<lambda>p. jp_id p = pair) (completed_row now) (db_pairs db)"
  "db_games (with_result now pair rows gzs db) = db_games db @ [fst rows, snd rows]"
  "db_stats (with_result now pair rows gzs db) = db_stats db"
  "next_test (with_result now pair rows gzs db) = next_test db"
  "next_client (with_result now pair rows gzs db) = next_client db"
  "next_position (with_result now pair rows gzs db) = next_position db"
  "next_pair (with_result now pair rows gzs db) = next_pair db"
  "next_game (with_result now pair rows gzs db) = next_game db + 2"
  "db_pgns (with_result now pair rows gzs db) = db_pgns db @
     [\<lparr>pg_game = g_id (fst rows), pg_pgn_gz = fst gzs\<rparr>, \<lparr>pg_game = g_id (snd rows), pg_pgn_gz = snd gzs\<rparr>]"
  by (simp_all add: with_result_def complete_pair_alt)

text \<open>The outcomes of every other pair are what they were.\<close>

lemma with_result_rows:
  assumes "g_pair (fst rows) = pair" "g_pair (snd rows) = pair" "jp_id p \<noteq> pair"
  shows "pair_outcome_rows (with_result now pair rows gzs db) p = pair_outcome_rows db p"
proof -
  have "valid_games (with_result now pair rows gzs db) (jp_id p) = valid_games db (jp_id p)"
    using assms by (simp add: valid_games_def)
  then show ?thesis by (simp add: pair_outcome_rows_def)
qed

lemma with_result_outcomes:
  assumes rows: "g_pair (fst rows) = pair" "g_pair (snd rows) = pair"
    and keep: "\<And>po p. p \<in> set (db_pairs db) \<Longrightarrow> jp_id p = pair \<Longrightarrow> po_pair po = jp_id p \<Longrightarrow>
      po_test po = jp_test p \<Longrightarrow> \<not> P po"
  shows "filter P (pair_outcomes (with_result now pair rows gzs db)) = filter P (pair_outcomes db)"
proof -
  let ?d = "with_result now pair rows gzs db"
  let ?u = "\<lambda>p. if jp_id p = pair then completed_row now p else p"
  have "filter P (pair_outcome_rows ?d (?u p)) = filter P (pair_outcome_rows db p)"
    if p: "p \<in> set (db_pairs db)" for p
  proof (cases "jp_id p = pair")
    case True
    have "\<not> P po" if "po \<in> set (pair_outcome_rows ?d (completed_row now p))" for po
      using outcome_row_keys [OF that] keep [OF p True] by simp
    moreover have "\<not> P po" if "po \<in> set (pair_outcome_rows db p)" for po
      using outcome_row_keys [OF that] keep [OF p True] by simp
    ultimately have "filter P (pair_outcome_rows ?d (completed_row now p)) = []"
      "filter P (pair_outcome_rows db p) = []" by (simp_all add: filter_empty_conv)
    then show ?thesis using True by simp
  next
    case False
    then show ?thesis using with_result_rows [OF rows False, of now gzs db] by simp
  qed
  then show ?thesis
    unfolding pair_outcomes_def with_result_fields update_where_def map_map o_def
    by (rule filter_concat_cong)
qed

lemma no_games_unless_completed:
  assumes "games_inv db" "p \<in> set (db_pairs db)" "jp_status p \<noteq> Completed"
  shows "pair_games db (jp_id p) = []"
proof -
  have "map g_game_in_pair (pair_games db (jp_id p)) = []"
    using assms by (simp add: games_inv_def)
  then show ?thesis by simp
qed

text \<open>The statistics of every other test stay right while the two games are stored.\<close>

lemma with_result_stats:
  assumes inv: "pairs_inv db" "games_inv db" "stats_inv {} db"
    and p: "p \<in> set (db_pairs db)" "jp_id p = pair" "jp_status p \<noteq> Completed"
    and rows: "g_pair (fst rows) = pair" "g_pair (snd rows) = pair"
      "g_test (fst rows) = jp_test p" "g_test (snd rows) = jp_test p"
  shows "stats_inv {jp_test p} (with_result now pair rows gzs db)"
proof -
  let ?d = "with_result now pair rows gzs db"
  have only: "q = p" if "q \<in> set (db_pairs db)" "jp_id q = pair" for q
    using pairs_unique [OF inv(1) that(1) p(1)] that(2) p(2) by simp
  have outcomes: "test_outcomes ?d i = test_outcomes db i" if "i \<noteq> jp_test p" for i
    unfolding test_outcomes_def
    by (rule with_result_outcomes [OF rows(1,2)]) (use only that in auto)
  have joined: "filter (\<lambda>po. po_pair po = g_pair g) (pair_outcomes ?d)
      = filter (\<lambda>po. po_pair po = g_pair g) (pair_outcomes db)" if "g \<in> set (db_games db)" for g
  proof (rule with_result_outcomes [OF rows(1,2)])
    fix po q assume q: "q \<in> set (db_pairs db)" "jp_id q = pair" "po_pair po = jp_id q"
    have "g \<notin> set (pair_games db (jp_id p))"
      using no_games_unless_completed [OF inv(2) p(1,3)] by simp
    then show "po_pair po \<noteq> g_pair g" using that q p(2) by (auto simp: pair_games_def)
  qed
  have scored: "scored_games ?d i = scored_games db i" if "i \<noteq> jp_test p" for i
    unfolding scored_games_def using that rows(3,4) joined
    by (intro arg_cong [where f = concat] map_cong) auto
  show ?thesis
    using inv(3) outcomes scored stats_current_cong [of ?d _ db]
    by (auto simp: stats_inv_def)
qed

text \<open>
  A game of the result of a leased pair, under an id that is not in use. The ids come from a
  sequence that has been advanced to \<open>n\<close>, in the order of the transactions or not.
\<close>

definition result_row :: "db \<Rightarrow> pair_row \<Rightarrow> int \<Rightarrow> game_row \<Rightarrow> bool" where
  "result_row db p i r \<longleftrightarrow> g_pair r = jp_id p \<and> g_test r = jp_test p \<and> jp_leased_to p = Some (g_client r) \<and>
     g_game_in_pair r = i \<and> g_id r \<notin> g_id ` set (db_games db)"

lemma with_result_games:
  assumes inv: "pairs_inv db" "games_inv db"
    and p: "p \<in> set (db_pairs db)" "jp_id p = pair" "jp_status p = Leased"
    and r0: "result_row db p 0 r0" and r1: "result_row db p 1 r1" and ids: "g_id r0 \<noteq> g_id r1"
    and n: "next_game db \<le> n" "g_id r0 < n" "g_id r1 < n"
  shows "games_inv ((with_result now pair (r0, r1) gzs db)\<lparr>next_game := n\<rparr>)"
proof -
  let ?d = "(with_result now pair (r0, r1) gzs db)\<lparr>next_game := n\<rparr>"
  let ?u = "\<lambda>p. if jp_id p = pair then completed_row now p else p"
  note r0 = r0 [unfolded result_row_def] and r1 = r1 [unfolded result_row_def]
  have games: "pair_games ?d i = pair_games db i @ (if i = pair then [r0, r1] else [])" for i
    using r0 r1 p(2) by (simp add: pair_games_def)
  have in_d: "?u q \<in> set (db_pairs ?d)" if "q \<in> set (db_pairs db)" for q
    using that by (auto simp: set_update_where)
  show ?thesis
    unfolding games_inv_def games
  proof (intro conjI ballI)
    show "distinct (map g_id (db_games ?d))"
      using inv(2) r0 r1 ids by (simp add: games_inv_def)
  next
    fix g assume "g \<in> set (db_games ?d)"
    then consider "g \<in> set (db_games db)" | "g = r0" | "g = r1" by auto
    then have "g_id g < n \<and> (\<exists>q \<in> set (db_pairs db). jp_id q = g_pair g \<and> jp_test q = g_test g \<and>
        jp_leased_to q = Some (g_client g))"
    proof cases
      case 1
      then show ?thesis using inv(2) n(1) by (fastforce simp: games_inv_def)
    next
      case 2
      then show ?thesis using r0 p n by (auto intro!: bexI [of _ p])
    next
      case 3
      then show ?thesis using r1 p n by (auto intro!: bexI [of _ p])
    qed
    then obtain q where q: "q \<in> set (db_pairs db)" "jp_id q = g_pair g" "jp_test q = g_test g"
      "jp_leased_to q = Some (g_client g)" and id: "g_id g < n" by blast
    show "g_id g < next_game ?d" using id by simp
    show "\<exists>p \<in> set (db_pairs ?d). jp_id p = g_pair g \<and> jp_test p = g_test g \<and> jp_leased_to p = Some (g_client g)"
      using in_d [OF q(1)] q by (intro bexI [of _ "?u q"]) auto
  next
    fix q assume "q \<in> set (db_pairs ?d)"
    then have "q \<in> set (update_where (\<lambda>p. jp_id p = pair) (completed_row now) (db_pairs db))" by simp
    then obtain old where old: "old \<in> set (db_pairs db)" "q = ?u old" by (rule update_whereE)
    have none: "pair_games db pair = []"
      using no_games_unless_completed [OF inv(2) p(1)] p(2,3) by simp
    show "map g_game_in_pair (pair_games db (jp_id q) @ (if jp_id q = pair then [r0, r1] else []))
        = (if jp_status q = Completed then [0, 1] else [])"
    proof (cases "jp_id old = pair")
      case True
      then show ?thesis using old none r0 r1 by simp
    next
      case False
      then show ?thesis using old inv(2) by (simp add: games_inv_def)
    qed
  qed
qed

text \<open>Between storing the games and the recalculation only the test's own statistics are stale.\<close>

lemma result_base:
  fixes now :: real and gz :: "string \<times> string" and n :: int
  assumes inv: "db_inv db"
    and p: "p \<in> set (db_pairs db)" "jp_id p = pair" "jp_status p = Leased"
    and r0: "result_row db p 0 r0" and r1: "result_row db p 1 r1" and ids: "g_id r0 \<noteq> g_id r1"
    and n: "next_game db \<le> n" "g_id r0 < n" "g_id r1 < n"
  defines "d \<equiv> (with_result now pair (r0, r1) gz db)\<lparr>next_game := n\<rparr>"
  shows "tests_core d" "tests_inv d" "work_inv d" "stats_inv {jp_test p} d" "live_inv {jp_test p} d"
proof -
  let ?c = "update_pairs (\<lambda>p. jp_id p = pair) (completed_row now) db"
  note parts = db_invD [OF inv]
  have only: "q = p" if "q \<in> set (db_pairs db)" "jp_id q = pair" for q
    using pairs_unique [OF parts(6) that(1) p(1)] that(2) p(2) by simp
  show "tests_core d" using parts(2) tests_core_frame [of d db] by (simp add: d_def)
  show "tests_inv d" using parts(1) tests_inv_frame [of d db] by (simp add: d_def)
  have "pairs_inv ?c"
  proof (rule update_pairs_rows [OF _ parts(6)])
    show "pair_shape (completed_row now q)" if "q \<in> set (db_pairs db)" "jp_id q = pair" for q
      using leased_shape [OF parts(6) p(1,3)] only [OF that] by (simp add: pair_shape_def completed_row_def)
  qed simp
  then have "pairs_inv d" by (simp add: pairs_inv_def prepared_def d_def)
  moreover have "games_inv d" unfolding d_def by (rule with_result_games [OF parts(6,7) p r0 r1 ids n])
  moreover have "clients_inv d" "positions_inv d"
    using parts(4,5) by (simp_all add: clients_inv_def positions_inv_def prepared_def d_def)
  ultimately show "work_inv d" by (simp add: work_inv_def)
  have "stats_inv {jp_test p} (with_result now pair (r0, r1) gz db)"
    using with_result_stats [OF parts(6,7,9) p(1,2), of "(r0, r1)" now gz] p(2,3) r0 r1 by (simp add: result_row_def)
  then show "stats_inv {jp_test p} d"
    using stats_inv_frame [of d "with_result now pair (r0, r1) gz db"] by (simp add: d_def)
  have "live_inv {jp_test p} ?c"
  proof (rule update_pairs_live)
    show "live_inv {jp_test p} db" using parts(8) by (simp add: live_inv_def)
    show "jp_test q \<noteq> t_id u" if "q \<in> set (db_pairs db)" "jp_id q = pair" "u \<in> set (db_tests db)"
      "t_status u = Queued" for q u
      using leased_not_queued [OF parts(8) p(1,3) that(3,4)] only [OF that(1,2)] by simp
    show "jp_test q \<in> {jp_test p}" if "q \<in> set (db_pairs db)" "jp_id q = pair" for q
      using only [OF that] by simp
  qed simp
  then show "live_inv {jp_test p} d" using live_inv_frame [of d ?c] by (simp add: d_def)
qed

lemma fresh_game_id: "games_inv db \<Longrightarrow> next_game db \<le> i \<Longrightarrow> i \<notin> g_id ` set (db_games db)"
  by (force simp: games_inv_def)

lemma with_result_base:
  fixes now :: real and gz :: "string \<times> string"
  assumes inv: "db_inv db" and wf: "report_wf report"
    and p: "p \<in> set (db_pairs db)" "jp_id p = pair" "jp_status p = Leased"
      "jp_leased_to p = Some (pr_client_id report)"
    and rows: "row_for (next_game db) pair (jp_test p) (pr_client_id report) (pr_games report ! 0) v0 r0"
      "row_for (next_game db + 1) pair (jp_test p) (pr_client_id report) (pr_games report ! 1) v1 r1"
  defines "d \<equiv> with_result now pair (r0, r1) gz db"
  shows "tests_core d" "tests_inv d" "work_inv d" "stats_inv {jp_test p} d" "live_inv {jp_test p} d"
proof -
  obtain g0 g1 where g: "pr_games report = [g0, g1]" "gr_game_in_pair g0 = 0" "gr_game_in_pair g1 = 1"
    by (rule report_wf_cases [OF wf])
  note fresh = fresh_game_id [OF db_invD(7) [OF inv]]
  have r: "result_row db p 0 r0" "result_row db p 1 r1" "g_id r0 \<noteq> g_id r1"
    "next_game db \<le> next_game db + 2" "g_id r0 < next_game db + 2" "g_id r1 < next_game db + 2"
    using rows p(2,4) g fresh by (simp_all add: row_for_def result_row_def)
  have d: "d = (with_result now pair (r0, r1) gz db)\<lparr>next_game := next_game db + 2\<rparr>"
    by (simp add: d_def)
  show "tests_core d" "tests_inv d" "work_inv d" "stats_inv {jp_test p} d" "live_inv {jp_test p} d"
    unfolding d by (rule result_base [OF inv p(1-3) r])+
qed

lemma submit_result_inv [inv_intros]:
  assumes inv: "db_inv db" and "submit_result gzip now pair report db = Inr (r, db')" and wf: "report_wf report"
  shows "db_inv db'"
  using assms(2) wf
proof (cases rule: submit_cases)
  case 1
  then show ?thesis using inv by simp
next
  case (2 p t r0 r1 gz)
  note d = with_result_base [OF inv wf 2(1-4) 2(8,9), where now = now and gz = gz]
  have "stats_inv ({jp_test p} - {jp_test p}) db'"
    by (rule refresh_stats [OF 2(10) d(1,4)])
      (use find_test_unique [OF d(1), of t] 2(5,6) in simp)
  moreover note f = refresh_facts [OF 2(10) d(1)]
  have "work_inv db'" by (rule work_inv_frame [OF f(3,4) d(3)])
  ultimately show ?thesis
    using f(2) [OF d(2)] f(5) [OF d(5)] by (simp add: db_inv_split)
qed

section \<open>Administration\<close>

text \<open>Changes of tests that keep prepared tests prepared.\<close>

lemma db_inv_tests:
  assumes inv: "db_inv db" and "same_work db db'" "keeps_prepared db db'" "db_stats db' = db_stats db"
    and "tests_inv db'" "live_inv {} db'"
  shows "db_inv db'"
proof -
  have "work_inv db" using inv by (simp add: db_inv_split)
  then have "work_inv db'" by (rule work_inv_frame [OF assms(2,3)])
  moreover have "stats_inv {} db'"
    using stats_inv_frame [of db' db] same_workD [OF assms(2)] assms(4) db_invD(9) [OF inv] by simp
  ultimately show ?thesis using assms(5,6) by (simp add: db_inv_split)
qed

lemma insert_test_cases:
  assumes "insert_test now s cand base db = Inr (i, db')"
  obtains kind preset where "kind_of_text (sp_kind s) = Inr kind" "i = next_test db" "cand \<noteq> base"
    "sprt_check (test_row_of now i kind preset s cand base)"
    "db' = db\<lparr>db_tests := db_tests db @ [test_row_of now i kind preset s cand base], next_test := next_test db + 1\<rparr>"
  using assms by (auto simp: insert_test_def Let_def)

lemma insert_test_params:
  assumes "spec_wf s" and "sprt_check (test_row_of now i kind preset s cand base)"
  shows "test_params_ok (test_row_of now i kind preset s cand base)"
  using assms
  by (auto simp: test_params_ok_def spec_wf_def sprt_check_def test_row_of_def split: option.splits)

lemma insert_test_inv [inv_intros]:
  assumes inv: "db_inv db" and "insert_test now s cand base db = Inr (i, db')" and wf: "spec_wf s"
  shows "db_inv db'"
proof -
  obtain kind preset where i: "i = next_test db" and
    chk: "sprt_check (test_row_of now i kind preset s cand base)" and
    db': "db' = db\<lparr>db_tests := db_tests db @ [test_row_of now i kind preset s cand base],
      next_test := next_test db + 1\<rparr>"
    by (rule insert_test_cases [OF assms(2)])
  let ?t = "test_row_of now i kind preset s cand base"
  note parts = db_invD [OF inv]
  have t: "t_id ?t = next_test db" "t_status ?t = Validating" by (simp_all add: test_row_of_def i)
  have tests: "db_tests db' = db_tests db @ [?t]" "next_test db' = next_test db + 1" by (simp_all add: db')
  have fresh: "t_id u \<noteq> next_test db" if "u \<in> set (db_tests db)" for u
    using tests_coreD(2) [OF parts(2) that] by simp
  have core: "tests_core db'"
  proof (rule tests_coreI)
    show "distinct (map t_id (db_tests db'))"
      using tests_coreD(1) [OF parts(2)] fresh t unfolding tests by force
    show "t_id u < next_test db' \<and> test_params_ok u" if "u \<in> set (db_tests db')" for u
      using that tests_coreD(2,3) [OF parts(2), of u] insert_test_params [OF wf chk] t unfolding tests by fastforce
    show "t_id u = t_id v" if "u \<in> set (db_tests db')" "v \<in> set (db_tests db')" "t_status u = Running"
      "t_status v = Running" for u v
      using that tests_coreD(4) [OF parts(2), of u v] t unfolding tests by fastforce
  qed
  have "(running_test db' = None) = (running_test db = None)"
    using t(2) by (simp add: running_test_None tests)
  then have "tests_inv db'"
    using core parts(3) t(2) unfolding tests_inv_def queue_served_def tests by fastforce
  moreover have kp: "keeps_prepared db db'" by (auto simp: keeps_prepared_def prepared_def tests)
  then have "work_inv db'"
    using inv unfolding db_inv_split work_inv_def clients_inv_def positions_inv_def pairs_inv_def games_inv_def
      keeps_prepared_def pair_games_def db' by simp
  moreover have "live_inv {} db'"
    using parts(8) t(2) unfolding live_inv_def live_pairs_def db' by auto
  moreover have "stats_inv {} db'" using stats_inv_frame [of db' db] parts(9) by (simp add: db')
  ultimately show ?thesis by (simp add: db_inv_split)
qed

definition stopped_row :: "real \<Rightarrow> test_row \<Rightarrow> test_row" where
  "stopped_row now t = t\<lparr>t_status := Stopped, t_finished_at := Some now\<rparr>"

lemma stopped_row_simps [simp]:
  "t_id (stopped_row now t) = t_id t" "t_status (stopped_row now t) = Stopped"
  "frozen (stopped_row now t) = frozen t"
  by (simp_all add: stopped_row_def frozen_def)

lemma stop_test_cases:
  assumes "stop_test now test db = (r, db')"
  obtains "db' = db" "so_status r \<noteq> StopStopped"
  | t where "t \<in> set (db_tests db)" "t_id t = test" "t_status t = Running"
      "db' = snd (promote_next_test now (update_test test (stopped_row now) db))" "so_status r = StopStopped"
      "so_promoted r = fst (promote_next_test now (update_test test (stopped_row now) db))"
  | t where "t \<in> set (db_tests db)" "t_id t = test" "t_status t = Validating \<or> t_status t = Queued"
      "db' = update_test test (stopped_row now) db" "so_status r = StopStopped" "so_promoted r = None"
proof (cases "find_test db test")
  case None
  then have "db' = db \<and> so_status r \<noteq> StopStopped" using assms by (auto simp: stop_test_def)
  then show thesis using that(1) by blast
next
  case (Some t)
  note t = find_test_Some [OF Some]
  note unf = assms [unfolded stop_test_def Some option.case Let_def stopped_row_def [symmetric] stopped_row_def [abs_def, symmetric]]
  consider "t_status t = Running" | "t_status t = Validating \<or> t_status t = Queued"
    | "t_status t \<noteq> Running" "t_status t \<noteq> Validating" "t_status t \<noteq> Queued" by blast
  then show thesis
  proof cases
    case 1
    then show thesis using that(2) [of t] t unf by (auto split: prod.splits)
  next
    case 2
    then show thesis using that(3) [of t] t unf by auto
  next
    case 3
    then have "db' = db \<and> so_status r \<noteq> StopStopped" using unf by auto
    then show thesis using that(1) by blast
  qed
qed

text \<open>An update of a test that is not running and does not start it leaves the running test.\<close>

lemma running_test_update_other:
  assumes "tests_core db" "t \<in> set (db_tests db)" "t_id t = i" "t_status t \<noteq> Running"
    and id: "\<And>u. t_id (f u) = t_id u" and "t_status (f t) \<noteq> Running"
    and "running_test db \<noteq> None"
  shows "running_test (update_test i f db) \<noteq> None"
proof -
  obtain u where u: "u \<in> set (db_tests db)" "t_status u = Running"
    using assms(7) by (auto simp: running_test_None)
  have "t_id u \<noteq> i" using test_unique [OF assms(1) u(1) assms(2)] assms(3,4) u(2) by auto
  then have "u \<in> set (db_tests (update_test i f db))" using u(1) by (auto simp: set_update_where)
  then show ?thesis using u(2) by (auto simp: running_test_None)
qed

lemma tests_inv_update_waiting:
  assumes "tests_inv db" "t \<in> set (db_tests db)" "t_id t = i" "t_status t \<noteq> Running"
    and fr: "\<And>u. frozen (f u) = frozen u"
    and st: "\<And>u. t_status (f u) = Running \<Longrightarrow> t_status u = Running"
    and qu: "\<And>u. t_status (f u) = Queued \<Longrightarrow> t_status u = Queued"
  shows "tests_inv (update_test i f db)"
proof -
  note core = tests_invD [OF assms(1)]
  have id: "t_id (f u) = t_id u" for u using frozen_id [OF fr] .
  have "running_test (update_test i f db) \<noteq> None" if u: "u \<in> set (db_tests (update_test i f db))"
    "t_status u = Queued" for u
  proof (rule running_test_update_other [OF core assms(2-4) id])
    show "t_status (f t) \<noteq> Running" using st assms(4) by blast
    obtain q where "q \<in> set (db_tests db)" "u = (if t_id q = i then f q else q)"
      using u(1) unfolding tests_update_test by (rule update_whereE)
    then have "q \<in> set (db_tests db)" "t_status q = Queued" using qu u(2) by (auto split: if_splits)
    then show "running_test db \<noteq> None" using assms(1) by (auto simp: tests_inv_def queue_served_def)
  qed
  then show ?thesis
    using tests_core_update [OF core fr st] by (auto simp: tests_inv_def queue_served_def)
qed

lemma stop_test_inv [inv_intros]:
  assumes inv: "db_inv db" and "stop_test now test db = (r, db')"
  shows "db_inv db'"
  using assms(2)
proof (cases rule: stop_test_cases)
  case 1
  then show ?thesis using inv by simp
next
  case (2 t)
  note f = retire_promote [where f = "stopped_row now" and i = test and now = now, OF _ _ db_invD(2) [OF inv] 2(4)]
  show ?thesis
    by (rule db_inv_tests [OF inv f(2,3) _ f(1)]) (use 2(4) f(4) [OF _ _ db_invD(8) [OF inv]] in simp_all)
next
  case (3 t)
  note parts = db_invD [OF inv]
  show ?thesis
    unfolding 3(4)
  proof (rule db_inv_tests [OF inv])
    show "same_work db (update_test test (stopped_row now) db)" by (simp add: same_work_update_test)
    show "keeps_prepared db (update_test test (stopped_row now) db)" by (simp add: keeps_prepared_update)
    show "tests_inv (update_test test (stopped_row now) db)"
      by (rule tests_inv_update_waiting [OF parts(1) 3(1,2)]) (use 3(3) in auto)
    show "live_inv {} (update_test test (stopped_row now) db)"
      using live_inv_retire [OF parts(8), of "stopped_row now" test] by simp
  qed simp
qed

lemma set_priority_cases:
  assumes "set_priority test n db = (r, db')"
  obtains "db' = db" "pro_status r \<noteq> PriorityUpdated"
  | t where "t \<in> set (db_tests db)" "t_id t = test" "t_status t = Validating \<or> t_status t = Queued"
      "db' = update_test test (t_priority_update (\<lambda>_. n)) db" "pro_status r = PriorityUpdated"
      "pro_test_status r = status_text (t_status t)"
proof (cases "find_test db test")
  case None
  then have "db' = db \<and> pro_status r \<noteq> PriorityUpdated" using assms by (auto simp: set_priority_def)
  then show thesis using that(1) by blast
next
  case (Some t)
  show thesis
  proof (cases "t_status t = Validating \<or> t_status t = Queued")
    case True
    then show thesis
      using that(2) [of t] find_test_Some [OF Some] assms Some by (auto simp: set_priority_def)
  next
    case False
    then have "db' = db \<and> pro_status r \<noteq> PriorityUpdated" using assms Some by (auto simp: set_priority_def)
    then show thesis using that(1) by blast
  qed
qed

lemma set_priority_inv [inv_intros]:
  assumes inv: "db_inv db" and "set_priority test n db = (r, db')"
  shows "db_inv db'"
  using assms(2)
proof (cases rule: set_priority_cases)
  case 1
  then show ?thesis using inv by simp
next
  case (2 t)
  let ?f = "t_priority_update (\<lambda>_. n)"
  note parts = db_invD [OF inv]
  have fr: "frozen (?f u) = frozen u" for u by (simp add: frozen_def)
  have row: "\<exists>q \<in> set (db_tests db). t_id u = t_id q \<and> t_status u = t_status q"
    if "u \<in> set (db_tests (update_test test ?f db))" for u
  proof -
    obtain q where "q \<in> set (db_tests db)" "u = (if t_id q = test then ?f q else q)"
      using \<open>u \<in> set (db_tests (update_test test ?f db))\<close> unfolding tests_update_test by (rule update_whereE)
    then show ?thesis by (intro bexI [of _ q]) auto
  qed
  show ?thesis
    unfolding 2(4)
  proof (rule db_inv_tests [OF inv])
    show "same_work db (update_test test ?f db)" by (rule same_work_update_test [OF fr])
    show "keeps_prepared db (update_test test ?f db)"
      by (rule keeps_prepared_update) simp_all
    show "tests_inv (update_test test ?f db)"
      by (rule tests_inv_update_waiting [OF parts(1) 2(1,2) _ fr]) (use 2(3) in auto)
    show "live_inv {} (update_test test ?f db)"
      using parts(8) row by (fastforce simp: live_inv_def live_pairs_def)
  qed simp
qed

section \<open>The smoke test\<close>

lemma zip_fst_map: "length xs = n \<Longrightarrow> map (\<lambda>(i, x). f i) (zip [0..<n] xs) = map f [0..<n]"
  by (metis (no_types, lifting) length_map map_fst_zip map_map case_prod_beta' comp_apply map_nth
      length_upt minus_nat.diff_0 list.map_cong)

lemma zip_snd_map: "length xs = n \<Longrightarrow> map (\<lambda>(i, x). f x) (zip [0..<n] xs) = map f xs"
  by (intro nth_equalityI) auto

lemma position_rows_keys:
  "map op_id (position_rows first test fens) = map (\<lambda>i. first + int i) [0..<length fens]"
  "op \<in> set (position_rows first test fens) \<Longrightarrow> op_test op = test \<and> first \<le> op_id op \<and>
    op_id op < first + int (length fens) \<and> op_fen op \<in> set fens"
  "length (position_rows first test fens) = length fens"
  by (auto simp: position_rows_def set_zip intro!: nth_equalityI)

lemma pair_rows_keys:
  "map jp_id (pair_rows first dispatch ops) = map (\<lambda>i. first + int i) [0..<length ops]"
  "map jp_position (pair_rows first dispatch ops) = map op_id ops"
  "length (pair_rows first dispatch ops) = length ops"
  by (auto simp: pair_rows_def intro!: nth_equalityI)

lemma pair_rows_facts:
  assumes "p \<in> set (pair_rows first dispatch ops)"
  shows "first \<le> jp_id p \<and> jp_id p < first + int (length ops) \<and> jp_status p = Pending \<and> pair_shape p \<and>
    (\<exists>op \<in> set ops. op_id op = jp_position p \<and> op_test op = jp_test p)"
  using assms by (auto simp: pair_rows_def set_zip pair_shape_def intro!: bexI [OF _ nth_mem])

lemma distinct_offsets: "distinct (map (\<lambda>i. first + int i) [0..<n])"
  by (simp add: distinct_map inj_on_def)

definition queued_row :: "string \<Rightarrow> test_row \<Rightarrow> test_row" where
  "queued_row vlog t = t\<lparr>t_status := Queued, t_validation_log := Some vlog\<rparr>"

definition invalid_row :: "string \<Rightarrow> test_row \<Rightarrow> test_row" where
  "invalid_row vlog t = t\<lparr>t_status := InvalidTest, t_validation_log := Some vlog\<rparr>"

lemma smoke_row_simps [simp]:
  "t_id (queued_row l t) = t_id t" "t_status (queued_row l t) = Queued" "frozen (queued_row l t) = frozen t"
  "t_id (invalid_row l t) = t_id t" "t_status (invalid_row l t) = InvalidTest" "frozen (invalid_row l t) = frozen t"
  by (simp_all add: queued_row_def invalid_row_def frozen_def)

text \<open>The database when positions and pairs are stored and the test is queued.\<close>

definition with_work :: "int \<Rightarrow> (int \<Rightarrow> real) \<Rightarrow> string list \<Rightarrow> string \<Rightarrow> db \<Rightarrow> db" where
  "with_work test dispatch fens vlog db =
     (let ops = position_rows (next_position db) test fens
      in db\<lparr>db_tests := update_where (\<lambda>t. t_id t = test) (queued_row vlog) (db_tests db),
            db_positions := db_positions db @ ops,
            next_position := next_position db + int (length fens),
            db_pairs := db_pairs db @ pair_rows (next_pair db) dispatch ops,
            next_pair := next_pair db + int (length ops)\<rparr>)"

lemma not_prepared:
  assumes "tests_core db" "t \<in> set (db_tests db)" "t_status t = Validating"
  shows "\<not> prepared db (t_id t)"
  using test_unique [OF assms(1) _ assms(2)] assms(3) by (auto simp: prepared_def)

lemma smoke_commit_cases:
  assumes "smoke_commit now test dispatch v db = Inr (r, db')" and "tests_core db" "positions_inv db"
  obtains "db' = db" "r = None"
  | t vlog where "t \<in> set (db_tests db)" "t_id t = test" "t_status t = Validating" "\<not> sm_ok v" "r = Some None"
      "db' = update_test test (invalid_row vlog) db"
  | t vlog d where "t \<in> set (db_tests db)" "t_id t = test" "t_status t = Validating" "sm_ok v"
      "refresh_test now test (with_work test dispatch (sm_positions v) vlog db) = Inr d"
      "db' = snd (promote_next_test now d)" "r = Some (fst (promote_next_test now d))"
proof (cases "find_test db test")
  case None
  then show thesis using assms(1) by (simp add: smoke_commit_def)
next
  case (Some t)
  note t = find_test_Some [OF Some]
  consider "t_status t \<noteq> Validating" | "t_status t = Validating" "\<not> sm_ok v" | "t_status t = Validating" "sm_ok v"
    by blast
  then show thesis
  proof cases
    case 1
    then have "db' = db \<and> r = None" using assms(1) Some by (simp add: smoke_commit_def)
    then show thesis using that(1) by blast
  next
    case 2
    let ?l = "sm_log v @ ''SMOKE TEST FAILED'' @ [newline]"
    have "r = Some None \<and> db' = update_test test (invalid_row ?l) db"
      using 2 assms(1) Some by (simp add: smoke_commit_def invalid_row_def [abs_def])
    then show thesis using that(2) [of t ?l] t 2 by blast
  next
    case 3
    let ?l = "sm_log v @ ''SMOKE TEST PASSED'' @ [newline]"
    let ?ops = "position_rows (next_position db) test (sm_positions v)"
    have "op_test op \<noteq> test" if "op \<in> set (db_positions db)" for op
      using not_prepared [OF assms(2), of t] t 3(1) that assms(3) by (auto simp: positions_inv_def)
    then have old: "filter (\<lambda>op. op_test op = test) (db_positions db) = []" by (simp add: filter_empty_conv)
    have new: "filter (\<lambda>op. op_test op = test) ?ops = ?ops"
      using position_rows_keys(2) by (auto simp: filter_id_conv)
    from assms(1) Some 3 obtain d1 d where d1: "insert_positions test (sm_positions v) db = Inr d1"
      and d: "refresh_test now test (update_test test (queued_row ?l) (insert_pairs test dispatch d1)) = Inr d"
      and r: "r = Some (fst (promote_next_test now d))" "db' = snd (promote_next_test now d)"
      by (auto simp: smoke_commit_def queued_row_def [abs_def] case_prod_beta Let_def)
    have "d1 = db\<lparr>db_positions := db_positions db @ ?ops, next_position := next_position db + int (length (sm_positions v))\<rparr>"
      using d1 by (auto simp: insert_positions_def Let_def)
    then have "update_test test (queued_row ?l) (insert_pairs test dispatch d1)
        = with_work test dispatch (sm_positions v) ?l db"
      by (simp add: update_test_def insert_pairs_def with_work_def Let_def old new)
    then show thesis using that(3) [of t ?l d] t 3 d r by auto
  qed
qed

lemma with_work_base:
  assumes inv: "db_inv db" and t: "t \<in> set (db_tests db)" "t_id t = test" "t_status t = Validating"
    and fens: "fens \<noteq> []"
  shows "tests_core (with_work test dispatch fens vlog db)" "work_inv (with_work test dispatch fens vlog db)"
    "live_inv {} (with_work test dispatch fens vlog db)" "stats_inv {} (with_work test dispatch fens vlog db)"
proof -
  let ?d = "with_work test dispatch fens vlog db"
  let ?ops = "position_rows (next_position db) test fens"
  let ?new = "pair_rows (next_pair db) dispatch ?ops"
  note parts = db_invD [OF inv]
  have f: "db_tests ?d = update_where (\<lambda>t. t_id t = test) (queued_row vlog) (db_tests db)"
    "db_positions ?d = db_positions db @ ?ops" "db_pairs ?d = db_pairs db @ ?new"
    "next_position ?d = next_position db + int (length fens)"
    "next_pair ?d = next_pair db + int (length fens)"
    "db_games ?d = db_games db" "db_clients ?d = db_clients db" "db_stats ?d = db_stats db"
    "next_test ?d = next_test db" "next_client ?d = next_client db" "next_game ?d = next_game db"
    by (simp_all add: with_work_def Let_def position_rows_keys(3))
  have "tests_core (update_test test (queued_row vlog) db)"
    by (rule tests_core_update [OF parts(2)]) simp_all
  then show core: "tests_core ?d" using tests_core_frame [of ?d "update_test test (queued_row vlog) db"] f by simp
  have unprep: "\<not> prepared db test" using not_prepared [OF parts(2) t(1,3)] t(2) by simp
  have "keeps_prepared db (update_test test (queued_row vlog) db)" by (rule keeps_prepared_update) simp_all
  then have kp: "prepared db i \<Longrightarrow> prepared ?d i" for i
    by (simp add: keeps_prepared_def prepared_def f)
  have "queued_row vlog t \<in> set (db_tests ?d)"
    unfolding f set_update_where using t(1,2) by (intro bexI [of _ t]) simp_all
  then have prep: "prepared ?d test" unfolding prepared_def using t(2) by (intro bexI) simp_all
  have no_pairs: "jp_test p \<noteq> test" if "p \<in> set (db_pairs db)" for p
    using parts(6) that unprep by (auto simp: pairs_inv_def)
  have new_pair: "next_pair db \<le> jp_id p \<and> jp_id p < next_pair ?d \<and> jp_status p = Pending \<and> pair_shape p \<and>
      jp_test p = test \<and> (\<exists>op \<in> set ?ops. op_id op = jp_position p \<and> op_test op = jp_test p)"
    if "p \<in> set ?new" for p
    using pair_rows_facts [OF that] position_rows_keys(2) [of _ "next_position db" test fens] position_rows_keys(3) f(5) by fastforce
  have posi: "positions_inv ?d"
    unfolding positions_inv_def
  proof (intro conjI ballI)
    have old: "op_id op < next_position db" if "op \<in> set (db_positions db)" for op
      using parts(5) that by (simp add: positions_inv_def)
    have "op_id ` set (db_positions db) \<inter> (\<lambda>i. next_position db + int i) ` {0..<length fens} = {}"
      using old by force
    then show "distinct (map op_id (db_positions ?d))"
      using parts(5) by (simp add: f position_rows_keys(1) distinct_offsets positions_inv_def)
    fix op assume "op \<in> set (db_positions ?d)"
    then consider "op \<in> set (db_positions db)" | "op \<in> set ?ops" by (auto simp: f)
    then show "op_id op < next_position ?d" "prepared ?d (op_test op)"
      using old position_rows_keys(2) [of op "next_position db" test fens] parts(5) kp prep
      by (cases; force simp: f positions_inv_def)+
  qed
  have pair: "pairs_inv ?d"
    unfolding pairs_inv_def
  proof (intro conjI ballI)
    have old: "jp_id p < next_pair db" "\<exists>op \<in> set (db_positions db). op_id op = jp_position p \<and> op_test op = jp_test p"
      if "p \<in> set (db_pairs db)" for p
      using parts(6) that by (auto simp: pairs_inv_def)
    have "jp_id ` set (db_pairs db) \<inter> (\<lambda>i. next_pair db + int i) ` {0..<length ?ops} = {}"
      using old(1) by force
    then show "distinct (map jp_id (db_pairs ?d))"
      using parts(6) by (simp add: f pair_rows_keys(1) distinct_offsets pairs_inv_def)
    have "jp_position p < next_position db" if "p \<in> set (db_pairs db)" for p
      using old(2) [OF that] parts(5) by (auto simp: positions_inv_def)
    then have "jp_position ` set (db_pairs db) \<inter> (\<lambda>i. next_position db + int i) ` {0..<length fens} = {}"
      by force
    then show "distinct (map jp_position (db_pairs ?d))"
      using parts(6) by (simp add: f pair_rows_keys(2) position_rows_keys(1) distinct_offsets pairs_inv_def)
    fix p assume "p \<in> set (db_pairs ?d)"
    then consider "p \<in> set (db_pairs db)" | "p \<in> set ?new" by (auto simp: f)
    then have "jp_id p < next_pair ?d \<and> pair_shape p \<and> prepared ?d (jp_test p) \<and>
        (\<exists>op \<in> set (db_positions ?d). op_id op = jp_position p \<and> op_test op = jp_test p)"
    proof cases
      case 1
      then show ?thesis using parts(6) kp old [OF 1] by (fastforce simp: pairs_inv_def f)
    next
      case 2
      then show ?thesis using new_pair [OF 2] prep f(2) by auto
    qed
    then show "jp_id p < next_pair ?d" "pair_shape p" "prepared ?d (jp_test p)"
      "\<exists>op \<in> set (db_positions ?d). op_id op = jp_position p \<and> op_test op = jp_test p" by blast+
  qed
  have games: "pair_games ?d i = pair_games db i" for i by (simp add: pair_games_def f)
  have fresh_pair: "pair_games db (jp_id p) = []" if "p \<in> set ?new" for p
  proof -
    have "g_pair g < next_pair db" if "g \<in> set (db_games db)" for g
      using parts(6,7) that unfolding games_inv_def pairs_inv_def by metis
    then show ?thesis using new_pair [OF that] by (fastforce simp: pair_games_def filter_empty_conv)
  qed
  have game: "games_inv ?d"
    unfolding games_inv_def games
  proof (intro conjI ballI)
    show "distinct (map g_id (db_games ?d))" using parts(7) by (simp add: games_inv_def f)
    fix g assume "g \<in> set (db_games ?d)"
    then have "g \<in> set (db_games db)" by (simp add: f)
    then show "g_id g < next_game ?d" "\<exists>p \<in> set (db_pairs ?d). jp_id p = g_pair g \<and> jp_test p = g_test g \<and>
        jp_leased_to p = Some (g_client g)"
      using parts(7) by (auto simp: games_inv_def f)
  next
    fix p assume "p \<in> set (db_pairs ?d)"
    then consider "p \<in> set (db_pairs db)" | "p \<in> set ?new" by (auto simp: f)
    then show "map g_game_in_pair (pair_games db (jp_id p)) = (if jp_status p = Completed then [0, 1] else [])"
    proof cases
      case 1
      then show ?thesis using parts(7) by (simp add: games_inv_def)
    next
      case 2
      then show ?thesis using fresh_pair [OF 2] new_pair [OF 2] by simp
    qed
  qed
  have "clients_inv ?d" using parts(4) by (simp add: clients_inv_def f)
  then show "work_inv ?d" using posi pair game by (simp add: work_inv_def)
  have none: "pair_outcome_rows ?d p = []" if "p \<in> set ?new" for p
    using new_pair [OF that] by (simp add: pair_outcome_rows_def)
  have "pair_outcome_rows ?d = pair_outcome_rows db"
    using outcome_rows_cong [of ?d db] f(6) by (intro ext) simp
  moreover have "concat (map (pair_outcome_rows ?d) ?new) = []" using none by simp
  ultimately have outcomes: "pair_outcomes ?d = pair_outcomes db"
    by (simp add: pair_outcomes_def f(3))
  have "stats_current ?d s = stats_current db s" for s
    by (rule stats_current_cong) (simp_all add: test_outcomes_def scored_games_def outcomes f)
  then show "stats_inv {} ?d" using parts(9) by (simp add: stats_inv_def f)
  have row: "u = queued_row vlog t \<or> u \<in> set (db_tests db) \<and> t_id u \<noteq> test" if "u \<in> set (db_tests ?d)" for u
  proof -
    obtain q where q: "q \<in> set (db_tests db)" "u = (if t_id q = test then queued_row vlog q else q)"
      using \<open>u \<in> set (db_tests ?d)\<close> unfolding f by (rule update_whereE)
    then show ?thesis using test_unique [OF parts(2) q(1) t(1)] t(2) by (cases "t_id q = test") auto
  qed
  have ne: "?new \<noteq> []" using fens pair_rows_keys(3) [of "next_pair db" dispatch ?ops] position_rows_keys(3)
    by (metis length_0_conv)
  show "live_inv {} ?d"
    unfolding live_inv_def
  proof (intro conjI ballI impI)
    fix u assume u: "u \<in> set (db_tests ?d)" "t_status u = Queued"
    have "(\<exists>p \<in> set (db_pairs ?d). jp_test p = t_id u) \<and>
      (\<forall>p \<in> set (db_pairs ?d). jp_test p = t_id u \<longrightarrow> jp_status p = Pending)"
    proof (cases "t_id u = test")
      case True
      obtain p where "p \<in> set ?new" using ne by (meson list.set_sel(1))
      then show ?thesis using True new_pair no_pairs f(3) by fastforce
    next
      case False
      then have "u \<in> set (db_tests db)" using row [OF u(1)] t(2) by auto
      then show ?thesis using parts(8) u(2) new_pair False f(3) by (fastforce simp: live_inv_def)
    qed
    then show "\<exists>p \<in> set (db_pairs ?d). jp_test p = t_id u"
      "\<And>p. p \<in> set (db_pairs ?d) \<Longrightarrow> jp_test p = t_id u \<Longrightarrow> jp_status p = Pending" by blast+
  next
    fix u assume u: "u \<in> set (db_tests ?d)" "t_status u = Running" "t_id u \<notin> {}"
    then have "u \<in> set (db_tests db)" using row [OF u(1)] by auto
    then have "live_pairs db (t_id u) \<noteq> []" using parts(8) u(2) by (simp add: live_inv_def)
    then show "live_pairs ?d (t_id u) \<noteq> []" by (simp add: live_pairs_def f)
  qed
qed

lemma smoke_commit_inv [inv_intros]:
  assumes inv: "db_inv db" and "smoke_commit now test dispatch v db = Inr (r, db')"
    and fens: "sm_ok v \<Longrightarrow> sm_positions v \<noteq> []"
  shows "db_inv db'"
proof -
  note parts = db_invD [OF inv]
  show ?thesis
    using assms(2) parts(2,5)
  proof (cases rule: smoke_commit_cases)
    case 1
    then show ?thesis using inv by simp
  next
    case (2 t vlog)
    have "keeps_prepared db (update_test test (invalid_row vlog) db)"
    proof -
      have "\<not> prepared db test" using not_prepared [OF parts(2) 2(1,3)] 2(2) by simp
      moreover have "prepared (update_test test (invalid_row vlog) db) i" if "prepared db i" "i \<noteq> test" for i
      proof -
        obtain u where u: "u \<in> set (db_tests db)" "t_id u = i" "t_status u \<noteq> Validating" "t_status u \<noteq> InvalidTest"
          using \<open>prepared db i\<close> by (auto simp: prepared_def)
        then have "u \<in> set (db_tests (update_test test (invalid_row vlog) db))"
          unfolding tests_update_test set_update_where using that(2) by (intro bexI [of _ u]) auto
        then show ?thesis using u unfolding prepared_def by blast
      qed
      ultimately show ?thesis unfolding keeps_prepared_def by blast
    qed
    moreover have "tests_inv (update_test test (invalid_row vlog) db)"
      by (rule tests_inv_update_waiting [OF parts(1) 2(1,2)]) (use 2(3) in auto)
    moreover have "live_inv {} (update_test test (invalid_row vlog) db)"
      using live_inv_retire [OF parts(8), of "invalid_row vlog" test] by simp
    ultimately show ?thesis
      unfolding 2(6) by (intro db_inv_tests [OF inv]) (simp_all add: same_work_update_test)
  next
    case (3 t vlog d)
    note w = with_work_base [OF inv 3(1,2,3) fens [OF 3(4)], of dispatch vlog]
    note f = refresh_facts [OF 3(5) w(1)]
    have live: "live_inv {} d" using f(5) [OF w(3)] by simp
    have stats: "stats_inv {} d" using refresh_stats [OF 3(5) w(1,4)] by simp
    have "work_inv d" by (rule work_inv_frame [OF f(3,4) w(2)])
    then have "work_inv db'"
      unfolding 3(6) by (rule work_inv_frame [OF promote_same_work promote_keeps_prepared])
    moreover have "tests_inv db'" unfolding 3(6) by (rule promote_tests_inv [OF f(1)])
    moreover have "live_inv {} db'" unfolding 3(6) by (rule live_inv_promote [OF f(1) live])
    moreover have "stats_inv {} db'"
      unfolding 3(6) using stats stats_inv_frame [of "snd (promote_next_test now d)" d]
        same_workD [OF promote_same_work] by simp
    ultimately show ?thesis by (simp add: db_inv_split)
  qed
qed

end
