(* ===== verification/Transitions.thy ===== *)
theory Transitions
  imports Prelude
begin

text \<open>
  The interfaces under which the server's behaviour over time is verified: a system whose
  steps keep an invariant, and a family of objects in it, each of which moves along the edges
  of an abstract state machine. Both are interpreted on the server's step relation.
\<close>

locale guarded_system =
  fixes step :: "'s \<Rightarrow> 's \<Rightarrow> bool"
    and inv :: "'s \<Rightarrow> bool"
  assumes keeps: "inv s \<Longrightarrow> step s t \<Longrightarrow> inv t"
begin

lemma run_keeps: "step\<^sup>*\<^sup>* s t \<Longrightarrow> inv s \<Longrightarrow> inv t"
  by (induction rule: rtranclp_induct) (auto intro: keeps)

end

locale object_lifecycle = guarded_system step inv
  for step :: "'s \<Rightarrow> 's \<Rightarrow> bool" and inv :: "'s \<Rightarrow> bool" +
  fixes view :: "'s \<Rightarrow> 'k \<Rightarrow> 'v option"
    and edge :: "'v \<Rightarrow> 'v \<Rightarrow> bool"
  assumes moves: "inv s \<Longrightarrow> step s t \<Longrightarrow> view s k = Some v \<Longrightarrow> \<exists>w. view t k = Some w \<and> edge\<^sup>*\<^sup>* v w"
begin

lemma run_moves:
  assumes "step\<^sup>*\<^sup>* s t" and "inv s" and "view s k = Some v"
  shows "\<exists>w. view t k = Some w \<and> edge\<^sup>*\<^sup>* v w"
  using assms
proof (induction rule: rtranclp_induct)
  case base
  then show ?case by blast
next
  case (step t u)
  then obtain w where w: "view t k = Some w" "edge\<^sup>*\<^sup>* v w" by blast
  have "inv t" using run_keeps step.hyps(1) step.prems(1) .
  from moves [OF this step.hyps(2) w(1)] w(2) show ?case by (meson rtranclp_trans)
qed

text \<open>An object in a state without successor stays there for ever.\<close>

lemma final_frozen:
  assumes "step\<^sup>*\<^sup>* s t" and "inv s" and "view s k = Some v" and "\<And>w. \<not> edge v w"
  shows "view t k = Some v"
  using run_moves [OF assms(1-3)] assms(4) by (metis converse_rtranclpE)

text \<open>A quantity no edge decreases does not decrease along a run.\<close>

lemma run_measure:
  assumes "step\<^sup>*\<^sup>* s t" and "inv s" and "view s k = Some v" and "view t k = Some w"
    and "\<And>v w. edge v w \<Longrightarrow> (m v :: int) \<le> m w"
  shows "m v \<le> m w"
proof -
  have "edge\<^sup>*\<^sup>* v w" using run_moves [OF assms(1-3)] assms(4) by auto
  then show ?thesis by (induction rule: rtranclp_induct) (auto intro: order_trans assms(5))
qed

end

end
