(* ===== verification/Server.thy ===== *)
theory Server
  imports Preservation Transitions
begin

text \<open>
  The server as a system: the transactions of its handlers and background threads as the
  steps of a relation on the database, and the life cycles of pairs and tests. Transactions
  are atomic steps; a transaction that throws is rolled back and is no step. Every reachable
  database satisfies the invariant.
\<close>

section \<open>Steps\<close>

inductive server_step ::
  "server_config \<Rightarrow> file_system \<Rightarrow> builder \<Rightarrow> (string \<Rightarrow> string result) \<Rightarrow> db \<Rightarrow> db \<Rightarrow> bool"
  for cfg fs build gzip where
  Register: "register_client now reg db = Inr (rc, db') \<Longrightarrow> 1 \<le> rg_slots reg \<Longrightarrow>
    server_step cfg fs build gzip db db'"
| Heartbeat: "heartbeat now client factor db = (b, db') \<Longrightarrow> server_step cfg fs build gzip db db'"
| Claim: "claim_pairs cfg locked now client slots_free db = Inr (cr, db') \<Longrightarrow>
    server_step cfg fs build gzip db db'"
| Submit: "report_wf report \<Longrightarrow> submit_result gzip now pair report db = Inr (sr, db') \<Longrightarrow>
    server_step cfg fs build gzip db db'"
| Abandon: "abandon_pair pair client db = (ok, db') \<Longrightarrow> server_step cfg fs build gzip db db'"
| Recover: "recover_expired_leases locked now (max_attempts cfg) db = Inr (lr, db') \<Longrightarrow>
    server_step cfg fs build gzip db db'"
| Promote: "promote_next_test now db = (i, db') \<Longrightarrow> server_step cfg fs build gzip db db'"
| Create: "parse_test_spec (- (2 ^ 63)) (cfg_sprt_presets cfg) body = Inr s \<Longrightarrow>
    insert_test now s cand base db = Inr (i, db') \<Longrightarrow> server_step cfg fs build gzip db db'"
| Stop: "stop_test now test db = (so, db') \<Longrightarrow> server_step cfg fs build gzip db db'"
| Priority: "set_priority test n db = (po, db') \<Longrightarrow> server_step cfg fs build gzip db db'"
| Smoke: "find_test db test = Some t \<Longrightarrow>
    smoke_commit now test dispatch (smoke_test cfg fs build t) db = Inr (r, db') \<Longrightarrow>
    server_step cfg fs build gzip db db'"

definition reachable ::
  "server_config \<Rightarrow> file_system \<Rightarrow> builder \<Rightarrow> (string \<Rightarrow> string result) \<Rightarrow> db \<Rightarrow> bool" where
  "reachable cfg fs build gzip db \<longleftrightarrow> (server_step cfg fs build gzip)\<^sup>*\<^sup>* empty_db db"

inductive_cases server_stepE: "server_step cfg fs build gzip db db'"

text \<open>Under the invariant the promotion of the maintenance thread finds nothing to do.\<close>

lemma promote_idle: "tests_inv db \<Longrightarrow> promote_next_test now db = (None, db)"
  using promote_None [of now db db] by (auto simp: tests_inv_def queue_served_def)

lemma smoke_test_positions:
  assumes "sm_ok (smoke_test cfg fs build t)" and "test_params_ok t"
  shows "sm_positions (smoke_test cfg fs build t) \<noteq> []"
    and "nat (t_total_pairs t) \<le> length (sm_positions (smoke_test cfg fs build t))"
proof -
  have "nat (t_total_pairs t) \<le> length (sm_positions (smoke_test cfg fs build t))"
    using assms(1)
    by (auto simp: smoke_test_def internal_error_def Let_def split: prod.splits sum.splits bool.splits if_splits)
  then show "nat (t_total_pairs t) \<le> length (sm_positions (smoke_test cfg fs build t))"
    "sm_positions (smoke_test cfg fs build t) \<noteq> []"
    using assms(2) by (auto simp: test_params_ok_def)
qed

lemma server_step_inv:
  assumes "db_inv db" and "server_step cfg fs build gzip db db'"
  shows "db_inv db'"
  using assms(2)
proof (cases rule: server_step.cases)
  case (Promote now i)
  then show ?thesis using promote_idle db_invD(1) [OF assms(1)] assms(1) by simp
next
  case (Create body s now cand base i)
  have "wrap_int 32 (- (2 ^ 63)) = 0" by (simp add: wrap_int_def)
  then show ?thesis
    using insert_test_inv [OF assms(1) Create(2)] parse_test_spec_wf [OF Create(1)] by simp
next
  case (Smoke test t now dispatch r)
  have "test_params_ok t" using find_test_Some [OF Smoke(1)] tests_coreD(3) db_invD(2) [OF assms(1)] by blast
  then show ?thesis using smoke_commit_inv [OF assms(1) Smoke(2)] smoke_test_positions(1) by blast
next
  case Register
  then show ?thesis using register_client_inv [OF assms(1)] by simp
next
  case Heartbeat
  then show ?thesis using heartbeat_inv [OF assms(1)] by simp
next
  case Claim
  then show ?thesis using claim_pairs_inv [OF assms(1)] by simp
next
  case Submit
  then show ?thesis using submit_result_inv [OF assms(1)] by simp
next
  case Abandon
  then show ?thesis using abandon_pair_inv [OF assms(1)] by simp
next
  case Recover
  then show ?thesis using recover_expired_leases_inv [OF assms(1)] by simp
next
  case Stop
  then show ?thesis using stop_test_inv [OF assms(1)] by simp
next
  case Priority
  then show ?thesis using set_priority_inv [OF assms(1)] by simp
qed

interpretation server_system: guarded_system "server_step cfg fs build gzip" db_inv
  for cfg fs build gzip
  by unfold_locales (rule server_step_inv)

lemma reachable_inv: "reachable cfg fs build gzip db \<Longrightarrow> db_inv db"
  unfolding reachable_def using server_system.run_keeps db_inv_empty by blast

section \<open>The life cycle of a pair\<close>

text \<open>A pair as its client and the queue see it: status, holder of the lease, attempts.\<close>

type_synonym job_view = "job_status \<times> int option \<times> int"

definition view_of :: "pair_row \<Rightarrow> job_view" where
  "view_of p = (jp_status p, jp_leased_to p, jp_attempts p)"

definition job_view :: "db \<Rightarrow> int \<Rightarrow> job_view option" where
  "job_view db i = map_option view_of (find_pair db i)"

inductive job_edge :: "job_view \<Rightarrow> job_view \<Rightarrow> bool" where
  Lease: "job_edge (Pending, None, n) (Leased, Some c, n + 1)"
| Release: "job_edge (Leased, Some c, n) (Pending, None, n)"
| Complete: "job_edge (Leased, Some c, n) (Completed, Some c, n)"
| Discard: "job_edge (Leased, Some c, n) (Discarded, Some c, n)"

inductive_simps job_edge_from_completed: "job_edge (Completed, c, n) w"
inductive_simps job_edge_from_discarded: "job_edge (Discarded, c, n) w"

definition jobs_move :: "db \<Rightarrow> db \<Rightarrow> bool" where
  "jobs_move db db' \<longleftrightarrow> (\<forall>i v. job_view db i = Some v \<longrightarrow> (\<exists>w. job_view db' i = Some w \<and> job_edge\<^sup>*\<^sup>* v w))"

lemma find_update_key:
  assumes "\<And>r. key (f r) = key r"
  shows "find (\<lambda>r. key r = k) (update_where P f rows)
    = map_option (\<lambda>r. if P r then f r else r) (find (\<lambda>r. key r = k) rows)"
  using assms by (induction rows) (auto simp: update_where_def)

lemma find_append_Some: "find P xs = Some x \<Longrightarrow> find P (xs @ ys) = Some x"
  by (induction xs) auto

lemma jobs_move_pairs: "db_pairs db' = db_pairs db \<Longrightarrow> jobs_move db db'"
  by (auto simp: jobs_move_def job_view_def find_pair_def)

lemma jobs_move_append: "db_pairs db' = db_pairs db @ ps \<Longrightarrow> jobs_move db db'"
  by (auto simp: jobs_move_def job_view_def find_pair_def find_append_Some intro!: exI)

lemma jobs_move_update:
  assumes "\<And>p. same_pair (f p) p"
    and "\<And>p. p \<in> set (db_pairs db) \<Longrightarrow> P p \<Longrightarrow> job_edge (view_of p) (view_of (f p))"
    and "db_pairs db' = update_where P f (db_pairs db)"
  shows "jobs_move db db'"
  unfolding jobs_move_def
proof (intro allI impI)
  fix i v assume "job_view db i = Some v"
  then obtain p where p: "find_pair db i = Some p" "v = view_of p" by (auto simp: job_view_def)
  have "find_pair db' i = Some (if P p then f p else p)"
    using find_update_key [of jp_id f i P "db_pairs db"] assms(1,3) p(1)
    by (simp add: find_pair_def same_pair_def)
  moreover have "job_edge\<^sup>*\<^sup>* v (view_of (if P p then f p else p))"
    using assms(2) find_pair_Some [OF p(1)] p(2) by auto
  ultimately show "\<exists>w. job_view db' i = Some w \<and> job_edge\<^sup>*\<^sup>* v w" by (simp add: job_view_def)
qed

lemma leased_view:
  "pairs_inv db \<Longrightarrow> p \<in> set (db_pairs db) \<Longrightarrow> jp_status p = Leased \<Longrightarrow>
    \<exists>c. view_of p = (Leased, Some c, jp_attempts p)"
  using leased_shape by (fastforce simp: view_of_def)

lemma refresh_pairs: "tests_core db \<Longrightarrow> refresh_test now i db = Inr db' \<Longrightarrow> db_pairs db' = db_pairs db"
  using same_workD(1) [OF refresh_facts(3)] by blast

lemma refresh_all_core:
  "foldE (refresh_test now) is db = Inr db' \<Longrightarrow> tests_core db \<Longrightarrow> tests_core db' \<and> db_pairs db' = db_pairs db"
  by (erule foldE_invariant [where P = "\<lambda>d. tests_core d \<and> db_pairs d = db_pairs db"])
    (auto dest: refresh_pairs refresh_facts(1))

lemma jobs_move_step:
  assumes inv: "db_inv db" and "server_step cfg fs build gzip db db'"
  shows "jobs_move db db'"
  using assms(2)
proof (cases rule: server_step.cases)
  case (Claim locked now client slots_free cr)
  show ?thesis
    using Claim(1)
  proof (cases rule: claim_cases)
    case (2 t c est expires)
    let ?l = "picked_pairs locked (t_id t) (min (max slots_free 0) (c_slots c)) db"
    show ?thesis
    proof (rule jobs_move_update)
      fix p assume p: "p \<in> set (db_pairs db)" "jp_id p \<in> set (map jp_id ?l)"
      have "jp_status p = Pending"
        using picked_pairs_facts [OF picked_iff [OF db_invD(6) [OF inv] p]] by blast
      moreover have "jp_leased_to p = None"
        using db_invD(6) [OF inv] p(1) calculation by (auto simp: pairs_inv_def pair_shape_def)
      ultimately show "job_edge (view_of p) (view_of (lease_pair client now expires p))"
        by (simp add: view_of_def lease_pair_def Lease)
    qed (use 2(6) in simp_all)
  qed (simp add: jobs_move_pairs)
next
  case (Submit report now pair sr)
  show ?thesis
    using Submit(2,1)
  proof (cases rule: submit_cases)
    case (2 p t r0 r1 gz)
    let ?d = "with_result now pair (r0, r1) gz db"
    have core: "tests_core ?d" using db_invD(2) [OF inv] tests_core_frame [of ?d db] by simp
    show ?thesis
    proof (rule jobs_move_update)
      show "db_pairs db' = update_where (\<lambda>p. jp_id p = pair) (completed_row now) (db_pairs db)"
        using refresh_pairs [OF core 2(10)] by simp
      fix q assume "q \<in> set (db_pairs db)" "jp_id q = pair"
      then have "q = p" using pairs_unique [OF db_invD(6) [OF inv] _ 2(1)] 2(2) by simp
      then show "job_edge (view_of q) (view_of (completed_row now q))"
        using 2(3,4) by (simp add: view_of_def completed_row_def Complete)
    qed simp
  qed (simp add: jobs_move_pairs)
next
  case (Abandon pair client ok)
  show ?thesis
  proof (rule jobs_move_update)
    show "db_pairs db' = update_where (held_by pair client) release_pair (db_pairs db)"
      using Abandon by (auto simp: abandon_pair_def)
    fix p assume "p \<in> set (db_pairs db)" "held_by pair client p"
    then show "job_edge (view_of p) (view_of (release_pair p))"
      by (simp add: held_by_def view_of_def release_pair_def Release)
  qed simp
next
  case (Recover locked now lr)
  let ?d = "update_pairs (lease_expired locked now) (expire_pair (max_attempts cfg)) db"
  have core: "tests_core ?d" using db_invD(2) [OF inv] tests_core_frame [of ?d db] by simp
  show ?thesis
  proof (rule jobs_move_update)
    show "db_pairs db' = update_where (lease_expired locked now) (expire_pair (max_attempts cfg)) (db_pairs db)"
      using refresh_all_core [OF recover_cases [OF Recover(1)] core] by simp
    fix p assume p: "p \<in> set (db_pairs db)" "lease_expired locked now p"
    obtain c where c: "view_of p = (Leased, Some c, jp_attempts p)"
      using leased_view [OF db_invD(6) [OF inv] p(1) lease_expiredD [OF p(2)]] by blast
    then have "jp_leased_to p = Some c" by (simp add: view_of_def)
    then show "job_edge (view_of p) (view_of (expire_pair (max_attempts cfg) p))"
      unfolding c by (simp add: view_of_def expire_pair_def release_pair_def Release Discard)
  qed simp
next
  case (Smoke test t now dispatch r)
  show ?thesis
    using Smoke(2) db_invD(2) [OF inv] db_invD(5) [OF inv]
  proof (cases rule: smoke_commit_cases)
    case 1
    then show ?thesis by (simp add: jobs_move_pairs)
  next
    case (2 u vlog)
    then show ?thesis by (simp add: jobs_move_pairs)
  next
    case (3 u vlog d)
    let ?v = "smoke_test cfg fs build t"
    let ?w = "with_work test dispatch (sm_positions ?v) vlog db"
    have "test_params_ok t" using find_test_Some [OF Smoke(1)] tests_coreD(3) db_invD(2) [OF inv] by blast
    then have "sm_positions ?v \<noteq> []" using smoke_test_positions(1) 3(4) by blast
    then have core: "tests_core ?w" using with_work_base(1) [OF inv 3(1,2,3)] by blast
    have "db_pairs db' = db_pairs ?w"
      using refresh_pairs [OF core 3(5)] same_workD(1) [OF promote_same_work] 3(6) by simp
    then show ?thesis by (simp add: with_work_def Let_def jobs_move_append)
  qed
next
  case (Promote now i)
  then show ?thesis using promote_idle [OF db_invD(1) [OF inv]] by (simp add: jobs_move_pairs)
next
  case (Stop now test so)
  then show ?thesis
    by (cases rule: stop_test_cases) (auto intro!: jobs_move_pairs simp: same_workD(1) [OF promote_same_work])
next
  case (Priority test n po)
  then show ?thesis by (cases rule: set_priority_cases) (auto intro!: jobs_move_pairs)
next
  case (Register now reg rc)
  then show ?thesis by (auto simp: register_client_def split: option.splits intro!: jobs_move_pairs)
next
  case (Heartbeat now client factor b)
  then show ?thesis by (auto simp: heartbeat_def split: option.splits intro!: jobs_move_pairs)
next
  case (Create body s now cand base i)
  then show ?thesis by (auto elim!: insert_test_cases intro!: jobs_move_pairs)
qed

interpretation job_life: object_lifecycle "server_step cfg fs build gzip" db_inv job_view job_edge
  for cfg fs build gzip
  by unfold_locales (use jobs_move_step in \<open>auto simp: jobs_move_def\<close>)

section \<open>The life cycle of a test\<close>

text \<open>Status and result, and the parameters the test was created with.\<close>

type_synonym test_view = "test_status \<times> test_result \<times> test_row"

definition status_of :: "test_row \<Rightarrow> test_view" where
  "status_of t = (t_status t, t_result t, frozen t)"

lemmas row_status = status_of_def frozen_def set_running_def finished_row_def stopped_row_def
  queued_row_def invalid_row_def

definition test_view :: "db \<Rightarrow> int \<Rightarrow> test_view option" where
  "test_view db i = map_option status_of (find_test db i)"

inductive test_edge :: "test_view \<Rightarrow> test_view \<Rightarrow> bool" where
  Fail: "test_edge (Validating, r, p) (InvalidTest, r, p)"
| Enqueue: "test_edge (Validating, r, p) (Queued, r, p)"
| Start: "test_edge (Queued, r, p) (Running, r, p)"
| Finish: "test_edge (Running, r, p) (Finished, r', p)"
| Halt: "s = Validating \<or> s = Queued \<or> s = Running \<Longrightarrow> test_edge (s, r, p) (Stopped, r, p)"

inductive_simps test_edge_from_finished: "test_edge (Finished, r, p) w"
inductive_simps test_edge_from_stopped: "test_edge (Stopped, r, p) w"
inductive_simps test_edge_from_invalid: "test_edge (InvalidTest, r, p) w"

definition tests_move :: "db \<Rightarrow> db \<Rightarrow> bool" where
  "tests_move db db' \<longleftrightarrow>
     (\<forall>i v. test_view db i = Some v \<longrightarrow> (\<exists>w. test_view db' i = Some w \<and> test_edge\<^sup>*\<^sup>* v w))"

lemma tests_move_trans: "tests_move a b \<Longrightarrow> tests_move b c \<Longrightarrow> tests_move a c"
  unfolding tests_move_def by (meson rtranclp_trans)

lemma tests_move_same: "db_tests db' = db_tests db \<Longrightarrow> tests_move db db'"
  by (auto simp: tests_move_def test_view_def find_test_def)

lemma tests_move_append: "db_tests db' = db_tests db @ ts \<Longrightarrow> tests_move db db'"
  by (auto simp: tests_move_def test_view_def find_test_def find_append_Some intro!: exI)

lemma tests_move_update:
  assumes "\<And>t. t_id (f t) = t_id t"
    and "\<And>t. t \<in> set (db_tests db) \<Longrightarrow> t_id t = i \<Longrightarrow> test_edge\<^sup>*\<^sup>* (status_of t) (status_of (f t))"
    and "db_tests db' = update_where (\<lambda>t. t_id t = i) f (db_tests db)"
  shows "tests_move db db'"
  unfolding tests_move_def
proof (intro allI impI)
  fix j v assume "test_view db j = Some v"
  then obtain t where t: "find_test db j = Some t" "v = status_of t" by (auto simp: test_view_def)
  have "find_test db' j = Some (if t_id t = i then f t else t)"
    using find_update_key [of t_id f j "\<lambda>t. t_id t = i" "db_tests db"] assms(1,3) t(1)
    by (simp add: find_test_def)
  moreover have "test_edge\<^sup>*\<^sup>* v (status_of (if t_id t = i then f t else t))"
    using assms(2) find_test_Some [OF t(1)] t(2) by auto
  ultimately show "\<exists>w. test_view db' j = Some w \<and> test_edge\<^sup>*\<^sup>* v w" by (simp add: test_view_def)
qed

lemma tests_move_promote:
  assumes "tests_core db"
  shows "tests_move db (snd (promote_next_test now db))"
proof (cases "promote_next_test now db")
  case (Pair r db')
  show ?thesis
  proof (cases r)
    case None
    then show ?thesis using Pair promote_None [of now db db'] by (simp add: tests_move_same)
  next
    case (Some i)
    with Pair obtain t where t: "t \<in> set (db_tests db)" "t_status t = Queued" "t_id t = i" and
      db': "db' = update_test i (set_running now) db"
      by (auto elim: promote_Some)
    have "tests_move db db'"
    proof (rule tests_move_update)
      fix u assume "u \<in> set (db_tests db)" "t_id u = i"
      then have "u = t" using test_unique [OF assms _ t(1)] t(3) by simp
      then show "test_edge\<^sup>*\<^sup>* (status_of u) (status_of (set_running now u))"
        using t(2) by (auto simp: row_status intro: Start)
    qed (simp_all add: db')
    then show ?thesis using Pair by simp
  qed
qed

lemma tests_move_refresh:
  assumes core: "tests_core db" and "refresh_test now i db = Inr db'"
  shows "tests_move db db'"
  using assms(2)
proof (cases rule: refresh_cases)
  case 1
  then show ?thesis by (simp add: tests_move_same)
next
  case (2 t penta e sv s)
  let ?d = "store_stats now s db"
  have dcore: "tests_core ?d" using core by (simp only: store_stats_core)
  have stored: "tests_move db ?d" by (rule tests_move_same) simp
  show ?thesis
  proof (cases rule: apply_decision_cases [of now t "sv_decision sv" ?d])
    case 1
    then show ?thesis using 2(7) stored by simp
  next
    case (2 res)
    let ?u = "update_test (t_id t) (finished_row now res) ?d"
    have "tests_move ?d ?u"
    proof (rule tests_move_update)
      fix u assume u: "u \<in> set (db_tests ?d)" "t_id u = t_id t"
      then have "u = t" using test_unique [OF core _ \<open>t \<in> set (db_tests db)\<close>] by simp
      then show "test_edge\<^sup>*\<^sup>* (status_of u) (status_of (finished_row now res u))"
        using 2(1) by (auto simp: row_status intro: Finish)
    qed simp_all
    moreover have "tests_core ?u" by (rule tests_core_update [OF dcore]) simp_all
    then have "tests_move ?u (snd (promote_next_test now ?u))" by (rule tests_move_promote)
    ultimately show ?thesis
      using stored 2(2) \<open>db' = _\<close> by (simp add: finish_test_alt) (blast intro: tests_move_trans)
  qed
qed

lemma tests_move_refresh_all:
  assumes "foldE (refresh_test now) is db = Inr db'" and "tests_core db"
  shows "tests_move db db'"
proof -
  have "tests_core db' \<and> tests_move db db'"
    using assms(1)
  proof (rule foldE_invariant [where P = "\<lambda>d. tests_core d \<and> tests_move db d"])
    show "tests_core db \<and> tests_move db db" using assms(2) by (simp add: tests_move_same)
    fix i s d assume "tests_core s \<and> tests_move db s" "refresh_test now i s = Inr d"
    then show "tests_core d \<and> tests_move db d"
      using tests_move_refresh tests_move_trans refresh_facts(1) by blast
  qed
  then show ?thesis by blast
qed

lemma tests_move_step:
  assumes inv: "db_inv db" and "server_step cfg fs build gzip db db'"
  shows "tests_move db db'"
  using assms(2)
proof (cases rule: server_step.cases)
  case (Claim locked now client slots_free cr)
  show ?thesis using Claim(1) by (cases rule: claim_cases) (simp_all add: tests_move_same)
next
  case (Submit report now pair sr)
  show ?thesis
    using Submit(2,1)
  proof (cases rule: submit_cases)
    case (2 p t r0 r1 gz)
    let ?d = "with_result now pair (r0, r1) gz db"
    have "tests_core ?d" using db_invD(2) [OF inv] tests_core_frame [of ?d db] by simp
    from tests_move_refresh [OF this 2(10)] show ?thesis
      by (rule tests_move_trans [rotated]) (simp add: tests_move_same)
  qed (simp add: tests_move_same)
next
  case (Abandon pair client ok)
  then show ?thesis by (auto simp: abandon_pair_def intro!: tests_move_same)
next
  case (Recover locked now lr)
  let ?d = "update_pairs (lease_expired locked now) (expire_pair (max_attempts cfg)) db"
  have "tests_core ?d" using db_invD(2) [OF inv] tests_core_frame [of ?d db] by simp
  from tests_move_refresh_all [OF recover_cases [OF Recover(1)] this] show ?thesis
    by (rule tests_move_trans [rotated]) (simp add: tests_move_same)
next
  case (Smoke test t now dispatch r)
  note parts = db_invD [OF inv]
  have only: "v = u" if "u \<in> set (db_tests db)" "v \<in> set (db_tests db)" "t_id u = t_id v" for u v
    using test_unique [OF parts(2) that(2,1)] that(3) by simp
  show ?thesis
    using Smoke(2) parts(2,5)
  proof (cases rule: smoke_commit_cases)
    case 1
    then show ?thesis by (simp add: tests_move_same)
  next
    case (2 u vlog)
    show ?thesis
      unfolding 2(6)
    proof (rule tests_move_update)
      fix v assume "v \<in> set (db_tests db)" "t_id v = test"
      then have "v = u" using only 2(1,2) by blast
      then show "test_edge\<^sup>*\<^sup>* (status_of v) (status_of (invalid_row vlog v))"
        using 2(3) by (auto simp: row_status intro: Fail)
    qed simp_all
  next
    case (3 u vlog d)
    let ?v = "smoke_test cfg fs build t"
    let ?w = "with_work test dispatch (sm_positions ?v) vlog db"
    have "test_params_ok t" using find_test_Some [OF Smoke(1)] tests_coreD(3) parts(2) by blast
    then have "sm_positions ?v \<noteq> []" using smoke_test_positions(1) 3(4) by blast
    then have core: "tests_core ?w" using with_work_base(1) [OF inv 3(1,2,3)] by blast
    have "tests_move db ?w"
    proof (rule tests_move_update)
      show "db_tests ?w = update_where (\<lambda>t. t_id t = test) (queued_row vlog) (db_tests db)"
        by (simp add: with_work_def Let_def)
      fix v assume "v \<in> set (db_tests db)" "t_id v = test"
      then have "v = u" using only 3(1,2) by blast
      then show "test_edge\<^sup>*\<^sup>* (status_of v) (status_of (queued_row vlog v))"
        using 3(3) by (auto simp: row_status intro: Enqueue)
    qed simp
    moreover have "tests_move d db'"
      unfolding 3(6) by (rule tests_move_promote [OF refresh_facts(1) [OF 3(5) core]])
    ultimately show ?thesis using tests_move_refresh [OF core 3(5)] tests_move_trans by blast
  qed
next
  case (Promote now i)
  then show ?thesis using promote_idle [OF db_invD(1) [OF inv]] by (simp add: tests_move_same)
next
  case (Stop now test so)
  note parts = db_invD [OF inv]
  have stop: "tests_move db (update_test test (stopped_row now) db)"
    if t: "t \<in> set (db_tests db)" "t_id t = test" "t_status t = Validating \<or> t_status t = Queued \<or> t_status t = Running" for t
  proof (rule tests_move_update)
    fix v assume "v \<in> set (db_tests db)" "t_id v = test"
    then have "v = t" using test_unique [OF parts(2) _ t(1)] t(2) by simp
    then show "test_edge\<^sup>*\<^sup>* (status_of v) (status_of (stopped_row now v))"
      using t(3) by (intro r_into_rtranclp) (simp add: row_status Halt)
  qed simp_all
  show ?thesis
    using Stop
  proof (cases rule: stop_test_cases)
    case (2 t)
    have "tests_core (update_test test (stopped_row now) db)"
      by (rule tests_core_update [OF parts(2)]) simp_all
    then show ?thesis
      using stop [OF 2(1,2)] 2(3,4) tests_move_promote tests_move_trans by blast
  next
    case (3 t)
    then show ?thesis using stop [OF 3(1,2)] by auto
  qed (simp add: tests_move_same)
next
  case (Priority test n po)
  then show ?thesis
  proof (cases rule: set_priority_cases)
    case (2 t)
    show ?thesis unfolding 2(4) by (rule tests_move_update) (simp_all add: row_status)
  qed (simp add: tests_move_same)
next
  case (Register now reg rc)
  then show ?thesis by (auto simp: register_client_def split: option.splits intro!: tests_move_same)
next
  case (Heartbeat now client factor b)
  then show ?thesis by (auto simp: heartbeat_def split: option.splits intro!: tests_move_same)
next
  case (Create body s now cand base i)
  from Create(2) show ?thesis
    by (rule insert_test_cases) (rule tests_move_append, simp)
qed

interpretation test_life: object_lifecycle "server_step cfg fs build gzip" db_inv test_view test_edge
  for cfg fs build gzip
  by unfold_locales (use tests_move_step in \<open>auto simp: tests_move_def\<close>)

end
