(* ===== verification/Guarantees.thy ===== *)
theory Guarantees
  imports Server Scores Admin
begin

text \<open>
  What the server promises over every run: the rules of the queue, the record of results, the
  life cycles of pairs, tests and clients.
\<close>

section \<open>Clients over time\<close>

type_synonym client_view = "string \<times> client_status"

definition client_view :: "db \<Rightarrow> int \<Rightarrow> client_view option" where
  "client_view db i = map_option (\<lambda>c. (c_name c, c_status c)) (find_client db i)"

inductive client_edge :: "client_view \<Rightarrow> client_view \<Rightarrow> bool" where
  Seen: "client_edge (n, s) (n, keep_ban s)"

inductive_simps client_edge_iff: "client_edge (n, s) w"

definition clients_move :: "db \<Rightarrow> db \<Rightarrow> bool" where
  "clients_move db db' \<longleftrightarrow>
     (\<forall>i v. client_view db i = Some v \<longrightarrow> (\<exists>w. client_view db' i = Some w \<and> client_edge\<^sup>*\<^sup>* v w))"

lemma clients_move_same: "db_clients db' = db_clients db \<Longrightarrow> clients_move db db'"
  by (auto simp: clients_move_def client_view_def find_client_def)

lemma clients_move_append: "db_clients db' = db_clients db @ cs \<Longrightarrow> clients_move db db'"
  by (auto simp: clients_move_def client_view_def find_client_def find_append_Some intro!: exI)

lemma clients_move_update:
  assumes "\<And>c. c_id (f c) = c_id c" and "\<And>c. c_name (f c) = c_name c"
    and "\<And>c. c_status (f c) = keep_ban (c_status c)"
    and "db_clients db' = update_where P f (db_clients db)"
  shows "clients_move db db'"
  unfolding clients_move_def
proof (intro allI impI)
  fix i v assume "client_view db i = Some v"
  then obtain c where c: "find_client db i = Some c" "v = (c_name c, c_status c)"
    by (auto simp: client_view_def)
  have "find_client db' i = Some (if P c then f c else c)"
    using find_update_key [of c_id f i P "db_clients db"] assms(1,4) c(1) by (simp add: find_client_def)
  moreover have "client_edge\<^sup>*\<^sup>* v (c_name (if P c then f c else c), c_status (if P c then f c else c))"
    using c(2) assms(2,3) by (auto intro: Seen)
  ultimately show "\<exists>w. client_view db' i = Some w \<and> client_edge\<^sup>*\<^sup>* v w" by (simp add: client_view_def)
qed

lemma refresh_clients: "tests_core db \<Longrightarrow> refresh_test now i db = Inr db' \<Longrightarrow> db_clients db' = db_clients db"
  using same_workD(4) [OF refresh_facts(3)] by blast

lemma refresh_all_clients:
  "foldE (refresh_test now) is db = Inr db' \<Longrightarrow> tests_core db \<Longrightarrow> tests_core db' \<and> db_clients db' = db_clients db"
  by (erule foldE_invariant [where P = "\<lambda>d. tests_core d \<and> db_clients d = db_clients db"])
    (auto dest: refresh_clients refresh_facts(1))

lemma clients_move_step:
  assumes inv: "db_inv db" and "server_step cfg fs build gzip db db'"
  shows "clients_move db db'"
  using assms(2)
proof (cases rule: server_step.cases)
  case (Register now reg rc)
  note out = Register(1) [unfolded register_client_def]
  obtain mode where mode: "pinning_of_text (rg_pinning_mode reg) = Inr mode" using out by auto
  show ?thesis
  proof (cases "find (\<lambda>c. c_name c = rg_name reg) (db_clients db)")
    case None
    then show ?thesis using out mode by (auto intro!: clients_move_append)
  next
    case (Some c)
    show ?thesis
    proof (rule clients_move_update)
      show "db_clients db' = update_where (\<lambda>r. c_name r = rg_name reg) (update_client_row now mode reg) (db_clients db)"
        using out mode Some by auto
    qed (simp_all add: update_client_row_def)
  qed
next
  case (Heartbeat now client factor b)
  show ?thesis
  proof (cases "find_client db client")
    case None
    then show ?thesis using Heartbeat by (simp add: heartbeat_def clients_move_same)
  next
    case (Some c)
    show ?thesis
    proof (rule clients_move_update)
      show "db_clients db' = update_where (\<lambda>r. c_id r = client)
          (\<lambda>r. r\<lparr>c_last_seen := now,
                 c_cpu_factor := (case factor of None \<Rightarrow> c_cpu_factor r | Some f \<Rightarrow> Some f),
                 c_status := keep_ban (c_status r)\<rparr>) (db_clients db)"
        using Heartbeat Some by (auto simp: heartbeat_def)
    qed simp_all
  qed
next
  case (Claim locked now client slots_free cr)
  then show ?thesis by (cases rule: claim_cases) (simp_all add: clients_move_same)
next
  case (Submit report now pair sr)
  show ?thesis
    using Submit(2,1)
  proof (cases rule: submit_cases)
    case (2 p t r0 r1 gz)
    have "tests_core (with_result now pair (r0, r1) gz db)"
      using db_invD(2) [OF inv] tests_core_frame [of "with_result now pair (r0, r1) gz db" db] by simp
    from refresh_clients [OF this 2(10)] show ?thesis by (simp add: clients_move_same)
  qed (simp add: clients_move_same)
next
  case (Abandon pair client ok)
  then show ?thesis by (auto simp: abandon_pair_def intro!: clients_move_same)
next
  case (Recover locked now lr)
  have "tests_core (update_pairs (lease_expired locked now) (expire_pair (max_attempts cfg)) db)"
    using db_invD(2) [OF inv]
      tests_core_frame [of "update_pairs (lease_expired locked now) (expire_pair (max_attempts cfg)) db" db] by simp
  from refresh_all_clients [OF recover_cases [OF Recover(1)] this] show ?thesis by (simp add: clients_move_same)
next
  case (Smoke test t now dispatch r)
  show ?thesis
    using Smoke(2) db_invD(2) [OF inv] db_invD(5) [OF inv]
  proof (cases rule: smoke_commit_cases)
    case (3 u vlog d)
    let ?v = "smoke_test cfg fs build t"
    let ?w = "with_work test dispatch (sm_positions ?v) vlog db"
    have "test_params_ok t" using find_test_Some [OF Smoke(1)] tests_coreD(3) db_invD(2) [OF inv] by blast
    then have "sm_positions ?v \<noteq> []" using smoke_test_positions(1) 3(4) by blast
    then have core: "tests_core ?w" using with_work_base(1) [OF inv 3(1,2,3)] by blast
    have "db_clients db' = db_clients ?w"
      using refresh_clients [OF core 3(5)] same_workD(4) [OF promote_same_work] 3(6) by simp
    then show ?thesis by (simp add: with_work_def Let_def clients_move_same)
  qed (simp_all add: clients_move_same)
next
  case (Promote now i)
  then show ?thesis using promote_idle [OF db_invD(1) [OF inv]] by (simp add: clients_move_same)
next
  case (Stop now test so)
  then show ?thesis
    by (cases rule: stop_test_cases) (auto intro!: clients_move_same simp: same_workD(4) [OF promote_same_work])
next
  case (Priority test n po)
  then show ?thesis by (cases rule: set_priority_cases) (auto intro!: clients_move_same)
next
  case (Create body s now cand base i)
  then show ?thesis by (auto elim!: insert_test_cases intro!: clients_move_same)
qed

interpretation client_life: object_lifecycle "server_step cfg fs build gzip" db_inv client_view client_edge
  for cfg fs build gzip
  by unfold_locales (use clients_move_step in \<open>auto simp: clients_move_def\<close>)

section \<open>Results over time\<close>

text \<open>
  The games one step adds, each with its PGN: none, or two of a test that was running. Their ids
  continue the sequence.
\<close>

definition games_grow :: "db \<Rightarrow> db \<Rightarrow> bool" where
  "games_grow db db' \<longleftrightarrow> (\<exists>new pgns. db_games db' = db_games db @ new \<and>
     db_pgns db' = db_pgns db @ pgns \<and> map pg_game pgns = map g_id new \<and>
     sorted_wrt (<) (map g_id new) \<and>
     (\<forall>g \<in> set new. next_game db \<le> g_id g \<and>
        (\<forall>t \<in> set (db_tests db). t_id t = g_test g \<longrightarrow> t_status t = Running)))"

lemma games_grow_same: "db_games db' = db_games db \<Longrightarrow> db_pgns db' = db_pgns db \<Longrightarrow> games_grow db db'"
  by (simp add: games_grow_def)

lemma refresh_games:
  assumes "tests_core db" and "refresh_test now i db = Inr db'"
  shows "db_games db' = db_games db" and "db_pgns db' = db_pgns db"
  using same_workD(2,6) [OF refresh_facts(3) [OF assms(2,1)]] by blast+

lemma refresh_all_games:
  "foldE (refresh_test now) is db = Inr db' \<Longrightarrow> tests_core db \<Longrightarrow>
     tests_core db' \<and> db_games db' = db_games db \<and> db_pgns db' = db_pgns db"
  by (erule foldE_invariant
      [where P = "\<lambda>d. tests_core d \<and> db_games d = db_games db \<and> db_pgns d = db_pgns db"])
    (auto dest: refresh_games refresh_facts(1))

lemma games_grow_step:
  assumes inv: "db_inv db" and "server_step cfg fs build gzip db db'"
  shows "games_grow db db'"
  using assms(2)
proof (cases rule: server_step.cases)
  case (Register now reg rc)
  then show ?thesis by (auto simp: register_client_def split: option.splits intro!: games_grow_same)
next
  case (Heartbeat now client factor b)
  then show ?thesis by (auto simp: heartbeat_def split: option.splits intro!: games_grow_same)
next
  case (Claim locked now client slots_free cr)
  then show ?thesis by (cases rule: claim_cases) (simp_all add: games_grow_same)
next
  case (Submit report now pair sr)
  show ?thesis
    using Submit(2,1)
  proof (cases rule: submit_cases)
    case (2 p t r0 r1 gz)
    let ?d = "with_result now pair (r0, r1) gz db"
    have "tests_core ?d" using db_invD(2) [OF inv] tests_core_frame [of ?d db] by simp
    from refresh_games [OF this 2(10)] obtain pgns where games: "db_games db' = db_games db @ [r0, r1]"
      and pgns: "db_pgns db' = db_pgns db @ pgns" "map pg_game pgns = map g_id [r0, r1]" by simp
    have "t_status u = Running" if "u \<in> set (db_tests db)" "t_id u = jp_test p" for u
      using test_unique [OF db_invD(2) [OF inv] that(1) 2(5)] that(2) 2(6,7) by simp
    then have "\<forall>g \<in> set [r0, r1]. next_game db \<le> g_id g \<and>
        (\<forall>t \<in> set (db_tests db). t_id t = g_test g \<longrightarrow> t_status t = Running)"
      "sorted_wrt (<) (map g_id [r0, r1])"
      using 2(8,9) by (auto simp: row_for_def)
    with games pgns show ?thesis unfolding games_grow_def by blast
  qed (simp add: games_grow_same)
next
  case (Abandon pair client ok)
  then show ?thesis by (auto simp: abandon_pair_def intro!: games_grow_same)
next
  case (Recover locked now lr)
  have "tests_core (update_pairs (lease_expired locked now) (expire_pair (max_attempts cfg)) db)"
    using db_invD(2) [OF inv]
      tests_core_frame [of "update_pairs (lease_expired locked now) (expire_pair (max_attempts cfg)) db" db] by simp
  from refresh_all_games [OF recover_cases [OF Recover(1)] this] show ?thesis by (simp add: games_grow_same)
next
  case (Smoke test t now dispatch r)
  show ?thesis
    using Smoke(2) db_invD(2) [OF inv] db_invD(5) [OF inv]
  proof (cases rule: smoke_commit_cases)
    case (3 u vlog d)
    let ?v = "smoke_test cfg fs build t"
    let ?w = "with_work test dispatch (sm_positions ?v) vlog db"
    have "test_params_ok t" using find_test_Some [OF Smoke(1)] tests_coreD(3) db_invD(2) [OF inv] by blast
    then have "sm_positions ?v \<noteq> []" using smoke_test_positions(1) 3(4) by blast
    then have core: "tests_core ?w" using with_work_base(1) [OF inv 3(1,2,3)] by blast
    have "db_games db' = db_games ?w \<and> db_pgns db' = db_pgns ?w"
      using refresh_games [OF core 3(5)] same_workD(2,6) [OF promote_same_work] 3(6) by simp
    then show ?thesis by (simp add: with_work_def Let_def games_grow_same)
  qed (simp_all add: games_grow_same)
next
  case (Promote now i)
  then show ?thesis using promote_idle [OF db_invD(1) [OF inv]] by (simp add: games_grow_same)
next
  case (Stop now test so)
  then show ?thesis
    by (cases rule: stop_test_cases) (auto intro!: games_grow_same simp: same_workD(2,6) [OF promote_same_work])
next
  case (Priority test n po)
  then show ?thesis by (cases rule: set_priority_cases) (auto intro!: games_grow_same)
next
  case (Create body s now cand base i)
  then show ?thesis by (auto elim!: insert_test_cases intro!: games_grow_same)
qed

section \<open>Rows and views\<close>

lemma find_pair_iff: "pairs_inv db \<Longrightarrow> find_pair db i = Some p \<longleftrightarrow> p \<in> set (db_pairs db) \<and> jp_id p = i"
  unfolding find_pair_def pairs_inv_def by (simp add: find_key_iff)

lemma find_test_iff: "tests_core db \<Longrightarrow> find_test db i = Some t \<longleftrightarrow> t \<in> set (db_tests db) \<and> t_id t = i"
  unfolding find_test_def tests_core_def by (simp add: find_key_iff)

lemma find_client_iff: "clients_inv db \<Longrightarrow> find_client db i = Some c \<longleftrightarrow> c \<in> set (db_clients db) \<and> c_id c = i"
  unfolding find_client_def clients_inv_def by (simp add: find_key_iff)

lemma job_view_row:
  "pairs_inv db \<Longrightarrow> job_view db i = Some v \<longleftrightarrow> (\<exists>p \<in> set (db_pairs db). jp_id p = i \<and> view_of p = v)"
  by (auto simp: job_view_def find_pair_iff)

lemma test_view_row:
  "tests_core db \<Longrightarrow> test_view db i = Some v \<longleftrightarrow> (\<exists>t \<in> set (db_tests db). t_id t = i \<and> status_of t = v)"
  by (auto simp: test_view_def find_test_iff)

lemmas job_final = job_edge_from_completed job_edge_from_discarded
lemmas test_final = test_edge_from_finished test_edge_from_stopped test_edge_from_invalid

text \<open>How far a test has come; no edge leads back.\<close>

fun test_rank :: "test_status \<Rightarrow> int" where
  "test_rank Validating = 0"
| "test_rank Queued = 1"
| "test_rank Running = 2"
| "test_rank InvalidTest = 3"
| "test_rank Finished = 3"
| "test_rank Stopped = 3"

lemma test_edge_rank: "test_edge v w \<Longrightarrow> test_rank (fst v) \<le> test_rank (fst w)"
  by (auto elim!: test_edge.cases)

lemma test_edge_params: "test_edge\<^sup>*\<^sup>* v w \<Longrightarrow> snd (snd w) = snd (snd v)"
  by (induction rule: rtranclp_induct) (auto elim!: test_edge.cases)

lemma job_edge_attempts: "job_edge v w \<Longrightarrow> snd (snd v) \<le> snd (snd w)"
  by (auto elim!: job_edge.cases)

abbreviation server_run ::
  "server_config \<Rightarrow> file_system \<Rightarrow> builder \<Rightarrow> (string \<Rightarrow> string result) \<Rightarrow> db \<Rightarrow> db \<Rightarrow> bool" where
  "server_run cfg fs build gzip \<equiv> (server_step cfg fs build gzip)\<^sup>*\<^sup>*"

lemma run_reachable:
  "reachable cfg fs build gzip db \<Longrightarrow> server_run cfg fs build gzip db db' \<Longrightarrow> reachable cfg fs build gzip db'"
  unfolding reachable_def by (rule rtranclp_trans)

section \<open>A result on an open lease\<close>

text \<open>What the handler of the route has checked: texts that are labels, a text zlib can compress.\<close>

definition storable :: "(string \<Rightarrow> string result) \<Rightarrow> pair_report \<Rightarrow> bool" where
  "storable gzip report \<longleftrightarrow> list_all (\<lambda>g. \<not> isl (outcome_of_text (gr_outcome g)) \<and>
     \<not> isl (termination_of_text (gr_termination g)) \<and> \<not> isl (gzip (gr_pgn g))) (pr_games report)"

definition open_lease :: "db \<Rightarrow> int \<Rightarrow> int \<Rightarrow> bool" where
  "open_lease db pair client \<longleftrightarrow>
     (\<exists>p \<in> set (db_pairs db). \<exists>t \<in> set (db_tests db). \<exists>c \<in> set (db_clients db).
        jp_id p = pair \<and> t_id t = jp_test p \<and> c_id c = client \<and> c_status c \<noteq> Banned \<and>
        t_status t = Running \<and> jp_status p = Leased \<and> jp_leased_to p = Some client)"

lemma insert_game_total:
  assumes "\<not> isl (outcome_of_text (gr_outcome game))" "\<not> isl (termination_of_text (gr_termination game))"
    "\<not> isl (gzip (gr_pgn game))" and "gr_game_in_pair game = 0 \<or> gr_game_in_pair game = 1"
    and "\<And>g. g \<in> set (db_games db) \<Longrightarrow> g_pair g = pair \<Longrightarrow> g_game_in_pair g \<noteq> gr_game_in_pair game"
  shows "\<exists>row gz. insert_game gzip now pair test client (game, v) db = Inr (add_game row gz db) \<and>
    row_for (next_game db) pair test client game v row"
proof -
  obtain oc tm z where "outcome_of_text (gr_outcome game) = Inr oc"
    "termination_of_text (gr_termination game) = Inr tm" "gzip (gr_pgn game) = Inr z"
    using assms(1-3) by (metis isl_def sum.exhaust)
  then have "\<exists>db'. insert_game gzip now pair test client (game, v) db = Inr db'"
    using assms(4,5) by (auto simp: insert_game_def)
  then show ?thesis using insert_game_Inr by metis
qed

lemma stored_open:
  assumes inv: "db_inv db" and wf: "report_wf report" and st: "storable gzip report"
    and p: "p \<in> set (db_pairs db)" "jp_id p = pair" "jp_status p = Leased"
  shows "\<exists>r0 r1 z0 z1. foldE (insert_game gzip now pair test client) (zip (pr_games report) (check_pair report))
      (complete_pair now pair db) = Inr (add_game r1 z1 (add_game r0 z0 (complete_pair now pair db))) \<and>
    row_for (next_game db) pair test client (pr_games report ! 0) (check_pair report ! 0) r0 \<and>
    row_for (next_game db + 1) pair test client (pr_games report ! 1) (check_pair report ! 1) r1"
proof -
  obtain g0 g1 where g: "pr_games report = [g0, g1]" "gr_game_in_pair g0 = 0" "gr_game_in_pair g1 = 1"
    by (rule report_wf_cases [OF wf])
  obtain v0 v1 where v: "check_pair report = [v0, v1]"
    using length_check_pair [of report] by (cases "check_pair report" rule: remdups_adj.cases) auto
  let ?d = "complete_pair now pair db"
  let ?ins = "insert_game gzip now pair test client"
  have games: "db_games ?d = db_games db" "next_game ?d = next_game db" by (simp_all add: complete_pair_alt)
  have "pair_games db pair = []" using no_games_unless_completed [OF db_invD(7) [OF inv] p(1)] p(2,3) by simp
  then have fresh: "g_pair x \<noteq> pair" if "x \<in> set (db_games db)" for x
    using that by (auto simp: pair_games_def filter_empty_conv)
  have "\<exists>row gz. ?ins (g0, v0) ?d = Inr (add_game row gz ?d) \<and> row_for (next_game ?d) pair test client g0 v0 row"
    by (rule insert_game_total) (use st g fresh games in \<open>auto simp: storable_def\<close>)
  then obtain r0 z0 where r0: "?ins (g0, v0) ?d = Inr (add_game r0 z0 ?d)"
    "row_for (next_game db) pair test client g0 v0 r0" using games by auto
  have "\<exists>row gz. ?ins (g1, v1) (add_game r0 z0 ?d) = Inr (add_game row gz (add_game r0 z0 ?d)) \<and>
      row_for (next_game (add_game r0 z0 ?d)) pair test client g1 v1 row"
    by (rule insert_game_total) (use st g fresh games r0(2) in \<open>auto simp: storable_def row_for_def\<close>)
  then obtain r1 z1 where r1: "?ins (g1, v1) (add_game r0 z0 ?d) = Inr (add_game r1 z1 (add_game r0 z0 ?d))"
    "row_for (next_game db + 1) pair test client g1 v1 r1" using games by auto
  show ?thesis
    using r0 r1 g v by (intro exI [of _ r0] exI [of _ r1] exI [of _ z0] exI [of _ z1]) simp
qed

lemma submit_open:
  assumes inv: "db_inv db" and wf: "report_wf report" and st: "storable gzip report"
    and p: "p \<in> set (db_pairs db)" "jp_id p = pair" "jp_status p = Leased"
      "jp_leased_to p = Some (pr_client_id report)"
    and t: "t \<in> set (db_tests db)" "t_id t = jp_test p" "t_status t = Running"
    and c: "c \<in> set (db_clients db)" "c_id c = pr_client_id report" "c_status c \<noteq> Banned"
  shows "\<exists>r0 r1 gz. submit_result gzip now pair report db =
      bindE (refresh_test now (jp_test p) (with_result now pair (r0, r1) gz db)) (\<lambda>d.
        Inr (\<lparr>sr_status = Accepted, sr_valid_games = count_valid (check_pair report)\<rparr>, d)) \<and>
    row_for (next_game db) pair (jp_test p) (pr_client_id report) (pr_games report ! 0) (check_pair report ! 0) r0 \<and>
    row_for (next_game db + 1) pair (jp_test p) (pr_client_id report) (pr_games report ! 1) (check_pair report ! 1) r1"
proof -
  note parts = db_invD [OF inv]
  obtain r0 r1 z0 z1 where r: "foldE (insert_game gzip now pair (jp_test p) (pr_client_id report))
      (zip (pr_games report) (check_pair report)) (complete_pair now pair db)
        = Inr (add_game r1 z1 (add_game r0 z0 (complete_pair now pair db)))"
    "row_for (next_game db) pair (jp_test p) (pr_client_id report) (pr_games report ! 0) (check_pair report ! 0) r0"
    "row_for (next_game db + 1) pair (jp_test p) (pr_client_id report) (pr_games report ! 1) (check_pair report ! 1) r1"
    using stored_open [OF inv wf st p(1-3)] by blast
  have "find_pair db pair = Some p" "find_test db (jp_test p) = Some t"
    "find_client db (pr_client_id report) = Some c"
    using p t c find_pair_iff [OF parts(6)] find_test_iff [OF parts(2)] find_client_iff [OF parts(4)] by auto
  then have "submit_result gzip now pair report db =
      bindE (refresh_test now (jp_test p) (with_result now pair (r0, r1) (z0, z1) db)) (\<lambda>d.
        Inr (\<lparr>sr_status = Accepted, sr_valid_games = count_valid (check_pair report)\<rparr>, d))"
    using p t c r(1) by (simp add: submit_result_def Let_def with_result_def)
  then show ?thesis using r(2,3) by auto
qed

lemma submit_status_only_eq [simp]: "submit_status_only a = submit_status_only b \<longleftrightarrow> a = b"
  by (simp add: submit_status_only_def)

text \<open>Off an open lease a submission is refused and changes nothing.\<close>

lemma submit_closed:
  assumes inv: "db_inv db" and "\<not> open_lease db pair (pr_client_id report)"
  shows "\<exists>s. submit_result gzip now pair report db = Inr (submit_status_only s, db) \<and> s \<noteq> Accepted"
proof (cases "find_pair db pair")
  case p: (Some p)
  show ?thesis
  proof (cases "find_test db (jp_test p)")
    case t: (Some t)
    show ?thesis
    proof (cases "find_client db (pr_client_id report)")
      case c: (Some c)
      have "\<not> (c_status c \<noteq> Banned \<and> t_status t = Running \<and> jp_status p = Leased \<and>
          jp_leased_to p = Some (pr_client_id report))"
        using assms(2) find_pair_Some [OF p] find_test_Some [OF t] find_client_Some [OF c]
        unfolding open_lease_def by blast
      then show ?thesis using p t c by (auto simp: submit_result_def Let_def)
    qed (use p t in \<open>simp add: submit_result_def\<close>)
  qed (use p in \<open>simp add: submit_result_def\<close>)
qed (simp add: submit_result_def)

text \<open>On an open lease only the likelihood ratio can stop the submission.\<close>

lemma submit_decided:
  assumes inv: "db_inv db" and wf: "report_wf report" and st: "storable gzip report"
    and ol: "open_lease db pair (pr_client_id report)"
  shows "(\<exists>db'. submit_result gzip now pair report db
       = Inr (\<lparr>sr_status = Accepted, sr_valid_games = count_valid (check_pair report)\<rparr>, db')) \<or>
    (\<exists>e t penta. submit_result gzip now pair report db = Inl e \<and> t \<in> set (db_tests db) \<and>
       t_kind t = Sprt \<and> t_status t = Running \<and> penta_pairs penta \<noteq> 0 \<and>
       llr_normalized (the (t_sprt_elo0 t)) (the (t_sprt_elo1 t)) penta = Inl e)"
proof -
  obtain p t c where p: "p \<in> set (db_pairs db)" "jp_id p = pair" "jp_status p = Leased"
      "jp_leased_to p = Some (pr_client_id report)"
    and t: "t \<in> set (db_tests db)" "t_id t = jp_test p" "t_status t = Running"
    and c: "c \<in> set (db_clients db)" "c_id c = pr_client_id report" "c_status c \<noteq> Banned"
    using ol unfolding open_lease_def by blast
  obtain r0 r1 gz where sub: "submit_result gzip now pair report db =
      bindE (refresh_test now (jp_test p) (with_result now pair (r0, r1) gz db)) (\<lambda>d.
        Inr (\<lparr>sr_status = Accepted, sr_valid_games = count_valid (check_pair report)\<rparr>, d))"
    and rows: "row_for (next_game db) pair (jp_test p) (pr_client_id report) (pr_games report ! 0) (check_pair report ! 0) r0"
    "row_for (next_game db + 1) pair (jp_test p) (pr_client_id report) (pr_games report ! 1) (check_pair report ! 1) r1"
    using submit_open [OF inv wf st p t c] by blast
  let ?d = "with_result now pair (r0, r1) gz db"
  note base = with_result_base [OF inv wf p rows, where now = now and gz = gz]
  show ?thesis
  proof (cases "refresh_test now (jp_test p) ?d")
    case (Inr d)
    then show ?thesis unfolding sub by simp
  next
    case (Inl e)
    have "pairs_inv ?d" "games_inv ?d" using base(3) by (simp_all add: work_inv_def)
    from refresh_fails [OF this base(1) Inl] obtain u penta where u: "u \<in> set (db_tests db)" "t_id u = jp_test p"
      "t_kind u = Sprt" "penta_pairs penta \<noteq> 0"
      "llr_normalized (the (t_sprt_elo0 u)) (the (t_sprt_elo1 u)) penta = Inl e" by auto
    moreover have "u = t" using test_unique [OF db_invD(2) [OF inv] u(1) t(1)] u(2) t(2) by simp
    moreover have "submit_result gzip now pair report db = Inl e" unfolding sub Inl by simp
    ultimately show ?thesis using t(3) by blast
  qed
qed

section \<open>Along a run\<close>

lemma run_inv: "db_inv db \<Longrightarrow> server_run cfg fs build gzip db db' \<Longrightarrow> db_inv db'"
  by (rule server_system.run_keeps)

text \<open>A pair that is completed, or a test that has ended, is so in every later database.\<close>

lemma completed_stays:
  assumes "db_inv db" "server_run cfg fs build gzip db db'" "p \<in> set (db_pairs db)" "jp_status p = Completed"
  obtains q where "q \<in> set (db_pairs db')" "jp_id q = jp_id p" "jp_status q = Completed"
    "jp_leased_to q = jp_leased_to p"
proof -
  note inv = assms(1) run_inv [OF assms(1,2)]
  have v: "job_view db (jp_id p) = Some (view_of p)"
    using assms(3) job_view_row [OF db_invD(6) [OF inv(1)]] by blast
  have "\<not> job_edge (view_of p) w" for w using assms(4) by (simp add: view_of_def job_final)
  from job_life.final_frozen [OF assms(2) inv(1) v this] obtain q where
    "q \<in> set (db_pairs db')" "jp_id q = jp_id p" "view_of q = view_of p"
    using job_view_row [OF db_invD(6) [OF inv(2)]] by blast
  then show thesis using that assms(4) by (auto simp: view_of_def)
qed

lemma ended_stays:
  assumes "db_inv db" "server_run cfg fs build gzip db db'" "t \<in> set (db_tests db)" "test_rank (t_status t) = 3"
    "u \<in> set (db_tests db')" "t_id u = t_id t"
  shows "t_status u = t_status t"
proof -
  note inv = assms(1) run_inv [OF assms(1,2)]
  have v: "test_view db (t_id t) = Some (status_of t)"
    using assms(3) test_view_row [OF db_invD(2) [OF inv(1)]] by blast
  have "\<not> test_edge (status_of t) x" for x
    using assms(4) by (cases "t_status t") (auto simp: status_of_def test_final)
  from test_life.final_frozen [OF assms(2) inv(1) v this] obtain u' where
    "u' \<in> set (db_tests db')" "t_id u' = t_id t" "status_of u' = status_of t"
    using test_view_row [OF db_invD(2) [OF inv(2)]] by blast
  moreover have "u' = u" using test_unique [OF db_invD(2) [OF inv(2)] calculation(1) assms(5)] assms(6) calculation(2) by simp
  ultimately show ?thesis by (simp add: status_of_def)
qed

lemma client_stays:
  assumes "db_inv db" "server_run cfg fs build gzip db db'" "c \<in> set (db_clients db)"
  obtains d where "d \<in> set (db_clients db')" "c_id d = c_id c" "c_name d = c_name c"
    "c_status c = Banned \<Longrightarrow> c_status d = Banned"
proof -
  note inv = assms(1) run_inv [OF assms(1,2)]
  have v: "client_view db (c_id c) = Some (c_name c, c_status c)"
    using assms(3) find_client_iff [OF db_invD(4) [OF inv(1)]] by (auto simp: client_view_def)
  from client_life.run_moves [OF assms(2) inv(1) v] obtain w where
    w: "client_view db' (c_id c) = Some w" "client_edge\<^sup>*\<^sup>* (c_name c, c_status c) w" by blast
  have "fst w = c_name c \<and> (c_status c = Banned \<longrightarrow> snd w = Banned)"
    using w(2) by (induction rule: rtranclp_induct) (auto elim!: client_edge.cases simp: keep_ban_def)
  moreover obtain d where "find_client db' (c_id c) = Some d" "w = (c_name d, c_status d)"
    using w(1) by (auto simp: client_view_def)
  ultimately show thesis using that find_client_Some by auto
qed

text \<open>The games of an ended test are complete: no later step adds one.\<close>

lemma games_grow_run:
  assumes "server_run cfg fs build gzip db db'" and "db_inv db"
  shows "\<exists>new. db_games db' = db_games db @ new \<and>
    (\<forall>g \<in> set new. \<forall>t \<in> set (db_tests db). t_id t = g_test g \<longrightarrow> test_rank (t_status t) \<noteq> 3)"
  using assms
proof (induction rule: rtranclp_induct)
  case base
  then show ?case by simp
next
  case (step d d')
  obtain new where new: "db_games d = db_games db @ new"
    "\<forall>g \<in> set new. \<forall>t \<in> set (db_tests db). t_id t = g_test g \<longrightarrow> test_rank (t_status t) \<noteq> 3"
    using step by blast
  have inv: "db_inv d" using run_inv [OF step.prems step.hyps(1)] .
  obtain more where more: "db_games d' = db_games d @ more"
    "\<forall>g \<in> set more. \<forall>t \<in> set (db_tests d). t_id t = g_test g \<longrightarrow> t_status t = Running"
    using games_grow_step [OF inv step.hyps(2)] by (auto simp: games_grow_def)
  have "test_rank (t_status t) \<noteq> 3" if "g \<in> set more" "t \<in> set (db_tests db)" "t_id t = g_test g" for g t
  proof
    assume r: "test_rank (t_status t) = 3"
    have v: "test_view db (t_id t) = Some (status_of t)"
      using that(2) test_view_row [OF db_invD(2) [OF step.prems]] by blast
    obtain u where u: "u \<in> set (db_tests d)" "t_id u = t_id t"
      using test_life.run_moves [OF step.hyps(1) step.prems v] test_view_row [OF db_invD(2) [OF inv]] by blast
    have "t_status u = t_status t" by (rule ended_stays [OF step.prems step.hyps(1) that(2) r u])
    moreover have "t_status u = Running" using more(2) that u by auto
    ultimately show False using r by simp
  qed
  then show ?case using new more by auto
qed

text \<open>
  The two tables of the record run in parallel, one PGN per game in the order of their ids, and
  both only grow at the end.
\<close>

definition records_inv :: "db \<Rightarrow> bool" where
  "records_inv db \<longleftrightarrow> map pg_game (db_pgns db) = map g_id (db_games db) \<and>
     sorted_wrt (<) (map g_id (db_games db))"

lemma records_step:
  assumes "db_inv db" and "records_inv db" and "server_step cfg fs build gzip db db'"
  shows "records_inv db'"
proof -
  obtain new pgns where new: "db_games db' = db_games db @ new" "db_pgns db' = db_pgns db @ pgns"
    "map pg_game pgns = map g_id new" "sorted_wrt (<) (map g_id new)" "\<forall>g \<in> set new. next_game db \<le> g_id g"
    using games_grow_step [OF assms(1,3)] unfolding games_grow_def by blast
  have "\<forall>g \<in> set (db_games db). g_id g < next_game db"
    using db_invD(7) [OF assms(1)] by (simp add: games_inv_def)
  then show ?thesis using assms(2) new by (fastforce simp: records_inv_def sorted_wrt_append)
qed

interpretation record_system: guarded_system "server_step cfg fs build gzip" "\<lambda>db. db_inv db \<and> records_inv db"
  by unfold_locales (use server_step_inv records_step in blast)

lemma reachable_records: "reachable cfg fs build gzip db \<Longrightarrow> records_inv db"
  using record_system.run_keeps [of cfg fs build gzip empty_db db] db_inv_empty
  by (simp add: reachable_def records_inv_def empty_db_def)

lemma records_run:
  assumes "server_run cfg fs build gzip db db'" and "db_inv db"
  shows "\<exists>new pgns. db_games db' = db_games db @ new \<and> db_pgns db' = db_pgns db @ pgns"
  using assms
proof (induction rule: rtranclp_induct)
  case base
  then show ?case by simp
next
  case (step d d')
  have inv: "db_inv d" using run_inv [OF step.prems step.hyps(1)] .
  show ?case
    using step.IH [OF step.prems] games_grow_step [OF inv step.hyps(2)]
    unfolding games_grow_def by (metis append.assoc)
qed

text \<open>An accepted result leaves a completed pair of a known client.\<close>

lemma accepted_completes:
  assumes inv: "db_inv db" and "submit_result gzip now pair report db = Inr (r, d)" and wf: "report_wf report"
    and "sr_status r = Accepted"
  obtains p c where "p \<in> set (db_pairs d)" "jp_id p = pair" "jp_status p = Completed"
    "jp_leased_to p = Some (pr_client_id report)" "c \<in> set (db_clients db)" "c_id c = pr_client_id report"
proof -
  have "open_lease db pair (pr_client_id report)"
  proof (rule ccontr)
    assume "\<not> open_lease db pair (pr_client_id report)"
    from submit_closed [OF inv this, of gzip now] show False
      using assms(2,4) by (auto simp: submit_status_only_def)
  qed
  then obtain c where c: "c \<in> set (db_clients db)" "c_id c = pr_client_id report"
    unfolding open_lease_def by blast
  show thesis
    using assms(2) wf
  proof (cases rule: submit_cases)
    case (2 p t r0 r1 gz)
    note base = with_result_base [OF inv wf 2(1-4,8,9), where now = now and gz = gz]
    have "completed_row now p \<in> set (db_pairs (with_result now pair (r0, r1) gz db))"
      using 2(1,2) by (force simp: set_update_where)
    then have "completed_row now p \<in> set (db_pairs d)" using refresh_pairs [OF base(1) 2(10)] by simp
    then show thesis using that [of "completed_row now p" c] 2(2,4) c by simp
  qed (use assms(4) in simp)
qed

lemma test_of_pair:
  assumes "db_inv db" "p \<in> set (db_pairs db)"
  shows "find_test db (jp_test p) \<noteq> None"
proof -
  obtain t where "t \<in> set (db_tests db)" "t_id t = jp_test p"
    using db_invD(6) [OF assms(1)] assms(2) unfolding pairs_inv_def prepared_def by blast
  then show ?thesis using find_test_iff [OF db_invD(2) [OF assms(1)]] by blast
qed

section \<open>What a claim hands out\<close>

lemma claim_total:
  assumes inv: "db_inv db"
  shows "\<exists>r db'. claim_pairs cfg locked now client slots_free db = Inr (r, db')"
proof (cases "running_test db")
  case (Some t)
  show ?thesis
  proof (cases "caller db client")
    case c: (Some c)
    have "test_params_ok t" using tests_coreD(3) [OF db_invD(2) [OF inv]] running_test_Some [OF Some] by blast
    then obtain est where est: "est_pair_ms t = Inr est"
      by (auto simp: est_pair_ms_def test_params_ok_def in_int_range_def)
    have "c \<in> set (db_clients db)"
      using c find_client_Some by (auto simp: caller_def split: option.splits if_splits)
    then have "0 \<le> c_slots c" using db_invD(4) [OF inv] by (force simp: clients_inv_def)
    then show ?thesis
      using Some c est by (auto simp: claim_pairs_def Let_def simp del: bindE_eq_Inr_iff)
  qed (use Some in \<open>simp add: claim_pairs_def\<close>)
qed (simp add: claim_pairs_def)

lemma position_of_pair:
  assumes "pairs_inv db" "positions_inv db" "p \<in> set (db_pairs db)"
  obtains op where "op \<in> set (db_positions db)" "op_id op = jp_position p" "op_test op = jp_test p"
    "filter (\<lambda>op. op_id op = jp_position p) (db_positions db) = [op]"
proof -
  obtain op where op: "op \<in> set (db_positions db)" "op_id op = jp_position p" "op_test op = jp_test p"
    using assms(1,3) unfolding pairs_inv_def by blast
  have "distinct (map op_id (db_positions db))" using assms(2) by (simp add: positions_inv_def)
  from filter_key_singleton [OF this op(1)] show thesis using that op by simp
qed

lemma claimed_rows_ids:
  assumes "pairs_inv db" "positions_inv db" "set ps \<subseteq> set (db_pairs db)"
  shows "map cp_pair_id (claimed_rows db expires ps) = map jp_id (sort_key jp_id ps)"
proof -
  let ?rows = "\<lambda>p. map (\<lambda>op. \<lparr>cp_pair_id = jp_id p, cp_position_id = jp_position p,
      cp_position_seq = op_seq op, cp_fen = op_fen op, cp_lease_expires_at = expires\<rparr>)
      (filter (\<lambda>op. op_id op = jp_position p) (db_positions db))"
  have "map cp_pair_id (concat (map ?rows qs)) = map jp_id qs" if "set qs \<subseteq> set (db_pairs db)" for qs
    using that
  proof (induction qs)
    case (Cons q qs)
    obtain op where "filter (\<lambda>op. op_id op = jp_position q) (db_positions db) = [op]"
      by (rule position_of_pair [OF assms(1,2), of q]) (use Cons.prems in simp_all)
    then show ?case using Cons by simp
  qed simp
  then show ?thesis using assms(3) by (simp add: claimed_rows_def)
qed

lemma claimed_rows_facts:
  assumes "x \<in> set (claimed_rows db expires ps)"
  shows "\<exists>p \<in> set ps. \<exists>op \<in> set (db_positions db). cp_pair_id x = jp_id p \<and> op_id op = jp_position p \<and>
    cp_position_id x = op_id op \<and> cp_position_seq x = op_seq op \<and> cp_fen x = op_fen op \<and>
    cp_lease_expires_at x = expires"
  using assms by (fastforce simp: claimed_rows_def)

text \<open>The first pairs of a sorted list: those left out do not come before those taken.\<close>

lemma take_sorted_first:
  assumes "sorted (map f xs)" "x \<in> set (take n xs)" "y \<in> set xs" "y \<notin> set (take n xs)"
  shows "f x \<le> f y"
proof -
  have "y \<in> set (drop n xs)" using assms(3,4) set_append [of "take n xs" "drop n xs"] by auto
  moreover have "sorted (map f (take n xs @ drop n xs))" using assms(1) by simp
  ultimately show ?thesis using assms(2) unfolding map_append sorted_append by auto
qed

definition claimable :: "(int \<Rightarrow> bool) \<Rightarrow> db \<Rightarrow> int \<Rightarrow> pair_row \<Rightarrow> bool" where
  "claimable locked db test p \<longleftrightarrow> jp_test p = test \<and> jp_status p = Pending \<and> \<not> locked (jp_id p)"

lemma picked_pairs_alt:
  "picked_pairs locked test limit db =
     take (nat limit) (sort_key jp_dispatch_order (filter (claimable locked db test) (db_pairs db)))"
proof -
  have "claimable locked db test = (\<lambda>p. \<not> locked (jp_id p) \<and> jp_test p = test \<and> jp_status p = Pending)"
    by (auto simp: claimable_def)
  then show ?thesis by (simp add: picked_pairs_def filter_sort conj_commute)
qed

lemma picked_pairs_set:
  assumes "pairs_inv db"
  shows "distinct (map jp_id (picked_pairs locked test limit db))"
    "length (picked_pairs locked test limit db)
       = min (nat limit) (length (filter (claimable locked db test) (db_pairs db)))"
    "p \<in> set (picked_pairs locked test limit db) \<Longrightarrow> q \<in> set (db_pairs db) \<Longrightarrow> claimable locked db test q \<Longrightarrow>
       q \<notin> set (picked_pairs locked test limit db) \<Longrightarrow> jp_dispatch_order p \<le> jp_dispatch_order q"
proof -
  let ?c = "filter (claimable locked db test) (db_pairs db)"
  have "distinct (map jp_id ?c)" using assms by (simp add: pairs_inv_def filter_map_distinct)
  then have "distinct (map jp_id (sort_key jp_dispatch_order ?c))"
    by (metis distinct_map distinct_sort set_sort)
  then have "distinct (take (nat limit) (map jp_id (sort_key jp_dispatch_order ?c)))" by (rule distinct_take)
  then show "distinct (map jp_id (picked_pairs locked test limit db))"
    by (simp add: picked_pairs_alt take_map)
  show "length (picked_pairs locked test limit db) = min (nat limit) (length ?c)"
    by (simp add: picked_pairs_alt)
  show "jp_dispatch_order p \<le> jp_dispatch_order q" if "p \<in> set (picked_pairs locked test limit db)"
    "q \<in> set (db_pairs db)" "claimable locked db test q" "q \<notin> set (picked_pairs locked test limit db)"
    by (rule take_sorted_first [of jp_dispatch_order "sort_key jp_dispatch_order ?c" p "nat limit" q])
      (use that in \<open>simp_all add: picked_pairs_alt\<close>)
qed

section \<open>The work of a validated test\<close>

lemma smoke_positions_exact:
  assumes "sm_ok (smoke_test cfg fs build t)"
  shows "length (sm_positions (smoke_test cfg fs build t)) = nat (t_total_pairs t)"
proof -
  obtain ps where ps: "sample_book fs (path_join (books_dir cfg) (t_book_name t)) (nat (t_total_pairs t))
      (of_int (t_id t)) = Inr ps" "sm_positions (smoke_test cfg fs build t) = ps" "nat (t_total_pairs t) \<le> length ps"
    using assms
    by (auto simp: smoke_test_def internal_error_def Let_def split: prod.splits sum.splits bool.splits if_splits)
  then obtain xs where "reservoir_sample (nat (t_total_pairs t)) (of_int (t_id t)) xs = ps"
    by (auto simp: sample_book_def)
  moreover obtain js where "length js = min (nat (t_total_pairs t)) (length xs)"
    "reservoir_sample (nat (t_total_pairs t)) (of_int (t_id t)) xs = map ((!) xs) js"
    by (rule reservoir_sample_indices)
  ultimately have "length ps = min (nat (t_total_pairs t)) (length xs)" by (metis length_map)
  then show ?thesis using ps(2,3) by simp
qed

lemma position_rows_columns:
  "map op_seq (position_rows first test fens) = map (\<lambda>i. int i + 1) [0..<length fens]"
  "map op_fen (position_rows first test fens) = fens"
  "filter (\<lambda>op. op_test op = test) (position_rows first test fens) = position_rows first test fens"
  by (auto simp: position_rows_def intro!: nth_equalityI)
    (auto simp: filter_id_conv set_zip)

lemma pair_rows_fresh:
  "p \<in> set (pair_rows first dispatch (position_rows n test fens)) \<Longrightarrow>
     jp_test p = test \<and> jp_status p = Pending \<and> jp_attempts p = 0 \<and> jp_leased_to p = None"
  by (auto simp: pair_rows_def position_rows_def set_zip)

text \<open>A recalculation leaves the statuses of tests that are not running.\<close>

lemma refresh_waiting:
  assumes "refresh_test now i db = Inr d" "find_test db i = Some t" "t_status t \<noteq> Running"
  shows "db_tests d = db_tests db"
proof -
  obtain dec s where "d = apply_decision now t dec (store_stats now s db)"
    using assms(1,2) by (auto simp: refresh_test_def store_stats_def Let_def)
  then show ?thesis using assms(3) by (simp add: apply_decision_def)
qed

lemma promote_status:
  assumes "u \<in> set (db_tests db)" "t_status u = Queued"
  shows "\<exists>v \<in> set (db_tests (snd (promote_next_test now db))). t_id v = t_id u \<and>
    (t_status v = Queued \<or> t_status v = Running)"
proof (cases "promote_next_test now db")
  case (Pair r d)
  show ?thesis
  proof (cases r)
    case None
    then show ?thesis using Pair promote_None [of now db d] assms by auto
  next
    case (Some i)
    with Pair have d: "d = update_test i (set_running now) db" by (auto elim: promote_Some)
    let ?v = "if t_id u = i then set_running now u else u"
    have "?v \<in> set (db_tests d)" unfolding d tests_update_test set_update_where using assms(1) by blast
    then show ?thesis using Pair assms(2) by (intro bexI [of _ ?v]) auto
  qed
qed

end
