(* ===== verification/Scenario.thy ===== *)
theory Scenario
  imports Guarantees
begin

text \<open>
  A run of the server on a small instance: a client registers, a gauntlet of two pairs is
  created, validated and started, its pairs are claimed and one result comes in. The
  databases of this run are the inputs at which the properties of runs are applied.
\<close>

definition demo_fs :: file_system where
  "demo_fs = [''books/mini.epd'' \<mapsto> \<lparr>f_size = 52, f_mtime = 0, f_contents =
     ''4k3/8/8/8/8/8/8/4K3 w - -'' @ [newline] @ ''4k3/8/8/8/8/8/8/R3K3 b - -'' @ [newline]\<rparr>]"

definition demo_build :: builder where
  "demo_build sha vlog = (Inr True, vlog)"

definition demo_gzip :: "string \<Rightarrow> string result" where
  "demo_gzip s = Inr s"

definition demo_body :: json where
  "demo_body = JObject [(''kind'', JString ''gauntlet''), (''candidate_ref'', JString ''dev''),
     (''baseline_ref'', JString ''main''), (''tc'', JString ''10+0.1''),
     (''book_name'', JString ''mini.epd''), (''total_pairs'', JInt 2)]"

definition demo_spec :: test_spec where
  "demo_spec = \<lparr>sp_name = ''dev vs main'', sp_kind = ''gauntlet'', sp_candidate_ref = ''dev'',
     sp_baseline_ref = ''main'', sp_tc_base_ms = 10000, sp_tc_increment_ms = 100, sp_hash_mb = 16,
     sp_book_name = ''mini.epd'', sp_total_pairs = 2, sp_sprt_preset = None, sp_sprt_elo0 = None,
     sp_sprt_elo1 = None, sp_sprt_alpha = None, sp_sprt_beta = None, sp_priority = 0,
     sp_submitted_by = None\<rparr>"

lemma demo_names: "valid_book_name ''mini.epd''"
  by code_simp

lemma demo_parsed: "parse_test_spec (- (2 ^ 63)) default_presets demo_body = Inr demo_spec"
  by (simp add: parse_test_spec_def sample_tc sample_names demo_names spec_opt_string_def
      spec_req_string_def spec_opt_integer_def json_member_def guardE_def del: bindE_eq_Inr_iff)
    (simp add: demo_body_def demo_spec_def sample_tc sample_names demo_names has_sprt_bounds_def
      json_member_def int64_of_json_def wrap_int_def Let_def del: bindE_eq_Inr_iff)

definition demo_reg :: client_registration where
  "demo_reg = \<lparr>rg_name = ''box'', rg_hostname = None, rg_os = None, rg_cpu_model = None,
     rg_cpu_arch_target = None, rg_pinning_mode = ''pinned'', rg_core_topology = None,
     rg_bench_ref_commit = None, rg_fastchess_version = None, rg_nproc_total = None, rg_slots = 2\<rparr>"

definition demo_client :: client_row where
  "demo_client = insert_client_row 0 1 Pinned demo_reg"

definition demo_test :: test_row where
  "demo_test = test_row_of 0 1 Gauntlet None demo_spec ''c'' ''b''"

definition demo_fens :: "string list" where
  "demo_fens = [''4k3/8/8/8/8/8/8/4K3 w - - 0 1'', ''4k3/8/8/8/8/8/8/R3K3 b - - 0 1'']"

lemma demo_sample:
  "sample_book demo_fs ''books/mini.epd'' 2 1 = Inr demo_fens"
  by code_simp


abbreviation demo_step :: "db \<Rightarrow> db \<Rightarrow> bool" where
  "demo_step \<equiv> server_step default_config demo_fs demo_build demo_gzip"

abbreviation demo_reachable :: "db \<Rightarrow> bool" where
  "demo_reachable \<equiv> reachable default_config demo_fs demo_build demo_gzip"

definition demo_created :: db where
  "demo_created = empty_db\<lparr>db_clients := [demo_client], next_client := 2, db_tests := [demo_test],
     next_test := 2\<rparr>"

lemma demo_create_steps: "demo_step\<^sup>*\<^sup>* empty_db demo_created"
proof -
  let ?d = "empty_db\<lparr>db_clients := [demo_client], next_client := 2\<rparr>"
  have "register_client 0 demo_reg empty_db = Inr (\<lparr>rc_client_id = 1, rc_banned = False\<rparr>, ?d)"
    by (simp add: register_client_def demo_reg_def demo_client_def empty_db_def pinning_of_text_def sql_enum_def)
  then have "demo_step empty_db ?d" by (rule server_step.Register) (simp add: demo_reg_def)
  moreover have "insert_test 0 demo_spec ''c'' ''b'' ?d = Inr (1, demo_created)"
    by (simp add: insert_test_def demo_spec_def demo_created_def demo_test_def empty_db_def sprt_check_def
        test_row_of_def kind_of_text_def sql_enum_def sql_opt_def Let_def)
  then have "demo_step ?d demo_created"
    by (rule server_step.Create [of default_config demo_body, rotated])
      (simp only: default_config_def server_config.select_convs demo_parsed)
  ultimately show ?thesis by simp
qed

lemma demo_verdict:
  "\<exists>vlog. smoke_test default_config demo_fs demo_build demo_test
     = \<lparr>sm_ok = True, sm_log = vlog, sm_positions = demo_fens\<rparr>"
proof -
  have join: "path_join ''books'' ''mini.epd'' = ''books/mini.epd''"
    by code_simp
  have t: "t_book_name demo_test = ''mini.epd''" "t_total_pairs demo_test = 2" "t_id demo_test = 1"
    by (simp_all add: demo_test_def demo_spec_def test_row_of_def)
  have b: "\<exists>vlog. smoke_builds demo_build
      [(''candidate'', t_candidate_commit demo_test), (''baseline'', t_baseline_commit demo_test)] [] = (Inr True, vlog)"
    by (simp add: demo_build_def Let_def)
  have n: "length demo_fens = 2" by (simp add: demo_fens_def)
  have d: "books_dir default_config = ''books''" by (simp add: default_config_def)
  obtain vlog where v: "smoke_builds demo_build
      [(''candidate'', t_candidate_commit demo_test), (''baseline'', t_baseline_commit demo_test)] [] = (Inr True, vlog)"
    using b by blast
  show ?thesis
    unfolding smoke_test_def v t d join using demo_sample n by (simp add: del: smoke_builds.simps)
qed

text \<open>The pairs of the test, by what has happened to them.\<close>

definition demo_positions :: "position_row list" where
  "demo_positions = position_rows 1 1 demo_fens"

definition demo_pairs :: "pair_row list" where
  "demo_pairs = pair_rows 1 (\<lambda>_. 0) demo_positions"

definition demo_running :: "test_row \<Rightarrow> bool" where
  "demo_running t \<longleftrightarrow> t_id t = 1 \<and> t_status t = Running \<and> t_kind t = Gauntlet \<and>
     t_tc_base_ms t = 10000 \<and> t_tc_increment_ms t = 100"

definition demo_started :: "db \<Rightarrow> bool" where
  "demo_started db \<longleftrightarrow> (\<exists>t. db_tests db = [t] \<and> demo_running t) \<and> db_clients db = [demo_client] \<and>
     db_positions db = demo_positions \<and> db_pairs db = demo_pairs \<and> db_games db = [] \<and> next_game db = 1"

lemma demo_no_outcomes: "db_games db = [] \<Longrightarrow> test_outcomes db i = []"
  by (auto simp: test_outcomes_def pair_outcomes_def pair_outcome_rows_def valid_games_def Let_def
      split: if_splits)

lemma quiet_refresh:
  assumes "find_test db i = Some t" "t_kind t = Gauntlet" "t_status t \<noteq> Running \<or> live_pairs db i \<noteq> []"
    and "pairs_inv db" "games_inv db" "tests_core db"
  shows "\<exists>db'. refresh_test now i db = Inr db' \<and> db_tests db' = db_tests db \<and> same_work db db' \<and> db_stats db' \<noteq> []"
proof -
  have i: "t_id t = i" using find_test_Some [OF assms(1)] by blast
  obtain db' where db': "refresh_test now i db = Inr db'"
  proof (cases "refresh_test now i db")
    case (Inl e)
    from refresh_fails [OF assms(4-6) this] obtain u where "u \<in> set (db_tests db)" "t_id u = i" "t_kind u = Sprt"
      by blast
    then show ?thesis using test_unique [OF assms(6) _ conjunct1 [OF find_test_Some [OF assms(1)]]] i assms(2) by auto
  qed simp
  then obtain s where "db' = apply_decision now t Continue (store_stats now s db)"
    using assms(1,2) by (auto simp: refresh_test_def sprt_evaluate_def store_stats_def Let_def)
  then have "db' = store_stats now s db"
    using assms(3) i live_pairs_frame [of "store_stats now s db" db] by (auto simp: apply_decision_def)
  moreover have "db_stats (upsert_stats s db) \<noteq> []"
    by (cases "db_stats db") (simp_all add: upsert_stats_def update_where_def)
  ultimately show ?thesis using db' by simp
qed

lemma demo_created_inv: "db_inv demo_created"
  using demo_create_steps reachable_inv [of default_config demo_fs demo_build demo_gzip]
  by (simp add: reachable_def)

lemma demo_created_test: "db_tests demo_created = [demo_test]" "find_test demo_created 1 = Some demo_test"
  "t_status demo_test = Validating" "t_kind demo_test = Gauntlet" "t_id demo_test = 1"
  "db_positions demo_created = []" "db_pairs demo_created = []" "db_games demo_created = []"
  "next_position demo_created = 1" "next_pair demo_created = 1" "next_game demo_created = 1"
  "db_clients demo_created = [demo_client]"
  by (simp_all add: demo_created_def find_test_def demo_test_def test_row_of_def empty_db_def)

lemma demo_smoke:
  "\<exists>r db. smoke_commit 0 1 (\<lambda>_. 0) \<lparr>sm_ok = True, sm_log = vlog, sm_positions = demo_fens\<rparr> demo_created
     = Inr (r, db) \<and> demo_started db"
proof -
  define l where l: "l = vlog @ ''SMOKE TEST PASSED'' @ [newline]"
  let ?w = "with_work 1 (\<lambda>_. 0) demo_fens l demo_created"
  have w: "db_tests ?w = [queued_row l demo_test]" "db_positions ?w = demo_positions"
    "db_pairs ?w = demo_pairs" "db_games ?w = []" "next_game ?w = 1" "db_clients ?w = [demo_client]"
    by (simp_all add: with_work_def Let_def demo_created_test update_where_def demo_positions_def demo_pairs_def)
  have base: "tests_core ?w" "work_inv ?w"
    using with_work_base [OF demo_created_inv, of demo_test 1 demo_fens] demo_created_test
    by (simp_all add: demo_fens_def)
  have fw: "find_test ?w 1 = Some (queued_row l demo_test)"
    by (simp add: find_test_def w demo_created_test)
  have "t_kind (queued_row l demo_test) = Gauntlet" by (simp add: queued_row_def demo_created_test)
  from quiet_refresh [OF fw this, of 0] base obtain d where
    d: "refresh_test 0 1 ?w = Inr d" "db_tests d = [queued_row l demo_test]" "same_work ?w d"
    by (auto simp: work_inv_def w)
  have p: "promote_next_test 0 d = (Some 1, update_test 1 (set_running 0) d)"
    by (simp add: promote_next_test_def queue_order_def d(2) demo_created_test running_test_def)
  show ?thesis
  proof (intro exI conjI)
    have "insert_positions 1 demo_fens demo_created
        = Inr (demo_created\<lparr>db_positions := demo_positions, next_position := 3\<rparr>)"
      by (simp add: insert_positions_def demo_created_test guardE_def demo_positions_def demo_fens_def Let_def)
    moreover have "update_test 1 (\<lambda>t. t\<lparr>t_status := Queued, t_validation_log := Some l\<rparr>) (insert_pairs 1 (\<lambda>_. 0)
        (demo_created\<lparr>db_positions := demo_positions, next_position := 3\<rparr>)) = ?w"
      by (simp add: update_test_def insert_pairs_def with_work_def demo_created_test Let_def demo_positions_def
          demo_fens_def position_rows_def upt_rec queued_row_def [abs_def])
    ultimately show "smoke_commit 0 1 (\<lambda>_. 0) \<lparr>sm_ok = True, sm_log = vlog, sm_positions = demo_fens\<rparr> demo_created
       = Inr (Some (Some 1), update_test 1 (set_running 0) d)"
      using d(1) p demo_created_test by (simp add: smoke_commit_def l [symmetric] del: append.simps append_assoc)
    show "demo_started (update_test 1 (set_running 0) d)"
      using d(2) same_workD [OF d(3)] d(3) w demo_created_test
      by (simp add: demo_started_def demo_running_def update_where_def set_running_def queued_row_def same_work_def)
        (simp add: demo_test_def test_row_of_def demo_spec_def)
  qed
qed

lemma demo_started_run: "\<exists>db. demo_step\<^sup>*\<^sup>* demo_created db \<and> demo_started db"
proof -
  obtain vlog where v: "smoke_test default_config demo_fs demo_build demo_test
     = \<lparr>sm_ok = True, sm_log = vlog, sm_positions = demo_fens\<rparr>"
    using demo_verdict by blast
  obtain r db where db: "smoke_commit 0 1 (\<lambda>_. 0) (smoke_test default_config demo_fs demo_build demo_test)
      demo_created = Inr (r, db)" "demo_started db"
    using demo_smoke unfolding v by blast
  have "demo_step demo_created db" by (rule server_step.Smoke [OF demo_created_test(2) db(1)])
  then show ?thesis using db(2) by blast
qed

lemma demo_started_reachable: "\<exists>db. demo_reachable db \<and> demo_started db"
  using demo_started_run demo_create_steps unfolding reachable_def by (meson rtranclp_trans)

lemma demo_pair_rows:
  "demo_pairs = map (\<lambda>i. \<lparr>jp_id = i, jp_test = 1, jp_position = i, jp_status = Pending,
     jp_dispatch_order = 0, jp_leased_to = None, jp_leased_at = None, jp_lease_expires_at = None,
     jp_attempts = 0, jp_completed_at = None, jp_discarded_reason = None\<rparr>) [1, 2]"
  by (simp add: demo_pairs_def demo_positions_def position_rows_def pair_rows_def demo_fens_def upt_rec)

lemma demo_position_rows:
  "demo_positions = [\<lparr>op_id = 1, op_test = 1, op_seq = 1, op_fen = ''4k3/8/8/8/8/8/8/4K3 w - - 0 1''\<rparr>,
     \<lparr>op_id = 2, op_test = 1, op_seq = 2, op_fen = ''4k3/8/8/8/8/8/8/R3K3 b - - 0 1''\<rparr>]"
  by (simp add: demo_positions_def position_rows_def demo_fens_def upt_rec)

definition demo_leased :: "db \<Rightarrow> bool" where
  "demo_leased db \<longleftrightarrow> (\<exists>t. db_tests db = [t] \<and> demo_running t) \<and> db_clients db = [demo_client] \<and>
     db_positions db = demo_positions \<and> db_pairs db = map (lease_pair 1 10 610) demo_pairs \<and>
     db_games db = [] \<and> next_game db = 1"

lemma demo_claim:
  assumes "demo_started db"
  shows "\<exists>r db'. claim_pairs default_config (\<lambda>_. False) 10 1 2 db = Inr (r, db') \<and> demo_leased db' \<and>
     cr_status r = ClaimOk \<and> cr_pairs r \<noteq> []"
proof -
  obtain t where t: "db_tests db = [t]" "demo_running t" using assms by (auto simp: demo_started_def)
  note d = assms [unfolded demo_started_def] t
  have c: "caller db 1 = Some demo_client" "c_slots demo_client = 2" "c_cpu_factor demo_client = None"
    using d by (simp_all add: caller_def find_client_def demo_client_def insert_client_row_def demo_reg_def)
  have r: "running_test db = Some t" using t by (simp add: running_test_def demo_running_def)
  have e: "est_pair_ms t = Inr 64000"
    using t(2) by (simp add: est_pair_ms_def demo_running_def pg_int4_def in_int_range_def del: bindE_eq_Inr_iff)
  have p: "picked_pairs (\<lambda>_. False) (t_id t) 2 db = demo_pairs"
    using d by (simp add: picked_pairs_def demo_pair_rows demo_running_def)
  have l: "lease_ttl_min default_config = 600" by (simp add: default_config_def)
  show ?thesis
    using d unfolding claim_pairs_def
    by (simp add: c r e p l Let_def demo_leased_def claimed_rows_def demo_position_rows demo_pair_rows update_where_def
        del: bindE_eq_Inr_iff)
qed

definition demo_game :: "int \<Rightarrow> bool \<Rightarrow> string \<Rightarrow> game_report" where
  "demo_game i white oc = \<lparr>gr_game_in_pair = i, gr_candidate_is_white = white, gr_outcome = oc,
     gr_termination = ''normal'', gr_ply_count = Some 80, gr_duration_ms = Some 20000,
     gr_cpu_factor_at_play = 1, gr_tc_base_effective_ms = 10000, gr_tc_increment_effective_ms = 100,
     gr_slot_index = 0, gr_core_id = None, gr_pgn = ''1. e4'', gr_candidate_nodes = None,
     gr_candidate_time_ms = None, gr_baseline_nodes = None, gr_baseline_time_ms = None\<rparr>"

definition demo_report :: pair_report where
  "demo_report = \<lparr>pr_client_id = 1, pr_games = [demo_game 0 True ''candidate_win'', demo_game 1 False ''draw'']\<rparr>"

lemma demo_report_wf: "report_wf demo_report"
  by (simp add: report_wf_def demo_report_def demo_game_def)

lemma demo_report_storable: "storable demo_gzip demo_report"
  by (simp add: storable_def demo_report_def demo_game_def demo_gzip_def outcome_of_text_def
      termination_of_text_def sql_enum_def)

definition demo_played :: "db \<Rightarrow> bool" where
  "demo_played db \<longleftrightarrow> (\<exists>t. db_tests db = [t] \<and> demo_running t) \<and> db_clients db = [demo_client] \<and>
     map jp_status (db_pairs db) = [Completed, Leased] \<and> map jp_id (db_pairs db) = [1, 2] \<and>
     map g_outcome (db_games db) = [CandidateWin, Drawn] \<and> db_stats db \<noteq> []"

lemma demo_submit:
  assumes inv: "db_inv db" and "demo_leased db"
  shows "\<exists>db'. submit_result demo_gzip 20 1 demo_report db
     = Inr (\<lparr>sr_status = Accepted, sr_valid_games = 2\<rparr>, db') \<and> demo_played db'"
proof -
  obtain t where t: "db_tests db = [t]" "demo_running t" using assms(2) by (auto simp: demo_leased_def)
  note d = assms(2) [unfolded demo_leased_def]
  let ?p = "hd (db_pairs db)"
  have pairs: "map jp_id (db_pairs db) = [1, 2]" "map jp_status (db_pairs db) = [Leased, Leased]"
    "\<forall>q \<in> set (db_pairs db). jp_test q = 1 \<and> jp_leased_to q = Some 1"
    using d by (simp_all add: demo_pair_rows lease_pair_def)
  have p: "?p \<in> set (db_pairs db)" "jp_id ?p = 1" "jp_status ?p = Leased" "jp_leased_to ?p = Some 1" "jp_test ?p = 1"
    using pairs by auto
  have cl: "demo_client \<in> set (db_clients db)" "c_id demo_client = 1" "c_status demo_client \<noteq> Banned"
    using d by (simp_all add: demo_client_def insert_client_row_def)
  have pc: "pr_client_id demo_report = 1" by (simp add: demo_report_def)
  have open': "open_lease db 1 (pr_client_id demo_report)"
    unfolding open_lease_def pc using p cl t by (auto simp: demo_running_def)
  have valid: "count_valid (check_pair demo_report) = 2"
    by code_simp
  from submit_decided [OF inv demo_report_wf demo_report_storable open', of 20] obtain db' where
    sub: "submit_result demo_gzip 20 1 demo_report db = Inr (\<lparr>sr_status = Accepted, sr_valid_games = 2\<rparr>, db')"
    using t valid by (auto simp: demo_running_def)
  show ?thesis
    using sub demo_report_wf
  proof (cases rule: submit_cases)
    case (2 q u r0 r1 gz)
    let ?w = "with_result 20 1 (r0, r1) gz db"
    have q: "q = ?p" using pairs_unique [OF db_invD(6) [OF inv] 2(1) p(1)] 2(2) p(2) by simp
    note base = with_result_base [OF inv demo_report_wf 2(1-4,8,9), where now = 20 and gz = gz]
    have fw: "find_test ?w 1 = Some t" using t by (simp add: find_test_def demo_running_def)
    have ids: "map jp_id (db_pairs ?w) = [1, 2]" "map jp_status (db_pairs ?w) = [Completed, Leased]"
      "\<forall>q \<in> set (db_pairs ?w). jp_test q = 1"
      using pairs d by (auto simp: update_where_def demo_pair_rows lease_pair_def completed_row_def)
    then have "live_pairs ?w 1 \<noteq> []"
      by (cases "db_pairs ?w" rule: remdups_adj.cases) (auto simp: live_pairs_def)
    then obtain d' where d': "refresh_test 20 1 ?w = Inr d'" "db_tests d' = db_tests ?w" "same_work ?w d'"
      "db_stats d' \<noteq> []"
      using quiet_refresh [OF fw, of 20] base(1,3) t(2) by (auto simp: work_inv_def demo_running_def)
    have eq: "d' = db'" using d'(1) 2(10) p(5) unfolding q by simp
    have g: "gr_outcome (pr_games demo_report ! 0) = ''candidate_win''" "gr_outcome (pr_games demo_report ! 1) = ''draw''"
      by (simp_all add: demo_report_def demo_game_def)
    have oc: "g_outcome r0 = CandidateWin" "g_outcome r1 = Drawn"
      using 2(8,9) unfolding row_for_def g by (simp_all add: outcome_of_text_def sql_enum_def)
    have "db_tests db' = [t]" "db_clients db' = [demo_client]" "db_games db' = [r0, r1]"
      "map jp_status (db_pairs db') = [Completed, Leased]" "map jp_id (db_pairs db') = [1, 2]"
      using d'(2) same_workD [OF d'(3)] ids(1,2) d t(1) unfolding eq by simp_all
    then have "demo_played db'" using t(2) oc d'(4) eq by (simp add: demo_played_def)
    then show ?thesis using sub by blast
  qed simp
qed

text \<open>The databases of the run, as far as the properties need them.\<close>

lemma demo_run:
  obtains d0 d1 d2 where "demo_reachable d0" "demo_started d0"
    "demo_step d0 d1" "demo_reachable d1" "demo_leased d1"
    "demo_step d1 d2" "demo_reachable d2" "demo_played d2"
    "submit_result demo_gzip 20 1 demo_report d1 = Inr (\<lparr>sr_status = Accepted, sr_valid_games = 2\<rparr>, d2)"
proof -
  obtain d0 where d0: "demo_reachable d0" "demo_started d0" using demo_started_reachable by blast
  obtain r d1 where d1: "claim_pairs default_config (\<lambda>_. False) 10 1 2 d0 = Inr (r, d1)" "demo_leased d1"
    using demo_claim [OF d0(2)] by blast
  have s1: "demo_step d0 d1" by (rule server_step.Claim [OF d1(1)])
  then have r1: "demo_reachable d1" using d0(1) run_reachable by blast
  obtain d2 where d2: "submit_result demo_gzip 20 1 demo_report d1
     = Inr (\<lparr>sr_status = Accepted, sr_valid_games = 2\<rparr>, d2)" "demo_played d2"
    using demo_submit [OF reachable_inv [OF r1] d1(2)] by blast
  have s2: "demo_step d1 d2" by (rule server_step.Submit [OF demo_report_wf d2(1)])
  then have "demo_reachable d2" using r1 run_reachable by blast
  then show thesis using that d0 d1(2) s1 r1 s2 d2 by blast
qed

end
