(* ===== verification/Promises.thy ===== *)
theory Promises
  imports Scenario
begin

text \<open>
  The properties of the server as a whole, over every database its transactions can produce
  and over every run between two of them.
\<close>

section \<open>Every database\<close>

definition queue_rules :: "db \<Rightarrow> bool" where
  "queue_rules db \<longleftrightarrow>
     (\<forall>t \<in> set (db_tests db). \<forall>u \<in> set (db_tests db).
        t_status t = Running \<longrightarrow> t_status u = Running \<longrightarrow> t = u) \<and>
     (\<forall>t \<in> set (db_tests db). t_status t = Queued \<longrightarrow>
        (\<exists>u \<in> set (db_tests db). t_status u = Running) \<and>
        (\<forall>p \<in> set (db_pairs db). jp_test p = t_id t \<longrightarrow> jp_status p = Pending)) \<and>
     (\<forall>t \<in> set (db_tests db). t_status t = Running \<longrightarrow>
        (\<exists>p \<in> set (db_pairs db). jp_test p = t_id t \<and> (jp_status p = Pending \<or> jp_status p = Leased)))"

text \<open>The two games a completed pair has, as their key, test and client.\<close>

definition record_rules :: "db \<Rightarrow> bool" where
  "record_rules db \<longleftrightarrow> (\<forall>p \<in> set (db_pairs db).
     map (\<lambda>g. (g_game_in_pair g, g_test g, Some (g_client g))) (filter (\<lambda>g. g_pair g = jp_id p) (db_games db))
       = (if jp_status p = Completed then [(0, jp_test p, jp_leased_to p), (1, jp_test p, jp_leased_to p)] else []))"

definition score_rules :: "db \<Rightarrow> stats_row \<Rightarrow> bool" where
  "score_rules db s \<longleftrightarrow>
     st_pairs_valid s = int (length (test_outcomes db (st_test s))) \<and>
     st_games_wins s + st_games_draws s + st_games_losses s = 2 * st_pairs_valid s \<and>
     2 * st_games_wins s + st_games_draws s
       = st_penta_ld s + 2 * st_penta_dd_wl s + 3 * st_penta_wd s + 4 * st_penta_ww s"

text \<open>The three follow from the invariant alone.\<close>

lemma queue_rules_inv:
  assumes "db_inv db"
  shows "queue_rules db"
proof -
  note inv = db_invD [OF assms]
  have "t = u" if "t \<in> set (db_tests db)" "u \<in> set (db_tests db)" "t_status t = Running" "t_status u = Running" for t u
    by (rule test_unique [OF inv(2) that(1,2) tests_coreD(4) [OF inv(2) that]])
  moreover have "\<exists>u \<in> set (db_tests db). t_status u = Running"
    if "t \<in> set (db_tests db)" "t_status t = Queued" for t
    using inv(3) that by (auto simp: queue_served_def running_test_None)
  moreover have "\<exists>p \<in> set (db_pairs db). jp_test p = t_id t \<and> (jp_status p = Pending \<or> jp_status p = Leased)"
    if "t \<in> set (db_tests db)" "t_status t = Running" for t
    using inv(8) that by (auto simp: live_inv_def live_pairs_def filter_empty_conv)
  ultimately show ?thesis using queued_pairs_pending [OF inv(8)] unfolding queue_rules_def by blast
qed

lemma record_rules_inv:
  assumes "db_inv db"
  shows "record_rules db"
  unfolding record_rules_def
proof
  note inv = db_invD [OF assms]
  fix p assume p: "p \<in> set (db_pairs db)"
  let ?gs = "filter (\<lambda>g. g_pair g = jp_id p) (db_games db)"
  have keys: "map g_game_in_pair ?gs = (if jp_status p = Completed then [0, 1] else [])"
    using inv(7) p by (simp add: games_inv_def pair_games_def)
  have "g_test g = jp_test p \<and> Some (g_client g) = jp_leased_to p" if "g \<in> set ?gs" for g
  proof -
    obtain q where "q \<in> set (db_pairs db)" "jp_id q = g_pair g" "jp_test q = g_test g" "jp_leased_to q = Some (g_client g)"
      using inv(7) \<open>g \<in> set ?gs\<close> by (auto simp: games_inv_def)
    moreover have "g_pair g = jp_id p" using \<open>g \<in> set ?gs\<close> by simp
    ultimately show ?thesis using pairs_unique [OF inv(6) _ p] by metis
  qed
  then have "map (\<lambda>g. (g_game_in_pair g, g_test g, Some (g_client g))) ?gs
      = map (\<lambda>i. (i, jp_test p, jp_leased_to p)) (map g_game_in_pair ?gs)"
    by simp
  then show "map (\<lambda>g. (g_game_in_pair g, g_test g, Some (g_client g))) ?gs
       = (if jp_status p = Completed then [(0, jp_test p, jp_leased_to p), (1, jp_test p, jp_leased_to p)] else [])"
    unfolding keys by simp
qed

lemma score_rules_inv:
  assumes "db_inv db" and "s \<in> set (db_stats db)"
  shows "score_rules db s"
proof -
  note inv = db_invD [OF assms(1)]
  have "stats_current db s" using inv(9) assms(2) by (simp add: stats_inv_def)
  from score_table_agrees [OF inv(6,7) this] show ?thesis by (simp add: score_rules_def)
qed

text \<open>
  C1: in every reachable database at most one test is running, a test waits in the queue only
  while another is running and with all its pairs pending, and a running test has a pair that
  is pending or leased: it never runs on without work.
\<close>

theorem one_test_at_a_time:
  assumes "reachable cfg fs build gzip db"
  shows "queue_rules db"
  by (rule queue_rules_inv [OF reachable_inv [OF assms]])

theorem one_test_at_a_time_witness:
  "\<exists>db. demo_reachable db \<and> demo_played db \<and> queue_rules db"
  by (rule demo_run) (use one_test_at_a_time in blast)

text \<open>
  In every reachable database a completed pair has exactly two games, the first and the
  second, of its test and of the client that held the lease, and no other pair has a game: a
  pair counts whole or not at all.
\<close>

theorem pairs_whole_or_not_at_all:
  assumes "reachable cfg fs build gzip db"
  shows "record_rules db"
  by (rule record_rules_inv [OF reachable_inv [OF assms]])

theorem pairs_whole_or_not_at_all_witness:
  "\<exists>db. demo_reachable db \<and> demo_played db \<and> record_rules db"
  by (rule demo_run) (use pairs_whole_or_not_at_all in blast)

text \<open>
  In every reachable database the statistics of a test agree with its games: the number of
  valid pairs is the number of rows of the view, the score counts two games per valid pair,
  and points from the score and from the five frequencies are the same.
\<close>

theorem statistics_agree:
  assumes "reachable cfg fs build gzip db" and "s \<in> set (db_stats db)"
  shows "score_rules db s"
  by (rule score_rules_inv [OF reachable_inv [OF assms(1)] assms(2)])

theorem statistics_agree_witness:
  "\<exists>db s. demo_reachable db \<and> demo_played db \<and> s \<in> set (db_stats db) \<and> score_rules db s"
proof -
  obtain db where db: "demo_reachable db" "demo_played db" by (rule demo_run)
  then obtain s where s: "s \<in> set (db_stats db)" by (cases "db_stats db") (auto simp: demo_played_def)
  show ?thesis using db s statistics_agree [OF db(1) s] by blast
qed

section \<open>Life cycles\<close>

text \<open>
  C9: every pair of a reachable database runs through the machine \<open>job_edge\<close> (lease,
  release, completion, discard) as long as the server runs; it is never lost, its attempts never
  decrease, and a completed or discarded pair keeps status, holder and attempts for ever.
\<close>

theorem pair_lifecycle:
  assumes "reachable cfg fs build gzip db" and "server_run cfg fs build gzip db db'"
    and "p \<in> set (db_pairs db)"
  shows "\<exists>q \<in> set (db_pairs db'). jp_id q = jp_id p \<and> job_edge\<^sup>*\<^sup>* (view_of p) (view_of q) \<and>
     jp_attempts p \<le> jp_attempts q \<and>
     (jp_status p = Completed \<or> jp_status p = Discarded \<longrightarrow> view_of q = view_of p)"
proof -
  have inv: "db_inv db" "db_inv db'"
    using assms(1,2) reachable_inv run_reachable by blast+
  have v: "job_view db (jp_id p) = Some (view_of p)"
    using assms(3) job_view_row [OF db_invD(6) [OF inv(1)]] by blast
  obtain w where w: "job_view db' (jp_id p) = Some w" "job_edge\<^sup>*\<^sup>* (view_of p) w"
    using job_life.run_moves [OF assms(2) inv(1) v] by blast
  obtain q where q: "q \<in> set (db_pairs db')" "jp_id q = jp_id p" "view_of q = w"
    using w(1) job_view_row [OF db_invD(6) [OF inv(2)]] by blast
  have "snd (snd (view_of p)) \<le> snd (snd w)"
    by (rule job_life.run_measure [OF assms(2) inv(1) v w(1) job_edge_attempts])
  then have att: "jp_attempts p \<le> jp_attempts q" using q(3) by (auto simp: view_of_def)
  have "view_of q = view_of p" if "jp_status p = Completed \<or> jp_status p = Discarded"
  proof -
    have "\<not> job_edge (view_of p) u" for u using that by (auto simp: view_of_def job_final)
    from job_life.final_frozen [OF assms(2) inv(1) v this] show ?thesis using w(1) q(3) by simp
  qed
  then show ?thesis using q w(2) att by blast
qed

theorem pair_lifecycle_witness:
  "\<exists>db db' p q. demo_reachable db \<and> demo_step\<^sup>*\<^sup>* db db' \<and> p \<in> set (db_pairs db) \<and> jp_status p = Leased \<and>
     q \<in> set (db_pairs db') \<and> jp_id q = jp_id p \<and> job_edge\<^sup>*\<^sup>* (view_of p) (view_of q)"
proof -
  obtain d1 d2 where d: "demo_reachable d1" "demo_leased d1" "demo_step d1 d2" by (rule demo_run)
  let ?p = "hd (db_pairs d1)"
  have p: "?p \<in> set (db_pairs d1)" "jp_status ?p = Leased"
    using d(2) by (simp_all add: demo_leased_def demo_pair_rows lease_pair_def)
  have run: "demo_step\<^sup>*\<^sup>* d1 d2" using d(3) by blast
  show ?thesis using pair_lifecycle [OF d(1) run p(1)] d(1) run p by blast
qed

text \<open>
  C10: every test of a reachable database runs through the machine \<open>test_edge\<close> (validating,
  queued, running, finished; invalid; stopped) and never goes back; the parameters it was
  created with, commits, time control, bounds and book among them, never change, and a finished,
  stopped or invalid test keeps its status and result for ever.
\<close>

theorem test_lifecycle:
  assumes "reachable cfg fs build gzip db" and "server_run cfg fs build gzip db db'"
    and "t \<in> set (db_tests db)"
  shows "\<exists>u \<in> set (db_tests db'). t_id u = t_id t \<and> frozen u = frozen t \<and>
     test_edge\<^sup>*\<^sup>* (status_of t) (status_of u) \<and> test_rank (t_status t) \<le> test_rank (t_status u) \<and>
     (test_rank (t_status t) = 3 \<longrightarrow> t_status u = t_status t \<and> t_result u = t_result t)"
proof -
  have inv: "db_inv db" "db_inv db'"
    using assms(1,2) reachable_inv run_reachable by blast+
  have v: "test_view db (t_id t) = Some (status_of t)"
    using assms(3) test_view_row [OF db_invD(2) [OF inv(1)]] by blast
  obtain w where w: "test_view db' (t_id t) = Some w" "test_edge\<^sup>*\<^sup>* (status_of t) w"
    using test_life.run_moves [OF assms(2) inv(1) v] by blast
  obtain u where u: "u \<in> set (db_tests db')" "t_id u = t_id t" "status_of u = w"
    using w(1) test_view_row [OF db_invD(2) [OF inv(2)]] by blast
  have "test_rank (fst (status_of t)) \<le> test_rank (fst w)"
    by (rule test_life.run_measure [OF assms(2) inv(1) v w(1) test_edge_rank])
  then have rank: "test_rank (t_status t) \<le> test_rank (t_status u)" using u(3) by (auto simp: status_of_def)
  have "status_of u = status_of t" if "test_rank (t_status t) = 3"
  proof -
    have "\<not> test_edge (status_of t) x" for x
      using that by (cases "t_status t") (auto simp: status_of_def test_final)
    from test_life.final_frozen [OF assms(2) inv(1) v this] show ?thesis using w(1) u(3) by simp
  qed
  moreover have "frozen u = frozen t"
    using test_edge_params [OF w(2)] u(3) by (auto simp: status_of_def)
  ultimately show ?thesis using u w(2) rank by (auto simp: status_of_def)
qed

theorem test_lifecycle_witness:
  "\<exists>db' u. demo_step\<^sup>*\<^sup>* demo_created db' \<and> u \<in> set (db_tests db') \<and> t_id u = t_id demo_test \<and>
     frozen u = frozen demo_test \<and> t_status u = Running \<and> test_edge\<^sup>*\<^sup>* (status_of demo_test) (status_of u)"
proof -
  obtain db where db: "demo_step\<^sup>*\<^sup>* demo_created db" "demo_started db" using demo_started_run by blast
  have c: "demo_reachable demo_created" "demo_test \<in> set (db_tests demo_created)"
    using demo_create_steps demo_created_test by (simp_all add: reachable_def)
  from test_lifecycle [OF c(1) db(1) c(2)] show ?thesis
    using db by (auto simp: demo_started_def demo_running_def)
qed

section \<open>Results\<close>

text \<open>
  C4: a submission that reaches the database with texts that are labels and a PGN that can be
  compressed is accepted exactly on an open lease: the pair leased to this client, the client
  not banned, the test running. Otherwise it is refused and changes nothing. The one thing that
  can stop an acceptable result is the likelihood ratio of an SPRT test.
\<close>

theorem submission_decided:
  assumes "reachable cfg fs build gzip db" and "report_wf report" and "storable gzip report"
  shows "case submit_result gzip now pair report db of
      Inr (r, db') \<Rightarrow> (sr_status r = Accepted \<longleftrightarrow> open_lease db pair (pr_client_id report)) \<and>
        (sr_status r \<noteq> Accepted \<longrightarrow> db' = db)
    | Inl e \<Rightarrow> open_lease db pair (pr_client_id report) \<and>
        (\<exists>t \<in> set (db_tests db). \<exists>penta. t_kind t = Sprt \<and> t_status t = Running \<and> penta_pairs penta \<noteq> 0 \<and>
           llr_normalized (the (t_sprt_elo0 t)) (the (t_sprt_elo1 t)) penta = Inl e)"
proof -
  note inv = reachable_inv [OF assms(1)]
  show ?thesis
  proof (cases "open_lease db pair (pr_client_id report)")
    case True
    then show ?thesis using submit_decided [OF inv assms(2,3) True, of now] by (elim disjE exE conjE) auto
  next
    case False
    then show ?thesis using submit_closed [OF inv False, of gzip now] by (auto simp: submit_status_only_def)
  qed
qed

theorem submission_decided_witness:
  "\<exists>db. demo_reachable db \<and> open_lease db 1 1 \<and>
     (case submit_result demo_gzip 20 1 demo_report db of
        Inr (r, db') \<Rightarrow> sr_status r = Accepted | Inl e \<Rightarrow> False)"
proof -
  obtain d1 d2 where d: "demo_reachable d1" "demo_leased d1"
    "submit_result demo_gzip 20 1 demo_report d1 = Inr (\<lparr>sr_status = Accepted, sr_valid_games = 2\<rparr>, d2)"
    by (rule demo_run)
  have c: "pr_client_id demo_report = 1" by (simp add: demo_report_def)
  from submission_decided [OF d(1) demo_report_wf demo_report_storable, where now = 20 and pair = 1] show ?thesis using d c by auto
qed

text \<open>
  C3: a pair is scored once. After its result has been accepted, at whatever later time and from
  whatever client a submission for the pair arrives, it is refused and changes nothing; to the
  client that played it the answer is that the pair is completed already, unless the client has
  been banned.
\<close>

theorem accepted_once:
  assumes "reachable cfg fs build gzip db" and "report_wf report"
    and "submit_result gzip now pair report db = Inr (r, d)" and "sr_status r = Accepted"
    and "server_run cfg fs build gzip d db'"
  shows "\<exists>s. submit_result gzip now' pair report' db' = Inr (submit_status_only s, db') \<and> s \<noteq> Accepted \<and>
    (pr_client_id report' = pr_client_id report \<longrightarrow> s = AlreadyCompleted \<or> s = ClientBanned)"
proof -
  note inv = reachable_inv [OF assms(1)]
  have dinv: "db_inv d" by (rule submit_result_inv [OF inv assms(3,2)])
  note inv' = run_inv [OF dinv assms(5)]
  obtain p c where p: "p \<in> set (db_pairs d)" "jp_id p = pair" "jp_status p = Completed"
    "jp_leased_to p = Some (pr_client_id report)" and c: "c \<in> set (db_clients db)" "c_id c = pr_client_id report"
    by (rule accepted_completes [OF inv assms(3,2,4)])
  obtain q where q: "q \<in> set (db_pairs db')" "jp_id q = pair" "jp_status q = Completed"
    "jp_leased_to q = Some (pr_client_id report)"
    using completed_stays [OF dinv assms(5) p(1,3)] p(2,4) by metis
  have fq: "find_pair db' pair = Some q" using find_pair_iff [OF db_invD(6) [OF inv']] q by blast
  have closed: "\<not> open_lease db' pair (pr_client_id report')"
  proof
    assume "open_lease db' pair (pr_client_id report')"
    then obtain x where x: "x \<in> set (db_pairs db')" "jp_id x = pair" "jp_status x = Leased"
      unfolding open_lease_def by blast
    then have "x = q" using pairs_unique [OF db_invD(6) [OF inv'] x(1) q(1)] q(2) by simp
    then show False using x(3) q(3) by simp
  qed
  then show ?thesis
  proof (cases "pr_client_id report' = pr_client_id report")
    case False
    then show ?thesis using submit_closed [OF inv' closed, of gzip now'] by blast
  next
    case True
    have "server_run cfg fs build gzip db db'"
      using server_step.Submit [OF assms(2,3)] assms(5) by (rule converse_rtranclp_into_rtranclp)
    then obtain c' where "c' \<in> set (db_clients db')" "c_id c' = pr_client_id report"
      using client_stays [OF inv _ c(1)] c(2) by metis
    then have "find_client db' (pr_client_id report) = Some c'"
      using find_client_iff [OF db_invD(4) [OF inv']] by blast
    moreover have "find_test db' (jp_test q) \<noteq> None" by (rule test_of_pair [OF inv' q(1)])
    ultimately show ?thesis using True fq q(3,4)
      by (auto simp: submit_result_def Let_def)
  qed
qed

theorem accepted_once_witness:
  "\<exists>db r d. demo_reachable db \<and> submit_result demo_gzip 20 1 demo_report db = Inr (r, d) \<and>
     sr_status r = Accepted \<and>
     (\<exists>s. submit_result demo_gzip 30 1 demo_report d = Inr (submit_status_only s, d) \<and>
        (s = AlreadyCompleted \<or> s = ClientBanned))"
proof -
  obtain d1 d2 where d: "demo_reachable d1"
    "submit_result demo_gzip 20 1 demo_report d1 = Inr (\<lparr>sr_status = Accepted, sr_valid_games = 2\<rparr>, d2)"
    by (rule demo_run)
  have acc: "sr_status \<lparr>sr_status = Accepted, sr_valid_games = 2\<rparr> = Accepted" by simp
  from accepted_once [OF d(1) demo_report_wf d(2) acc rtranclp.rtrancl_refl, of 30 demo_report] d acc
  show ?thesis by blast
qed

section \<open>Claims\<close>

text \<open>
  What a claim by client \<open>c\<close> of a running test hands out: as many of the claimable pairs as
  the free slots reported and the slots registered allow, those first in dispatch order, each
  once, with the opening of its position; they become leased to the client until a time past the
  minimal lease, with one attempt more, and nothing else changes.
\<close>

definition handout :: "server_config \<Rightarrow> (int \<Rightarrow> bool) \<Rightarrow> real \<Rightarrow> int \<Rightarrow> test_row \<Rightarrow> client_row \<Rightarrow>
    db \<Rightarrow> claim_result \<Rightarrow> db \<Rightarrow> bool" where
  "handout cfg locked now slots_free t c db r db' \<longleftrightarrow>
     (let ids = map cp_pair_id (cr_pairs r); ps = filter (\<lambda>p. jp_id p \<in> set ids) (db_pairs db) in
      cr_status r = ClaimOk \<and> cr_test_id r = t_id t \<and> distinct ids \<and>
      int (length ids) = min (min slots_free (c_slots c))
        (int (length (filter (claimable locked db (t_id t)) (db_pairs db)))) \<and>
      list_all (claimable locked db (t_id t)) ps \<and> length ps = length ids \<and>
      (\<forall>q \<in> set (db_pairs db). claimable locked db (t_id t) q \<longrightarrow> jp_id q \<notin> set ids \<longrightarrow>
         (\<forall>p \<in> set ps. jp_dispatch_order p \<le> jp_dispatch_order q)) \<and>
      (\<forall>x \<in> set (cr_pairs r). \<exists>p \<in> set ps. \<exists>op \<in> set (db_positions db). cp_pair_id x = jp_id p \<and>
         op_id op = jp_position p \<and> op_test op = t_id t \<and> cp_fen x = op_fen op) \<and>
      (\<exists>expires. now + of_int (lease_ttl_min cfg) \<le> expires \<and>
         (\<forall>x \<in> set (cr_pairs r). cp_lease_expires_at x = expires) \<and>
         db' = db\<lparr>db_pairs := map (\<lambda>p. if jp_id p \<in> set ids then lease_pair (c_id c) now expires p else p)
           (db_pairs db)\<rparr>))"

lemma claim_nothing_pairs: "cr_pairs (claim_nothing client db) = []"
  by (simp add: claim_nothing_def Let_def split: option.splits)

lemma claim_handout:
  assumes inv: "db_inv db"
    and run: "running_test db = Some t" and call: "caller db client = Some c" and "est_pair_ms t = Inr est"
    and lim: "0 \<le> min (max slots_free 0) (c_slots c)"
    and exp: "expires = now + max (of_int (lease_ttl_min cfg))
          (6 * est * (case c_cpu_factor c of None \<Rightarrow> 1 | Some f \<Rightarrow> f) / 1000)"
    and db': "db' = update_pairs
         (\<lambda>p. jp_id p \<in> set (map jp_id (picked_pairs locked (t_id t) (min (max slots_free 0) (c_slots c)) db)))
         (lease_pair client now expires) db"
    and r: "r = (let rows = claimed_rows db expires (picked_pairs locked (t_id t) (min (max slots_free 0) (c_slots c)) db)
            in if rows \<noteq> [] then \<lparr>cr_status = ClaimOk, cr_test_id = t_id t, cr_pairs = rows\<rparr>
               else claim_nothing client db')"
  shows "if cr_pairs r = [] then db' = db \<and> r = claim_nothing client db
     else \<exists>t c. running_test db = Some t \<and> caller db client = Some c \<and>
       handout cfg locked now slots_free t c db r db'"
proof -
  let ?l = "min (max slots_free 0) (c_slots c)"
  let ?ps = "picked_pairs locked (t_id t) ?l db"
  let ?rows = "claimed_rows db expires ?ps"
  note pinv = db_invD(6) [OF inv] and opinv = db_invD(5) [OF inv]
  have sub: "set ?ps \<subseteq> set (db_pairs db)" using picked_pairs_facts by blast
  have ids: "map cp_pair_id ?rows = map jp_id (sort_key jp_id ?ps)"
    by (rule claimed_rows_ids [OF pinv opinv sub])
  then have idset: "set (map cp_pair_id ?rows) = set (map jp_id ?ps)" by simp
  have len: "length ?rows = length ?ps" using arg_cong [OF ids, of length] by simp
  show ?thesis
  proof (cases "?rows = []")
    case True
    then have "?ps = []" using len by simp
    then have "db' = db" unfolding db' by (simp add: update_pairs_def update_where_none)
    then show ?thesis using True r by (simp add: claim_nothing_pairs)
  next
    case False
    have cid: "c_id c = client"
      using call find_client_Some by (auto simp: caller_def split: option.splits if_splits)
    have r': "r = \<lparr>cr_status = ClaimOk, cr_test_id = t_id t, cr_pairs = ?rows\<rparr>" using r False by simp
    have mem: "p \<in> set ?ps" if "p \<in> set (db_pairs db)" "jp_id p \<in> set (map jp_id ?ps)" for p
      by (rule picked_iff [OF pinv that])
    let ?f = "filter (\<lambda>p. jp_id p \<in> set (map jp_id ?ps)) (db_pairs db)"
    have fset: "set ?f = set ?ps" using mem sub by auto
    have fdist: "distinct (map jp_id ?f)" using pinv by (simp add: pairs_inv_def filter_map_distinct)
    note picked = picked_pairs_set [OF pinv, where locked = locked and test = "t_id t" and limit = ?l]
    have flen: "length ?f = length ?rows"
      using fset fdist picked(1) len by (metis distinct_card distinct_map)
    have "?ps \<noteq> []" using False len by auto
    then have pos: "0 < slots_free" using picked(2) lim by (cases "0 < slots_free") auto
    have "handout cfg locked now slots_free t c db r db'"
      unfolding handout_def Let_def r' claim_result.select_convs
      unfolding idset
    proof (intro conjI)
      show "distinct (map cp_pair_id ?rows)" unfolding ids using picked(1) by (metis distinct_map distinct_sort set_sort)
      show "int (length (map cp_pair_id ?rows)) = min (min slots_free (c_slots c))
          (int (length (filter (claimable locked db (t_id t)) (db_pairs db))))"
      proof -
        have "int (min (nat ?l) n) = min ?l (int n)" for n using lim by (simp only: of_nat_min nat_0_le)
        moreover have "max slots_free 0 = slots_free" using pos by simp
        ultimately show ?thesis using len picked(2) by (simp only: length_map)
      qed
      show "list_all (claimable locked db (t_id t)) ?f"
        unfolding list_all_iff fset claimable_def using picked_pairs_facts by blast
      show "length ?f = length (map cp_pair_id ?rows)" using flen by simp
      show "\<forall>q \<in> set (db_pairs db). claimable locked db (t_id t) q \<longrightarrow> jp_id q \<notin> set (map jp_id ?ps) \<longrightarrow>
         (\<forall>p \<in> set ?f. jp_dispatch_order p \<le> jp_dispatch_order q)"
        unfolding fset using picked(3) by auto
      show "\<forall>x \<in> set ?rows. \<exists>p \<in> set ?f. \<exists>op \<in> set (db_positions db). cp_pair_id x = jp_id p \<and>
         op_id op = jp_position p \<and> op_test op = t_id t \<and> cp_fen x = op_fen op"
        unfolding fset
      proof
        fix x assume "x \<in> set ?rows"
        then obtain p op where x: "p \<in> set ?ps" "op \<in> set (db_positions db)" "cp_pair_id x = jp_id p"
          "op_id op = jp_position p" "cp_fen x = op_fen op" using claimed_rows_facts by blast
        have "op_test op = t_id t"
          using position_of_pair [OF pinv opinv, of p] x sub picked_pairs_facts [OF x(1)] opinv
          by (metis distinct_map_unique positions_inv_def)
        then show "\<exists>p \<in> set ?ps. \<exists>op \<in> set (db_positions db). cp_pair_id x = jp_id p \<and>
         op_id op = jp_position p \<and> op_test op = t_id t \<and> cp_fen x = op_fen op" using x by blast
      qed
      show "\<exists>expires. now + of_int (lease_ttl_min cfg) \<le> expires \<and>
         (\<forall>x \<in> set ?rows. cp_lease_expires_at x = expires) \<and>
         db' = db\<lparr>db_pairs := map (\<lambda>p. if jp_id p \<in> set (map jp_id ?ps) then lease_pair (c_id c) now expires p else p)
           (db_pairs db)\<rparr>"
        using claimed_rows_facts by (intro exI [of _ expires]) (auto simp: exp db' cid update_pairs_def update_where_def)
    qed (simp_all add: r')
    then show ?thesis using run call False r' by auto
  qed
qed

text \<open>
  C8: a claim on a reachable database never fails. Either it hands out pairs of the running test
  to a known client that is not banned, as \<open>handout\<close> says, or it hands out nothing,
  changes nothing and says why.
\<close>

theorem claim_hands_out:
  assumes "reachable cfg fs build gzip db"
  shows "\<exists>r db'. claim_pairs cfg locked now client slots_free db = Inr (r, db') \<and>
    (if cr_pairs r = [] then db' = db \<and> r = claim_nothing client db
     else \<exists>t c. running_test db = Some t \<and> caller db client = Some c \<and>
       handout cfg locked now slots_free t c db r db')"
proof -
  note inv = reachable_inv [OF assms]
  obtain r db' where claim: "claim_pairs cfg locked now client slots_free db = Inr (r, db')"
    using claim_total [OF inv] by blast
  have "if cr_pairs r = [] then db' = db \<and> r = claim_nothing client db
     else \<exists>t c. running_test db = Some t \<and> caller db client = Some c \<and>
       handout cfg locked now slots_free t c db r db'"
    using claim
  proof (cases rule: claim_cases)
    case 1
    then show ?thesis by (simp add: claim_nothing_pairs)
  next
    case (2 t c est expires)
    then show ?thesis using claim_handout [OF inv 2] by blast
  qed
  then show ?thesis using claim by blast
qed

theorem claim_hands_out_witness:
  "\<exists>db r db'. demo_reachable db \<and> demo_started db \<and>
     claim_pairs default_config (\<lambda>_. False) 10 1 2 db = Inr (r, db') \<and> cr_pairs r \<noteq> [] \<and>
     (\<exists>t c. handout default_config (\<lambda>_. False) 10 2 t c db r db')"
proof -
  obtain d0 where d: "demo_reachable d0" "demo_started d0" by (rule demo_run)
  obtain r d1 where c: "claim_pairs default_config (\<lambda>_. False) 10 1 2 d0 = Inr (r, d1)" "cr_pairs r \<noteq> []"
    using demo_claim [OF d(2)] by blast
  from claim_hands_out [OF d(1), of "\<lambda>_. False" 10 1 2] c
  have "\<exists>t c. handout default_config (\<lambda>_. False) 10 2 t c d0 r d1" by auto
  then show ?thesis using d c by blast
qed

section \<open>Bans\<close>

text \<open>
  A ban is final for the code. From any database that satisfies the invariant, whatever
  sets the status, a banned client stays banned along every run under the same name: its claims
  hand out nothing, its submissions are refused, a registration under its name answers that it
  is banned, and none of the first two changes anything.
\<close>

theorem ban_is_final:
  assumes "db_inv db" and "c \<in> set (db_clients db)" and "c_status c = Banned"
    and "server_run cfg fs build gzip db db'"
  shows "claim_pairs cfg locked now (c_id c) slots_free db'
      = Inr (\<lparr>cr_status = ClaimBanned, cr_test_id = 0, cr_pairs = []\<rparr>, db') \<and>
    (pr_client_id report = c_id c \<longrightarrow>
      (\<exists>s \<in> {ClientBanned, PairNotFound}. submit_result gzip now pair report db' = Inr (submit_status_only s, db'))) \<and>
    (rg_name reg = c_name c \<longrightarrow> register_client now reg db' = Inr (rc, d) \<longrightarrow>
      rc = \<lparr>rc_client_id = c_id c, rc_banned = True\<rparr>)"
proof (intro conjI impI)
  note inv = run_inv [OF assms(1,4)]
  obtain e where e: "e \<in> set (db_clients db')" "c_id e = c_id c" "c_name e = c_name c" "c_status e = Banned"
    using client_stays [OF assms(1,4,2)] assms(3) by metis
  have f: "find_client db' (c_id c) = Some e"
    using find_client_iff [OF db_invD(4) [OF inv]] e by blast
  then have "caller db' (c_id c) = None" using e(4) by (simp add: caller_def)
  then show "claim_pairs cfg locked now (c_id c) slots_free db'
      = Inr (\<lparr>cr_status = ClaimBanned, cr_test_id = 0, cr_pairs = []\<rparr>, db')"
    using f e(4) by (simp add: claim_pairs_def claim_nothing_def split: option.splits)
  show "\<exists>s \<in> {ClientBanned, PairNotFound}. submit_result gzip now pair report db' = Inr (submit_status_only s, db')"
    if "pr_client_id report = c_id c"
    using that f e(4) by (simp add: submit_result_def split: option.splits)
  have "find (\<lambda>x. c_name x = c_name c) (db_clients db') = Some e"
    using find_key [of c_name "db_clients db'" e] db_invD(4) [OF inv] e(1,3) by (simp add: clients_inv_def)
  then show "rc = \<lparr>rc_client_id = c_id c, rc_banned = True\<rparr>"
    if "rg_name reg = c_name c" "register_client now reg db' = Inr (rc, d)"
    using that e(2,4) by (auto simp: register_client_def keep_ban_def)
qed

theorem ban_is_final_witness:
  "\<exists>db. db_inv db \<and> (\<exists>c \<in> set (db_clients db). c_status c = Banned) \<and>
     claim_pairs default_config (\<lambda>_. False) 10 1 2 db
       = Inr (\<lparr>cr_status = ClaimBanned, cr_test_id = 0, cr_pairs = []\<rparr>, db)"
proof -
  let ?c = "demo_client\<lparr>c_status := Banned\<rparr>"
  let ?d = "demo_created\<lparr>db_clients := [?c], next_client := 2\<rparr>"
  have inv: "db_inv ?d"
    by (rule db_inv_clients [OF demo_created_inv])
      (simp add: clients_inv_def demo_client_def insert_client_row_def demo_reg_def)
  have c: "?c \<in> set (db_clients ?d)" "c_status ?c = Banned" "c_id ?c = 1"
    by (simp_all add: demo_client_def insert_client_row_def)
  from ban_is_final [OF inv c(1,2) rtranclp.rtrancl_refl] c(3) have
    "claim_pairs default_config (\<lambda>_. False) 10 1 2 ?d = Inr (\<lparr>cr_status = ClaimBanned, cr_test_id = 0, cr_pairs = []\<rparr>, ?d)"
    by metis
  then show ?thesis using inv c(1,2) by blast
qed

section \<open>Leases and tests\<close>

text \<open>
  C12: one recovery on a reachable database gives back every lease that has expired and whose
  row is not locked: with attempts left the pair is pending again, otherwise it is discarded
  with a reason; no other pair changes, and the numbers reported are those of the two groups.
  Afterwards no unlocked lease of that time is left.
\<close>

theorem recovery_frees_leases:
  assumes "reachable cfg fs build gzip db"
    and "recover_expired_leases locked now (max_attempts cfg) db = Inr (r, db')"
  shows "db_pairs db' = map (\<lambda>p. if lease_expired locked now p then expire_pair (max_attempts cfg) p else p) (db_pairs db) \<and>
    (\<forall>p \<in> set (db_pairs db'). \<not> lease_expired locked now p) \<and>
    lr_requeued r = int (length (filter (\<lambda>p. lease_expired locked now p \<and> jp_attempts p < max_attempts cfg) (db_pairs db))) \<and>
    lr_discarded r = int (length (filter (\<lambda>p. lease_expired locked now p \<and> max_attempts cfg \<le> jp_attempts p) (db_pairs db))) \<and>
    (\<forall>p \<in> set (db_pairs db). lease_expired locked now p \<longrightarrow>
       (if jp_attempts p < max_attempts cfg then jp_status (expire_pair (max_attempts cfg) p) = Pending
        else jp_status (expire_pair (max_attempts cfg) p) = Discarded))"
proof -
  note inv = reachable_inv [OF assms(1)]
  let ?d = "update_pairs (lease_expired locked now) (expire_pair (max_attempts cfg)) db"
  have "tests_core ?d" using db_invD(2) [OF inv] tests_core_frame [of ?d db] by simp
  then have pairs: "db_pairs db' = update_where (lease_expired locked now) (expire_pair (max_attempts cfg)) (db_pairs db)"
    using refresh_all_core [OF recover_cases [OF assms(2)]] by simp
  have st: "jp_status (expire_pair (max_attempts cfg) p)
      = (if jp_attempts p < max_attempts cfg then Pending else Discarded)" for p
    by (simp add: expire_pair_def release_pair_def)
  then have gone: "\<not> lease_expired locked now (expire_pair (max_attempts cfg) p)" for p
    by (auto simp: lease_expired_def split: if_splits)
  have r: "lr_requeued r = int (length (filter (lease_expired locked now) (db_pairs db)))
        - int (length (filter (\<lambda>p. max_attempts cfg \<le> jp_attempts p) (filter (lease_expired locked now) (db_pairs db))))"
    "lr_discarded r = int (length (filter (\<lambda>p. max_attempts cfg \<le> jp_attempts p) (filter (lease_expired locked now) (db_pairs db))))"
    using assms(2) by (auto simp: recover_expired_leases_def Let_def)
  have "length (filter P xs) = length (filter (\<lambda>p. P p \<and> Q p) xs) + length (filter (\<lambda>p. P p \<and> \<not> Q p) xs)"
    for P Q :: "pair_row \<Rightarrow> bool" and xs by (induction xs) auto
  from this [of "lease_expired locked now" "db_pairs db" "\<lambda>p. jp_attempts p < max_attempts cfg"]
  have "lr_requeued r = int (length (filter (\<lambda>p. lease_expired locked now p \<and> jp_attempts p < max_attempts cfg) (db_pairs db)))"
    "lr_discarded r = int (length (filter (\<lambda>p. lease_expired locked now p \<and> max_attempts cfg \<le> jp_attempts p) (db_pairs db)))"
    unfolding r filter_filter by (simp_all add: not_less conj_commute)
  then show ?thesis using pairs gone st by (auto simp: update_where_def)
qed

theorem recovery_frees_leases_witness:
  "\<exists>db r db'. demo_reachable db \<and> map jp_status (db_pairs db) = [Leased, Leased] \<and>
     recover_expired_leases (\<lambda>_. False) 700 (max_attempts default_config) db = Inr (r, db') \<and>
     lr_requeued r = 2 \<and> (\<forall>p \<in> set (db_pairs db'). \<not> lease_expired (\<lambda>_. False) 700 p)"
proof -
  obtain d1 where d: "demo_reachable d1" "demo_leased d1" by (rule demo_run)
  have pairs: "db_pairs d1 = map (lease_pair 1 10 610) demo_pairs" using d(2) by (simp add: demo_leased_def)
  have m: "max_attempts default_config = 5" by (simp add: default_config_def)
  obtain r db' where rec: "recover_expired_leases (\<lambda>_. False) 700 (max_attempts default_config) d1 = Inr (r, db')"
    by (simp add: recover_expired_leases_def Let_def pairs m demo_pair_rows lease_pair_def)
  from recovery_frees_leases [OF d(1) rec]
  have "lr_requeued r = int (length (filter (\<lambda>p. lease_expired (\<lambda>_. False) 700 p \<and> jp_attempts p < max_attempts default_config) (db_pairs d1)))"
    and none: "\<forall>p \<in> set (db_pairs db'). \<not> lease_expired (\<lambda>_. False) 700 p" by blast+
  then have "lr_requeued r = 2" by (simp add: pairs m demo_pair_rows lease_pair_def lease_expired_def)
  moreover have "map jp_status (db_pairs d1) = [Leased, Leased]" by (simp add: pairs demo_pair_rows lease_pair_def)
  ultimately show ?thesis using d(1) rec none by (intro exI conjI)
qed

lemma not_updated:
  assumes "r \<in> set (db_tests db)" "t_id r \<noteq> i"
  shows "r \<in> set (db_tests (update_test i f db))"
  unfolding tests_update_test set_update_where using assms by (intro bexI [of _ r]) simp_all

lemma stop_promote_facts:
  assumes core: "tests_core db" and t: "t \<in> set (db_tests db)" "t_status t = Running"
    and db': "db' = snd (promote_next_test now (update_test (t_id t) (stopped_row now) db))"
    and p: "promoted = fst (promote_next_test now (update_test (t_id t) (stopped_row now) db))"
  shows "map_option t_id (running_test db') = promoted \<and>
    (\<exists>u \<in> set (db_tests db'). t_id u = t_id t \<and> t_status u = Stopped) \<and>
    (case promoted of
       None \<Rightarrow> \<forall>u \<in> set (db_tests db). t_status u \<noteq> Queued
     | Some i \<Rightarrow> \<exists>u \<in> set (db_tests db). t_id u = i \<and> t_status u = Queued \<and>
         (\<forall>v \<in> set (db_tests db). t_status v = Queued \<longrightarrow> queue_key u \<le> queue_key v)) \<and>
    same_work db db'"
proof -
  let ?d = "update_test (t_id t) (stopped_row now) db"
  have rows: "u \<in> set (db_tests ?d) \<longleftrightarrow> u = stopped_row now t \<or> u \<in> set (db_tests db) \<and> u \<noteq> t" for u
  proof
    assume "u \<in> set (db_tests ?d)"
    then obtain q where q: "q \<in> set (db_tests db)" "u = (if t_id q = t_id t then stopped_row now q else q)"
      unfolding tests_update_test by (rule update_whereE)
    show "u = stopped_row now t \<or> u \<in> set (db_tests db) \<and> u \<noteq> t"
    proof (cases "t_id q = t_id t")
      case True
      then have "q = t" by (rule test_unique [OF core q(1) t(1)])
      then show ?thesis using q by simp
    next
      case False
      then show ?thesis using q by auto
    qed
  next
    assume "u = stopped_row now t \<or> u \<in> set (db_tests db) \<and> u \<noteq> t"
    then obtain q where "q \<in> set (db_tests db)" "u = (if t_id q = t_id t then stopped_row now q else q)"
      using t(1) test_unique [OF core _ t(1)] by metis
    then show "u \<in> set (db_tests ?d)" unfolding tests_update_test set_update_where by blast
  qed
  have other: "t_status u \<noteq> Running" if "u \<in> set (db_tests db)" "u \<noteq> t" for u
    using tests_coreD(4) [OF core that(1) t(1)] test_unique [OF core that(1) t(1)] that(2) t(2) by blast
  have none: "running_test ?d = None" using rows other by (auto simp: running_test_None)
  have dcore: "tests_core ?d" by (rule tests_core_update [OF core]) simp_all
  have work: "same_work db db'"
    unfolding db' by (rule same_work_trans [OF same_work_update_test promote_same_work]) simp
  have queued: "u \<in> set (db_tests ?d) \<and> t_status u = Queued \<longleftrightarrow> u \<in> set (db_tests db) \<and> t_status u = Queued" for u
    using rows [of u] t(2) by auto
  obtain q where pr: "promote_next_test now ?d = (promoted, q)" using p by (cases "promote_next_test now ?d") simp
  then have q: "q = db'" using db' by simp
  show ?thesis
  proof (cases promoted)
    case None
    have "db' = ?d" "\<forall>u \<in> set (db_tests ?d). t_status u \<noteq> Queued"
      using pr None none promote_None [of now ?d q] q by auto
    then have "\<forall>u \<in> set (db_tests db). t_status u \<noteq> Queued" using queued by blast
    moreover have "stopped_row now t \<in> set (db_tests db')" using rows \<open>db' = ?d\<close> by simp
    ultimately show ?thesis using None none \<open>db' = ?d\<close> work
      by (auto intro!: bexI [of _ "stopped_row now t"])
  next
    case (Some i)
    from pr [unfolded Some] obtain u where u: "u \<in> set (db_tests ?d)" "t_status u = Queued" "t_id u = i"
      and d': "q = update_test i (set_running now) ?d"
      and least: "\<And>v. v \<in> set (db_tests ?d) \<Longrightarrow> t_status v = Queued \<Longrightarrow> queue_key u \<le> queue_key v"
      by (auto elim: promote_Some)
    have inv': "tests_core db'"
      using tests_invD [OF promote_tests_inv [OF dcore, of now]] unfolding db' .
    have run: "set_running now u \<in> set (db_tests db')"
      using u(1,3) unfolding q [symmetric] d' by (force simp: set_update_where)
    then obtain x where x: "running_test db' = Some x"
      by (cases "running_test db'") (auto simp: running_test_None)
    have "t_id x = i"
      using tests_coreD(4) [OF inv' _ run] running_test_Some [OF x] u(3) by auto
    moreover have udb: "u \<in> set (db_tests db)" using queued u(1,2) by blast
    moreover have "stopped_row now t \<in> set (db_tests db')"
    proof -
      have "t_id t \<noteq> i"
      proof
        assume "t_id t = i"
        then have "u = t" using test_unique [OF core udb t(1)] u(3) by simp
        then show False using u(2) t(2) by simp
      qed
      then have "t_id (stopped_row now t) \<noteq> i" by simp
      moreover have "stopped_row now t \<in> set (db_tests ?d)" using rows by blast
      ultimately show ?thesis
        unfolding q [symmetric] d' by (rule not_updated [rotated])
    qed
    moreover have "\<forall>v \<in> set (db_tests db). t_status v = Queued \<longrightarrow> queue_key u \<le> queue_key v"
      using least queued by blast
    ultimately have
      "map_option t_id (running_test db') = Some i"
      "\<exists>u \<in> set (db_tests db'). t_id u = t_id t \<and> t_status u = Stopped"
      "\<exists>u \<in> set (db_tests db). t_id u = i \<and> t_status u = Queued \<and>
         (\<forall>v \<in> set (db_tests db). t_status v = Queued \<longrightarrow> queue_key u \<le> queue_key v)"
      using x u(2,3) stopped_row_simps(1,2) [of now t] by (simp, blast, blast)
    then show ?thesis unfolding Some option.case using work by blast
  qed
qed

text \<open>
  C11: stopping the running test of a reachable database stops it and hands the server to the
  queue at once: the queued test with the highest priority, the oldest among equals, is
  promoted and is the running test of the new database; only when no test is queued is none
  running. Every pair, game and client stays as it is.
\<close>

theorem stop_promotes_next:
  assumes "reachable cfg fs build gzip db" and "running_test db = Some t"
    and "stop_test now (t_id t) db = (so, db')"
  shows "so_status so = StopStopped \<and> map_option t_id (running_test db') = so_promoted so \<and>
    (\<exists>u \<in> set (db_tests db'). t_id u = t_id t \<and> t_status u = Stopped) \<and>
    (case so_promoted so of
       None \<Rightarrow> \<forall>u \<in> set (db_tests db). t_status u \<noteq> Queued
     | Some i \<Rightarrow> \<exists>u \<in> set (db_tests db). t_id u = i \<and> t_status u = Queued \<and>
         (\<forall>v \<in> set (db_tests db). t_status v = Queued \<longrightarrow> queue_key u \<le> queue_key v)) \<and>
    same_work db db'"
proof -
  note core = db_invD(2) [OF reachable_inv [OF assms(1)]]
  have t: "t \<in> set (db_tests db)" "t_status t = Running" using running_test_Some [OF assms(2)] by auto
  from assms(3) show ?thesis
  proof (cases rule: stop_test_cases)
    case 1
    have "find_test db (t_id t) = Some t" using find_test_iff [OF core] t(1) by blast
    then show ?thesis using assms(3) 1(2) t(2) by (auto simp: stop_test_def split: prod.splits)
  next
    case (3 u)
    then have "u = t" using test_unique [OF core 3(1) t(1)] by simp
    then show ?thesis using 3(3) t(2) by simp
  next
    case (2 u)
    show ?thesis using stop_promote_facts [OF core t 2(4,6)] 2(5) by blast
  qed
qed

theorem stop_promotes_next_witness:
  "\<exists>db so db'. demo_reachable db \<and> stop_test 30 1 db = (so, db') \<and> so_status so = StopStopped \<and>
     map_option t_id (running_test db') = so_promoted so \<and> same_work db db'"
proof -
  obtain d where d: "demo_reachable d" "demo_played d" by (rule demo_run)
  obtain t where t: "running_test d = Some t" "t_id t = 1"
    using d(2) by (auto simp: demo_played_def demo_running_def running_test_def)
  obtain so d' where s: "stop_test 30 (t_id t) d = (so, d')" by fastforce
  from stop_promotes_next [OF d(1) t(1) s] d(1) s [unfolded t(2)] show ?thesis by blast
qed

text \<open>
  C13: when the validation of a test of a reachable database succeeds, the test is left with
  exactly as many opening positions as it has pairs to play, numbered from one in the order of
  the sample, and with exactly one pair per position, never leased and pending; the test is
  queued or already running, and positions and pairs of all other tests are what they were.
\<close>

theorem validation_creates_work:
  assumes "reachable cfg fs build gzip db" and "find_test db i = Some t" and "t_status t = Validating"
    and "sm_ok (smoke_test cfg fs build t)"
    and "smoke_commit now i dispatch (smoke_test cfg fs build t) db = Inr (r, db')"
  defines "ops \<equiv> filter (\<lambda>op. op_test op = i) (db_positions db')"
    and "ps \<equiv> filter (\<lambda>p. jp_test p = i) (db_pairs db')"
  shows "map op_seq ops = [1..t_total_pairs t] \<and> map op_fen ops = sm_positions (smoke_test cfg fs build t) \<and>
    map jp_position ps = map op_id ops \<and>
    list_all (\<lambda>p. jp_status p = Pending \<and> jp_attempts p = 0 \<and> jp_leased_to p = None) ps \<and>
    (\<exists>u \<in> set (db_tests db'). t_id u = i \<and> (t_status u = Queued \<or> t_status u = Running)) \<and>
    filter (\<lambda>op. op_test op \<noteq> i) (db_positions db') = db_positions db \<and>
    filter (\<lambda>p. jp_test p \<noteq> i) (db_pairs db') = db_pairs db"
proof -
  note parts = db_invD [OF reachable_inv [OF assms(1)]]
  let ?v = "smoke_test cfg fs build t"
  from assms(5) parts(2,5) show ?thesis
  proof (cases rule: smoke_commit_cases)
    case 1
    then show ?thesis using assms(2,3,5,4) by (auto simp: smoke_commit_def Let_def split: if_splits prod.splits)
  next
    case (2 u vlog)
    then show ?thesis using assms(4) by simp
  next
    case (3 u vlog d)
    let ?w = "with_work i dispatch (sm_positions ?v) vlog db"
    have "u = t" using test_unique [OF parts(2) 3(1)] find_test_Some [OF assms(2)] 3(2) by blast
    have ok: "test_params_ok t" using find_test_Some [OF assms(2)] tests_coreD(3) [OF parts(2)] by blast
    then have "sm_positions ?v \<noteq> []" using smoke_test_positions(1) assms(4) by blast
    note base = with_work_base [OF reachable_inv [OF assms(1)] 3(1,2,3) this]
    have work: "same_work ?w db'"
      unfolding 3(6) using refresh_facts(3) [OF 3(5) base(1)] promote_same_work same_work_trans by blast
    have fresh: "op_test op \<noteq> i" if "op \<in> set (db_positions db)" for op
      using not_prepared [OF parts(2) 3(1,3)] 3(2) parts(5) that by (auto simp: positions_inv_def)
    have fresh': "jp_test p \<noteq> i" if "p \<in> set (db_pairs db)" for p
      using not_prepared [OF parts(2) 3(1,3)] 3(2) parts(6) that by (auto simp: pairs_inv_def)
    let ?ops = "position_rows (next_position db) i (sm_positions ?v)"
    let ?ps = "pair_rows (next_pair db) dispatch ?ops"
    have pos: "db_positions db' = db_positions db @ ?ops" "db_pairs db' = db_pairs db @ ?ps"
      using same_workD [OF work] by (simp_all add: with_work_def Let_def)
    have ops: "ops = ?ops" "filter (\<lambda>op. op_test op \<noteq> i) (db_positions db') = db_positions db"
      unfolding ops_def pos using fresh
      by (auto simp: position_rows_columns filter_empty_conv filter_id_conv dest: position_rows_keys(2))
    have ps: "ps = ?ps" "filter (\<lambda>p. jp_test p \<noteq> i) (db_pairs db') = db_pairs db"
      unfolding ps_def pos using fresh'
      by (auto simp: filter_empty_conv filter_id_conv dest: pair_rows_fresh)
    have "map op_seq ops = [1..t_total_pairs t]"
      using ok smoke_positions_exact [OF assms(4)] unfolding ops(1) position_rows_columns
      by (auto simp: test_params_ok_def intro!: nth_equalityI)
    moreover have "\<exists>u \<in> set (db_tests db'). t_id u = i \<and> (t_status u = Queued \<or> t_status u = Running)"
    proof -
      have q: "queued_row vlog t \<in> set (db_tests ?w)"
        using 3(1,2) \<open>u = t\<close> by (force simp: with_work_def Let_def set_update_where)
      have "find_test ?w i = Some (queued_row vlog t)"
        using find_test_iff [OF base(1)] q 3(2) \<open>u = t\<close> by simp
      then have "queued_row vlog t \<in> set (db_tests d)" using refresh_waiting [OF 3(5)] q by simp
      from promote_status [OF this, of now] show ?thesis unfolding 3(6) using 3(2) \<open>u = t\<close> by simp
    qed
    ultimately show ?thesis
      using ops ps position_rows_columns(2) pair_rows_keys(2) pair_rows_fresh
      by (simp add: list_all_iff)
  qed
qed

theorem validation_creates_work_witness:
  "\<exists>r db'. demo_reachable demo_created \<and>
     smoke_commit 0 1 (\<lambda>_. 0) (smoke_test default_config demo_fs demo_build demo_test) demo_created = Inr (r, db') \<and>
     map op_seq (filter (\<lambda>op. op_test op = 1) (db_positions db')) = [1..2] \<and>
     map op_fen (filter (\<lambda>op. op_test op = 1) (db_positions db')) = demo_fens"
proof -
  obtain vlog where v: "smoke_test default_config demo_fs demo_build demo_test
     = \<lparr>sm_ok = True, sm_log = vlog, sm_positions = demo_fens\<rparr>" using demo_verdict by blast
  obtain r db' where c: "smoke_commit 0 1 (\<lambda>_. 0) (smoke_test default_config demo_fs demo_build demo_test) demo_created
     = Inr (r, db')" using demo_smoke unfolding v by blast
  have reach: "demo_reachable demo_created" using demo_create_steps by (simp add: reachable_def)
  have ok: "sm_ok (smoke_test default_config demo_fs demo_build demo_test)" by (simp add: v)
  have n: "t_total_pairs demo_test = 2" by (simp add: demo_test_def demo_spec_def test_row_of_def)
  have p: "sm_positions (smoke_test default_config demo_fs demo_build demo_test) = demo_fens" by (simp add: v)
  from validation_creates_work [OF reach demo_created_test(2,3) ok c]
  have "map op_seq (filter (\<lambda>op. op_test op = 1) (db_positions db')) = [1..2]"
    "map op_fen (filter (\<lambda>op. op_test op = 1) (db_positions db')) = demo_fens" unfolding n p by blast+
  then show ?thesis using reach c by blast
qed

end
