(* ===== verification/Http.thy ===== *)
theory Http
  imports Json Sanity
begin

text \<open>
  server/http/helpers.hpp: the accessors of a request's JSON body, the responses, and the
  guard that turns exceptions into responses. A response is its status and, when it has one,
  its JSON body; the log lines are not modelled. A request's body is what \<^verbatim>\<open>json::parse\<close>
  makes of it, \<^const>\<open>None\<close> for a discarded value.
\<close>

section \<open>Responses\<close>

record response =
  rs_status :: int
  rs_body :: "json option"

definition send_json :: "int \<Rightarrow> json \<Rightarrow> response" where
  "send_json status body = \<lparr>rs_status = status, rs_body = Some body\<rparr>"

definition send_error :: "int \<Rightarrow> string \<Rightarrow> string \<Rightarrow> response" where
  "send_error status err reason =
     send_json status (JObject ((''error'', JString err) #
       (if reason \<noteq> [] then [(''reason'', JString reason)] else [])))"

definition no_content :: response where
  "no_content = \<lparr>rs_status = 204, rs_body = None\<rparr>"

section \<open>The body\<close>

definition kOutcomes :: "string list" where
  "kOutcomes = [''candidate_win'', ''draw'', ''candidate_loss'']"

definition kTerminations :: "string list" where
  "kTerminations = [''normal'', ''timeout'', ''illegal_move'', ''crash'', ''adjudication'', ''other'']"

definition kPinningModes :: "string list" where
  "kPinningModes = [''pinned'', ''homogeneous_unpinned'', ''qos_hint'']"

definition parse_body :: "json option \<Rightarrow> json result" where
  "parse_body body =
     (case body of
        None \<Rightarrow> Inl (BadRequest ''body must be a JSON object'')
      | Some j \<Rightarrow> if is_object j then Inr j else Inl (BadRequest ''body must be a JSON object''))"

definition field :: "json \<Rightarrow> string \<Rightarrow> json result" where
  "field j key =
     (case json_member j key of
        None \<Rightarrow> Inl (BadRequest (''missing field: '' @ key))
      | Some v \<Rightarrow> Inr v)"

definition req_int64 :: "json \<Rightarrow> string \<Rightarrow> int result" where
  "req_int64 j key =
     bindE (field j key) (\<lambda>v.
       case json_int v of
         None \<Rightarrow> Inl (BadRequest (key @ '' must be an integer''))
       | Some k \<Rightarrow> Inr k)"

definition INT32_MIN :: int where
  "INT32_MIN = - 2147483648"

definition INT32_MAX :: int where
  "INT32_MAX = 2147483647"

definition req_int :: "json \<Rightarrow> string \<Rightarrow> int \<Rightarrow> int result" where
  "req_int j key min_value =
     bindE (req_int64 j key) (\<lambda>v.
       if v < min_value \<or> INT32_MAX < v then Inl (BadRequest (key @ '' out of range'')) else Inr v)"

text \<open>\<^verbatim>\<open>if (!j.contains(key) || j[key].is_null()) return std::nullopt;\<close> .\<close>

definition opt_field :: "(json \<Rightarrow> string \<Rightarrow> 'a result) \<Rightarrow> json \<Rightarrow> string \<Rightarrow> 'a option result" where
  "opt_field f j key =
     (if json_member j key = None then Inr None else bindE (f j key) (\<lambda>v. Inr (Some v)))"

definition opt_int :: "json \<Rightarrow> string \<Rightarrow> int \<Rightarrow> int option result" where
  "opt_int j key min_value = opt_field (\<lambda>j key. req_int j key min_value) j key"

definition req_double :: "json \<Rightarrow> string \<Rightarrow> real result" where
  "req_double j key =
     bindE (field j key) (\<lambda>v.
       case json_number v of
         None \<Rightarrow> Inl (BadRequest (key @ '' must be a number''))
       | Some r \<Rightarrow> Inr r)"

definition opt_double :: "json \<Rightarrow> string \<Rightarrow> real option result" where
  "opt_double = opt_field req_double"

definition req_bool :: "json \<Rightarrow> string \<Rightarrow> bool result" where
  "req_bool j key =
     bindE (field j key) (\<lambda>v.
       case json_bool v of
         None \<Rightarrow> Inl (BadRequest (key @ '' must be a boolean''))
       | Some b \<Rightarrow> Inr b)"

definition req_string :: "json \<Rightarrow> string \<Rightarrow> string result" where
  "req_string j key =
     bindE (field j key) (\<lambda>v.
       case json_string v of
         None \<Rightarrow> Inl (BadRequest (key @ '' must be a string''))
       | Some s \<Rightarrow> Inr s)"

definition opt_string :: "json \<Rightarrow> string \<Rightarrow> string option result" where
  "opt_string = opt_field req_string"

definition req_enum :: "json \<Rightarrow> string \<Rightarrow> string list \<Rightarrow> string result" where
  "req_enum j key allowed =
     bindE (req_string j key) (\<lambda>v.
       if v \<in> set allowed then Inr v
       else Inl (BadRequest (''invalid '' @ key @ '': '' @ v)))"

text \<open>The digits the route's pattern has matched.\<close>

definition path_id :: "string \<Rightarrow> int result" where
  "path_id s =
     (case cpp_stoll s of None \<Rightarrow> Inl (BadRequest ''invalid id in path'') | Some (v, _) \<Rightarrow> Inr v)"

section \<open>The guard\<close>

text \<open>
  A handler returns its response and the state it leaves; one that throws leaves the state it
  was given, since its transaction is rolled back.
\<close>

definition error_response :: "exn \<Rightarrow> response" where
  "error_response e =
     (case e of
        BadRequest m \<Rightarrow> send_error 400 ''bad_request'' m
      | BrokenConnection _ \<Rightarrow> send_error 503 ''database_unavailable'' []
      | _ \<Rightarrow> send_error 500 ''internal_error'' [])"

definition guarded :: "(response \<times> 's) result \<Rightarrow> 's \<Rightarrow> response \<times> 's" where
  "guarded h s = (case h of Inl e \<Rightarrow> (error_response e, s) | Inr r \<Rightarrow> r)"

section \<open>Shared bodies\<close>

definition adjudication_json :: "adjudication \<Rightarrow> json" where
  "adjudication_json a =
     JObject
       [(''draw'', nullable (\<lambda>d. JObject [(''movenumber'', JInt (dr_movenumber d)),
            (''movecount'', JInt (dr_movecount d)), (''score_cp'', JInt (dr_score_cp d))]) (adj_draw a)),
        (''resign'', nullable (\<lambda>r. JObject [(''movecount'', JInt (rs_movecount r)),
            (''score_cp'', JInt (rs_score_cp r)), (''twosided'', JBool (rs_twosided r))]) (adj_resign a))]"

definition score_json :: "int \<Rightarrow> int \<Rightarrow> int \<Rightarrow> json" where
  "score_json wins draws losses =
     (let games = wins + draws + losses; points = of_int wins + 1 / 2 * of_int draws
      in JObject
           [(''wins'', JInt wins), (''draws'', JInt draws), (''losses'', JInt losses),
            (''games'', JInt games), (''points'', JReal points),
            (''pct'', if games \<noteq> 0 then JReal (100 * points / of_int games) else JNull)])"

section \<open>Lemmas\<close>

lemma field_Inr: "field j key = Inr v \<longleftrightarrow> json_member j key = Some v"
  by (simp add: field_def split: option.splits)

lemma req_int_range:
  "req_int j key m = Inr v \<Longrightarrow> m \<le> v \<and> v \<le> INT32_MAX"
  by (auto simp: req_int_def split: if_splits)

lemma opt_int_range:
  "opt_int j key m = Inr (Some v) \<Longrightarrow> m \<le> v \<and> v \<le> INT32_MAX"
  by (auto simp: opt_int_def opt_field_def dest: req_int_range split: if_splits)

lemma req_enum_allowed: "req_enum j key allowed = Inr v \<Longrightarrow> v \<in> set allowed"
  by (auto simp: req_enum_def split: if_splits)

lemma guarded_cases:
  assumes "guarded h s = (res, s')"
  obtains (threw) e where "h = Inl e" "res = error_response e" "s' = s"
    | (returned) "h = Inr (res, s')"
  using assms by (cases h) (auto simp: guarded_def)

lemma error_response_status: "rs_status (error_response e) \<in> {400, 500, 503}"
  by (simp add: error_response_def send_error_def send_json_def split: exn.splits)

end
