(* ===== verification/Routes.thy ===== *)
theory Routes
  imports Http Queue
begin

text \<open>
  server/http/routes.cpp: the handlers of the clients' API, from the request's body to the
  response and the database it leaves. Parameters of a handler: \<open>conn\<close>, what
  \<^verbatim>\<open>pool.acquire()\<close> does; \<open>path\<close>, the digits of the path; and those of the transactions of
  server/queue.cpp. Points in time are written as numbers where the database writes texts.
\<close>

section \<open>The report of a game\<close>

definition empty_game_report :: game_report where
  "empty_game_report =
     \<lparr>gr_game_in_pair = 0, gr_candidate_is_white = False, gr_outcome = [], gr_termination = [],
      gr_ply_count = None, gr_duration_ms = None, gr_cpu_factor_at_play = 1,
      gr_tc_base_effective_ms = 0, gr_tc_increment_effective_ms = 0, gr_slot_index = 0,
      gr_core_id = None, gr_pgn = [], gr_candidate_nodes = None, gr_candidate_time_ms = None,
      gr_baseline_nodes = None, gr_baseline_time_ms = None\<rparr>"

definition opt_count :: "json \<Rightarrow> string \<Rightarrow> int option result" where
  "opt_count g key =
     (case json_member g key of
        None \<Rightarrow> Inr None
      | Some v \<Rightarrow>
          (case json_int v of
             None \<Rightarrow> Inl (BadRequest (key @ '' must be a non-negative integer''))
           | Some k \<Rightarrow> if k < 0 then Inl (BadRequest (key @ '' must be a non-negative integer''))
                       else Inr (Some k)))"

definition parse_game :: "json \<Rightarrow> game_report result" where
  "parse_game g =
     bindE (guardE (is_object g) (BadRequest ''each game must be an object'')) (\<lambda>_.
     bindE (req_int g ''game_in_pair'' 0) (\<lambda>game_in_pair.
     bindE (guardE (\<not> 1 < game_in_pair) (BadRequest ''game_in_pair must be 0 or 1'')) (\<lambda>_.
     bindE (req_bool g ''candidate_is_white'') (\<lambda>white.
     bindE (req_enum g ''outcome'' kOutcomes) (\<lambda>outcome.
     bindE (req_enum g ''termination'' kTerminations) (\<lambda>termination.
     bindE (opt_int g ''ply_count'' 0) (\<lambda>ply_count.
     bindE (opt_int g ''duration_ms'' 0) (\<lambda>duration_ms.
     bindE (req_double g ''cpu_factor'') (\<lambda>cpu_factor.
     bindE (guardE (0 < cpu_factor) (BadRequest ''cpu_factor must be positive'')) (\<lambda>_.
     bindE (req_int g ''tc_base_effective_ms'' 0) (\<lambda>tc_base.
     bindE (req_int g ''tc_increment_effective_ms'' 0) (\<lambda>tc_increment.
     bindE (req_int g ''slot_index'' 0) (\<lambda>slot_index.
     bindE (opt_int g ''core_id'' 0) (\<lambda>core_id.
     bindE (req_string g ''pgn'') (\<lambda>pgn.
     bindE (opt_count g ''candidate_nodes'') (\<lambda>candidate_nodes.
     bindE (opt_count g ''candidate_time_ms'') (\<lambda>candidate_time_ms.
     bindE (opt_count g ''baseline_nodes'') (\<lambda>baseline_nodes.
     bindE (opt_count g ''baseline_time_ms'') (\<lambda>baseline_time_ms.
       Inr \<lparr>gr_game_in_pair = game_in_pair, gr_candidate_is_white = white, gr_outcome = outcome,
            gr_termination = termination, gr_ply_count = ply_count, gr_duration_ms = duration_ms,
            gr_cpu_factor_at_play = cpu_factor, gr_tc_base_effective_ms = tc_base,
            gr_tc_increment_effective_ms = tc_increment, gr_slot_index = slot_index,
            gr_core_id = core_id, gr_pgn = pgn, gr_candidate_nodes = candidate_nodes,
            gr_candidate_time_ms = candidate_time_ms, gr_baseline_nodes = baseline_nodes,
            gr_baseline_time_ms = baseline_time_ms\<rparr>)))))))))))))))))))"

text \<open>The games of the report, stored at the index each of them names.\<close>

definition store_game :: "json \<Rightarrow> game_report list \<Rightarrow> game_report list result" where
  "store_game g games = bindE (parse_game g) (\<lambda>r. Inr (games[nat (gr_game_in_pair r) := r]))"

definition parse_pair_report :: "json \<Rightarrow> pair_report result" where
  "parse_pair_report j =
     bindE (req_int64 j ''client_id'') (\<lambda>client_id.
     bindE (field j ''games'') (\<lambda>games.
       let err = BadRequest ''games must be an array with exactly 2 games''
       in case games of
            JArray [g0, g1] \<Rightarrow>
              bindE (foldE store_game [g0, g1] [empty_game_report, empty_game_report]) (\<lambda>gs.
              bindE (guardE (json_find g0 ''game_in_pair'' \<noteq> json_find g1 ''game_in_pair'')
                       (BadRequest ''games must have game_in_pair 0 and 1'')) (\<lambda>_.
                Inr \<lparr>pr_client_id = client_id, pr_games = gs\<rparr>))
          | _ \<Rightarrow> Inl err))"

section \<open>Clients\<close>

definition get_healthz :: "unit result \<Rightarrow> db \<Rightarrow> response \<times> db" where
  "get_healthz conn db =
     guarded (bindE conn (\<lambda>_. Inr (send_json 200 (JObject [(''status'', JString ''ok'')]), db))) db"

definition parse_registration :: "json \<Rightarrow> client_registration result" where
  "parse_registration j =
     bindE (req_string j ''name'') (\<lambda>name.
     bindE (guardE (name \<noteq> []) (BadRequest ''name must not be empty'')) (\<lambda>_.
     bindE (opt_string j ''hostname'') (\<lambda>hostname.
     bindE (opt_string j ''os'') (\<lambda>os.
     bindE (opt_string j ''cpu_model'') (\<lambda>cpu_model.
     bindE (opt_string j ''arch_target'') (\<lambda>arch_target.
     bindE (req_enum j ''pinning_mode'' kPinningModes) (\<lambda>pinning_mode.
     bindE (opt_string j ''core_topology'') (\<lambda>core_topology.
     bindE (opt_string j ''bench_ref_commit'') (\<lambda>bench_ref_commit.
     bindE (opt_string j ''fastchess_version'') (\<lambda>fastchess_version.
     bindE (opt_int j ''nproc'' 1) (\<lambda>nproc.
     bindE (req_int j ''slots'' 1) (\<lambda>slots.
       Inr \<lparr>rg_name = name, rg_hostname = hostname, rg_os = os, rg_cpu_model = cpu_model,
            rg_cpu_arch_target = arch_target, rg_pinning_mode = pinning_mode,
            rg_core_topology = core_topology, rg_bench_ref_commit = bench_ref_commit,
            rg_fastchess_version = fastchess_version, rg_nproc_total = nproc,
            rg_slots = slots\<rparr>))))))))))))"

definition post_register :: "unit result \<Rightarrow> real \<Rightarrow> json option \<Rightarrow> db \<Rightarrow> response \<times> db" where
  "post_register conn now body db =
     guarded
       (bindE (parse_body body) (\<lambda>j.
        bindE (parse_registration j) (\<lambda>reg.
        bindE conn (\<lambda>_.
        bindE (register_client now reg db) (\<lambda>(c, db).
          Inr (if rc_banned c
               then send_json 403 (JObject [(''error'', JString ''client_banned''),
                                            (''client_id'', JInt (rc_client_id c))])
               else send_json 200 (JObject [(''client_id'', JInt (rc_client_id c))]), db)))))) db"

definition post_heartbeat :: "unit result \<Rightarrow> real \<Rightarrow> string \<Rightarrow> json option \<Rightarrow> db \<Rightarrow> response \<times> db" where
  "post_heartbeat conn now path body db =
     guarded
       (bindE (parse_body body) (\<lambda>j.
        bindE (opt_double j ''cpu_factor'') (\<lambda>cpu_factor.
        bindE (guardE (case cpu_factor of None \<Rightarrow> True | Some f \<Rightarrow> 0 < f)
                 (BadRequest ''cpu_factor must be positive'')) (\<lambda>_.
        bindE conn (\<lambda>_.
        bindE (path_id path) (\<lambda>client.
          case heartbeat now client cpu_factor db of
            (None, db) \<Rightarrow> Inr (send_error 404 ''unknown_client'' [], db)
          | (Some banned, db) \<Rightarrow>
              Inr (send_json 200 (JObject [(''banned'', JBool banned)]), db))))))) db"

section \<open>The active test\<close>

definition active_test_json :: "server_config \<Rightarrow> active_test_info \<Rightarrow> json" where
  "active_test_json cfg t =
     JObject
       [(''test_id'', JInt (at_test_id t)), (''kind'', JString (at_kind t)),
        (''candidate_commit'', JString (at_candidate_commit t)),
        (''baseline_commit'', JString (at_baseline_commit t)),
        (''tc_base_ms'', JInt (at_tc_base_ms t)), (''tc_increment_ms'', JInt (at_tc_increment_ms t)),
        (''hash_mb'', JInt (at_hash_mb t)), (''threads'', JInt (at_threads t)),
        (''book_name'', JString (at_book_name t)),
        (''candidate_tarball_url'', JString (tarball_url cfg (at_candidate_commit t))),
        (''baseline_tarball_url'', JString (tarball_url cfg (at_baseline_commit t))),
        (''adjudication'', adjudication_json (at_adjudication t)),
        (''bench_reference_commit'',
           if bench_reference_commit cfg = [] then JNull else JString (bench_reference_commit cfg))]"

definition get_active_test :: "server_config \<Rightarrow> unit result \<Rightarrow> db \<Rightarrow> response \<times> db" where
  "get_active_test cfg conn db =
     guarded
       (bindE conn (\<lambda>_.
          case active_test db of
            None \<Rightarrow> Inr (no_content, db)
          | Some t \<Rightarrow> Inr (send_json 200 (active_test_json cfg t), db))) db"

section \<open>Jobs\<close>

definition claimed_pair_json :: "claimed_pair \<Rightarrow> json" where
  "claimed_pair_json p =
     JObject
       [(''pair_id'', JInt (cp_pair_id p)), (''position_id'', JInt (cp_position_id p)),
        (''position_seq'', JInt (cp_position_seq p)), (''fen'', JString (cp_fen p)),
        (''lease_expires_at'', JReal (cp_lease_expires_at p))]"

definition claim_response :: "claim_result \<Rightarrow> response" where
  "claim_response c =
     (case cr_status c of
        ClaimUnknownClient \<Rightarrow> send_error 404 ''unknown_client'' []
      | ClaimBanned \<Rightarrow> send_error 403 ''client_banned'' []
      | ClaimNoActiveTest \<Rightarrow> no_content
      | ClaimOk \<Rightarrow> send_json 200 (JObject [(''test_id'', JInt (cr_test_id c)),
                      (''pairs'', JArray (map claimed_pair_json (cr_pairs c)))]))"

definition post_claim ::
  "server_config \<Rightarrow> unit result \<Rightarrow> (int \<Rightarrow> bool) \<Rightarrow> real \<Rightarrow> json option \<Rightarrow> db \<Rightarrow> response \<times> db" where
  "post_claim cfg conn locked now body db =
     guarded
       (bindE (parse_body body) (\<lambda>j.
        bindE (req_int64 j ''client_id'') (\<lambda>client_id.
        bindE (req_int j ''slots_free'' 0) (\<lambda>slots_free.
        bindE conn (\<lambda>_.
        bindE (claim_pairs cfg locked now client_id slots_free db) (\<lambda>(c, db).
          Inr (claim_response c, db))))))) db"

definition submit_response :: "submit_reply \<Rightarrow> response" where
  "submit_response r =
     (case sr_status r of
        Accepted \<Rightarrow> send_json 200 (JObject [(''status'', JString ''accepted''),
                                            (''valid_games'', JInt (sr_valid_games r))])
      | PairNotFound \<Rightarrow> send_error 404 ''pair_not_found'' []
      | UnknownClient \<Rightarrow> send_error 404 ''unknown_client'' []
      | LeaseLost \<Rightarrow> send_error 409 ''conflict'' ''lease_lost''
      | AlreadyCompleted \<Rightarrow> send_error 409 ''conflict'' ''already_completed''
      | TestFinished \<Rightarrow> send_error 409 ''conflict'' ''test_finished''
      | ClientBanned \<Rightarrow> send_error 409 ''conflict'' ''client_banned'')"

definition post_result ::
  "unit result \<Rightarrow> (string \<Rightarrow> string result) \<Rightarrow> real \<Rightarrow> string \<Rightarrow> json option \<Rightarrow> db \<Rightarrow> response \<times> db" where
  "post_result conn gzip now path body db =
     guarded
       (bindE (path_id path) (\<lambda>pair_id.
        bindE (parse_body body) (\<lambda>j.
        bindE (parse_pair_report j) (\<lambda>report.
        bindE conn (\<lambda>_.
        bindE (submit_result gzip now pair_id report db) (\<lambda>(r, db).
          Inr (submit_response r, db))))))) db"

definition post_abandon :: "unit result \<Rightarrow> string \<Rightarrow> json option \<Rightarrow> db \<Rightarrow> response \<times> db" where
  "post_abandon conn path body db =
     guarded
       (bindE (path_id path) (\<lambda>pair_id.
        bindE (parse_body body) (\<lambda>j.
        bindE (req_int64 j ''client_id'') (\<lambda>client_id.
        bindE conn (\<lambda>_.
          case abandon_pair pair_id client_id db of (released, db) \<Rightarrow>
            if \<not> released then Inr (send_error 409 ''conflict'' ''lease_lost'', db)
            else Inr (send_json 200 (JObject [(''status'', JString ''released'')]), db)))))) db"

section \<open>Reads\<close>

definition stats_json :: "test_stats_snapshot \<Rightarrow> json" where
  "stats_json s =
     JObject
       ([(''test_id'', JInt (sn_test_id s)), (''name'', JString (sn_name s)),
         (''kind'', JString (sn_kind s)), (''status'', JString (sn_status s)),
         (''result'', JString (sn_result s)), (''priority'', JInt (sn_priority s)),
         (''candidate'', JObject [(''ref'', JString (sn_candidate_ref s)),
                                  (''commit'', JString (sn_candidate_commit s))]),
         (''baseline'', JObject [(''ref'', JString (sn_baseline_ref s)),
                                 (''commit'', JString (sn_baseline_commit s))]),
         (''tc_base_ms'', JInt (sn_tc_base_ms s)), (''tc_increment_ms'', JInt (sn_tc_increment_ms s)),
         (''hash_mb'', JInt (sn_hash_mb s)), (''threads'', JInt (sn_threads s)),
         (''book_name'', JString (sn_book_name s)), (''created_at'', JReal (sn_created_at s)),
         (''started_at'', nullable JReal (sn_started_at s)),
         (''finished_at'', nullable JReal (sn_finished_at s)),
         (''adjudication'', adjudication_json (sn_adjudication s)),
         (''score'', score_json (sn_wins s) (sn_draws s) (sn_losses s)),
         (''pairs'', JObject [(''total'', JInt (sn_total_pairs s)),
            (''valid'', JInt (penta_pairs (sn_penta s))), (''pending'', JInt (sn_pairs_pending s)),
            (''leased'', JInt (sn_pairs_leased s)), (''completed'', JInt (sn_pairs_completed s)),
            (''discarded'', JInt (sn_pairs_discarded s))]),
         (''penta'', JObject [(''ll'', JInt (penta_get (sn_penta s) LL)),
            (''ld'', JInt (penta_get (sn_penta s) LD)), (''dd_wl'', JInt (penta_get (sn_penta s) DD_WL)),
            (''wd'', JInt (penta_get (sn_penta s) WD)), (''ww'', JInt (penta_get (sn_penta s) WW))]),
         (''elo'', JObject [(''value'', nullable JReal (sn_elo s)),
            (''ci_low'', nullable JReal (sn_elo_ci_low s)),
            (''ci_high'', nullable JReal (sn_elo_ci_high s))]),
         (''updated_at'', nullable JReal (sn_updated_at s))]
        @ (if sn_kind s = ''sprt''
           then [(''sprt'', JObject [(''elo0'', nullable JReal (sn_sprt_elo0 s)),
                    (''elo1'', nullable JReal (sn_sprt_elo1 s)),
                    (''alpha'', nullable JReal (sn_sprt_alpha s)),
                    (''beta'', nullable JReal (sn_sprt_beta s)), (''llr'', nullable JReal (sn_llr s)),
                    (''llr_lower'', nullable JReal (sn_llr_lower s)),
                    (''llr_upper'', nullable JReal (sn_llr_upper s))])]
           else []))"

definition get_stats :: "unit result \<Rightarrow> string \<Rightarrow> db \<Rightarrow> response \<times> db" where
  "get_stats conn path db =
     guarded
       (bindE conn (\<lambda>_.
        bindE (path_id path) (\<lambda>test.
          case load_test_stats db test of
            None \<Rightarrow> Inr (send_error 404 ''test_not_found'' [], db)
          | Some s \<Rightarrow> Inr (send_json 200 (stats_json s), db)))) db"

section \<open>What an accepted report satisfies\<close>

text \<open>
  The parser delivers 64-bit integers, signed or unsigned; larger literals are read as
  floating point.
\<close>

fun json_ints_ok :: "json \<Rightarrow> bool" where
  "json_ints_ok (JInt k) \<longleftrightarrow> - (2 ^ 63) \<le> k \<and> k < 2 ^ 64"
| "json_ints_ok (JArray js) \<longleftrightarrow> (\<forall>j \<in> set js. json_ints_ok j)"
| "json_ints_ok (JObject kvs) \<longleftrightarrow> (\<forall>kv \<in> set kvs. json_ints_ok (snd kv))"
| "json_ints_ok _ \<longleftrightarrow> True"

lemma json_member_ok: "json_ints_ok j \<Longrightarrow> json_member j k = Some v \<Longrightarrow> json_ints_ok v"
  by (cases j) (auto simp: json_member_def dest!: map_of_SomeD split: option.splits if_splits)

text \<open>A member read as a small natural number is that number.\<close>

lemma int64_of_json_small:
  assumes "- (2 ^ 63) \<le> k" and "k < 2 ^ 64" and "0 \<le> int64_of_json k"
  shows "int64_of_json k = k"
proof (cases "k < 2 ^ 63")
  case True
  then show ?thesis using assms by (intro int64_of_json_id) (auto simp: in_int_range_def)
next
  case False
  have "(k + 2 ^ 63) mod 2 ^ 64 = k + 2 ^ 63 - 2 ^ 64"
    using False assms(2) by (subst minus_mod_self2 [symmetric], intro mod_pos_pos_trivial) auto
  then have "int64_of_json k = k - 2 ^ 64" by (simp add: int64_of_json_def wrap_int_def)
  then show ?thesis using assms(2,3) by simp
qed

lemma req_int_member:
  assumes "json_ints_ok j" and "req_int j key m = Inr v" and "0 \<le> m"
  shows "json_find j key = Some (JInt v)"
proof -
  from assms(2) obtain x where x: "json_member j key = Some x" and k: "json_int x = Some v" "m \<le> v"
    by (auto simp: req_int_def req_int64_def field_Inr split: option.splits if_splits)
  then obtain k where kv: "x = JInt k" "v = int64_of_json k" by (cases x) auto
  have "json_ints_ok x" by (rule json_member_ok [OF assms(1) x])
  then have "v = k" using int64_of_json_small [of k] k(2) assms(3) kv by simp
  moreover have "json_find j key = Some x"
    using x by (auto simp: json_member_def split: option.splits if_splits)
  ultimately show ?thesis using kv by simp
qed

definition game_report_ok :: "game_report \<Rightarrow> bool" where
  "game_report_ok r \<longleftrightarrow>
     gr_outcome r \<in> set kOutcomes \<and> gr_termination r \<in> set kTerminations \<and>
     0 < gr_cpu_factor_at_play r \<and>
     0 \<le> gr_tc_base_effective_ms r \<and> gr_tc_base_effective_ms r \<le> INT32_MAX \<and>
     0 \<le> gr_tc_increment_effective_ms r \<and> gr_tc_increment_effective_ms r \<le> INT32_MAX \<and>
     (\<forall>n. gr_ply_count r = Some n \<longrightarrow> 0 \<le> n \<and> n \<le> INT32_MAX) \<and>
     (\<forall>n. gr_duration_ms r = Some n \<longrightarrow> 0 \<le> n \<and> n \<le> INT32_MAX)"

lemma parse_game_ok:
  assumes "parse_game g = Inr r"
  shows "game_report_ok r \<and> (gr_game_in_pair r = 0 \<or> gr_game_in_pair r = 1) \<and>
    req_int g ''game_in_pair'' 0 = Inr (gr_game_in_pair r)"
  using assms unfolding parse_game_def game_report_ok_def
  by (auto dest: req_int_range opt_int_range req_enum_allowed)

lemma parse_pair_report_wf:
  assumes "parse_pair_report j = Inr report" and "json_ints_ok j"
  shows "report_wf report \<and> (\<forall>r \<in> set (pr_games report). game_report_ok r)"
proof -
  let ?parse = "\<lambda>id g0 g1.
    bindE (foldE store_game [g0, g1] [empty_game_report, empty_game_report]) (\<lambda>gs.
    bindE (guardE (json_find g0 ''game_in_pair'' \<noteq> json_find g1 ''game_in_pair'')
             (BadRequest ''games must have game_in_pair 0 and 1'')) (\<lambda>_.
      Inr \<lparr>pr_client_id = id, pr_games = gs\<rparr>))"
  from assms(1) obtain id games where m: "json_member j ''games'' = Some games" and
    "(case games of JArray [g0, g1] \<Rightarrow> ?parse id g0 g1
      | _ \<Rightarrow> Inl (BadRequest ''games must be an array with exactly 2 games'')) = Inr report"
    unfolding parse_pair_report_def bindE_eq_Inr_iff field_Inr Let_def by blast
  then obtain g0 g1 where games: "games = JArray [g0, g1]" and p: "?parse id g0 g1 = Inr report"
    by (auto split: json.splits list.splits simp del: bindE_eq_Inr_iff foldE.simps)
  note gs = m [unfolded games]
  from p obtain r0 r1 where
    r: "parse_game g0 = Inr r0" "parse_game g1 = Inr r1" and
    diff: "json_find g0 ''game_in_pair'' \<noteq> json_find g1 ''game_in_pair''" and
    games: "pr_games report = ([empty_game_report, empty_game_report]
      [nat (gr_game_in_pair r0) := r0])[nat (gr_game_in_pair r1) := r1]"
    by (auto simp: store_game_def)
  have ok: "json_ints_ok g0" "json_ints_ok g1"
    using json_member_ok [OF assms(2) gs] by auto
  have "gr_game_in_pair r0 \<noteq> gr_game_in_pair r1"
    using diff req_int_member [OF ok(1)] req_int_member [OF ok(2)]
      parse_game_ok [OF r(1)] parse_game_ok [OF r(2)] by auto
  then show ?thesis
    using parse_game_ok [OF r(1)] parse_game_ok [OF r(2)]
    by (auto simp: games report_wf_def)
qed

lemma parse_registration_slots: "parse_registration j = Inr reg \<Longrightarrow> 1 \<le> rg_slots reg"
  by (auto simp: parse_registration_def dest: req_int_range)

end
