(* ===== verification/Process.thy ===== *)
theory Process
  imports CppStrings
begin

text \<open>
  common/process.hpp and common/process.cpp: a child process with its pipes, the time limit,
  the cancellation and the bounded capture of its output. What the kernel answers is a
  parameter: one \<open>io_round\<close> per turn of the loop (the cancellation flag, the time left, the
  outcome of \<^verbatim>\<open>poll\<close> with the reads and writes it led to), the outcome of the calls before
  the loop, and whether the child ends by itself, which decides whether \<^verbatim>\<open>waitpid\<close> returns.
  The descriptors of the parent are resources that are opened and closed.
\<close>

section \<open>Data\<close>

record process_options =
  po_cwd :: string
  po_stdin_data :: string
  po_timeout_ms :: int
  po_max_output :: nat
  po_has_cancel :: bool
  po_cpu :: int

record process_result =
  pr_exit_code :: int
  pr_timed_out :: bool
  pr_cancelled :: bool
  pr_output :: string

text \<open>What became of the descriptors: \<^verbatim>\<open>POLLOUT\<close> and the result of \<^verbatim>\<open>write\<close> (\<open>WroteLost\<close> an
  error other than \<^verbatim>\<open>EAGAIN\<close> and \<^verbatim>\<open>EINTR\<close>), or \<^verbatim>\<open>POLLERR\<close>/\<^verbatim>\<open>POLLHUP\<close>.\<close>

datatype in_event = InQuiet | Wrote nat | WroteAgain | WroteLost | InHangup

datatype out_event = OutQuiet | OutRead string | OutEof | OutAgain | OutLost

datatype poll_event = PollInterrupted | PollFailed | Polled in_event out_event

record io_round =
  ir_cancel :: bool
  ir_left_ms :: int
  ir_poll :: poll_event

text \<open>The four ends of the two pipes.\<close>

datatype pipe_end = InRead | InWrite | OutReadEnd | OutWriteEnd

record parent_state =
  ps_open :: "pipe_end list"
  ps_in_open :: bool
  ps_written :: nat
  ps_output :: string
  ps_timed_out :: bool
  ps_cancelled :: bool
  ps_kills :: nat

section \<open>The bounded capture\<close>

definition keep_last :: "nat \<Rightarrow> string \<Rightarrow> string" where
  "keep_last n s = drop (length s - n) s"

definition append_output :: "nat \<Rightarrow> string \<Rightarrow> string \<Rightarrow> string" where
  "append_output limit out chunk =
     (let s = out @ chunk in if 2 * limit < length s then keep_last limit s else s)"

definition final_output :: "nat \<Rightarrow> string \<Rightarrow> string" where
  "final_output limit s = (if limit < length s then keep_last limit s else s)"

section \<open>The loop of the parent\<close>

definition close_end :: "pipe_end \<Rightarrow> parent_state \<Rightarrow> parent_state" where
  "close_end e st = st\<lparr>ps_open := remove1 e (ps_open st)\<rparr>"

definition kill_group :: "parent_state \<Rightarrow> parent_state" where
  "kill_group st = st\<lparr>ps_kills := ps_kills st + 1\<rparr>"

text \<open>The value of \<^verbatim>\<open>wait_ms\<close> handed to \<^verbatim>\<open>poll\<close> .\<close>

definition wait_ms :: "process_options \<Rightarrow> int \<Rightarrow> int" where
  "wait_ms opts left =
     (let w = (if 0 < po_timeout_ms opts then wrap_int 32 left else - 1)
      in if po_has_cancel opts \<and> (w < 0 \<or> 200 < w) then 200 else w)"

definition feed_stdin :: "process_options \<Rightarrow> in_event \<Rightarrow> parent_state \<Rightarrow> parent_state" where
  "feed_stdin opts ev st =
     (if \<not> ps_in_open st \<or> ev = InQuiet then st
      else
        let total = length (po_stdin_data opts);
            written = (case ev of Wrote n \<Rightarrow> ps_written st + n | WroteAgain \<Rightarrow> ps_written st | _ \<Rightarrow> total);
            st = st\<lparr>ps_written := written\<rparr>
        in if total \<le> written then (close_end InWrite st)\<lparr>ps_in_open := False\<rparr> else st)"

text \<open>The new state and whether the loop goes on.\<close>

definition drain_output :: "process_options \<Rightarrow> out_event \<Rightarrow> parent_state \<Rightarrow> parent_state \<times> bool" where
  "drain_output opts ev st =
     (case ev of
        OutRead chunk \<Rightarrow> (st\<lparr>ps_output := append_output (po_max_output opts) (ps_output st) chunk\<rparr>, True)
      | OutEof \<Rightarrow> (st, False)
      | OutLost \<Rightarrow> (st, False)
      | _ \<Rightarrow> (st, True))"

definition io_step :: "process_options \<Rightarrow> io_round \<Rightarrow> parent_state \<Rightarrow> parent_state \<times> bool" where
  "io_step opts r st =
     (if po_has_cancel opts \<and> ir_cancel r then (kill_group (st\<lparr>ps_cancelled := True\<rparr>), False)
      else if 0 < po_timeout_ms opts \<and> ir_left_ms r \<le> 0
      then (kill_group (st\<lparr>ps_timed_out := True\<rparr>), False)
      else case ir_poll r of
        PollInterrupted \<Rightarrow> (st, True)
      | PollFailed \<Rightarrow> (kill_group st, False)
      | Polled ev_in ev_out \<Rightarrow> drain_output opts ev_out (feed_stdin opts ev_in st))"

text \<open>\<^const>\<open>None\<close>: the loop has not ended within the rounds given.\<close>

fun io_loop :: "process_options \<Rightarrow> io_round list \<Rightarrow> parent_state \<Rightarrow> parent_state option" where
  "io_loop opts [] st = None"
| "io_loop opts (r # rs) st =
     (case io_step opts r st of (st, go) \<Rightarrow> if go then io_loop opts rs st else Some st)"

section \<open>The whole call\<close>

text \<open>
  The calls before the loop: the \<^verbatim>\<open>pipe\<close> of each pair and \<^verbatim>\<open>fork\<close>, which succeed or not.
  On an exception the descriptors that are open when it leaves the function are returned
  with it.
\<close>

definition start_process ::
  "bool \<Rightarrow> string list \<Rightarrow> process_options \<Rightarrow> bool \<Rightarrow> bool \<Rightarrow> bool \<Rightarrow> (exn \<times> pipe_end list) + parent_state" where
  "start_process linux argv opts pipe_in pipe_out forked =
     (let opened = [InRead, InWrite, OutReadEnd, OutWriteEnd]
      in if argv = [] then Inl (InvalidArgument, [])
         else if \<not> linux \<and> 0 \<le> po_cpu opts then Inl (InvalidArgument, [])
         else if \<not> pipe_in then Inl (RuntimeError ''pipe: '', [])
         else if \<not> pipe_out then Inl (RuntimeError ''pipe: '', [InRead, InWrite])
         else if \<not> forked then Inl (RuntimeError ''fork: '', fold remove1 opened opened)
         else
           let st = \<lparr>ps_open = opened, ps_in_open = True, ps_written = 0, ps_output = [],
                     ps_timed_out = False, ps_cancelled = False, ps_kills = 0\<rparr>;
               st = close_end OutWriteEnd (close_end InRead st)
           in Inr (if po_stdin_data opts = []
                   then (close_end InWrite st)\<lparr>ps_in_open := False\<rparr> else st))"

text \<open>
  The child as \<^verbatim>\<open>waitpid\<close> meets it: it ends by itself, with the code of a normal exit or
  \<^const>\<open>None\<close> when a signal ended it, or it runs on until it is killed. A child that is killed with
  its group is taken to be in that group, where it puts itself before anything else. The call has
  no time limit: it does not return (\<^const>\<open>None\<close>) while a child runs on that nobody has killed.
\<close>

datatype child = Ends "int option" | RunsOn

definition wait_child :: "child \<Rightarrow> parent_state \<Rightarrow> int option option" where
  "wait_child child st =
     (case child of Ends status \<Rightarrow> Some status | RunsOn \<Rightarrow> if 0 < ps_kills st then Some None else None)"

text \<open>After the loop.\<close>

definition end_process :: "process_options \<Rightarrow> child \<Rightarrow> parent_state \<Rightarrow> (process_result \<times> parent_state) option" where
  "end_process opts child st =
     (let st = (if ps_in_open st then (close_end InWrite st)\<lparr>ps_in_open := False\<rparr> else st);
          st = close_end OutReadEnd st
      in case wait_child child st of
           None \<Rightarrow> None
         | Some status \<Rightarrow>
             let st = (if ps_timed_out st \<or> ps_cancelled st then kill_group st else st)
             in Some (\<lparr>pr_exit_code = (case status of None \<Rightarrow> - 1 | Some c \<Rightarrow> c),
                  pr_timed_out = ps_timed_out st, pr_cancelled = ps_cancelled st,
                  pr_output = final_output (po_max_output opts) (ps_output st)\<rparr>, st))"

text \<open>The exit code of a child that fails before the program runs.\<close>

definition child_setup :: "process_options \<Rightarrow> bool \<Rightarrow> bool \<Rightarrow> bool \<Rightarrow> int option" where
  "child_setup opts chdir_ok affinity_ok exec_ok =
     (if po_cwd opts \<noteq> [] \<and> \<not> chdir_ok then Some 127
      else if 0 \<le> po_cpu opts \<and> \<not> affinity_ok then Some 126
      else if \<not> exec_ok then Some 127
      else None)"

definition run_process ::
  "process_options \<Rightarrow> io_round list \<Rightarrow> child \<Rightarrow> parent_state \<Rightarrow> (process_result \<times> parent_state) option" where
  "run_process opts rounds child st =
     (case io_loop opts rounds st of None \<Rightarrow> None | Some st \<Rightarrow> end_process opts child st)"

section \<open>The last lines\<close>

text \<open>
  The loop of \<^verbatim>\<open>tail_lines\<close> walks back from the end, over the text reversed: the bytes it
  keeps, \<open>lines\<close> counting the line breaks passed.
\<close>

fun tail_back :: "nat \<Rightarrow> nat \<Rightarrow> string \<Rightarrow> string" where
  "tail_back m lines [] = []"
| "tail_back m lines (c # cs) =
     (if c = newline then (if lines + 1 = m then [] else c # tail_back m (lines + 1) cs)
      else c # tail_back m lines cs)"

definition tail_lines :: "string \<Rightarrow> nat \<Rightarrow> string" where
  "tail_lines text max_lines = rev (tail_back max_lines 0 (dropWhile (\<lambda>c. c = newline) (rev text)))"

section \<open>Lemmas on the capture\<close>

lemma keep_last_suffix: "\<exists>t. s = t @ keep_last n s"
  unfolding keep_last_def by (metis append_take_drop_id)

lemma length_keep_last: "length (keep_last n s) = min n (length s)"
  by (simp add: keep_last_def)

lemma keep_last_append: "keep_last n (keep_last n s @ t) = keep_last n (s @ t)"
  by (cases "length s \<le> n") (simp_all add: keep_last_def add.commute)

lemma keep_last_idem [simp]: "keep_last n (keep_last n s) = keep_last n s"
  using keep_last_append [of n s "[]"] by simp

lemma final_output_eq: "final_output n s = keep_last n s"
  by (simp add: final_output_def keep_last_def)

lemma keep_last_append_output:
  "keep_last n (append_output n out chunk) = keep_last n (keep_last n out @ chunk)"
  by (simp add: append_output_def Let_def keep_last_append)

lemma length_append_output: "length (append_output n out chunk) \<le> 2 * n"
  by (simp add: append_output_def Let_def length_keep_last)

section \<open>Lemmas on the loop\<close>

text \<open>What the rounds of a run read, in order.\<close>

fun chunks_read :: "process_options \<Rightarrow> io_round list \<Rightarrow> string" where
  "chunks_read opts [] = []"
| "chunks_read opts (r # rs) =
     (if po_has_cancel opts \<and> ir_cancel r \<or> 0 < po_timeout_ms opts \<and> ir_left_ms r \<le> 0 then []
      else case ir_poll r of
        PollInterrupted \<Rightarrow> chunks_read opts rs
      | PollFailed \<Rightarrow> []
      | Polled _ (OutRead c) \<Rightarrow> c @ chunks_read opts rs
      | Polled _ OutEof \<Rightarrow> []
      | Polled _ OutLost \<Rightarrow> []
      | Polled _ _ \<Rightarrow> chunks_read opts rs)"

lemma ends_simps [simp]:
  "ps_output (close_end e st) = ps_output st" "ps_in_open (close_end e st) = ps_in_open st"
  "ps_timed_out (close_end e st) = ps_timed_out st" "ps_cancelled (close_end e st) = ps_cancelled st"
  "ps_kills (close_end e st) = ps_kills st" "ps_written (close_end e st) = ps_written st"
  "ps_open (close_end e st) = remove1 e (ps_open st)"
  "ps_output (kill_group st) = ps_output st" "ps_in_open (kill_group st) = ps_in_open st"
  "ps_timed_out (kill_group st) = ps_timed_out st" "ps_cancelled (kill_group st) = ps_cancelled st"
  "ps_kills (kill_group st) = ps_kills st + 1" "ps_written (kill_group st) = ps_written st"
  "ps_open (kill_group st) = ps_open st"
  by (simp_all add: close_end_def kill_group_def)

lemma feed_stdin_keeps [simp]:
  "ps_output (feed_stdin opts ev st) = ps_output st"
  "ps_timed_out (feed_stdin opts ev st) = ps_timed_out st"
  "ps_cancelled (feed_stdin opts ev st) = ps_cancelled st"
  "ps_kills (feed_stdin opts ev st) = ps_kills st"
  by (simp_all add: feed_stdin_def Let_def)

text \<open>The invariant of the parent while it loops.\<close>

definition parent_inv :: "process_options \<Rightarrow> parent_state \<Rightarrow> bool" where
  "parent_inv opts st \<longleftrightarrow>
     ps_open st = (if ps_in_open st then [InWrite, OutReadEnd] else [OutReadEnd]) \<and>
     \<not> ps_timed_out st \<and> \<not> ps_cancelled st \<and> ps_kills st = 0 \<and>
     length (ps_output st) \<le> 2 * po_max_output opts"

lemma start_inv:
  "start_process linux argv opts pin pout frk = Inr st \<Longrightarrow> parent_inv opts st \<and> ps_output st = []"
  by (auto simp: start_process_def parent_inv_def Let_def split: if_splits)

text \<open>The state of a parent that has left the loop.\<close>

definition parent_done :: "process_options \<Rightarrow> parent_state \<Rightarrow> bool" where
  "parent_done opts st \<longleftrightarrow>
     ps_open st = (if ps_in_open st then [InWrite, OutReadEnd] else [OutReadEnd]) \<and>
     length (ps_output st) \<le> 2 * po_max_output opts \<and>
     (ps_timed_out st \<or> ps_cancelled st \<longrightarrow> ps_kills st = 1)"

lemma parent_inv_done: "parent_inv opts st \<Longrightarrow> parent_done opts st"
  by (simp add: parent_inv_def parent_done_def)

lemma feed_stdin_inv: "parent_inv opts st \<Longrightarrow> parent_inv opts (feed_stdin opts ev st)"
  by (auto simp: parent_inv_def feed_stdin_def Let_def)

lemma drain_output_inv:
  "parent_inv opts st \<Longrightarrow> drain_output opts ev st = (st', go) \<Longrightarrow> parent_inv opts st'"
  by (auto simp: drain_output_def parent_inv_def length_append_output split: out_event.splits)

lemma io_step_inv:
  assumes "parent_inv opts st" and "io_step opts r st = (st', go)"
  shows "parent_done opts st' \<and> (go \<longrightarrow> parent_inv opts st')"
proof (cases "ir_poll r")
  case (Polled i out)
  show ?thesis
  proof (cases "po_has_cancel opts \<and> ir_cancel r \<or> 0 < po_timeout_ms opts \<and> ir_left_ms r \<le> 0")
    case True
    then show ?thesis using assms by (auto simp: io_step_def parent_inv_def parent_done_def split: if_splits)
  next
    case False
    then have "drain_output opts out (feed_stdin opts i st) = (st', go)"
      using assms(2) Polled by (auto simp: io_step_def)
    then have "parent_inv opts st'" by (rule drain_output_inv [OF feed_stdin_inv [OF assms(1)]])
    then show ?thesis using parent_inv_done by blast
  qed
qed (use assms in \<open>auto simp: io_step_def parent_inv_def parent_done_def split: if_splits\<close>)

lemma io_step_output:
  assumes "io_step opts r st = (st', go)"
  shows "keep_last (po_max_output opts)
           (ps_output st' @ (if go then chunks_read opts rs else []))
         = keep_last (po_max_output opts) (ps_output st @ chunks_read opts (r # rs))"
proof -
  have "keep_last n (append_output n out c @ t) = keep_last n (out @ c @ t)" for n out c t
    using keep_last_append [of n "append_output n out c" t] keep_last_append [of n out c]
      keep_last_append [of n "out @ c" t] by (simp add: keep_last_append_output)
  then show ?thesis
    using assms
    by (auto simp: io_step_def drain_output_def split: if_splits poll_event.splits out_event.splits)
qed

lemma io_loop_output:
  "io_loop opts rounds st = Some st' \<Longrightarrow>
     keep_last (po_max_output opts) (ps_output st')
     = keep_last (po_max_output opts) (ps_output st @ chunks_read opts rounds)"
proof (induction rounds arbitrary: st)
  case Nil
  then show ?case by simp
next
  case (Cons r rs)
  obtain st1 go where s: "io_step opts r st = (st1, go)" by fastforce
  show ?case
  proof (cases go)
    case True
    then show ?thesis using Cons s io_step_output [OF s, of rs] by simp
  next
    case False
    then show ?thesis using Cons.prems s io_step_output [OF s, of rs] by simp
  qed
qed

lemma io_loop_done: "io_loop opts rounds st = Some st' \<Longrightarrow> parent_inv opts st \<Longrightarrow> parent_done opts st'"
proof (induction rounds arbitrary: st)
  case Nil
  then show ?case by simp
next
  case (Cons r rs)
  obtain st1 go where s: "io_step opts r st = (st1, go)" by fastforce
  then show ?case
    using Cons io_step_inv [OF Cons.prems(2) s] by (cases go) auto
qed

text \<open>Whether the loop ends because the output is at its end, which kills nobody.\<close>

fun output_closed :: "process_options \<Rightarrow> io_round list \<Rightarrow> bool" where
  "output_closed opts [] = False"
| "output_closed opts (r # rs) =
     (if po_has_cancel opts \<and> ir_cancel r \<or> 0 < po_timeout_ms opts \<and> ir_left_ms r \<le> 0 then False
      else case ir_poll r of
        PollInterrupted \<Rightarrow> output_closed opts rs
      | PollFailed \<Rightarrow> False
      | Polled _ OutEof \<Rightarrow> True
      | Polled _ OutLost \<Rightarrow> True
      | Polled _ _ \<Rightarrow> output_closed opts rs)"

lemma drain_output_kills: "drain_output opts ev st = (st', go) \<Longrightarrow> ps_kills st' = ps_kills st"
  by (auto simp: drain_output_def split: out_event.splits)

lemma io_step_closed:
  assumes "io_step opts r st = (st', go)" and "ps_kills st = 0"
  shows "if go then ps_kills st' = 0 \<and> output_closed opts (r # rs) = output_closed opts rs
    else 0 < ps_kills st' \<longleftrightarrow> \<not> output_closed opts (r # rs)"
proof (cases "po_has_cancel opts \<and> ir_cancel r \<or> 0 < po_timeout_ms opts \<and> ir_left_ms r \<le> 0")
  case True
  then show ?thesis using assms by (auto simp: io_step_def split: if_splits)
next
  case False
  then show ?thesis
    using assms
    by (auto simp: io_step_def drain_output_def split: if_splits poll_event.splits out_event.splits)
qed

lemma io_loop_closed:
  "io_loop opts rounds st = Some st' \<Longrightarrow> ps_kills st = 0 \<Longrightarrow> 0 < ps_kills st' \<longleftrightarrow> \<not> output_closed opts rounds"
proof (induction rounds arbitrary: st)
  case (Cons r rs)
  obtain st1 go where s: "io_step opts r st = (st1, go)" by fastforce
  show ?case
    using Cons.prems Cons.IH [of st1] s io_step_closed [OF s Cons.prems(2), of rs] by (cases go) simp_all
qed simp

lemma end_process_returns:
  "end_process opts child st = None \<longleftrightarrow> child = RunsOn \<and> ps_kills st = 0"
  by (cases child) (auto simp: end_process_def wait_child_def Let_def)

lemma end_process_Some:
  assumes "end_process opts child st = Some (res, st')" and "parent_done opts st"
  shows "ps_open st' = []" and "ps_output st' = ps_output st"
    and "pr_output res = keep_last (po_max_output opts) (ps_output st)"
    and "pr_timed_out res = ps_timed_out st" and "pr_cancelled res = ps_cancelled st"
    and "pr_timed_out res \<or> pr_cancelled res \<Longrightarrow> 0 < ps_kills st'"
  using assms
  by (auto simp: end_process_def parent_done_def Let_def final_output_eq split: option.splits if_splits)

end
