(* ===== verification/Github.thy ===== *)
theory Github
  imports ServerConfig Process
begin

text \<open>
  server/github.hpp and server/github.cpp: a git ref resolved to a full commit hash through
  the GitHub API, asked with \<^verbatim>\<open>curl\<close>. Parameters: \<open>curl\<close>, the exit code and output of
  \<^verbatim>\<open>curl -K -\<close> on a configuration, and \<open>parse\<close>, the JSON parser.
\<close>

definition quoted :: "string \<Rightarrow> string \<Rightarrow> string" where
  "quoted key v = key @ '' = '' @ [CHR 0x22] @ v @ [CHR 0x22, newline]"

definition curl_config :: "server_config \<Rightarrow> string \<Rightarrow> string" where
  "curl_config cfg ref =
     quoted ''url'' (github_api cfg @ ''/repos/'' @ github_repo cfg @ ''/commits/'' @ ref)
     @ quoted ''header'' ''Accept: application/vnd.github+json''
     @ quoted ''header'' ''X-GitHub-Api-Version: 2022-11-28''
     @ quoted ''header'' ''User-Agent: capi_net''
     @ (if github_token cfg \<noteq> [] then quoted ''header'' (''Authorization: Bearer '' @ github_token cfg) else [])
     @ ''silent'' @ [newline] @ ''show-error'' @ [newline] @ ''location'' @ [newline]
     @ ''max-time = 20'' @ [newline]
     @ quoted ''write-out'' ([CHR 0x5C] @ ''n%{http_code}'')"

text \<open>The body and the status that \<^verbatim>\<open>write-out\<close> has put after the last line break.\<close>

definition split_status :: "string \<Rightarrow> string \<times> string" where
  "split_status output =
     (if newline \<in> set output
      then (rev (drop 1 (dropWhile (\<lambda>c. c \<noteq> newline) (rev output))),
            rev (takeWhile (\<lambda>c. c \<noteq> newline) (rev output)))
      else (output, []))"

definition sha_of_body :: "json option \<Rightarrow> string option" where
  "sha_of_body body =
     (case body of
        Some (JObject kvs) \<Rightarrow>
          (case map_of kvs ''sha'' of
             Some (JString s) \<Rightarrow> if is_full_sha s then Some s else None
           | _ \<Rightarrow> None)
      | _ \<Rightarrow> None)"

definition resolve_ref ::
  "(string \<Rightarrow> int \<times> string) \<Rightarrow> (string \<Rightarrow> json option) \<Rightarrow> server_config \<Rightarrow> string \<Rightarrow> string result" where
  "resolve_ref curl parse cfg ref =
     (case curl (curl_config cfg ref) of (exit_code, output) \<Rightarrow>
        if exit_code \<noteq> 0
        then Inl (GithubErr (''GitHub API unreachable: '' @ tail_lines output 3) False)
        else case split_status output of (body, code) \<Rightarrow>
          if code = ''404'' \<or> code = ''422''
          then Inl (GithubErr (''ref not found in '' @ github_repo cfg @ '': '' @ ref) True)
          else if code \<noteq> ''200''
          then Inl (GithubErr (''GitHub API returned HTTP '' @ code @ '' for ref '' @ ref) False)
          else case sha_of_body (parse body) of
            None \<Rightarrow> Inl (GithubErr (''unexpected GitHub API response for ref '' @ ref) False)
          | Some sha \<Rightarrow> Inr sha)"

lemma resolve_ref_sha: "resolve_ref curl parse cfg ref = Inr sha \<Longrightarrow> is_full_sha sha"
  by (auto simp: resolve_ref_def sha_of_body_def split: prod.splits if_splits option.splits json.splits)

lemma resolve_ref_error: "resolve_ref curl parse cfg ref = Inl e \<Longrightarrow> \<exists>m nf. e = GithubErr m nf"
  by (auto simp: resolve_ref_def split: prod.splits if_splits option.splits)

end
