(* ===== verification/AdminRoutes.thy ===== *)
theory AdminRoutes
  imports Routes Admin Smoke Github
begin

text \<open>
  server/http/admin_routes.cpp: the handlers that create, read, reprioritise, stop and list
  tests. Beside the parameters of the clients' routes: the file system of the books, the cache
  of their counts, and \<open>resolve\<close>, the resolution of a ref (\<^verbatim>\<open>resolve_ref\<close> for the
  configuration and the outcome of its calls to GitHub).
\<close>

section \<open>Creation\<close>

text \<open>
  A handler that ends early with a response is \<open>Inl\<close> of it inside the value. The checks of
  the body and of the book; the cache keeps what the count has stored, whatever follows.
\<close>

definition check_book ::
  "server_config \<Rightarrow> file_system \<Rightarrow> book_cache \<Rightarrow> test_spec \<Rightarrow> (response option \<times> book_cache) result" where
  "check_book cfg fs cache spec =
     (let book = path_join (books_dir cfg) (sp_book_name spec)
      in if fs book = None
         then Inr (Some (send_error 400 ''invalid_spec'' (''book not found: '' @ sp_book_name spec)), cache)
         else
           bindE (count_book_positions fs cache book) (\<lambda>(available, cache).
             if available < nat (sp_total_pairs spec)
             then Inr (Some (send_error 400 ''invalid_spec''
                    (''total_pairs ('' @ show_int (sp_total_pairs spec) @ '') exceeds the '' @
                     show_nat available @ '' positions in '' @ sp_book_name spec)), cache)
             else Inr (None, cache)))"

text \<open>\<^verbatim>\<open>candidate = resolve_ref(..); baseline = resolve_ref(..);\<close> with the handler of \<^verbatim>\<open>GithubError\<close> .\<close>

definition resolve_both ::
  "(string \<Rightarrow> string result) \<Rightarrow> test_spec \<Rightarrow> (response + string \<times> string) result" where
  "resolve_both resolve spec =
     (case bindE (resolve (sp_candidate_ref spec)) (\<lambda>candidate.
           bindE (resolve (sp_baseline_ref spec)) (\<lambda>baseline. Inr (candidate, baseline))) of
        Inl (GithubErr m not_found) \<Rightarrow>
          Inr (Inl (if not_found then send_error 400 ''ref_not_found'' m
                    else send_error 502 ''github_unavailable'' m))
      | Inl e \<Rightarrow> Inl e
      | Inr cb \<Rightarrow> Inr (Inr cb))"

definition created_json :: "int \<Rightarrow> test_spec \<Rightarrow> string \<Rightarrow> string \<Rightarrow> json" where
  "created_json i spec candidate baseline =
     JObject [(''test_id'', JInt i), (''status'', JString ''validating''),
       (''candidate'', JObject [(''ref'', JString (sp_candidate_ref spec)), (''commit'', JString candidate)]),
       (''baseline'', JObject [(''ref'', JString (sp_baseline_ref spec)), (''commit'', JString baseline)])]"

text \<open>After the checks: the refs, the row, the notification of the smoke worker.\<close>

definition store_test ::
  "(string \<Rightarrow> string result) \<Rightarrow> unit result \<Rightarrow> real \<Rightarrow> test_spec \<Rightarrow> db \<Rightarrow> (response \<times> db \<times> bool) result" where
  "store_test resolve conn now spec db =
     bindE (resolve_both resolve spec) (\<lambda>r.
       case r of
         Inl res \<Rightarrow> Inr (res, db, False)
       | Inr (candidate, baseline) \<Rightarrow>
           if candidate = baseline
           then Inr (send_error 400 ''invalid_spec''
                  (''candidate and baseline resolve to the same commit '' @ candidate), db, False)
           else
             bindE conn (\<lambda>_.
             bindE (insert_test now spec candidate baseline db) (\<lambda>(i, db).
               Inr (send_json 201 (created_json i spec candidate baseline), db, True))))"

text \<open>The response, the database with whether the smoke worker was notified, and the cache.\<close>

definition post_tests ::
  "server_config \<Rightarrow> file_system \<Rightarrow> (string \<Rightarrow> string result) \<Rightarrow> unit result \<Rightarrow> real \<Rightarrow> json option \<Rightarrow>
   db \<Rightarrow> book_cache \<Rightarrow> (response \<times> db \<times> bool) \<times> book_cache" where
  "post_tests cfg fs resolve conn now body db cache =
     (case parse_body body of
        Inl e \<Rightarrow> (guarded (Inl e) (db, False), cache)
      | Inr body \<Rightarrow>
          (case parse_test_spec (- (2 ^ 63)) (cfg_sprt_presets cfg) body of
             Inl (SpecErr m) \<Rightarrow> ((send_error 400 ''invalid_spec'' m, db, False), cache)
           | Inl e \<Rightarrow> (guarded (Inl e) (db, False), cache)
           | Inr spec \<Rightarrow>
               (case check_book cfg fs cache spec of
                  Inl e \<Rightarrow> (guarded (Inl e) (db, False), cache)
                | Inr (Some res, cache) \<Rightarrow> ((res, db, False), cache)
                | Inr (None, cache) \<Rightarrow>
                    (guarded (store_test resolve conn now spec db) (db, False), cache))))"

section \<open>Validation, priority and stop\<close>

definition get_validation_route :: "unit result \<Rightarrow> string \<Rightarrow> db \<Rightarrow> response \<times> db" where
  "get_validation_route conn path db =
     guarded
       (bindE conn (\<lambda>_.
        bindE (path_id path) (\<lambda>test.
          case get_validation db test of
            None \<Rightarrow> Inr (send_error 404 ''test_not_found'' [], db)
          | Some v \<Rightarrow> Inr (send_json 200 (JObject [(''status'', JString (vi_status v)),
                        (''validation_log'', nullable JString (vi_log v))]), db)))) db"

definition priority_response :: "int \<Rightarrow> priority_outcome \<Rightarrow> response" where
  "priority_response priority r =
     (case pro_status r of
        PriorityNotFound \<Rightarrow> send_error 404 ''test_not_found'' []
      | PriorityNotQueued \<Rightarrow> send_error 409 ''conflict'' (''test is '' @ pro_test_status r)
      | PriorityUpdated \<Rightarrow>
          send_json 200 (JObject [(''status'', JString (pro_test_status r)),
                                  (''priority'', JInt priority)]))"

definition patch_priority :: "unit result \<Rightarrow> string \<Rightarrow> json option \<Rightarrow> db \<Rightarrow> response \<times> db" where
  "patch_priority conn path body db =
     guarded
       (bindE (parse_body body) (\<lambda>body.
        bindE (req_int body ''priority'' INT32_MIN) (\<lambda>priority.
        bindE conn (\<lambda>_.
        bindE (path_id path) (\<lambda>test.
          case set_priority test priority db of (r, db) \<Rightarrow>
            Inr (priority_response priority r, db)))))) db"

definition stop_response :: "stop_outcome \<Rightarrow> response" where
  "stop_response r =
     (case so_status r of
        StopNotFound \<Rightarrow> send_error 404 ''test_not_found'' []
      | StopAlreadyTerminal \<Rightarrow> send_error 409 ''conflict'' (''test is already '' @ so_previous_status r)
      | StopStopped \<Rightarrow>
          send_json 200 (JObject [(''status'', JString ''stopped''),
             (''previous_status'', JString (so_previous_status r)),
             (''promoted_test_id'', nullable JInt (so_promoted r))]))"

definition post_stop :: "unit result \<Rightarrow> real \<Rightarrow> string \<Rightarrow> db \<Rightarrow> response \<times> db" where
  "post_stop conn now path db =
     guarded
       (bindE (path_id path) (\<lambda>test.
        bindE conn (\<lambda>_.
          case stop_test now test db of (r, db) \<Rightarrow>
            Inr (stop_response r, db)))) db"

section \<open>The list of tests\<close>

definition summary_json :: "test_summary \<Rightarrow> json" where
  "summary_json t =
     JObject
       [(''test_id'', JInt (su_id t)), (''name'', JString (su_name t)), (''kind'', JString (su_kind t)),
        (''status'', JString (su_status t)), (''result'', JString (su_result t)),
        (''priority'', JInt (su_priority t)),
        (''candidate'', JObject [(''ref'', JString (su_candidate_ref t)),
                                 (''commit'', JString (su_candidate_commit t))]),
        (''baseline'', JObject [(''ref'', JString (su_baseline_ref t)),
                                (''commit'', JString (su_baseline_commit t))]),
        (''total_pairs'', JInt (su_total_pairs t)), (''pairs_valid'', JInt (su_pairs_valid t)),
        (''llr'', nullable JReal (su_llr t)), (''llr_lower'', nullable JReal (su_llr_lower t)),
        (''llr_upper'', nullable JReal (su_llr_upper t)), (''elo'', nullable JReal (su_elo t)),
        (''score'', score_json (su_wins t) (su_draws t) (su_losses t)),
        (''created_at'', JReal (su_created_at t))]"

definition list_limit :: "string option \<Rightarrow> int result" where
  "list_limit param =
     (case param of
        None \<Rightarrow> Inr 50
      | Some v \<Rightarrow>
          (case cpp_stoi v of
             None \<Rightarrow> Inl (BadRequest ''invalid limit'')
           | Some (limit, _) \<Rightarrow>
               if limit < 1 \<or> 1000 < limit then Inl (BadRequest ''limit must be in [1, 1000]'')
               else Inr limit))"

definition get_tests :: "unit result \<Rightarrow> string option \<Rightarrow> db \<Rightarrow> response \<times> db" where
  "get_tests conn param db =
     guarded
       (bindE (list_limit param) (\<lambda>limit.
        bindE conn (\<lambda>_.
        bindE (list_tests db limit) (\<lambda>ts.
          Inr (send_json 200 (JArray (map summary_json ts)), db))))) db"

section \<open>Lemmas\<close>

lemma send_status [simp]: "rs_status (send_error s e m) = s" "rs_status (send_json s j) = s"
  by (simp_all add: send_error_def send_json_def)

lemma list_limit_range: "list_limit param = Inr n \<Longrightarrow> 1 \<le> n \<and> n \<le> 1000"
  by (auto simp: list_limit_def split: option.splits if_splits)

text \<open>The list fails exactly when a waiting test has the least priority an \<^verbatim>\<open>INTEGER\<close> can hold.\<close>

lemma foldE_check_Inr:
  "foldE (\<lambda>x u. bindE (f x) (\<lambda>_. Inr u)) xs () = Inr () \<longleftrightarrow> (\<forall>x \<in> set xs. \<exists>y. f x = Inr y)"
  by (induction xs) auto

lemma list_tests_total:
  assumes "0 \<le> limit" and "\<And>t. t \<in> set (db_tests db) \<Longrightarrow> int32 (t_priority t)"
  shows "(\<exists>ts. list_tests db limit = Inr ts)
     \<longleftrightarrow> (\<forall>t \<in> set (db_tests db). waiting t \<longrightarrow> t_priority t \<noteq> INT32_MIN)"
proof -
  have "(\<exists>ts. list_tests db limit = Inr ts)
      \<longleftrightarrow> (\<forall>t \<in> set (filter waiting (db_tests db)). \<exists>y. pg_int4 (- t_priority t) = Inr y)"
    using assms(1) foldE_check_Inr [of "\<lambda>t. pg_int4 (- t_priority t)" "filter waiting (db_tests db)"]
    by (simp add: list_tests_def)
  also have "\<dots> \<longleftrightarrow> (\<forall>t \<in> set (db_tests db). waiting t \<longrightarrow> t_priority t \<noteq> INT32_MIN)"
    using assms(2) by (fastforce simp: in_int_range_def INT32_MIN_def)
  finally show ?thesis .
qed

end
