(* ===== verification/HttpServer.thy ===== *)
theory HttpServer
  imports AdminRoutes Server Guarantees
begin

text \<open>
  The JSON routes of the server together: a request, the handler it is dispatched to, and the
  refinement of the step relation by the handlers. Whatever a request holds, its handler
  either leaves the database as it is or performs one step of the relation, so everything
  proved of the steps holds of the server behind HTTP.
\<close>

datatype http_request =
    GetHealthz
  | PostRegister "json option"
  | PostHeartbeat string "json option"
  | GetActiveTest
  | PostClaim "json option"
  | PostResult string "json option"
  | PostAbandon string "json option"
  | GetStats string
  | PostTests "json option"
  | GetValidation string
  | PatchPriority string "json option"
  | PostStop string
  | GetTests "string option"

fun request_body :: "http_request \<Rightarrow> json option" where
  "request_body (PostRegister body) = body"
| "request_body (PostHeartbeat _ body) = body"
| "request_body (PostClaim body) = body"
| "request_body (PostResult _ body) = body"
| "request_body (PostAbandon _ body) = body"
| "request_body (PostTests body) = body"
| "request_body (PatchPriority _ body) = body"
| "request_body _ = None"

text \<open>What a request meets: the state of the connection, the time, the locks, GitHub's answers.\<close>

record http_world =
  w_conn :: "unit result"
  w_now :: real
  w_locked :: "int \<Rightarrow> bool"
  w_resolve :: "string \<Rightarrow> string result"

fun handle ::
  "server_config \<Rightarrow> file_system \<Rightarrow> (string \<Rightarrow> string result) \<Rightarrow> http_world \<Rightarrow> http_request \<Rightarrow>
   db \<times> book_cache \<Rightarrow> response \<times> db \<times> book_cache" where
  "handle cfg fs gzip w GetHealthz (db, cache) =
     (case get_healthz (w_conn w) db of (res, db) \<Rightarrow> (res, db, cache))"
| "handle cfg fs gzip w (PostRegister body) (db, cache) =
     (case post_register (w_conn w) (w_now w) body db of (res, db) \<Rightarrow> (res, db, cache))"
| "handle cfg fs gzip w (PostHeartbeat path body) (db, cache) =
     (case post_heartbeat (w_conn w) (w_now w) path body db of (res, db) \<Rightarrow> (res, db, cache))"
| "handle cfg fs gzip w GetActiveTest (db, cache) =
     (case get_active_test cfg (w_conn w) db of (res, db) \<Rightarrow> (res, db, cache))"
| "handle cfg fs gzip w (PostClaim body) (db, cache) =
     (case post_claim cfg (w_conn w) (w_locked w) (w_now w) body db of (res, db) \<Rightarrow> (res, db, cache))"
| "handle cfg fs gzip w (PostResult path body) (db, cache) =
     (case post_result (w_conn w) gzip (w_now w) path body db of (res, db) \<Rightarrow> (res, db, cache))"
| "handle cfg fs gzip w (PostAbandon path body) (db, cache) =
     (case post_abandon (w_conn w) path body db of (res, db) \<Rightarrow> (res, db, cache))"
| "handle cfg fs gzip w (GetStats path) (db, cache) =
     (case get_stats (w_conn w) path db of (res, db) \<Rightarrow> (res, db, cache))"
| "handle cfg fs gzip w (PostTests body) (db, cache) =
     (case post_tests cfg fs (w_resolve w) (w_conn w) (w_now w) body db cache of
        ((res, db, _), cache) \<Rightarrow> (res, db, cache))"
| "handle cfg fs gzip w (GetValidation path) (db, cache) =
     (case get_validation_route (w_conn w) path db of (res, db) \<Rightarrow> (res, db, cache))"
| "handle cfg fs gzip w (PatchPriority path body) (db, cache) =
     (case patch_priority (w_conn w) path body db of (res, db) \<Rightarrow> (res, db, cache))"
| "handle cfg fs gzip w (PostStop path) (db, cache) =
     (case post_stop (w_conn w) (w_now w) path db of (res, db) \<Rightarrow> (res, db, cache))"
| "handle cfg fs gzip w (GetTests param) (db, cache) =
     (case get_tests (w_conn w) param db of (res, db) \<Rightarrow> (res, db, cache))"

definition body_ok :: "http_request \<Rightarrow> bool" where
  "body_ok req \<longleftrightarrow> (case request_body req of None \<Rightarrow> True | Some j \<Rightarrow> json_ints_ok j)"

text \<open>A run of the server over the requests it receives; the maintenance thread and the smoke
  worker step in between.\<close>

inductive http_step ::
  "server_config \<Rightarrow> file_system \<Rightarrow> builder \<Rightarrow> (string \<Rightarrow> string result) \<Rightarrow>
   db \<times> book_cache \<Rightarrow> db \<times> book_cache \<Rightarrow> bool"
  for cfg fs build gzip where
  Request: "body_ok req \<Longrightarrow> handle cfg fs gzip w req s = (res, s') \<Longrightarrow> http_step cfg fs build gzip s s'"
| Expiry: "recover_expired_leases locked now (max_attempts cfg) db = Inr (lr, db') \<Longrightarrow>
    http_step cfg fs build gzip (db, cache) (db', cache)"
| Promotion: "promote_next_test now db = (i, db') \<Longrightarrow> http_step cfg fs build gzip (db, cache) (db', cache)"
| Validation: "find_test db test = Some t \<Longrightarrow>
    smoke_commit now test dispatch (smoke_test cfg fs build t) db = Inr (r, db') \<Longrightarrow>
    http_step cfg fs build gzip (db, cache) (db', cache)"

section \<open>Every handler is a step\<close>

text \<open>The effect of a guarded handler that ends in one call on the database.\<close>

definition stays_or_steps ::
  "server_config \<Rightarrow> file_system \<Rightarrow> builder \<Rightarrow> (string \<Rightarrow> string result) \<Rightarrow> db \<Rightarrow> db \<Rightarrow> bool" where
  "stays_or_steps cfg fs build gzip db db' \<longleftrightarrow> db' = db \<or> server_step cfg fs build gzip db db'"

text \<open>The steps of the operations that cannot fail, by their results.\<close>

lemma total_steps:
  "server_step cfg fs build gzip db (snd (heartbeat now client factor db))"
  "server_step cfg fs build gzip db (snd (abandon_pair pair client db))"
  "server_step cfg fs build gzip db (snd (stop_test now test db))"
  "server_step cfg fs build gzip db (snd (set_priority test n db))"
  by (rule Heartbeat Abandon Stop Priority, rule prod.collapse [symmetric])+

lemma post_register_steps:
  "post_register conn now body db = (res, db') \<Longrightarrow> stays_or_steps cfg fs build gzip db db'"
  unfolding post_register_def stays_or_steps_def
  by (erule guarded_cases) (auto intro: Register parse_registration_slots)

lemma post_heartbeat_steps:
  "post_heartbeat conn now path body db = (res, db') \<Longrightarrow> stays_or_steps cfg fs build gzip db db'"
  unfolding post_heartbeat_def stays_or_steps_def
  by (erule guarded_cases) (auto simp: case_prod_beta total_steps split: option.splits if_splits)

lemma post_claim_steps:
  "post_claim cfg conn locked now body db = (res, db') \<Longrightarrow> stays_or_steps cfg fs build gzip db db'"
  unfolding post_claim_def stays_or_steps_def
  by (erule guarded_cases) (auto intro: Claim)

lemma post_result_steps:
  assumes "post_result conn gzip now path body db = (res, db')"
    and "\<And>j. body = Some j \<Longrightarrow> json_ints_ok j"
  shows "stays_or_steps cfg fs build gzip db db'"
  using assms(1) unfolding post_result_def
proof (rule guarded_cases)
  assume "bindE (path_id path) (\<lambda>pair_id. bindE (parse_body body) (\<lambda>j.
      bindE (parse_pair_report j) (\<lambda>report. bindE conn (\<lambda>_.
      bindE (submit_result gzip now pair_id report db) (\<lambda>(r, db). Inr (submit_response r, db)))))) = Inr (res, db')"
  then obtain pair j report r where p: "parse_body body = Inr j" "parse_pair_report j = Inr report"
    "submit_result gzip now pair report db = Inr (r, db')" by auto
  from p(1) have "body = Some j" by (auto simp: parse_body_def split: option.splits if_splits)
  then have "report_wf report" using parse_pair_report_wf [OF p(2)] assms(2) by simp
  then have "server_step cfg fs build gzip db db'" using p(3) by (rule Submit)
  then show ?thesis by (simp add: stays_or_steps_def)
qed (simp add: stays_or_steps_def)

lemma post_abandon_steps:
  "post_abandon conn path body db = (res, db') \<Longrightarrow> stays_or_steps cfg fs build gzip db db'"
  unfolding post_abandon_def stays_or_steps_def
  by (erule guarded_cases) (auto simp: case_prod_beta total_steps split: option.splits if_splits)

lemma patch_priority_steps:
  "patch_priority conn path body db = (res, db') \<Longrightarrow> stays_or_steps cfg fs build gzip db db'"
  unfolding patch_priority_def stays_or_steps_def
  by (erule guarded_cases) (auto simp: case_prod_beta total_steps split: option.splits if_splits)

lemma post_stop_steps:
  "post_stop conn now path db = (res, db') \<Longrightarrow> stays_or_steps cfg fs build gzip db db'"
  unfolding post_stop_def stays_or_steps_def
  by (erule guarded_cases) (auto simp: case_prod_beta total_steps split: option.splits if_splits)

lemma store_test_steps:
  assumes "parse_test_spec (- (2 ^ 63)) (cfg_sprt_presets cfg) body = Inr spec"
    and "store_test resolve conn now spec db = Inr (res, db', told)"
  shows "stays_or_steps cfg fs build gzip db db'"
proof -
  from assms(2) obtain r where r: "resolve_both resolve spec = Inr r"
    by (auto simp: store_test_def)
  show ?thesis
  proof (cases r)
    case (Inl res')
    then show ?thesis using assms(2) r by (simp add: store_test_def stays_or_steps_def)
  next
    case (Inr cb)
    obtain candidate baseline where cb: "cb = (candidate, baseline)" by fastforce
    show ?thesis
    proof (cases "candidate = baseline")
      case True
      then show ?thesis using assms(2) r Inr cb by (simp add: store_test_def stays_or_steps_def)
    next
      case False
      then obtain i where "insert_test now spec candidate baseline db = Inr (i, db')"
        using assms(2) r Inr cb by (auto simp: store_test_def)
      then have "server_step cfg fs build gzip db db'" by (rule Create [OF assms(1)])
      then show ?thesis by (simp add: stays_or_steps_def)
    qed
  qed
qed

lemma post_tests_steps:
  assumes "post_tests cfg fs resolve conn now body db cache = ((res, db', told), cache')"
  shows "stays_or_steps cfg fs build gzip db db'"
proof (cases "parse_body body")
  case (Inr j)
  show ?thesis
  proof (cases "parse_test_spec (- (2 ^ 63)) (cfg_sprt_presets cfg) j")
    case (Inr spec)
    have "guarded (store_test resolve conn now spec db) (db, False) = (res, db', told) \<or> db' = db"
      using assms \<open>parse_body body = Inr j\<close> Inr
      by (auto simp: post_tests_def guarded_def split: sum.splits option.splits)
    then consider "db' = db" | "store_test resolve conn now spec db = Inr (res, db', told)"
      by (auto simp: guarded_def split: sum.splits)
    then show ?thesis
      by cases (simp add: stays_or_steps_def, rule store_test_steps [OF Inr])
  qed (use assms Inr in \<open>auto simp: post_tests_def guarded_def stays_or_steps_def split: exn.splits\<close>)
qed (use assms in \<open>auto simp: post_tests_def guarded_def stays_or_steps_def\<close>)

lemma read_handlers:
  "get_healthz conn db = (res, db') \<Longrightarrow> db' = db"
  "get_active_test cfg conn db = (res, db') \<Longrightarrow> db' = db"
  "get_stats conn path db = (res, db') \<Longrightarrow> db' = db"
  "get_validation_route conn path db = (res, db') \<Longrightarrow> db' = db"
  "get_tests conn param db = (res, db') \<Longrightarrow> db' = db"
  unfolding get_healthz_def get_active_test_def get_stats_def get_validation_route_def get_tests_def
  by (auto simp: guarded_def split: sum.splits option.splits)

lemma handle_steps:
  assumes "handle cfg fs gzip w req (db, cache) = (res, db', cache')" and "body_ok req"
  shows "stays_or_steps cfg fs build gzip db db'"
proof (cases req)
  case (PostResult path body)
  then have "post_result (w_conn w) gzip (w_now w) path body db = (res, db')"
    using assms(1) by (auto split: prod.splits)
  then show ?thesis
    by (rule post_result_steps) (use assms(2) PostResult in \<open>simp add: body_ok_def\<close>)
next
  case (PostTests body)
  then obtain told where "post_tests cfg fs (w_resolve w) (w_conn w) (w_now w) body db cache = ((res, db', told), cache')"
    using assms(1) by (auto split: prod.splits)
  then show ?thesis by (rule post_tests_steps)
qed (use assms(1) in \<open>auto simp: stays_or_steps_def dest!: read_handlers
      dest: post_register_steps [unfolded stays_or_steps_def]
        post_heartbeat_steps [unfolded stays_or_steps_def] post_claim_steps [unfolded stays_or_steps_def]
        post_abandon_steps [unfolded stays_or_steps_def] patch_priority_steps [unfolded stays_or_steps_def]
        post_stop_steps [unfolded stays_or_steps_def]
      split: prod.splits\<close>)

lemma http_step_refines:
  assumes "http_step cfg fs build gzip s s'"
  shows "stays_or_steps cfg fs build gzip (fst s) (fst s')"
  using assms
proof cases
  case (Request req w res)
  then show ?thesis using handle_steps by (cases s; cases s') auto
next
  case (Expiry locked now db lr db' cache)
  then show ?thesis by (auto simp: stays_or_steps_def intro: Recover)
next
  case (Promotion now db i db' cache)
  then show ?thesis by (auto simp: stays_or_steps_def intro: Promote)
next
  case (Validation db test t now dispatch r db' cache)
  then show ?thesis by (auto simp: stays_or_steps_def intro: Smoke)
qed

text \<open>The interface of a system refined by another: each concrete step stays or steps.\<close>

lemma http_run_refines:
  assumes "(http_step cfg fs build gzip)\<^sup>*\<^sup>* s s'"
  shows "server_run cfg fs build gzip (fst s) (fst s')"
  using assms
proof (induction rule: rtranclp_induct)
  case base
  then show ?case by simp
next
  case (step y z)
  then show ?case
    using http_step_refines [OF step.hyps(2)] by (auto simp: stays_or_steps_def)
qed

section \<open>Errors change nothing\<close>

text \<open>A failed response: the client is told that the request was not carried out.\<close>

definition failed :: "response \<Rightarrow> bool" where
  "failed res \<longleftrightarrow> 400 \<le> rs_status res"

lemma failed_send [simp]:
  "failed (send_error s e m) \<longleftrightarrow> 400 \<le> s" "failed (send_json s j) \<longleftrightarrow> 400 \<le> s"
  "\<not> failed no_content"
  by (simp_all add: failed_def no_content_def)

lemma heartbeat_unknown: "heartbeat now c f db = (None, db') \<Longrightarrow> db' = db"
  by (auto simp: heartbeat_def split: option.splits)

lemma claim_refused:
  assumes "claim_pairs cfg locked now client n db = Inr (c, db')" and "failed (claim_response c)"
  shows "db' = db"
proof (cases "running_test db = None \<or> caller db client = None")
  case True
  then show ?thesis using assms(1) by (auto simp: claim_pairs_def split: option.splits)
next
  case False
  then obtain t r where t: "running_test db = Some t" and r: "caller db client = Some r" by auto
  then have known: "\<exists>r. find_client db client = Some r \<and> c_status r \<noteq> Banned"
    by (auto simp: caller_def split: option.splits if_splits)
  have "cr_status c \<in> {ClaimOk, ClaimNoActiveTest}"
    using assms(1) known unfolding claim_pairs_def t r
    by (auto simp: claim_nothing_def find_client_def Let_def split: if_splits option.splits)
  then show ?thesis using assms(2) by (auto simp: claim_response_def)
qed

lemma submit_refused:
  assumes "submit_result gzip now pair report db = Inr (r, db')" and "sr_status r \<noteq> Accepted"
  shows "db' = db"
  using assms
  by (auto simp: submit_result_def submit_status_only_def Let_def split: option.splits if_splits)

lemma abandon_refused:
  assumes "pairs_inv db" and "abandon_pair pair client db = (False, db')"
  shows "db' = db"
proof -
  have d: "distinct (map jp_id (db_pairs db))" using assms(1) by (simp add: pairs_inv_def)
  have "\<not> held_by pair client p" if "p \<in> set (db_pairs db)" for p
  proof
    assume h: "held_by pair client p"
    then have "jp_id p = pair" by (simp add: held_by_def)
    have "filter (held_by pair client) (db_pairs db)
        = filter (held_by pair client) (filter (\<lambda>q. jp_id q = pair) (db_pairs db))"
      by (simp, rule filter_cong) (auto simp: held_by_def)
    also have "\<dots> = [p]"
      using filter_key_singleton [OF d that] h \<open>jp_id p = pair\<close> by simp
    finally show False using assms(2) by (simp add: abandon_pair_def)
  qed
  then have "update_where (held_by pair client) release_pair (db_pairs db) = db_pairs db"
    by (intro update_where_none) blast
  then show ?thesis using assms(2) by (simp add: abandon_pair_def)
qed

lemma stop_refused: "stop_test now test db = (r, db') \<Longrightarrow> so_status r \<noteq> StopStopped \<Longrightarrow> db' = db"
  by (auto simp: stop_test_def Let_def split: option.splits if_splits prod.splits)

lemma priority_refused: "set_priority test n db = (r, db') \<Longrightarrow> pro_status r \<noteq> PriorityUpdated \<Longrightarrow> db' = db"
  by (auto simp: set_priority_def split: option.splits if_splits)

lemma failed_statuses:
  "failed (submit_response r) \<longleftrightarrow> sr_status r \<noteq> Accepted"
  "failed (priority_response n p) \<longleftrightarrow> pro_status p \<noteq> PriorityUpdated"
  "failed (stop_response st) \<longleftrightarrow> so_status st \<noteq> StopStopped"
  by (simp_all add: submit_response_def priority_response_def stop_response_def
      split: submit_status.splits priority_status.splits stop_status.splits)

lemma refused_snd:
  "fst (heartbeat now c f db) = None \<Longrightarrow> snd (heartbeat now c f db) = db"
  "so_status (fst (stop_test now test db)) \<noteq> StopStopped \<Longrightarrow> snd (stop_test now test db) = db"
  "pro_status (fst (set_priority test n db)) \<noteq> PriorityUpdated \<Longrightarrow> snd (set_priority test n db) = db"
  "pairs_inv db \<Longrightarrow> \<not> fst (abandon_pair pair client db) \<Longrightarrow> snd (abandon_pair pair client db) = db"
  by (metis prod.collapse heartbeat_unknown, metis prod.collapse stop_refused,
      metis prod.collapse priority_refused, metis prod.collapse abandon_refused)

lemma post_register_failed:
  "post_register conn now body db = (res, db') \<Longrightarrow> failed res \<Longrightarrow> rs_status res \<noteq> 403 \<Longrightarrow> db' = db"
  unfolding post_register_def
  by (erule guarded_cases) (auto split: if_splits)

lemma post_heartbeat_failed:
  "post_heartbeat conn now path body db = (res, db') \<Longrightarrow> failed res \<Longrightarrow> db' = db"
  unfolding post_heartbeat_def
  by (erule guarded_cases) (auto simp: case_prod_beta refused_snd failed_def send_error_def send_json_def split: option.splits)

lemma post_claim_failed:
  "post_claim cfg conn locked now body db = (res, db') \<Longrightarrow> failed res \<Longrightarrow> db' = db"
  unfolding post_claim_def
  by (erule guarded_cases) (auto dest: claim_refused)

lemma post_result_failed:
  "post_result conn gzip now path body db = (res, db') \<Longrightarrow> failed res \<Longrightarrow> db' = db"
  unfolding post_result_def
  by (erule guarded_cases) (auto simp: failed_statuses dest: submit_refused)

lemma post_abandon_failed:
  "post_abandon conn path body db = (res, db') \<Longrightarrow> pairs_inv db \<Longrightarrow> failed res \<Longrightarrow> db' = db"
  unfolding post_abandon_def
  by (erule guarded_cases) (auto simp: case_prod_beta refused_snd failed_def send_error_def send_json_def split: if_splits)

lemma patch_priority_failed:
  "patch_priority conn path body db = (res, db') \<Longrightarrow> failed res \<Longrightarrow> db' = db"
  unfolding patch_priority_def
  by (erule guarded_cases) (auto simp: case_prod_beta refused_snd failed_statuses)

lemma post_stop_failed:
  "post_stop conn now path db = (res, db') \<Longrightarrow> failed res \<Longrightarrow> db' = db"
  unfolding post_stop_def
  by (erule guarded_cases) (auto simp: case_prod_beta refused_snd failed_statuses)

lemma resolve_both_failed: "resolve_both resolve spec = Inr (Inl res) \<Longrightarrow> failed res"
  by (auto simp: resolve_both_def split: sum.splits exn.splits if_splits)

lemma store_test_failed:
  assumes "store_test resolve conn now spec db = Inr (res, db', told)" and "failed res"
  shows "db' = db \<and> \<not> told"
proof -
  from assms(1) obtain r where r: "resolve_both resolve spec = Inr r"
    by (auto simp: store_test_def)
  then show ?thesis
    using assms by (cases r) (auto simp: store_test_def split: if_splits)
qed

lemma post_tests_failed:
  assumes "post_tests cfg fs resolve conn now body db cache = ((res, db', told), cache')" and "failed res"
  shows "db' = db \<and> \<not> told"
proof -
  consider "db' = db \<and> \<not> told"
    | spec where "guarded (store_test resolve conn now spec db) (db, False) = (res, db', told)"
    using assms(1) by (auto simp: post_tests_def guarded_def split: sum.splits option.splits exn.splits)
  then show ?thesis
  proof cases
    case 2
    then show ?thesis
    proof (rule guarded_cases)
      assume "store_test resolve conn now spec db = Inr (res, db', told)"
      then show ?thesis by (rule store_test_failed [OF _ assms(2)])
    qed auto
  qed
qed

lemma handle_failed:
  assumes "handle cfg fs gzip w req (db, cache) = (res, db', cache')" and "failed res"
    and "pairs_inv db" and "\<And>body. req = PostRegister body \<Longrightarrow> rs_status res \<noteq> 403"
  shows "db' = db"
proof (cases req)
  case (PostTests body)
  then obtain told where "post_tests cfg fs (w_resolve w) (w_conn w) (w_now w) body db cache = ((res, db', told), cache')"
    using assms(1) by (auto split: prod.splits)
  from post_tests_failed [OF this assms(2)] show ?thesis by simp
next
  case (PostRegister body)
  then show ?thesis
    using assms(1,2) assms(4) [OF PostRegister] by (auto dest: post_register_failed split: prod.splits)
qed (use assms(1-3) in \<open>auto dest: read_handlers post_heartbeat_failed post_claim_failed
      post_result_failed post_abandon_failed patch_priority_failed post_stop_failed split: prod.splits\<close>)

end
