(* ===== verification/Reports.thy ===== *)
theory Reports
  imports Lifecycle
begin

text \<open>
  server/reports.hpp and server/reports.cpp: the read-only queries behind the web pages and the
  downloads. Parameters: \<open>now\<close>, the transaction's \<^verbatim>\<open>now()\<close>; \<open>collate\<close>, the rank the
  database's collation gives to a name; \<open>gunzip\<close>, the decompression by zlib.
\<close>

fun client_status_text :: "client_status \<Rightarrow> string" where
  "client_status_text Active = ''active''"
| "client_status_text Idle = ''idle''"
| "client_status_text Banned = ''banned''"

fun pinning_text :: "pinning_mode \<Rightarrow> string" where
  "pinning_text Pinned = ''pinned''"
| "pinning_text HomogeneousUnpinned = ''homogeneous_unpinned''"
| "pinning_text QosHint = ''qos_hint''"

section \<open>SQL aggregates\<close>

text \<open>The addition of two nullable \<^verbatim>\<open>BIGINT\<close> columns.\<close>

definition pg_add_int8 :: "int option \<Rightarrow> int option \<Rightarrow> int option result" where
  "pg_add_int8 a b =
     (case (a, b) of
        (Some x, Some y) \<Rightarrow>
          if int64 (x + y) then Inr (Some (x + y)) else Inl (SqlError ''bigint out of range'')
      | _ \<Rightarrow> Inr None)"

text \<open>\<^verbatim>\<open>sum\<close> over the values that are not null; null when there is none.\<close>

definition sql_sum :: "int option list \<Rightarrow> int option" where
  "sql_sum vs = (let xs = List.map_filter (\<lambda>v. v) vs in if xs = [] then None else Some (sum_list xs))"

definition mapE :: "('a \<Rightarrow> 'b result) \<Rightarrow> 'a list \<Rightarrow> 'b list result" where
  "mapE f xs = foldE (\<lambda>x ys. bindE (f x) (\<lambda>y. Inr (ys @ [y]))) xs []"

text \<open>\<^verbatim>\<open>sum(n)::float8 / NULLIF(sum(t), 0) * 1000\<close> .\<close>

definition nps_of :: "int option list \<Rightarrow> int option list \<Rightarrow> real option" where
  "nps_of nodes ms =
     (case (sql_sum nodes, sql_sum ms) of
        (Some n, Some t) \<Rightarrow> if t = 0 then None else Some (of_int n / of_int t * 1000)
      | _ \<Rightarrow> None)"

text \<open>Nodes and times of both engines, game by game.\<close>

definition game_nodes :: "game_row list \<Rightarrow> int option list result" where
  "game_nodes gs = mapE (\<lambda>g. pg_add_int8 (g_candidate_nodes g) (g_baseline_nodes g)) gs"

definition game_times :: "game_row list \<Rightarrow> int option list result" where
  "game_times gs = mapE (\<lambda>g. pg_add_int8 (g_candidate_time_ms g) (g_baseline_time_ms g)) gs"

definition games_nps :: "game_row list \<Rightarrow> (real option \<times> int) result" where
  "games_nps gs =
     bindE (game_nodes gs) (\<lambda>nodes.
     bindE (game_times gs) (\<lambda>ms.
       Inr (nps_of nodes ms, int (length (filter (\<lambda>v. v \<noteq> None) nodes)))))"

section \<open>History\<close>

record history_point =
  hp_pairs :: int
  hp_llr :: "real option"
  hp_elo :: "real option"
  hp_at :: real

definition all_history :: "db \<Rightarrow> int \<Rightarrow> history_point list" where
  "all_history db test =
     map (\<lambda>h. \<lparr>hp_pairs = h_pairs_valid h, hp_llr = h_llr h, hp_elo = h_elo h, hp_at = h_recorded_at h\<rparr>)
       (sort_key h_id (filter (\<lambda>h. h_test h = test) (db_history db)))"

text \<open>The indices of the reduction: \<open>i * step + 0.5\<close>, truncated.\<close>

definition sample_index :: "nat \<Rightarrow> nat \<Rightarrow> nat \<Rightarrow> nat" where
  "sample_index n max_points i =
     nat \<lfloor>of_nat i * (of_nat (n - 1) / of_nat (max_points - 1)) + (1 / 2 :: real)\<rfloor>"

definition reduce_points :: "'a list \<Rightarrow> nat \<Rightarrow> 'a list" where
  "reduce_points xs max_points =
     (if length xs \<le> max_points \<or> max_points < 2 then xs
      else let out = map (\<lambda>i. xs ! sample_index (length xs) max_points i) [0..<max_points]
           in out[length out - 1 := last xs])"

definition stats_history :: "db \<Rightarrow> int \<Rightarrow> nat \<Rightarrow> history_point list" where
  "stats_history db test max_points = reduce_points (all_history db test) max_points"

section \<open>Clients\<close>

definition online :: "real \<Rightarrow> client_row \<Rightarrow> bool" where
  "online now c \<longleftrightarrow> now - 120 < c_last_seen c"

record test_client =
  tc_client_id :: int
  tc_name :: string
  tc_status :: string
  tc_pinning_mode :: string
  tc_cpu_model :: "string option"
  tc_core_topology :: "string option"
  tc_arch_target :: "string option"
  tc_fastchess_version :: "string option"
  tc_slots :: int
  tc_cpu_factor :: "real option"
  tc_pairs_completed :: int
  tc_games_invalid :: int
  tc_pairs_leased :: int
  tc_last_seen :: real
  tc_online :: bool
  tc_nps :: "real option"

text \<open>The pairs of a test leased to a client.\<close>

definition leased_count :: "db \<Rightarrow> (pair_row \<Rightarrow> bool) \<Rightarrow> int \<Rightarrow> int" where
  "leased_count db P client =
     int (length (filter (\<lambda>p. P p \<and> jp_status p = Leased \<and> jp_leased_to p = Some client) (db_pairs db)))"

definition test_client_row :: "db \<Rightarrow> real \<Rightarrow> int \<Rightarrow> client_row \<Rightarrow> test_client result" where
  "test_client_row db now test c =
     (let gs = filter (\<lambda>g. g_test g = test \<and> g_client g = c_id c) (db_games db)
      in bindE (games_nps gs) (\<lambda>(nps, _).
           Inr \<lparr>tc_client_id = c_id c, tc_name = c_name c, tc_status = client_status_text (c_status c),
                tc_pinning_mode = pinning_text (c_pinning_mode c), tc_cpu_model = c_cpu_model c,
                tc_core_topology = c_core_topology c, tc_arch_target = c_cpu_arch_target c,
                tc_fastchess_version = c_fastchess_version c, tc_slots = c_slots c,
                tc_cpu_factor = c_cpu_factor c,
                tc_pairs_completed = int (length (remdups (map g_pair gs))),
                tc_games_invalid = int (length (filter (\<lambda>g. \<not> g_valid g) gs)),
                tc_pairs_leased = leased_count db (\<lambda>p. jp_test p = test) (c_id c),
                tc_last_seen = c_last_seen c, tc_online = online now c, tc_nps = nps\<rparr>))"

text \<open>The clients that have played the test or hold a lease of it.\<close>

definition takes_part :: "db \<Rightarrow> int \<Rightarrow> client_row \<Rightarrow> bool" where
  "takes_part db test c \<longleftrightarrow>
     (\<exists>g \<in> set (db_games db). g_test g = test \<and> g_client g = c_id c) \<or>
     leased_count db (\<lambda>p. jp_test p = test) (c_id c) \<noteq> 0"

definition test_clients :: "(string \<Rightarrow> int) \<Rightarrow> db \<Rightarrow> real \<Rightarrow> int \<Rightarrow> test_client list result" where
  "test_clients collate db now test =
     bindE (mapE (test_client_row db now test) (filter (takes_part db test) (db_clients db))) (\<lambda>cs.
       Inr (sort_key (\<lambda>c. (- tc_pairs_completed c, collate (tc_name c))) cs))"

record client_summary =
  cs_client_id :: int
  cs_name :: string
  cs_status :: string
  cs_pinning_mode :: string
  cs_cpu_model :: "string option"
  cs_core_topology :: "string option"
  cs_arch_target :: "string option"
  cs_fastchess_version :: "string option"
  cs_os :: "string option"
  cs_slots :: int
  cs_last_seen :: real
  cs_online :: bool
  cs_pairs_leased :: int
  cs_games_total :: int
  cs_nps :: "real option"
  cs_nps_games :: int
  cs_last_game_at :: "real option"

definition last_games :: "db \<Rightarrow> int \<Rightarrow> nat \<Rightarrow> game_row list" where
  "last_games db client n =
     take n (rev (sort_key g_id (filter (\<lambda>g. g_client g = client) (db_games db))))"

definition client_summary_row :: "db \<Rightarrow> real \<Rightarrow> nat \<Rightarrow> client_row \<Rightarrow> client_summary result" where
  "client_summary_row db now recent_games c =
     (let gs = last_games db (c_id c) recent_games
      in bindE (games_nps gs) (\<lambda>(nps, n).
           Inr \<lparr>cs_client_id = c_id c, cs_name = c_name c, cs_status = client_status_text (c_status c),
                cs_pinning_mode = pinning_text (c_pinning_mode c), cs_cpu_model = c_cpu_model c,
                cs_core_topology = c_core_topology c, cs_arch_target = c_cpu_arch_target c,
                cs_fastchess_version = c_fastchess_version c, cs_os = c_os c, cs_slots = c_slots c,
                cs_last_seen = c_last_seen c, cs_online = online now c,
                cs_pairs_leased = leased_count db (\<lambda>_. True) (c_id c),
                cs_games_total = int (length (filter (\<lambda>g. g_client g = c_id c) (db_games db))),
                cs_nps = nps, cs_nps_games = n,
                cs_last_game_at = (if gs = [] then None else Some (Max (set (map g_created_at gs))))\<rparr>))"

definition all_clients :: "db \<Rightarrow> real \<Rightarrow> nat \<Rightarrow> client_summary list result" where
  "all_clients db now recent_games =
     bindE (mapE (client_summary_row db now recent_games) (db_clients db)) (\<lambda>cs.
       Inr (sort_key (\<lambda>c. (if cs_online c then 0 else 1 :: nat, - cs_last_seen c)) cs))"

section \<open>Speed\<close>

record speed_report =
  ts_candidate_nps :: "real option"
  ts_baseline_nps :: "real option"
  ts_games :: int

definition counted_game :: "int \<Rightarrow> game_row \<Rightarrow> bool" where
  "counted_game test g \<longleftrightarrow> g_test g = test \<and> g_valid g \<and> g_candidate_nodes g \<noteq> None \<and>
     g_candidate_time_ms g \<noteq> None \<and> g_baseline_nodes g \<noteq> None \<and> g_baseline_time_ms g \<noteq> None"

definition test_speed :: "db \<Rightarrow> int \<Rightarrow> speed_report" where
  "test_speed db test =
     (let gs = filter (counted_game test) (db_games db)
      in \<lparr>ts_candidate_nps = nps_of (map g_candidate_nodes gs) (map g_candidate_time_ms gs),
          ts_baseline_nps = nps_of (map g_baseline_nodes gs) (map g_baseline_time_ms gs),
          ts_games = int (length gs)\<rparr>)"

section \<open>PGN\<close>

text \<open>The join of the games of a test with their PGN, by game id.\<close>

definition pgn_join :: "db \<Rightarrow> (game_row \<Rightarrow> bool) \<Rightarrow> (game_row \<times> pgn_row) list" where
  "pgn_join db P =
     sort_key (g_id \<circ> fst)
       (concat (map (\<lambda>g. map (Pair g) (filter (\<lambda>p. pg_game p = g_id g) (db_pgns db)))
         (filter P (db_games db))))"

definition game_pgn :: "(string \<Rightarrow> string result) \<Rightarrow> db \<Rightarrow> int \<Rightarrow> int \<Rightarrow> string option result" where
  "game_pgn gunzip db test game =
     (case pgn_join db (\<lambda>g. g_id g = game \<and> g_test g = test) of
        [] \<Rightarrow> Inr None
      | (_, p) # _ \<Rightarrow> bindE (gunzip (pg_pgn_gz p)) (\<lambda>s. Inr (Some s)))"

record pgn_chunk =
  ch_game_id :: int
  ch_pgn_gz :: string

definition chunk_of :: "game_row \<times> pgn_row \<Rightarrow> pgn_chunk" where
  "chunk_of gp = \<lparr>ch_game_id = g_id (fst gp), ch_pgn_gz = pg_pgn_gz (snd gp)\<rparr>"

definition pgn_batch :: "db \<Rightarrow> int \<Rightarrow> int \<Rightarrow> nat \<Rightarrow> pgn_chunk list" where
  "pgn_batch db test after n =
     map chunk_of (take n (pgn_join db (\<lambda>g. g_test g = test \<and> after < g_id g)))"

record pgn_manifest_entry =
  me_game_id :: int
  me_gz_bytes :: int

definition pgn_manifest :: "db \<Rightarrow> int \<Rightarrow> bool \<Rightarrow> pgn_manifest_entry list" where
  "pgn_manifest db test include_invalid =
     map (\<lambda>gp. \<lparr>me_game_id = g_id (fst gp), me_gz_bytes = int (length (pg_pgn_gz (snd gp)))\<rparr>)
       (pgn_join db (\<lambda>g. g_test g = test \<and> (g_valid g \<or> include_invalid)))"

definition pgn_range :: "db \<Rightarrow> int \<Rightarrow> int \<Rightarrow> int \<Rightarrow> pgn_chunk list" where
  "pgn_range db test first_id last_id =
     map chunk_of (pgn_join db (\<lambda>g. g_test g = test \<and> first_id \<le> g_id g \<and> g_id g \<le> last_id))"

definition test_exists :: "db \<Rightarrow> int \<Rightarrow> bool" where
  "test_exists db test \<longleftrightarrow> filter (\<lambda>t. t_id t = test) (db_tests db) \<noteq> []"

section \<open>Lemmas on the reduction\<close>

lemma sample_index_bounds:
  assumes "2 \<le> m" and "m < n"
  shows "sample_index n m 0 = 0" and "sample_index n m (m - 1) = n - 1"
    and "i < j \<Longrightarrow> sample_index n m i < sample_index n m j"
proof -
  let ?s = "of_nat (n - 1) / of_nat (m - 1) :: real"
  show "sample_index n m 0 = 0" by (simp add: sample_index_def)
  have "of_nat (m - 1) * ?s = of_nat (n - 1)" using assms by simp
  moreover have "\<lfloor>of_nat (n - 1) + (1 / 2 :: real)\<rfloor> = int (n - 1)"
    by (rule floor_unique) auto
  ultimately show "sample_index n m (m - 1) = n - 1" by (simp add: sample_index_def)
  assume ij: "i < j"
  have s: "1 \<le> ?s" using assms by (simp add: le_divide_eq)
  have "of_nat i + 1 \<le> (of_nat j :: real)" using ij by linarith
  then have "(of_nat i + 1) * ?s \<le> of_nat j * ?s" using s by (intro mult_right_mono) auto
  then have step: "of_nat i * ?s + 1 / 2 + 1 \<le> of_nat j * ?s + (1 / 2 :: real)"
    using s unfolding distrib_right mult_1_left by linarith
  have "0 \<le> of_nat i * ?s + (1 / 2 :: real)" using s by simp
  then have "0 \<le> \<lfloor>of_nat i * ?s + (1 / 2 :: real)\<rfloor>" by simp
  moreover have "\<lfloor>of_nat i * ?s + (1 / 2 :: real)\<rfloor> + 1 \<le> \<lfloor>of_nat j * ?s + (1 / 2 :: real)\<rfloor>"
    unfolding one_add_floor by (rule floor_mono [OF step])
  ultimately show "sample_index n m i < sample_index n m j" unfolding sample_index_def by linarith
qed

text \<open>
  The reduction keeps at most \<open>max_points\<close> points, among them the first and the last, in their
  order.
\<close>

lemma reduce_points_shape:
  assumes "2 \<le> m" and "m < length xs"
  shows "reduce_points xs m = map (\<lambda>i. xs ! sample_index (length xs) m i) [0..<m]"
proof -
  let ?f = "sample_index (length xs) m"
  have "xs ! ?f (m - 1) = last xs"
    using sample_index_bounds(2) [OF assms] assms last_conv_nth [of xs] by fastforce
  then have "(map (\<lambda>i. xs ! ?f i) [0..<m])[m - 1 := last xs] = map (\<lambda>i. xs ! ?f i) [0..<m]"
    using assms(1) by (intro list_update_same_conv [THEN iffD2]) auto
  then show ?thesis using assms by (simp add: reduce_points_def Let_def)
qed

end
