(* ===== verification/WebRoutes.thy ===== *)
theory WebRoutes
  imports Reports Routes Smoke
begin

text \<open>
  server/http/web_routes.cpp: the pages, the data they read, and the downloads of a test's
  games. Files come from the file system that is a parameter; the listing of the books'
  directory is the list of its entries' names. A download is the state its content provider
  keeps between the calls of the HTTP library, which asks for more until the announced length
  has been sent (\<^verbatim>\<open>set_content_provider\<close>) or the sink is done
  (\<^verbatim>\<open>set_chunked_content_provider\<close>). Parameters of a call: \<open>conn\<close>, what \<^verbatim>\<open>pool.acquire()\<close>
  does; \<open>alive\<close>, whether the peer still takes data after what it has been sent.
\<close>

section \<open>Answers\<close>

text \<open>
  What a route of the pages answers with: a JSON response, a text of some type, a redirection, a
  download of an announced length, or a stream that has begun at a cursor; and its headers.
\<close>

record gz_download =
  gd_test :: int
  gd_manifest :: "pgn_manifest_entry list"
  gd_next :: nat
  gd_separator :: string

datatype web_response =
    WebJson response
  | WebText string string
  | WebRedirect string
  | WebDownload string nat gz_download
  | WebStream string int int

record web_answer =
  wa_headers :: "(string \<times> string) list"
  wa_content :: web_response

definition plain :: "web_response \<Rightarrow> web_answer" where
  "plain c = \<lparr>wa_headers = [], wa_content = c\<rparr>"

definition no_cache :: "string \<times> string" where
  "no_cache = (''Cache-Control'', ''no-cache'')"

section \<open>Pages\<close>

definition serve_page :: "file_system \<Rightarrow> string \<Rightarrow> web_answer" where
  "serve_page fs path =
     (case fs path of
        None \<Rightarrow> plain (WebJson (send_error 500 ''web_ui_missing''
                  (''arquivo n'' @ [CHR 0xC3, CHR 0xA3] @ ''o encontrado: '' @ path)))
      | Some f \<Rightarrow> \<lparr>wa_headers = [no_cache], wa_content = WebText ''text/html; charset=utf-8'' (f_contents f)\<rparr>)"

datatype page = Root | TestsPage | ClientsPage | NewTestPage | TestPage

definition get_page :: "server_config \<Rightarrow> file_system \<Rightarrow> page \<Rightarrow> web_answer" where
  "get_page cfg fs p =
     (case p of
        Root \<Rightarrow> plain (WebRedirect ''/tests'')
      | TestsPage \<Rightarrow> serve_page fs (path_join (web_dir cfg) ''tests.html'')
      | ClientsPage \<Rightarrow> serve_page fs (path_join (web_dir cfg) ''clients.html'')
      | NewTestPage \<Rightarrow> serve_page fs (path_join (web_dir cfg) ''new.html'')
      | TestPage \<Rightarrow> serve_page fs (path_join (web_dir cfg) ''test.html''))"

text \<open>
  The static directory: the mount that \<^verbatim>\<open>set_mount_point\<close> accepts when the directory exists, and
  the file the library finds there (\<open>find_file\<close>, its type and contents), before any handler.
\<close>

definition mount_static :: "(string \<Rightarrow> bool) \<Rightarrow> server_config \<Rightarrow> (string \<times> string) option" where
  "mount_static dir_exists cfg =
     (let dir = path_join (web_dir cfg) ''static''
      in if dir_exists dir then Some (''/static'', dir) else None)"

definition serve_static ::
  "(string \<Rightarrow> string \<Rightarrow> (string \<times> string) option) \<Rightarrow> (string \<times> string) option \<Rightarrow> string \<Rightarrow> web_answer option" where
  "serve_static find_file mount path =
     (case mount of
        None \<Rightarrow> None
      | Some (point, dir) \<Rightarrow>
          if starts_with path point
          then map_option (\<lambda>(kind, text). plain (WebText kind text)) (find_file dir (drop (length point) path))
          else None)"

text \<open>The handler the library runs on every answer.\<close>

definition post_routing :: "string \<Rightarrow> web_answer \<Rightarrow> web_answer" where
  "post_routing path a =
     (if starts_with path ''/static/'' \<and> ''Cache-Control'' \<notin> fst ` set (wa_headers a)
      then a\<lparr>wa_headers := wa_headers a @ [no_cache]\<rparr> else a)"

section \<open>Data of the pages\<close>

definition preset_json :: "sprt_preset_bounds \<Rightarrow> json" where
  "preset_json b = JObject [(''elo0'', JReal (ps_elo0 b)), (''elo1'', JReal (ps_elo1 b)),
     (''alpha'', JReal (ps_alpha b)), (''beta'', JReal (ps_beta b))]"

definition get_config :: "server_config \<Rightarrow> response" where
  "get_config cfg =
     send_json 200 (JObject [(''github_repo'', JString (github_repo cfg)),
       (''presets'', JObject [(''gainer'', preset_json (preset_gainer (cfg_sprt_presets cfg))),
                              (''nonreg'', preset_json (preset_nonreg (cfg_sprt_presets cfg)))])])"

text \<open>\<^verbatim>\<open>path::extension\<close> of a file name: from its last point, unless that is its first byte.\<close>

definition extension :: "string \<Rightarrow> string" where
  "extension name =
     (let back = takeWhile (\<lambda>c. c \<noteq> CHR ''.'') (rev name); stem = length name - length back
      in if stem \<le> 1 then [] else drop (stem - 1) name)"

text \<open>The loop over the directory; the cache keeps what was counted before a failure.\<close>

fun list_books ::
  "file_system \<Rightarrow> string \<Rightarrow> string list \<Rightarrow> book_cache \<Rightarrow> json list \<Rightarrow> json list result \<times> book_cache" where
  "list_books fs dir [] cache out = (Inr out, cache)"
| "list_books fs dir (name # names) cache out =
     (let path = path_join dir name
      in case fs path of
           None \<Rightarrow> list_books fs dir names cache out
         | Some f \<Rightarrow>
             if extension name \<noteq> ''.epd'' \<or> \<not> valid_book_name name
             then list_books fs dir names cache out
             else case count_book_positions fs cache path of
               Inl e \<Rightarrow> (Inl e, cache)
             | Inr (n, cache) \<Rightarrow>
                 list_books fs dir names cache
                   (out @ [JObject [(''name'', JString name), (''size_bytes'', JInt (f_size f)),
                                    (''positions'', JInt (int n))]]))"

definition get_books :: "server_config \<Rightarrow> file_system \<Rightarrow> string list \<Rightarrow> book_cache \<Rightarrow> response \<times> book_cache" where
  "get_books cfg fs names cache =
     (case list_books fs (books_dir cfg) names cache [] of
        (r, cache) \<Rightarrow>
          guarded (bindE r (\<lambda>out. Inr (send_json 200 (JArray out), cache))) cache)"

text \<open>The routes on one test: its id, the connection, and \<^verbatim>\<open>404\<close> when there is no such test.\<close>

definition on_test :: "unit result \<Rightarrow> string \<Rightarrow> db \<Rightarrow> (int \<Rightarrow> response result) \<Rightarrow> response" where
  "on_test conn path db body =
     fst (guarded
       (bindE (path_id path) (\<lambda>test.
        bindE conn (\<lambda>_.
          if \<not> test_exists db test then Inr (send_error 404 ''test_not_found'' [], ())
          else bindE (body test) (\<lambda>res. Inr (res, ()))))) ())"

definition history_json :: "history_point \<Rightarrow> json" where
  "history_json p = JObject [(''pairs'', JInt (hp_pairs p)), (''llr'', nullable JReal (hp_llr p)),
     (''elo'', nullable JReal (hp_elo p)), (''at'', JReal (hp_at p))]"

definition get_history :: "unit result \<Rightarrow> string \<Rightarrow> db \<Rightarrow> response" where
  "get_history conn path db =
     on_test conn path db (\<lambda>test.
       Inr (send_json 200 (JArray (map history_json (stats_history db test 1000)))))"

definition test_client_json :: "test_client \<Rightarrow> json" where
  "test_client_json c =
     JObject
       [(''client_id'', JInt (tc_client_id c)), (''name'', JString (tc_name c)),
        (''status'', JString (tc_status c)), (''pinning_mode'', JString (tc_pinning_mode c)),
        (''cpu_model'', nullable JString (tc_cpu_model c)),
        (''core_topology'', nullable JString (tc_core_topology c)),
        (''arch_target'', nullable JString (tc_arch_target c)),
        (''fastchess_version'', nullable JString (tc_fastchess_version c)),
        (''slots'', JInt (tc_slots c)), (''cpu_factor'', nullable JReal (tc_cpu_factor c)),
        (''pairs_completed'', JInt (tc_pairs_completed c)),
        (''games_invalid'', JInt (tc_games_invalid c)), (''pairs_leased'', JInt (tc_pairs_leased c)),
        (''last_seen'', JReal (tc_last_seen c)), (''online'', JBool (tc_online c)),
        (''nps'', nullable JReal (tc_nps c))]"

definition get_test_clients :: "(string \<Rightarrow> int) \<Rightarrow> unit result \<Rightarrow> real \<Rightarrow> string \<Rightarrow> db \<Rightarrow> response" where
  "get_test_clients collate conn now path db =
     on_test conn path db (\<lambda>test.
       bindE (test_clients collate db now test) (\<lambda>cs.
         Inr (send_json 200 (JArray (map test_client_json cs)))))"

definition client_summary_json :: "client_summary \<Rightarrow> json" where
  "client_summary_json c =
     JObject
       [(''client_id'', JInt (cs_client_id c)), (''name'', JString (cs_name c)),
        (''status'', JString (cs_status c)), (''pinning_mode'', JString (cs_pinning_mode c)),
        (''cpu_model'', nullable JString (cs_cpu_model c)),
        (''core_topology'', nullable JString (cs_core_topology c)),
        (''arch_target'', nullable JString (cs_arch_target c)),
        (''fastchess_version'', nullable JString (cs_fastchess_version c)),
        (''os'', nullable JString (cs_os c)), (''slots'', JInt (cs_slots c)),
        (''last_seen'', JReal (cs_last_seen c)), (''online'', JBool (cs_online c)),
        (''pairs_leased'', JInt (cs_pairs_leased c)), (''games_total'', JInt (cs_games_total c)),
        (''nps'', nullable JReal (cs_nps c)), (''nps_games'', JInt (cs_nps_games c)),
        (''last_game_at'', nullable JReal (cs_last_game_at c))]"

definition get_clients :: "unit result \<Rightarrow> real \<Rightarrow> db \<Rightarrow> response" where
  "get_clients conn now db =
     fst (guarded
       (bindE conn (\<lambda>_.
        bindE (all_clients db now 200) (\<lambda>cs.
          Inr (send_json 200 (JArray (map client_summary_json cs)), ())))) ())"

definition get_speed :: "unit result \<Rightarrow> string \<Rightarrow> db \<Rightarrow> response" where
  "get_speed conn path db =
     on_test conn path db (\<lambda>test.
       let s = test_speed db test
       in Inr (send_json 200 (JObject
            [(''candidate_nps'', nullable JReal (ts_candidate_nps s)),
             (''baseline_nps'', nullable JReal (ts_baseline_nps s)), (''games'', JInt (ts_games s)),
             (''ratio'', case (ts_candidate_nps s, ts_baseline_nps s) of
                 (Some c, Some b) \<Rightarrow> if 0 < b then JReal (c / b) else JNull
               | _ \<Rightarrow> JNull)])))"

text \<open>The \<open>i\<close>-th group of the route's pattern; the whole path is the first of the matches.\<close>

definition path_id_at :: "string list \<Rightarrow> nat \<Rightarrow> int result" where
  "path_id_at matches i = path_id (if i < length matches then matches ! i else [])"

definition get_game_pgn ::
  "(string \<Rightarrow> string result) \<Rightarrow> unit result \<Rightarrow> string list \<Rightarrow> db \<Rightarrow> web_answer" where
  "get_game_pgn gunzip conn matches db =
     plain (case bindE conn (\<lambda>_.
           bindE (path_id_at matches 1) (\<lambda>test.
           bindE (path_id_at matches 2) (\<lambda>game. game_pgn gunzip db test game))) of
        Inl e \<Rightarrow> WebJson (error_response e)
      | Inr None \<Rightarrow> WebJson (send_error 404 ''game_not_found'' [])
      | Inr (Some pgn) \<Rightarrow> WebText ''application/x-chess-pgn; charset=utf-8'' pgn)"

section \<open>The compressed download\<close>

text \<open>The announced length and the state the download starts in.\<close>

definition start_download :: "string \<Rightarrow> db \<Rightarrow> int \<Rightarrow> bool \<Rightarrow> nat \<times> gz_download" where
  "start_download separator db test include_invalid =
     (let manifest = pgn_manifest db test include_invalid
      in (sum_list (map (nat \<circ> me_gz_bytes) manifest) + length separator * length manifest,
          \<lparr>gd_test = test, gd_manifest = manifest, gd_next = 0, gd_separator = separator\<rparr>))"

definition disposition :: "int \<Rightarrow> string \<Rightarrow> string \<times> string" where
  "disposition test ext =
     (''Content-Disposition'',
      ''attachment; filename='' @ [CHR 0x22] @ ''capi_net-test-'' @ show_int test @ ext @ [CHR 0x22])"

text \<open>A route on one test whose answer is a download.\<close>

definition download_of ::
  "unit result \<Rightarrow> string \<Rightarrow> db \<Rightarrow> (int \<Rightarrow> web_answer result) \<Rightarrow> web_answer" where
  "download_of conn path db start =
     (case bindE (path_id path) (\<lambda>test.
           bindE conn (\<lambda>_.
             if \<not> test_exists db test then Inr (plain (WebJson (send_error 404 ''test_not_found'' [])))
             else start test)) of
        Inl e \<Rightarrow> plain (WebJson (error_response e))
      | Inr a \<Rightarrow> a)"

text \<open>\<open>separator\<close> is the compressed line feed, \<open>all\<close> the value of the parameter.\<close>

definition get_pgn_gz :: "string result \<Rightarrow> unit result \<Rightarrow> string \<Rightarrow> string option \<Rightarrow> db \<Rightarrow> web_answer" where
  "get_pgn_gz separator conn path all db =
     download_of conn path db (\<lambda>test.
       bindE separator (\<lambda>sep.
         case start_download sep db test (all = Some ''1'') of (announced, d) \<Rightarrow>
           Inr \<lparr>wa_headers = [disposition test ''.pgn.gz''], wa_content = WebDownload ''application/gzip'' announced d\<rparr>))"

text \<open>\<^verbatim>\<open>sink.write\<close> .\<close>

definition sink_write :: "(string \<Rightarrow> bool) \<Rightarrow> string \<Rightarrow> string \<Rightarrow> string option" where
  "sink_write alive s sent = (if alive sent then Some (sent @ s) else None)"

text \<open>
  The inner loop over the manifest's entries up to \<open>end\<close>, with the position in the batch; a
  failed call is \<^const>\<open>None\<close> for the new state, with what it has sent.
\<close>

fun send_entries ::
  "(string \<Rightarrow> bool) \<Rightarrow> string \<Rightarrow> pgn_manifest_entry list \<Rightarrow> pgn_chunk list \<Rightarrow> nat \<Rightarrow> string \<Rightarrow>
   nat option \<times> string" where
  "send_entries alive sep [] batch next sent = (Some next, sent)"
| "send_entries alive sep (want # rest) batch next sent =
     (case dropWhile (\<lambda>c. ch_game_id c < me_game_id want) batch of
        [] \<Rightarrow> (None, sent)
      | c # cs \<Rightarrow>
          if ch_game_id c \<noteq> me_game_id want \<or> int (length (ch_pgn_gz c)) \<noteq> me_gz_bytes want
          then (None, sent)
          else case sink_write alive (ch_pgn_gz c) sent of
            None \<Rightarrow> (None, sent)
          | Some sent \<Rightarrow>
              (case sink_write alive sep sent of
                 None \<Rightarrow> (None, sent)
               | Some sent \<Rightarrow> send_entries alive sep rest (c # cs) (next + 1) sent))"

text \<open>One call of the provider.\<close>

definition gz_provider ::
  "unit result \<Rightarrow> (string \<Rightarrow> bool) \<Rightarrow> db \<Rightarrow> gz_download \<Rightarrow> string \<Rightarrow> gz_download option \<times> string" where
  "gz_provider conn alive db d sent =
     (if length (gd_manifest d) \<le> gd_next d then (Some d, sent)
      else
        let upto = min (gd_next d + 200) (length (gd_manifest d))
        in case conn of
             Inl _ \<Rightarrow> (None, sent)
           | Inr _ \<Rightarrow>
               let batch = pgn_range db (gd_test d) (me_game_id (gd_manifest d ! gd_next d))
                             (me_game_id (gd_manifest d ! (upto - 1)))
               in case send_entries alive (gd_separator d)
                         (drop (gd_next d) (take upto (gd_manifest d))) batch (gd_next d) sent of
                    (None, sent) \<Rightarrow> (None, sent)
                  | (Some i, sent) \<Rightarrow> (Some (d\<lparr>gd_next := i\<rparr>), sent))"

text \<open>The library's calls, each on the database of its moment, until the \<open>announced\<close> bytes are sent.\<close>

fun gz_calls ::
  "(string \<Rightarrow> bool) \<Rightarrow> nat \<Rightarrow> (unit result \<times> db) list \<Rightarrow> gz_download \<Rightarrow> string \<Rightarrow>
   gz_download option \<times> string" where
  "gz_calls alive announced [] d sent = (Some d, sent)"
| "gz_calls alive announced ((conn, db) # calls) d sent =
     (if announced \<le> length sent then (Some d, sent)
      else case gz_provider conn alive db d sent of
        (None, sent) \<Rightarrow> (None, sent)
      | (Some d, sent) \<Rightarrow> gz_calls alive announced calls d sent)"

section \<open>The streamed download\<close>

definition get_pgn :: "unit result \<Rightarrow> string \<Rightarrow> db \<Rightarrow> web_answer" where
  "get_pgn conn path db =
     download_of conn path db (\<lambda>test.
       Inr \<lparr>wa_headers = [disposition test ''.pgn''],
            wa_content = WebStream ''application/x-chess-pgn; charset=utf-8'' test 0\<rparr>)"

datatype stream_state = Streaming int | StreamDone | StreamFailed

text \<open>The loop over one batch; the cursor follows the games sent.\<close>

fun send_batch ::
  "(string \<Rightarrow> string result) \<Rightarrow> (string \<Rightarrow> bool) \<Rightarrow> pgn_chunk list \<Rightarrow> int \<Rightarrow> string \<Rightarrow> stream_state \<times> string" where
  "send_batch gunzip alive [] cursor sent = (Streaming cursor, sent)"
| "send_batch gunzip alive (g # gs) cursor sent =
     (case gunzip (ch_pgn_gz g) of
        Inl _ \<Rightarrow> (StreamFailed, sent)
      | Inr text \<Rightarrow>
          (case sink_write alive (text @ [newline]) sent of
             None \<Rightarrow> (StreamFailed, sent)
           | Some sent \<Rightarrow> send_batch gunzip alive gs (ch_game_id g) sent))"

definition stream_provider ::
  "(string \<Rightarrow> string result) \<Rightarrow> unit result \<Rightarrow> (string \<Rightarrow> bool) \<Rightarrow> db \<Rightarrow> int \<Rightarrow> int \<Rightarrow> string \<Rightarrow>
   stream_state \<times> string" where
  "stream_provider gunzip conn alive db test cursor sent =
     (case conn of
        Inl _ \<Rightarrow> (StreamFailed, sent)
      | Inr _ \<Rightarrow>
          let batch = pgn_batch db test cursor 200
          in if batch = [] then (StreamDone, sent) else send_batch gunzip alive batch cursor sent)"

end
