(* ===== verification/Downloads.thy ===== *)
theory Downloads
  imports WebRoutes Guarantees
begin

text \<open>
  The download of a test's games: it sends what the manifest has fixed, although the provider
  reads the database anew at every call while games are being added.
\<close>

section \<open>The join under the invariant\<close>

lemma join_zip:
  assumes "map pg_game ps = map g_id gs" and "distinct (map g_id gs)"
  shows "concat (map (\<lambda>g. map (Pair g) (filter (\<lambda>p. pg_game p = g_id g) ps)) (filter P gs))
       = filter (\<lambda>gp. P (fst gp)) (zip gs ps)"
  using assms
proof (induction gs arbitrary: ps)
  case Nil
  then show ?case by simp
next
  case (Cons g gs)
  from Cons.prems(1) obtain p qs where ps: "ps = p # qs" "pg_game p = g_id g" "map pg_game qs = map g_id gs"
    by (cases ps) auto
  have "g_id g \<notin> set (map pg_game qs)" using Cons.prems(2) ps(3) by simp
  then have head: "filter (\<lambda>q. pg_game q = g_id g) qs = []" by (force simp: filter_empty_conv)
  let ?F = "\<lambda>ps h. map (Pair h) (filter (\<lambda>q. pg_game q = g_id h) ps)"
  have tail: "map (?F ps) (filter P gs) = map (?F qs) (filter P gs)"
    by (rule map_cong [OF refl]) (use Cons.prems(2) ps(1,2) in auto)
  have "?F ps g = [(g, p)]" using head ps(1,2) by simp
  then have "concat (map (?F ps) (filter P (g # gs))) = (if P g then [(g, p)] else []) @ concat (map (?F qs) (filter P gs))"
    by (cases "P g") (simp_all only: filter.simps if_True if_False list.map concat.simps tail append.simps)
  then show ?case using Cons.IH [OF ps(3)] Cons.prems(2) ps(1) by simp
qed

lemma pgn_join_zip:
  assumes "records_inv db"
  shows "pgn_join db P = filter (\<lambda>gp. P (fst gp)) (zip (db_games db) (db_pgns db))"
proof -
  have m: "map pg_game (db_pgns db) = map g_id (db_games db)" and s: "sorted_wrt (<) (map g_id (db_games db))"
    using assms by (auto simp: records_inv_def)
  then have len: "length (db_games db) = length (db_pgns db)" by (metis length_map)
  have d: "distinct (map g_id (db_games db))" using s by (simp add: strict_sorted_iff)
  have "sorted (map g_id (map fst (zip (db_games db) (db_pgns db))))"
    using s len by (simp add: strict_sorted_iff)
  then have "sorted (map (g_id \<circ> fst) (filter (\<lambda>gp. P (fst gp)) (zip (db_games db) (db_pgns db))))"
    by (intro sorted_filter) (simp add: comp_def)
  then show ?thesis
    unfolding pgn_join_def join_zip [OF m d] by (rule sort_key_id_if_sorted)
qed

definition chunks :: "db \<Rightarrow> (game_row \<Rightarrow> bool) \<Rightarrow> pgn_chunk list" where
  "chunks db P = map chunk_of (pgn_join db P)"

definition entry_of :: "pgn_chunk \<Rightarrow> pgn_manifest_entry" where
  "entry_of c = \<lparr>me_game_id = ch_game_id c, me_gz_bytes = int (length (ch_pgn_gz c))\<rparr>"

lemma entry_of_simps [simp]:
  "me_game_id (entry_of c) = ch_game_id c" "me_gz_bytes (entry_of c) = int (length (ch_pgn_gz c))"
  by (simp_all add: entry_of_def)

lemma manifest_chunks:
  "pgn_manifest db test inc = map entry_of (chunks db (\<lambda>g. g_test g = test \<and> (g_valid g \<or> inc)))"
  by (simp add: pgn_manifest_def chunks_def entry_of_def chunk_of_def)

lemma range_chunks:
  "pgn_range db test a b = chunks db (\<lambda>g. g_test g = test \<and> a \<le> g_id g \<and> g_id g \<le> b)"
  by (simp add: pgn_range_def chunks_def)

lemma chunks_sorted:
  assumes "records_inv db"
  shows "sorted_wrt (<) (map ch_game_id (chunks db P))"
proof -
  have s: "sorted_wrt (<) (map g_id (db_games db))"
    and len: "length (db_games db) = length (db_pgns db)"
    using assms by (auto simp: records_inv_def dest: map_eq_imp_length_eq)
  have "sorted_wrt (\<lambda>x y. g_id (fst x) < g_id (fst y)) (zip (db_games db) (db_pgns db))"
    using s len by (simp add: sorted_wrt_iff_nth_less)
  then have "sorted_wrt (\<lambda>x y. g_id (fst x) < g_id (fst y)) (pgn_join db P)"
    unfolding pgn_join_zip [OF assms] by (rule sorted_wrt_filter)
  then show ?thesis by (simp add: chunks_def sorted_wrt_map chunk_of_def)
qed

text \<open>A chunk of an earlier moment is there at every later one.\<close>

lemma chunks_grow:
  assumes "records_inv db" "records_inv db'" and "db_games db' = db_games db @ new" "db_pgns db' = db_pgns db @ pgns"
    and "c \<in> set (chunks db P)" and "\<And>g. P g \<Longrightarrow> g_id g = ch_game_id c \<Longrightarrow> Q g"
  shows "c \<in> set (chunks db' Q)"
proof -
  have len: "length (db_games db) = length (db_pgns db)"
    using assms(1) by (auto simp: records_inv_def dest: map_eq_imp_length_eq)
  obtain gp where gp: "gp \<in> set (zip (db_games db) (db_pgns db))" "P (fst gp)" "c = chunk_of gp"
    using assms(5) by (auto simp: chunks_def pgn_join_zip [OF assms(1)])
  have "Q (fst gp)" using assms(6) [OF gp(2)] gp(3) by (simp add: chunk_of_def)
  then show ?thesis
    using gp(1,3) len by (auto simp: chunks_def pgn_join_zip [OF assms(2)] assms(3,4))
qed

section \<open>One batch\<close>

definition content :: "string \<Rightarrow> pgn_chunk list \<Rightarrow> string" where
  "content sep cs = concat (map (\<lambda>c. ch_pgn_gz c @ sep) cs)"

lemma content_simps [simp]:
  "content sep [] = []" "content sep (c # cs) = ch_pgn_gz c @ sep @ content sep cs"
  "content sep (cs @ ds) = content sep cs @ content sep ds"
  by (simp_all add: content_def)

lemma dropWhile_to:
  assumes "sorted_wrt (<) (map ch_game_id batch)" and "c \<in> set batch"
  shows "\<exists>rest. dropWhile (\<lambda>x. ch_game_id x < ch_game_id c) batch = c # rest \<and>
    sorted_wrt (<) (map ch_game_id (c # rest)) \<and>
    (\<forall>x \<in> set batch. ch_game_id c < ch_game_id x \<longrightarrow> x \<in> set rest)"
  using assms
proof (induction batch)
  case Nil
  then show ?case by simp
next
  case (Cons b batch)
  show ?case
  proof (cases "b = c")
    case True
    then show ?thesis using Cons.prems by auto
  next
    case False
    then have c: "c \<in> set batch" using Cons.prems(2) by simp
    then have less: "ch_game_id b < ch_game_id c" using Cons.prems(1) by simp
    from Cons.IH Cons.prems(1) c obtain rest where
      "dropWhile (\<lambda>x. ch_game_id x < ch_game_id c) batch = c # rest"
      "sorted_wrt (<) (map ch_game_id (c # rest))"
      "\<forall>x \<in> set batch. ch_game_id c < ch_game_id x \<longrightarrow> x \<in> set rest" by auto
    then show ?thesis using less by auto
  qed
qed

text \<open>
  Entries of chunks that the batch holds: what is sent is a prefix of their content, all of it
  when the call succeeds, and it succeeds while the peer takes data.
\<close>

lemma send_entries_sends:
  assumes "sorted_wrt (<) (map ch_game_id batch)" and "sorted_wrt (<) (map ch_game_id cs)"
    and "set cs \<subseteq> set batch"
    and "send_entries alive sep (map entry_of cs) batch next sent = (r, sent')"
  shows "\<exists>t. sent @ content sep cs = sent' @ t \<and>
    (\<forall>i. r = Some i \<longrightarrow> t = [] \<and> i = next + length cs) \<and> ((\<forall>s. alive s) \<longrightarrow> r \<noteq> None)"
  using assms
proof (induction cs arbitrary: batch "next" sent)
  case Nil
  then show ?case by auto
next
  case (Cons c cs)
  obtain rest where rest: "dropWhile (\<lambda>x. ch_game_id x < ch_game_id c) batch = c # rest"
    "sorted_wrt (<) (map ch_game_id (c # rest))"
    "\<forall>x \<in> set batch. ch_game_id c < ch_game_id x \<longrightarrow> x \<in> set rest"
    using dropWhile_to [OF Cons.prems(1), of c] Cons.prems(3) by auto
  have sub: "set cs \<subseteq> set (c # rest)" using rest(3) Cons.prems(2,3) by auto
  have sorted: "sorted_wrt (<) (map ch_game_id cs)" using Cons.prems(2) by simp
  show ?case
  proof (cases "alive sent \<and> alive (sent @ ch_pgn_gz c)")
    case True
    then have "send_entries alive sep (map entry_of cs) (c # rest) (next + 1)
        (sent @ ch_pgn_gz c @ sep) = (r, sent')"
      using Cons.prems(4) rest(1) by (simp add: sink_write_def)
    from Cons.IH [OF rest(2) sorted sub this] show ?thesis by auto
  next
    case False
    then have "r = None \<and> (sent' = sent \<or> sent' = sent @ ch_pgn_gz c)"
      using Cons.prems(4) rest(1) by (auto simp: sink_write_def split: if_splits)
    then show ?thesis using False by auto
  qed
qed

section \<open>The calls\<close>

text \<open>The state of a download of the chunks \<open>cs\<close> that has sent the first \<open>gd_next\<close> of them.\<close>

definition download_at :: "string \<Rightarrow> int \<Rightarrow> pgn_chunk list \<Rightarrow> gz_download \<Rightarrow> string \<Rightarrow> bool" where
  "download_at sep test cs d sent \<longleftrightarrow> gd_test d = test \<and> gd_manifest d = map entry_of cs \<and>
     gd_separator d = sep \<and> gd_next d \<le> length cs \<and> sent = content sep (take (gd_next d) cs)"

lemma take_split: "a \<le> b \<Longrightarrow> take b xs = take a xs @ drop a (take b xs)"
  by (metis append_take_drop_id min.absorb1 take_take)

lemma gz_provider_sends:
  assumes "records_inv db0" "records_inv db" and "db_games db = db_games db0 @ new" "db_pgns db = db_pgns db0 @ pgns"
    and cs: "cs = chunks db0 (\<lambda>g. g_test g = test \<and> (g_valid g \<or> inc))"
    and at: "download_at sep test cs d sent" and "gz_provider conn alive db d sent = (r, sent')"
  shows "\<exists>t. content sep cs = sent' @ t \<and>
    (\<forall>d'. r = Some d' \<longrightarrow> download_at sep test cs d' sent' \<and> gd_next d' = min (gd_next d + 200) (length cs)) \<and>
    ((\<forall>s. alive s) \<and> conn = Inr () \<longrightarrow> r \<noteq> None)"
proof -
  let ?n = "gd_next d" and ?m = "min (gd_next d + 200) (length cs)"
  note d = at [unfolded download_at_def]
  have whole: "content sep cs = sent @ content sep (drop ?n cs)"
    using d by (metis append_take_drop_id content_simps(3))
  show ?thesis
  proof (cases "length cs \<le> ?n")
    case True
    then have "r = Some d" "sent' = sent" using assms(7) d by (auto simp: gz_provider_def)
    moreover have "content sep cs = sent" using whole True by simp
    moreover have "?n = length cs" using True d by simp
    ultimately show ?thesis using at by (intro exI [of _ "[]"]) simp
  next
    case False
    then have nm: "?n < ?m" "?m \<le> length cs" "0 < ?m" by auto
    show ?thesis
    proof (cases conn)
      case (Inl e)
      then have "r = None" "sent' = sent" using assms(7) False d by (auto simp: gz_provider_def Let_def)
      with whole Inl show ?thesis by simp
    next
      case (Inr u)
      let ?part = "drop ?n (take ?m cs)"
      let ?batch = "pgn_range db test (ch_game_id (cs ! ?n)) (ch_game_id (cs ! (?m - 1)))"
      have s0: "sorted_wrt (<) (map ch_game_id cs)"
        unfolding cs by (rule chunks_sorted [OF assms(1)])
      have sp: "sorted_wrt (<) (map ch_game_id ?part)"
        using s0 by (metis drop_map sorted_wrt_drop sorted_wrt_take take_map)
      have sb: "sorted_wrt (<) (map ch_game_id ?batch)"
        unfolding range_chunks by (rule chunks_sorted [OF assms(2)])
      have sub: "set ?part \<subseteq> set ?batch"
      proof
        fix c assume "c \<in> set ?part"
        then obtain i where i: "i < length ?part" "c = ?part ! i" by (auto simp: in_set_conv_nth)
        then have "i < ?m - ?n" by simp
        then have "?n + i < ?m" by linarith
        then have k: "?n + i < ?m" "c = cs ! (?n + i)" using i(2) nm by simp_all
        have less: "ch_game_id (cs ! a) \<le> ch_game_id (cs ! b)" if "a \<le> b" "b < length cs" for a b
          using sorted_wrt_nth_less [OF s0, of a b] that by (cases "a = b") auto
        have range: "ch_game_id (cs ! ?n) \<le> ch_game_id c" "ch_game_id c \<le> ch_game_id (cs ! (?m - 1))"
          unfolding k(2) using less [of ?n "?n + i"] less [of "?n + i" "?m - 1"] k(1) nm(2) by auto
        have "c \<in> set cs" using k nm(2) by auto
        show "c \<in> set ?batch"
          unfolding range_chunks
          by (rule chunks_grow [OF assms(1-4) \<open>c \<in> set cs\<close> [unfolded cs]]) (use range in auto)
      qed
      obtain r1 where r1: "send_entries alive sep (map entry_of ?part) ?batch ?n sent = (r1, sent')"
        and r: "r = map_option (\<lambda>i. d\<lparr>gd_next := i\<rparr>) r1"
        using assms(7) False d Inr nm
        by (auto simp: gz_provider_def Let_def take_map drop_map split: prod.splits option.splits)
      from send_entries_sends [OF sb sp sub r1] obtain t where
        t: "sent @ content sep ?part = sent' @ t" and
        ok: "\<And>i. r1 = Some i \<Longrightarrow> t = [] \<and> i = ?n + length ?part" and
        live: "(\<forall>s. alive s) \<Longrightarrow> r1 \<noteq> None" by auto
      have parts: "drop ?n cs = ?part @ drop ?m cs"
        using nm by (metis append_take_drop_id drop_append drop_take less_imp_le_nat take_drop
            le_add_diff_inverse2 drop_drop)
      have "content sep cs = sent' @ t @ content sep (drop ?m cs)"
        using whole t by (simp add: parts)
      moreover have "download_at sep test cs d' sent' \<and> gd_next d' = ?m" if "r = Some d'" for d'
      proof -
        from that r obtain i where i: "r1 = Some i" "d' = d\<lparr>gd_next := i\<rparr>" by auto
        have len: "length ?part = ?m - ?n" using nm by simp
        have "content sep (take ?m cs) = sent @ content sep ?part"
          using take_split [of ?n ?m cs] nm(1) d by (metis content_simps(3) less_imp_le_nat)
        then show ?thesis using ok [OF i(1)] i(2) t d nm by (simp add: download_at_def len)
      qed
      moreover have "(\<forall>s. alive s) \<and> conn = Inr () \<longrightarrow> r \<noteq> None" using live r by simp
      ultimately show ?thesis by blast
    qed
  qed
qed

text \<open>A later moment: the record has grown at its end.\<close>

definition later_record :: "db \<Rightarrow> db \<Rightarrow> bool" where
  "later_record db db' \<longleftrightarrow> records_inv db' \<and>
     (\<exists>new pgns. db_games db' = db_games db @ new \<and> db_pgns db' = db_pgns db @ pgns)"

text \<open>
  All the calls: the peer receives a prefix of the content, and the whole of it when it takes
  what it is sent, a connection is had at each call, and there are enough calls.
\<close>

lemma gz_calls_send:
  assumes "records_inv db0" and "\<forall>call \<in> set calls. later_record db0 (snd call)"
    and cs: "cs = chunks db0 (\<lambda>g. g_test g = test \<and> (g_valid g \<or> inc))"
    and "download_at sep test cs d sent" and "gz_calls alive (length (content sep cs)) calls d sent = (r, sent')"
  shows "(\<exists>t. content sep cs = sent' @ t) \<and>
    ((\<forall>s. alive s) \<and> (\<forall>(conn, db) \<in> set calls. conn = Inr ()) \<longrightarrow> r \<noteq> None \<and>
       (length cs \<le> gd_next d + 200 * length calls \<longrightarrow> sent' = content sep cs))"
  using assms(2,4,5)
proof (induction calls arbitrary: d sent)
  case Nil
  then have r: "r = Some d" "sent' = sent" by simp_all
  have "content sep cs = sent @ content sep (drop (gd_next d) cs)"
    using Nil.prems(2) unfolding download_at_def by (metis append_take_drop_id content_simps(3))
  then show ?case using r by auto
next
  case (Cons call calls)
  obtain conn db where call: "call = (conn, db)" by fastforce
  have whole: "content sep cs = sent @ content sep (drop (gd_next d) cs)"
    using Cons.prems(2) unfolding download_at_def by (metis append_take_drop_id content_simps(3))
  show ?case
  proof (cases "length (content sep cs) \<le> length sent")
    case True
    then have "content sep cs = sent" using whole by simp
    moreover have "r = Some d" "sent' = sent" using Cons.prems(3) True by (simp_all add: call)
    ultimately show ?thesis by simp
  next
    case False
    obtain r1 sent1 where p: "gz_provider conn alive db d sent = (r1, sent1)" by fastforce
    obtain new pgns where db: "records_inv db" "db_games db = db_games db0 @ new" "db_pgns db = db_pgns db0 @ pgns"
      using Cons.prems(1) call by (auto simp: later_record_def)
    from gz_provider_sends [OF assms(1) db cs Cons.prems(2) p] obtain t where
      t: "content sep cs = sent1 @ t" and
      next': "\<And>d'. r1 = Some d' \<Longrightarrow> download_at sep test cs d' sent1 \<and> gd_next d' = min (gd_next d + 200) (length cs)"
      and live: "(\<forall>s. alive s) \<and> conn = Inr () \<Longrightarrow> r1 \<noteq> None" by blast
    show ?thesis
    proof (cases r1)
      case None
      then have "r = None" "sent' = sent1" using Cons.prems(3) False p by (simp_all add: call)
      then show ?thesis using t live None call by auto
    next
      case (Some d')
      then have rest: "gz_calls alive (length (content sep cs)) calls d' sent1 = (r, sent')"
        using Cons.prems(3) False p by (simp add: call)
      have n: "gd_next d' = min (gd_next d + 200) (length cs)" using next' [OF Some] by blast
      have IH: "(\<exists>t. content sep cs = sent' @ t) \<and>
          ((\<forall>s. alive s) \<and> (\<forall>(conn, db) \<in> set calls. conn = Inr ()) \<longrightarrow> r \<noteq> None \<and>
             (length cs \<le> gd_next d' + 200 * length calls \<longrightarrow> sent' = content sep cs))"
        by (rule Cons.IH [OF _ conjunct1 [OF next' [OF Some]] rest])
          (use Cons.prems(1) in simp)
      have "length cs \<le> gd_next d' + 200 * length calls"
        if "length cs \<le> gd_next d + 200 * length (call # calls)"
        using that n by (simp add: min_def)
      then show ?thesis using IH call by auto
    qed
  qed
qed

lemma length_content:
  "length (content sep cs) = sum_list (map (nat \<circ> me_gz_bytes) (map entry_of cs)) + length sep * length (map entry_of cs)"
  by (induction cs) auto

lemma start_download_at:
  assumes "start_download sep db test inc = (announced, d)"
  defines "cs \<equiv> chunks db (\<lambda>g. g_test g = test \<and> (g_valid g \<or> inc))"
  shows "announced = length (content sep cs)" and "download_at sep test cs d []" and "gd_next d = 0"
  using assms(1) unfolding length_content
  by (auto simp: start_download_def manifest_chunks cs_def download_at_def Let_def)

end
