(* ===== verification/Pgn.thy ===== *)
theory Pgn
  imports Spec
begin

text \<open>
  client/pgn.hpp and client/pgn.cpp: the games of a PGN file written by fastchess, their tags,
  and their translation to the server's vocabulary. The regular expressions are matched as the
  backtracking matcher of ECMAScript does; each of them has at most one way to match from a
  given position. Sums of 64-bit counts wrap around. \<open>oob\<close> is the value \<^verbatim>\<open>std::llround\<close>
  returns out of range.
\<close>

section \<open>Splitting\<close>

definition event_tag :: string where
  "event_tag = ''[Event ''"

definition is_break :: "char \<Rightarrow> bool" where
  "is_break c \<longleftrightarrow> c = newline \<or> c = carriage_return"

definition game_text :: "string \<Rightarrow> string" where
  "game_text s = strip_back is_break s @ [newline]"

text \<open>The loop from the position of a game's first tag.\<close>

function split_games :: "string \<Rightarrow> string list" where
  "split_games s =
     (case find_str (newline # event_tag) (drop 1 s) of
        None \<Rightarrow> [game_text s]
      | Some i \<Rightarrow> game_text (take (i + 2) s) # split_games (drop (i + 2) s))"
  by pat_completeness auto
termination
proof (relation "measure length", simp)
  fix s i
  assume "find_str (newline # event_tag) (drop 1 s) = Some i"
  then have "s \<noteq> []" by (auto simp: event_tag_def)
  then show "(drop (i + 2) s, s) \<in> measure length" by (cases s) auto
qed

declare split_games.simps [simp del]

definition split_pgn_games :: "string \<Rightarrow> string list" where
  "split_pgn_games pgn =
     (case find_str event_tag pgn of None \<Rightarrow> [] | Some i \<Rightarrow> split_games (drop i pgn))"

section \<open>Tags\<close>

definition is_word_char :: "char \<Rightarrow> bool" where
  "is_word_char c \<longleftrightarrow> is_alnum c \<or> c = CHR ''_''"

text \<open>
  The quoted value after its opening quote: bytes other than the quote and the backslash, and a
  backslash with any byte that ends no line; the value and what follows its closing quote.
\<close>

fun quoted_value :: "string \<Rightarrow> (string \<times> string) option" where
  "quoted_value [] = None"
| "quoted_value (c # cs) =
     (if c = CHR 0x22 then Some ([], cs)
      else if c = CHR 0x5C then
        (case cs of
           [] \<Rightarrow> None
         | d # ds \<Rightarrow>
             if is_break d then None
             else map_option (\<lambda>(v, rest). (c # d # v, rest)) (quoted_value ds))
      else map_option (\<lambda>(v, rest). (c # v, rest)) (quoted_value cs))"

text \<open>A line that is \<open>[Name "value"]\<close>, with white space after the name and at the end.\<close>

definition match_tag :: "string \<Rightarrow> (string \<times> string) option" where
  "match_tag line =
     (case line of
        [] \<Rightarrow> None
      | c # cs \<Rightarrow>
          if c \<noteq> CHR ''['' then None
          else
            let name = takeWhile is_word_char cs; rest = dropWhile is_word_char cs;
                after = dropWhile is_space rest
            in if name = [] \<or> after = rest then None
               else case after of
                 [] \<Rightarrow> None
               | q # qs \<Rightarrow>
                   if q \<noteq> CHR 0x22 then None
                   else case quoted_value qs of
                     None \<Rightarrow> None
                   | Some (v, tail) \<Rightarrow>
                       (case tail of
                          [] \<Rightarrow> None
                        | b # bs \<Rightarrow>
                            if b = CHR '']'' \<and> list_all is_space bs then Some (name, v) else None))"

definition drop_cr :: "string \<Rightarrow> string" where
  "drop_cr line = (if line \<noteq> [] \<and> last line = carriage_return then butlast line else line)"

type_synonym tags = "string \<Rightarrow> string option"

text \<open>The loop over the lines, up to the first line of moves.\<close>

fun collect_tags :: "string list \<Rightarrow> tags \<Rightarrow> tags" where
  "collect_tags [] tags = tags"
| "collect_tags (l # ls) tags =
     (let line = drop_cr l
      in case match_tag line of
           Some (k, v) \<Rightarrow> collect_tags ls (tags(k \<mapsto> v))
         | None \<Rightarrow> if line \<noteq> [] \<and> hd line \<noteq> CHR ''['' then tags else collect_tags ls tags)"

definition tags_of :: "string \<Rightarrow> tags" where
  "tags_of game = collect_tags (getlines newline game) Map.empty"

definition pgn_tags :: "string \<Rightarrow> tags list" where
  "pgn_tags pgn = map tags_of (split_pgn_games pgn)"

text \<open>\<^verbatim>\<open>tags[key]\<close>: the empty string when there is none.\<close>

definition tag :: "tags \<Rightarrow> string \<Rightarrow> string" where
  "tag tags k = (case tags k of None \<Rightarrow> [] | Some v \<Rightarrow> v)"

section \<open>Values\<close>

definition map_termination :: "string \<Rightarrow> string" where
  "map_termination t =
     (if t = [] \<or> t = ''normal'' then ''normal''
      else if t = ''time forfeit'' then ''timeout''
      else if t = ''illegal move'' \<or> t = ''rules infraction'' then ''illegal_move''
      else if t = ''adjudication'' then ''adjudication''
      else if t = ''abandoned'' \<or> t = ''stalled connection'' \<or> t = ''crash'' \<or> t = ''disconnect''
      then ''crash''
      else ''other'')"

text \<open>\<^verbatim>\<open>std::stoll\<close> of a string of digits.\<close>

definition stoll :: "string \<Rightarrow> int result" where
  "stoll s = (case cpp_stoll s of None \<Rightarrow> Inl OutOfRange | Some (v, _) \<Rightarrow> Inr v)"

text \<open>\<open>(\d+):(\d{2}):(\d{2})\<close>, the whole string.\<close>

definition match_duration :: "string \<Rightarrow> (string \<times> string \<times> string) option" where
  "match_duration s =
     (let h = takeWhile is_digit s; rest = dropWhile is_digit s
      in case rest of
           [c1, m1, m2, c2, s1, s2] \<Rightarrow>
             if h \<noteq> [] \<and> c1 = CHR '':'' \<and> c2 = CHR '':'' \<and> list_all is_digit [m1, m2, s1, s2]
             then Some (h, [m1, m2], [s1, s2]) else None
         | _ \<Rightarrow> None)"

definition parse_duration :: "string \<Rightarrow> int option result" where
  "parse_duration s =
     (case match_duration s of
        None \<Rightarrow> Inr None
      | Some (h, m, sec) \<Rightarrow>
          bindE (stoll h) (\<lambda>hours.
          bindE (stoll m) (\<lambda>minutes.
          bindE (stoll sec) (\<lambda>seconds.
            let ms = wrap_int 64 (wrap_int 64 (wrap_int 64 (wrap_int 64 (hours * 3600) + minutes * 60) + seconds) * 1000)
            in Inr (if 2147483647 < ms then None else Some (wrap_int 32 ms))))))"

section \<open>Nodes and times\<close>

record engine_usage =
  eu_nodes :: int
  eu_time_ms :: int

record color_usage =
  cu_white :: "engine_usage option"
  cu_black :: "engine_usage option"

text \<open>\<open>n=(\d+)\<close> at the head of a string, and the first place of a comment where it matches after a
  word boundary; \<open>prev\<close> is the byte before.\<close>

definition nodes_at :: "string \<Rightarrow> string option" where
  "nodes_at s =
     (let ds = takeWhile is_digit (drop 2 s)
      in if starts_with s ''n='' \<and> ds \<noteq> [] then Some ds else None)"

fun search_nodes :: "bool \<Rightarrow> string \<Rightarrow> string option" where
  "search_nodes prev [] = None"
| "search_nodes prev (c # cs) =
     (case (if prev then None else nodes_at (c # cs)) of
        Some ds \<Rightarrow> Some ds
      | None \<Rightarrow> search_nodes (is_word_char c) cs)"

text \<open>\<open>\s(\d+(?:\.\d+)?)s\b\<close> at the head of a string, and its first match.\<close>

definition time_at :: "string \<Rightarrow> string option" where
  "time_at s =
     (case s of
        [] \<Rightarrow> None
      | c # cs \<Rightarrow>
          if \<not> is_space c then None
          else
            let ip = takeWhile is_digit cs; rest = dropWhile is_digit cs;
                fp = (if starts_with rest ''.'' then takeWhile is_digit (drop 1 rest) else []);
                num = (if fp = [] then ip else ip @ ''.'' @ fp);
                after_num = drop (length num) cs
            in if ip \<noteq> [] \<and> starts_with after_num ''s'' \<and> (drop 1 after_num = [] \<or> \<not> is_word_char (after_num ! 1))
               then Some num else None)"

fun search_time :: "string \<Rightarrow> string option" where
  "search_time [] = None"
| "search_time (c # cs) = (case time_at (c # cs) of Some t \<Rightarrow> Some t | None \<Rightarrow> search_time cs)"

definition stod :: "string \<Rightarrow> real result" where
  "stod s =
     (case strtod_decimal s of
        None \<Rightarrow> Inl InvalidArgument
      | Some (v, _) \<Rightarrow> if double_overflow \<le> v then Inl OutOfRange else Inr v)"

text \<open>The sums of both sides, \<^const>\<open>None\<close> for a side without a counted move.\<close>

type_synonym usage_state = "engine_usage option \<times> engine_usage option"

definition add_usage :: "int \<Rightarrow> int \<Rightarrow> engine_usage option \<Rightarrow> engine_usage option" where
  "add_usage nodes time u =
     (let u = (case u of None \<Rightarrow> \<lparr>eu_nodes = 0, eu_time_ms = 0\<rparr> | Some u \<Rightarrow> u)
      in Some \<lparr>eu_nodes = wrap_int 64 (eu_nodes u + nodes), eu_time_ms = wrap_int 64 (eu_time_ms u + time)\<rparr>)"

definition count_comment :: "int \<Rightarrow> bool \<Rightarrow> string \<Rightarrow> usage_state \<Rightarrow> usage_state result" where
  "count_comment oob white comment st =
     (case (search_nodes False comment, search_time comment) of
        (Some n, Some t) \<Rightarrow>
          bindE (stoll n) (\<lambda>nodes.
          bindE (stod t) (\<lambda>secs.
            let ms = cpp_llround oob (secs * 1000)
            in Inr (if white then (add_usage nodes ms (fst st), snd st)
                    else (fst st, add_usage nodes ms (snd st)))))
      | _ \<Rightarrow> Inr st)"

text \<open>The comments \<open>{..}\<close> of the moves, without their closing brace.\<close>

function comments :: "string \<Rightarrow> string list" where
  "comments s =
     (case dropWhile (\<lambda>c. c \<noteq> CHR ''{'') s of
        [] \<Rightarrow> []
      | c # cs \<Rightarrow>
          (case dropWhile (\<lambda>c. c \<noteq> CHR ''}'') cs of
             [] \<Rightarrow> []
           | _ # rest \<Rightarrow> (c # takeWhile (\<lambda>c. c \<noteq> CHR ''}'') cs) # comments rest))"
  by pat_completeness auto
termination
proof (relation "measure length", simp)
  fix s c cs b rest
  assume a: "dropWhile (\<lambda>c. c \<noteq> CHR ''{'') s = c # cs" "dropWhile (\<lambda>c. c \<noteq> CHR ''}'') cs = b # rest"
  have "length (c # cs) \<le> length s" unfolding a(1) [symmetric] by (rule length_dropWhile_le)
  moreover have "length (b # rest) \<le> length cs" unfolding a(2) [symmetric] by (rule length_dropWhile_le)
  ultimately show "(rest, s) \<in> measure length" by simp
qed

declare comments.simps [simp del]

text \<open>One comment per move, the sides alternating.\<close>

fun count_comments :: "int \<Rightarrow> bool \<Rightarrow> string list \<Rightarrow> usage_state \<Rightarrow> usage_state result" where
  "count_comments oob white [] st = Inr st"
| "count_comments oob white (c # cs) st =
     bindE (count_comment oob white c st) (count_comments oob (\<not> white) cs)"

definition usage_by_color :: "int \<Rightarrow> string \<Rightarrow> bool \<Rightarrow> color_usage result" where
  "usage_by_color oob game white_first =
     (case find_str [newline, newline] game of
        None \<Rightarrow> Inr \<lparr>cu_white = None, cu_black = None\<rparr>
      | Some i \<Rightarrow>
          bindE (count_comments oob white_first (comments (drop i game)) (None, None)) (\<lambda>(w, b).
            Inr \<lparr>cu_white = w, cu_black = b\<rparr>))"

section \<open>One game\<close>

record parsed_game =
  pg_tags :: tags
  pg_text :: string
  pg_candidate_is_white :: bool
  pg_outcome :: string
  pg_termination :: string
  pg_ply_count :: "int option"
  pg_duration_ms :: "int option"
  pg_candidate_usage :: "engine_usage option"
  pg_baseline_usage :: "engine_usage option"

definition outcome_of_result :: "string \<Rightarrow> bool \<Rightarrow> string option" where
  "outcome_of_result result candidate_is_white =
     (if result = ''1/2-1/2'' then Some ''draw''
      else if result = ''1-0'' \<or> result = ''0-1''
      then Some (if (result = ''1-0'') = candidate_is_white then ''candidate_win'' else ''candidate_loss'')
      else None)"

text \<open>The side to move of the initial position: the second field of the FEN.\<close>

definition white_moves_first :: "string option \<Rightarrow> bool" where
  "white_moves_first fen =
     (case fen of
        None \<Rightarrow> True
      | Some f \<Rightarrow>
          (case find_char (CHR '' '') f of
             None \<Rightarrow> True
           | Some sp \<Rightarrow> \<not> (sp + 1 < length f \<and> f ! (sp + 1) = CHR ''b'')))"

definition parse_pgn_game :: "int \<Rightarrow> string \<Rightarrow> string \<Rightarrow> parsed_game option result" where
  "parse_pgn_game oob game candidate_name =
     (let tags = tags_of game
      in if tag tags ''White'' \<noteq> candidate_name \<and> tag tags ''Black'' \<noteq> candidate_name then Inr None
         else
           let white = (tag tags ''White'' = candidate_name)
           in case outcome_of_result (tag tags ''Result'') white of
                None \<Rightarrow> Inr None
              | Some outcome \<Rightarrow>
                  bindE (case tags ''GameDuration'' of None \<Rightarrow> Inr None | Some d \<Rightarrow> parse_duration d) (\<lambda>duration.
                  bindE (usage_by_color oob game (white_moves_first (tags ''FEN''))) (\<lambda>usage.
                    Inr (Some
                      \<lparr>pg_tags = tags, pg_text = game, pg_candidate_is_white = white,
                       pg_outcome = outcome, pg_termination = map_termination (tag tags ''Termination''),
                       pg_ply_count = (case tags ''PlyCount'' of None \<Rightarrow> None
                                       | Some n \<Rightarrow> map_option fst (cpp_stoi n)),
                       pg_duration_ms = duration,
                       pg_candidate_usage = (if white then cu_white usage else cu_black usage),
                       pg_baseline_usage = (if white then cu_black usage else cu_white usage)\<rparr>))))"

section \<open>Lemmas\<close>

lemma parse_pgn_game_Some:
  assumes "parse_pgn_game oob game name = Inr (Some g)"
  obtains out duration usage where
    "outcome_of_result (tag (tags_of game) ''Result'') (pg_candidate_is_white g) = Some out"
    "(case tags_of game ''GameDuration'' of None \<Rightarrow> Inr None | Some d \<Rightarrow> parse_duration d) = Inr duration"
    "usage_by_color oob game (white_moves_first (tags_of game ''FEN'')) = Inr usage"
    "pg_candidate_is_white g = (tag (tags_of game) ''White'' = name)"
    "pg_text g = game" "pg_outcome g = out"
    "pg_termination g = map_termination (tag (tags_of game) ''Termination'')"
    "pg_ply_count g = (case tags_of game ''PlyCount'' of None \<Rightarrow> None | Some n \<Rightarrow> map_option fst (cpp_stoi n))"
    "pg_duration_ms g = duration"
    "pg_candidate_usage g = (if pg_candidate_is_white g then cu_white usage else cu_black usage)"
    "pg_baseline_usage g = (if pg_candidate_is_white g then cu_black usage else cu_white usage)"
proof -
  let ?tags = "tags_of game"
  let ?white = "tag ?tags ''White'' = name"
  have plays: "tag ?tags ''White'' = name \<or> tag ?tags ''Black'' = name"
    by (rule ccontr) (use assms in \<open>simp add: parse_pgn_game_def\<close>)
  obtain out where out: "outcome_of_result (tag ?tags ''Result'') ?white = Some out"
    using assms plays by (cases "outcome_of_result (tag ?tags ''Result'') ?white") (auto simp: parse_pgn_game_def Let_def)
  from assms plays out obtain duration usage where
    "(case ?tags ''GameDuration'' of None \<Rightarrow> Inr None | Some d \<Rightarrow> parse_duration d) = Inr duration"
    "usage_by_color oob game (white_moves_first (?tags ''FEN'')) = Inr usage"
    "g = \<lparr>pg_tags = ?tags, pg_text = game, pg_candidate_is_white = ?white,
          pg_outcome = out, pg_termination = map_termination (tag ?tags ''Termination''),
          pg_ply_count = (case ?tags ''PlyCount'' of None \<Rightarrow> None | Some n \<Rightarrow> map_option fst (cpp_stoi n)),
          pg_duration_ms = duration,
          pg_candidate_usage = (if ?white then cu_white usage else cu_black usage),
          pg_baseline_usage = (if ?white then cu_black usage else cu_white usage)\<rparr>"
    unfolding parse_pgn_game_def Let_def by auto
  with out show thesis by (intro that) simp_all
qed

end
