(* ===== verification/ClientApi.thy ===== *)
theory ClientApi
  imports Json Sanity
begin

text \<open>
  client/api.hpp and client/api.cpp: the server's API as the client calls it. A call is the
  request it sends and the decoding of the reply. Parameters: the reply of the HTTP library
  (the text of a transport error, or a status and what \<^verbatim>\<open>json::parse\<close> makes of the body,
  \<^const>\<open>None\<close> for an empty or malformed one), and \<open>dump\<close>, the text of a JSON document in
  messages. The client's own structures of the adjudication are those of server/types.hpp.
\<close>

section \<open>Typed access\<close>

text \<open>\<^verbatim>\<open>json::at\<close> and \<^verbatim>\<open>json::get\<close>: a missing member or a value of another type throws. A
  floating-point number read as an integer is truncated.\<close>

definition json_at :: "json \<Rightarrow> string \<Rightarrow> json result" where
  "json_at j k =
     (if \<not> is_object j then Inl JsonErr
      else case json_find j k of None \<Rightarrow> Inl JsonErr | Some v \<Rightarrow> Inr v)"

definition truncate_real :: "real \<Rightarrow> int" where
  "truncate_real r = (if 0 \<le> r then \<lfloor>r\<rfloor> else - \<lfloor>- r\<rfloor>)"

fun get_int64 :: "json \<Rightarrow> int result" where
  "get_int64 (JInt k) = Inr (wrap_int 64 k)"
| "get_int64 (JReal r) = Inr (wrap_int 64 (truncate_real r))"
| "get_int64 _ = Inl JsonErr"

fun get_int :: "json \<Rightarrow> int result" where
  "get_int (JInt k) = Inr (wrap_int 32 k)"
| "get_int (JReal r) = Inr (wrap_int 32 (truncate_real r))"
| "get_int (JBool b) = Inr (if b then 1 else 0)"
| "get_int _ = Inl JsonErr"

fun get_bool :: "json \<Rightarrow> bool result" where
  "get_bool (JBool b) = Inr b"
| "get_bool _ = Inl JsonErr"

fun get_string :: "json \<Rightarrow> string result" where
  "get_string (JString s) = Inr s"
| "get_string _ = Inl JsonErr"

definition at_as :: "(json \<Rightarrow> 'a result) \<Rightarrow> json \<Rightarrow> string \<Rightarrow> 'a result" where
  "at_as f j k = bindE (json_at j k) f"

section \<open>Requests and replies\<close>

record api_call =
  ac_method :: string
  ac_path :: string
  ac_body :: "json option"

type_synonym http_reply = "string + int \<times> json option"

record api_response =
  ar_status :: int
  ar_body :: json

definition api_request :: "api_call \<Rightarrow> http_reply \<Rightarrow> api_response result" where
  "api_request c reply =
     (case reply of
        Inl e \<Rightarrow> Inl (TransientErr (ac_method c @ '' '' @ ac_path c @ '': '' @ e))
      | Inr (status, body) \<Rightarrow>
          if 500 \<le> status
          then Inl (TransientErr (ac_method c @ '' '' @ ac_path c @ '': HTTP '' @ show_int status))
          else Inr \<lparr>ar_status = status, ar_body = (case body of None \<Rightarrow> JNull | Some j \<Rightarrow> j)\<rparr>)"

definition describe :: "(json \<Rightarrow> string) \<Rightarrow> api_response \<Rightarrow> string" where
  "describe dump r =
     (let part = (\<lambda>k. case json_find (ar_body r) k of None \<Rightarrow> [] | Some v \<Rightarrow> '' '' @ dump v)
      in ''HTTP '' @ show_int (ar_status r) @ part ''error'' @ part ''reason'')"

section \<open>Clients\<close>

definition register_call :: "json \<Rightarrow> api_call" where
  "register_call info = \<lparr>ac_method = ''POST'', ac_path = ''/api/clients/register'', ac_body = Some info\<rparr>"

definition api_register :: "(json \<Rightarrow> string) \<Rightarrow> json \<Rightarrow> http_reply \<Rightarrow> int result" where
  "api_register dump info reply =
     bindE (api_request (register_call info) reply) (\<lambda>r.
       if ar_status r = 403 then Inl (ProtocolErr ''client banido pelo server'')
       else if ar_status r \<noteq> 200 then Inl (ProtocolErr (''register: '' @ describe dump r))
       else at_as get_int64 (ar_body r) ''client_id'')"

definition heartbeat_call :: "int \<Rightarrow> real \<Rightarrow> api_call" where
  "heartbeat_call client cpu_factor =
     \<lparr>ac_method = ''POST'', ac_path = ''/api/clients/'' @ show_int client @ ''/heartbeat'',
      ac_body = Some (JObject [(''cpu_factor'', JReal cpu_factor)])\<rparr>"

definition api_heartbeat :: "(json \<Rightarrow> string) \<Rightarrow> int \<Rightarrow> real \<Rightarrow> http_reply \<Rightarrow> bool result" where
  "api_heartbeat dump client cpu_factor reply =
     bindE (api_request (heartbeat_call client cpu_factor) reply) (\<lambda>r.
       if ar_status r \<noteq> 200 then Inl (ProtocolErr (''heartbeat: '' @ describe dump r))
       else at_as get_bool (ar_body r) ''banned'')"

section \<open>The active test\<close>

record api_test =
  ap_test_id :: int
  ap_kind :: string
  ap_candidate_commit :: string
  ap_baseline_commit :: string
  ap_candidate_tarball_url :: string
  ap_baseline_tarball_url :: string
  ap_tc_base_ms :: int
  ap_tc_increment_ms :: int
  ap_hash_mb :: int
  ap_threads :: int
  ap_adjudication :: adjudication

definition active_test_call :: api_call where
  "active_test_call = \<lparr>ac_method = ''GET'', ac_path = ''/api/active_test'', ac_body = None\<rparr>"

definition decode_draw :: "json \<Rightarrow> draw_adjudication option result" where
  "decode_draw adj =
     (case json_find adj ''draw'' of
        Some d \<Rightarrow>
          if is_object d then
            bindE (at_as get_int d ''movenumber'') (\<lambda>n.
            bindE (at_as get_int d ''movecount'') (\<lambda>c.
            bindE (at_as get_int d ''score_cp'') (\<lambda>s.
              Inr (Some \<lparr>dr_movenumber = n, dr_movecount = c, dr_score_cp = s\<rparr>))))
          else Inr None
      | None \<Rightarrow> Inr None)"

definition decode_resign :: "json \<Rightarrow> resign_adjudication option result" where
  "decode_resign adj =
     (case json_find adj ''resign'' of
        Some d \<Rightarrow>
          if is_object d then
            bindE (at_as get_int d ''movecount'') (\<lambda>c.
            bindE (at_as get_int d ''score_cp'') (\<lambda>s.
            bindE (at_as get_bool d ''twosided'') (\<lambda>t.
              Inr (Some \<lparr>rs_movecount = c, rs_score_cp = s, rs_twosided = t\<rparr>))))
          else Inr None
      | None \<Rightarrow> Inr None)"

definition decode_adjudication :: "json \<Rightarrow> adjudication result" where
  "decode_adjudication b =
     (case json_find b ''adjudication'' of
        None \<Rightarrow> Inr \<lparr>adj_draw = None, adj_resign = None\<rparr>
      | Some adj \<Rightarrow>
          bindE (decode_draw adj) (\<lambda>draw.
          bindE (decode_resign adj) (\<lambda>resign.
            Inr \<lparr>adj_draw = draw, adj_resign = resign\<rparr>)))"

definition decode_test :: "json \<Rightarrow> api_test result" where
  "decode_test b =
     bindE (at_as get_int64 b ''test_id'') (\<lambda>test_id.
     bindE (at_as get_string b ''kind'') (\<lambda>kind.
     bindE (at_as get_string b ''candidate_commit'') (\<lambda>candidate_commit.
     bindE (at_as get_string b ''baseline_commit'') (\<lambda>baseline_commit.
     bindE (at_as get_string b ''candidate_tarball_url'') (\<lambda>candidate_url.
     bindE (at_as get_string b ''baseline_tarball_url'') (\<lambda>baseline_url.
     bindE (at_as get_int b ''tc_base_ms'') (\<lambda>base.
     bindE (at_as get_int b ''tc_increment_ms'') (\<lambda>increment.
     bindE (at_as get_int b ''hash_mb'') (\<lambda>hash.
     bindE (at_as get_int b ''threads'') (\<lambda>threads.
     bindE (decode_adjudication b) (\<lambda>adj.
       Inr \<lparr>ap_test_id = test_id, ap_kind = kind, ap_candidate_commit = candidate_commit,
            ap_baseline_commit = baseline_commit, ap_candidate_tarball_url = candidate_url,
            ap_baseline_tarball_url = baseline_url, ap_tc_base_ms = base,
            ap_tc_increment_ms = increment, ap_hash_mb = hash, ap_threads = threads,
            ap_adjudication = adj\<rparr>)))))))))))"

definition api_active_test :: "(json \<Rightarrow> string) \<Rightarrow> http_reply \<Rightarrow> api_test option result" where
  "api_active_test dump reply =
     bindE (api_request active_test_call reply) (\<lambda>r.
       if ar_status r = 204 then Inr None
       else if ar_status r \<noteq> 200 then Inl (ProtocolErr (''active_test: '' @ describe dump r))
       else bindE (decode_test (ar_body r)) (\<lambda>t. Inr (Some t)))"

section \<open>Jobs\<close>

record api_pair =
  pp_pair_id :: int
  pp_position_seq :: int
  pp_fen :: string

datatype api_claim_status = ApiOk | ApiNoActiveTest | ApiBanned

record api_claim_result =
  ak_status :: api_claim_status
  ak_test_id :: int
  ak_pairs :: "api_pair list"

definition claim_call :: "int \<Rightarrow> int \<Rightarrow> api_call" where
  "claim_call client slots_free =
     \<lparr>ac_method = ''POST'', ac_path = ''/api/jobs/claim'',
      ac_body = Some (JObject [(''client_id'', JInt client), (''slots_free'', JInt slots_free)])\<rparr>"

definition decode_pair :: "json \<Rightarrow> api_pair result" where
  "decode_pair p =
     bindE (at_as get_int64 p ''pair_id'') (\<lambda>pair_id.
     bindE (at_as get_int p ''position_seq'') (\<lambda>seq.
     bindE (at_as get_string p ''fen'') (\<lambda>fen.
       Inr \<lparr>pp_pair_id = pair_id, pp_position_seq = seq, pp_fen = fen\<rparr>)))"

text \<open>What a range-for over a JSON value visits.\<close>

fun json_elements :: "json \<Rightarrow> json list" where
  "json_elements JNull = []"
| "json_elements (JArray js) = js"
| "json_elements (JObject kvs) = map snd kvs"
| "json_elements j = [j]"

definition api_claim :: "(json \<Rightarrow> string) \<Rightarrow> int \<Rightarrow> int \<Rightarrow> http_reply \<Rightarrow> api_claim_result result" where
  "api_claim dump client slots_free reply =
     bindE (api_request (claim_call client slots_free) reply) (\<lambda>r.
       let out = \<lparr>ak_status = ApiOk, ak_test_id = 0, ak_pairs = []\<rparr>
       in if ar_status r = 204 then Inr (out\<lparr>ak_status := ApiNoActiveTest\<rparr>)
          else if ar_status r = 403 then Inr (out\<lparr>ak_status := ApiBanned\<rparr>)
          else if ar_status r \<noteq> 200 then Inl (ProtocolErr (''claim: '' @ describe dump r))
          else
            bindE (at_as get_int64 (ar_body r) ''test_id'') (\<lambda>test_id.
            bindE (json_at (ar_body r) ''pairs'') (\<lambda>pairs.
            bindE (foldE (\<lambda>p ps. bindE (decode_pair p) (\<lambda>q. Inr (ps @ [q]))) (json_elements pairs) []) (\<lambda>ps.
              Inr (out\<lparr>ak_test_id := test_id, ak_pairs := ps\<rparr>)))))"

datatype api_submit_status = ApiAccepted | ApiAlreadyCompleted | ApiLeaseLost | ApiTestFinished
  | ApiClientBanned

definition submit_call :: "int \<Rightarrow> json \<Rightarrow> api_call" where
  "submit_call pair body =
     \<lparr>ac_method = ''POST'', ac_path = ''/api/jobs/'' @ show_int pair @ ''/result'', ac_body = Some body\<rparr>"

text \<open>\<^verbatim>\<open>value("reason", "")\<close>: a member that is no string throws.\<close>

definition reason_of :: "json \<Rightarrow> string result" where
  "reason_of j = (case json_find j ''reason'' of None \<Rightarrow> Inr [] | Some v \<Rightarrow> get_string v)"

definition submit_reason :: "string \<Rightarrow> api_submit_status option" where
  "submit_reason = map_of [(''already_completed'', ApiAlreadyCompleted), (''lease_lost'', ApiLeaseLost),
     (''test_finished'', ApiTestFinished), (''client_banned'', ApiClientBanned)]"

definition api_submit :: "(json \<Rightarrow> string) \<Rightarrow> int \<Rightarrow> json \<Rightarrow> http_reply \<Rightarrow> api_submit_status result" where
  "api_submit dump pair body reply =
     bindE (api_request (submit_call pair body) reply) (\<lambda>r.
       if ar_status r = 200 then Inr ApiAccepted
       else
         bindE (if ar_status r = 409 \<and> is_object (ar_body r) then reason_of (ar_body r) else Inr []) (\<lambda>reason.
           case submit_reason reason of
             Some s \<Rightarrow> Inr s
           | None \<Rightarrow> Inl (ProtocolErr (''result: '' @ describe dump r))))"

definition abandon_call :: "int \<Rightarrow> int \<Rightarrow> api_call" where
  "abandon_call pair client =
     \<lparr>ac_method = ''POST'', ac_path = ''/api/jobs/'' @ show_int pair @ ''/abandon'',
      ac_body = Some (JObject [(''client_id'', JInt client)])\<rparr>"

definition api_abandon :: "int \<Rightarrow> int \<Rightarrow> http_reply \<Rightarrow> unit result" where
  "api_abandon pair client reply = bindE (api_request (abandon_call pair client) reply) (\<lambda>_. Inr ())"

section \<open>Lemmas\<close>

lemma get_int_id: "int32 k \<Longrightarrow> get_int (JInt k) = Inr k" "int64 k \<Longrightarrow> get_int64 (JInt k) = Inr k"
  by (simp_all add: wrap_int_id)

lemma at_as_object [simp]:
  "at_as f (JObject kvs) k = (case map_of kvs k of None \<Rightarrow> Inl JsonErr | Some v \<Rightarrow> f v)"
  by (simp add: at_as_def json_at_def split: option.splits)

lemma api_request_reply [simp]:
  "s < 500 \<Longrightarrow> api_request c (Inr (s, body)) =
     Inr \<lparr>ar_status = s, ar_body = (case body of None \<Rightarrow> JNull | Some j \<Rightarrow> j)\<rparr>"
  "500 \<le> s \<Longrightarrow> \<exists>m. api_request c (Inr (s, body)) = Inl (TransientErr m)"
  by (simp_all add: api_request_def)

text \<open>An abandonment never fails for a reason the server states.\<close>

lemma abandon_reply: "s < 500 \<Longrightarrow> api_abandon pair client (Inr (s, body)) = Inr ()"
  by (simp add: api_abandon_def)

end
