(* ===== verification/Runner.thy ===== *)
theory Runner
  imports Pgn ClientApi Process
begin

text \<open>
  The pure part of client/runner.hpp and client/runner.cpp: the effective time control and its
  text, the command line of fastchess, and the body of a result. Paths are strings; \<open>oob\<close> is
  the value \<^verbatim>\<open>std::lround\<close> returns out of range.
\<close>

section \<open>Time control\<close>

record engine_set =
  es_test_id :: int
  es_candidate :: string
  es_baseline :: string
  es_tc_base_ms :: int
  es_tc_increment_ms :: int
  es_hash_mb :: int
  es_threads :: int
  es_adjudication :: adjudication

record slot_info =
  si_index :: int
  si_core :: "int option"

record effective_time =
  et_base_ms :: int
  et_increment_ms :: int

definition effective_tc :: "int \<Rightarrow> engine_set \<Rightarrow> real \<Rightarrow> effective_time" where
  "effective_tc oob e cpu_factor =
     \<lparr>et_base_ms = wrap_int 32 (cpp_llround oob (of_int (es_tc_base_ms e) * cpu_factor)),
      et_increment_ms = wrap_int 32 (cpp_llround oob (of_int (es_tc_increment_ms e) * cpu_factor))\<rparr>"

text \<open>\<^verbatim>\<open>"%.3f"\<close> of \<open>ms / 1000.0\<close>: the decimal digits of a whole number of milliseconds.\<close>

definition format_millis :: "int \<Rightarrow> string" where
  "format_millis ms =
     (let n = nat \<bar>ms\<bar>; r = n mod 1000
      in (if ms < 0 then ''-'' else []) @ show_nat (n div 1000) @ ''.'' @
         [digit_char (r div 100), digit_char (r div 10 mod 10), digit_char (r mod 10)])"

definition tc_secs :: "int \<Rightarrow> string" where
  "tc_secs ms =
     (let s = strip_back (\<lambda>c. c = CHR ''0'') (format_millis ms)
      in if last s = CHR ''.'' then butlast s else s)"

definition fastchess_tc :: "effective_time \<Rightarrow> string" where
  "fastchess_tc tc = tc_secs (et_base_ms tc) @ ''+'' @ tc_secs (et_increment_ms tc)"

section \<open>The command line\<close>

definition adjudication_args :: "adjudication \<Rightarrow> string list" where
  "adjudication_args a =
     (case adj_draw a of
        None \<Rightarrow> []
      | Some d \<Rightarrow> [''-draw'', ''movenumber='' @ show_int (dr_movenumber d),
                   ''movecount='' @ show_int (dr_movecount d), ''score='' @ show_int (dr_score_cp d)]) @
     (case adj_resign a of
        None \<Rightarrow> []
      | Some r \<Rightarrow> [''-resign'', ''movecount='' @ show_int (rs_movecount r),
                   ''score='' @ show_int (rs_score_cp r),
                   ''twosided='' @ (if rs_twosided r then ''true'' else ''false'')])"

definition fastchess_args ::
  "string \<Rightarrow> engine_set \<Rightarrow> effective_time \<Rightarrow> string \<Rightarrow> string \<Rightarrow> string \<Rightarrow> string list" where
  "fastchess_args fastchess e tc epd pgn event =
     [fastchess,
      ''-engine'', ''cmd='' @ es_candidate e, ''name=candidate'', ''args=uci'',
      ''-engine'', ''cmd='' @ es_baseline e, ''name=baseline'', ''args=uci'',
      ''-each'', ''tc='' @ fastchess_tc tc, ''option.Hash='' @ show_int (es_hash_mb e),
      ''option.Threads='' @ show_int (es_threads e),
      ''-openings'', ''file='' @ epd, ''format=epd'', ''order=sequential'',
      ''-rounds'', ''1'', ''-games'', ''2'', ''-repeat'', ''-concurrency'', ''1'',
      ''-pgnout'', ''file='' @ pgn, ''notation=san'', ''append=false'', ''nodes=true'',
      ''nps=true'',
      ''-event'', event, ''-ratinginterval'', ''0''] @ adjudication_args (es_adjudication e)"

section \<open>The body of a result\<close>

text \<open>The first two games of the file, padded to two.\<close>

definition parsed_games :: "int \<Rightarrow> string \<Rightarrow> parsed_game option list result" where
  "parsed_games oob pgn =
     bindE (foldE (\<lambda>text ps. bindE (parse_pgn_game oob text ''candidate'') (\<lambda>p. Inr (ps @ [p])))
              (take 2 (split_pgn_games pgn)) []) (\<lambda>ps.
       Inr (take 2 (ps @ [None, None])))"

definition usage_json :: "string \<Rightarrow> engine_usage option \<Rightarrow> (string \<times> json) list" where
  "usage_json who u =
     [(who @ ''_nodes'', nullable (\<lambda>u. JInt (eu_nodes u)) u),
      (who @ ''_time_ms'', nullable (\<lambda>u. JInt (eu_time_ms u)) u)]"

definition missing_pgn :: "string \<Rightarrow> string" where
  "missing_pgn note = ''{capi_net: partida ausente no PGN do fastchess. '' @ note @ ''}'' @ [newline]"

definition game_json ::
  "slot_info \<Rightarrow> effective_time \<Rightarrow> real \<Rightarrow> string \<Rightarrow> nat \<Rightarrow> parsed_game option \<Rightarrow> parsed_game option \<Rightarrow> json" where
  "game_json slot tc cpu_factor note i p other =
     JObject
       ([(''game_in_pair'', JInt (int i)), (''cpu_factor'', JReal cpu_factor),
         (''tc_base_effective_ms'', JInt (et_base_ms tc)),
         (''tc_increment_effective_ms'', JInt (et_increment_ms tc)),
         (''slot_index'', JInt (si_index slot)), (''core_id'', nullable JInt (si_core slot))]
        @ (case p of
             Some p \<Rightarrow>
               [(''candidate_is_white'', JBool (pg_candidate_is_white p)),
                (''outcome'', JString (pg_outcome p)), (''termination'', JString (pg_termination p)),
                (''ply_count'', nullable JInt (pg_ply_count p)),
                (''duration_ms'', nullable JInt (pg_duration_ms p)), (''pgn'', JString (pg_text p))]
               @ usage_json ''candidate'' (pg_candidate_usage p)
               @ usage_json ''baseline'' (pg_baseline_usage p)
           | None \<Rightarrow>
               [(''candidate_is_white'',
                   JBool (case other of Some o' \<Rightarrow> \<not> pg_candidate_is_white o' | None \<Rightarrow> i = 0)),
                (''outcome'', JString ''draw''), (''termination'', JString ''crash''),
                (''ply_count'', JNull), (''duration_ms'', JNull), (''pgn'', JString (missing_pgn note))]))"

definition make_result_body ::
  "int \<Rightarrow> int \<Rightarrow> string \<Rightarrow> string \<Rightarrow> slot_info \<Rightarrow> effective_time \<Rightarrow> real \<Rightarrow> json result" where
  "make_result_body oob client_id pgn note slot tc cpu_factor =
     bindE (parsed_games oob pgn) (\<lambda>ps.
       Inr (JObject
         [(''client_id'', JInt client_id),
          (''games'', JArray
             [game_json slot tc cpu_factor note 0 (ps ! 0) (ps ! 1),
              game_json slot tc cpu_factor note 1 (ps ! 1) (ps ! 0)])]))"

section \<open>What a parsed game holds\<close>

lemma map_termination_range:
  "map_termination t \<in> {''normal'', ''timeout'', ''illegal_move'', ''crash'', ''adjudication'', ''other''}"
  unfolding map_termination_def by auto

lemma outcome_of_result_range:
  "outcome_of_result r w = Some out \<Longrightarrow> out \<in> {''candidate_win'', ''draw'', ''candidate_loss''}"
  by (auto simp: outcome_of_result_def split: if_splits)

lemma parse_pgn_game_labels:
  assumes "parse_pgn_game oob game name = Inr (Some g)"
  shows "pg_outcome g \<in> {''candidate_win'', ''draw'', ''candidate_loss''}"
    and "pg_termination g \<in> {''normal'', ''timeout'', ''illegal_move'', ''crash'', ''adjudication'', ''other''}"
    and "pg_text g = game"
proof -
  have g: "pg_text g = game \<and> outcome_of_result (tag (tags_of game) ''Result'') (pg_candidate_is_white g) = Some (pg_outcome g)
      \<and> pg_termination g = map_termination (tag (tags_of game) ''Termination'')"
    by (rule parse_pgn_game_Some [OF assms]) simp
  show "pg_outcome g \<in> {''candidate_win'', ''draw'', ''candidate_loss''}"
    by (rule outcome_of_result_range) (use g in blast)
  show "pg_termination g \<in> {''normal'', ''timeout'', ''illegal_move'', ''crash'', ''adjudication'', ''other''}"
    unfolding g [THEN conjunct2, THEN conjunct2] by (rule map_termination_range)
  show "pg_text g = game" by (rule g [THEN conjunct1])
qed

lemma parsed_games_shape:
  assumes "parsed_games oob pgn = Inr ps"
  shows "length ps = 2"
    and "Some g \<in> set ps \<Longrightarrow> \<exists>text. parse_pgn_game oob text ''candidate'' = Inr (Some g)"
proof -
  let ?f = "\<lambda>text ps. bindE (parse_pgn_game oob text ''candidate'') (\<lambda>p. Inr (ps @ [p]))"
  let ?P = "\<lambda>ps. \<forall>g. Some g \<in> set ps \<longrightarrow> (\<exists>text. parse_pgn_game oob text ''candidate'' = Inr (Some g))"
  obtain qs where qs: "foldE ?f (take 2 (split_pgn_games pgn)) [] = Inr qs" "ps = take 2 (qs @ [None, None])"
    using assms by (auto simp: parsed_games_def)
  show "length ps = 2" by (simp add: qs(2))
  have "?P qs" by (rule foldE_invariant [OF qs(1)]) auto
  then show "\<exists>text. parse_pgn_game oob text ''candidate'' = Inr (Some g)" if "Some g \<in> set ps"
    using that set_take_subset [of 2 "qs @ [None, None]"] by (auto simp: qs(2))
qed

end
