(* ===== verification/Protocol.thy ===== *)
theory Protocol
  imports Runner HttpServer
begin

text \<open>
  The client and the server together: what one encodes the other decodes. The parsers of one
  side are inverses of the writers of the other, on the values each side can produce. That
  printing and parsing a JSON document gives it back is the JSON library's contract.
\<close>

section \<open>Results\<close>

text \<open>The report the server is meant to read for one game.\<close>

definition client_report ::
  "slot_info \<Rightarrow> effective_time \<Rightarrow> real \<Rightarrow> string \<Rightarrow> nat \<Rightarrow> parsed_game option \<Rightarrow> parsed_game option \<Rightarrow> game_report" where
  "client_report slot tc cpu_factor note i p other =
     (let base = \<lparr>gr_game_in_pair = int i,
            gr_candidate_is_white = (case other of Some o' \<Rightarrow> \<not> pg_candidate_is_white o' | None \<Rightarrow> i = 0),
            gr_outcome = ''draw'', gr_termination = ''crash'', gr_ply_count = None, gr_duration_ms = None,
            gr_cpu_factor_at_play = cpu_factor, gr_tc_base_effective_ms = et_base_ms tc,
            gr_tc_increment_effective_ms = et_increment_ms tc, gr_slot_index = si_index slot,
            gr_core_id = si_core slot, gr_pgn = missing_pgn note, gr_candidate_nodes = None,
            gr_candidate_time_ms = None, gr_baseline_nodes = None, gr_baseline_time_ms = None\<rparr>
      in case p of
           None \<Rightarrow> base
         | Some p \<Rightarrow>
             base\<lparr>gr_candidate_is_white := pg_candidate_is_white p, gr_outcome := pg_outcome p,
               gr_termination := pg_termination p, gr_ply_count := pg_ply_count p,
               gr_duration_ms := pg_duration_ms p, gr_pgn := pg_text p,
               gr_candidate_nodes := map_option eu_nodes (pg_candidate_usage p),
               gr_candidate_time_ms := map_option eu_time_ms (pg_candidate_usage p),
               gr_baseline_nodes := map_option eu_nodes (pg_baseline_usage p),
               gr_baseline_time_ms := map_option eu_time_ms (pg_baseline_usage p)\<rparr>)"

text \<open>The slot and the time control of a client that runs.\<close>

definition natural :: "int \<Rightarrow> bool" where
  "natural n \<longleftrightarrow> 0 \<le> n \<and> n \<le> INT32_MAX"

definition slot_ready :: "slot_info \<Rightarrow> effective_time \<Rightarrow> real \<Rightarrow> bool" where
  "slot_ready slot tc cpu_factor \<longleftrightarrow> natural (si_index slot) \<and> pred_option natural (si_core slot) \<and>
     natural (et_base_ms tc) \<and> natural (et_increment_ms tc) \<and> 0 < cpu_factor"

definition usage_ready :: "engine_usage \<Rightarrow> bool" where
  "usage_ready u \<longleftrightarrow> 0 \<le> eu_nodes u \<and> eu_nodes u < 2 ^ 63 \<and> 0 \<le> eu_time_ms u \<and> eu_time_ms u < 2 ^ 63"

definition game_ready :: "parsed_game \<Rightarrow> bool" where
  "game_ready p \<longleftrightarrow> pg_outcome p \<in> set kOutcomes \<and> pg_termination p \<in> set kTerminations \<and>
     pred_option natural (pg_ply_count p) \<and> pred_option natural (pg_duration_ms p) \<and>
     pred_option usage_ready (pg_candidate_usage p) \<and> pred_option usage_ready (pg_baseline_usage p)"

lemma json_member_object [simp]:
  "json_member (JObject kvs) k = (case map_of kvs k of None \<Rightarrow> None | Some v \<Rightarrow> if v = JNull then None else Some v)"
  by (simp add: json_member_def)

lemma read_int: "json_member j k = Some (JInt n) \<Longrightarrow> natural n \<Longrightarrow> req_int j k 0 = Inr n"
  by (simp add: req_int_def req_int64_def field_def natural_def INT32_MAX_def int64_of_json_id in_int_range_def)

lemma read_opt_int:
  assumes "json_find j k = Some (nullable JInt v)" and "pred_option natural v"
  shows "opt_int j k 0 = Inr v"
  using assms read_int [of j k]
  by (cases v) (auto simp: opt_int_def opt_field_def json_member_def)

lemma read_opt_count:
  assumes "json_find j k = Some (nullable (\<lambda>u. JInt (f u)) v)"
    and "pred_option (\<lambda>u. 0 \<le> f u \<and> f u < 2 ^ 63) v"
  shows "opt_count j k = Inr (map_option f v)"
  using assms
  by (cases v) (auto simp: opt_count_def json_member_def int64_of_json_id in_int_range_def)

lemma read_opt_count_missing: "json_find j k = None \<Longrightarrow> opt_count j k = Inr None"
  by (simp add: opt_count_def json_member_def)

lemma read_bool: "json_find j k = Some (JBool b) \<Longrightarrow> req_bool j k = Inr b"
  by (simp add: req_bool_def field_def json_member_def)

lemma read_enum: "json_find j k = Some (JString s) \<Longrightarrow> s \<in> set labels \<Longrightarrow> req_enum j k labels = Inr s"
  by (simp add: req_enum_def req_string_def field_def json_member_def)

lemma read_string: "json_find j k = Some (JString s) \<Longrightarrow> req_string j k = Inr s"
  by (simp add: req_string_def field_def json_member_def)

lemma read_double: "json_find j k = Some (JReal r) \<Longrightarrow> req_double j k = Inr r"
  by (simp add: req_double_def field_def json_member_def)

lemmas read_fields = read_opt_int read_bool read_string read_double

text \<open>The members of the object a game is sent as.\<close>

definition game_members :: "json \<Rightarrow> slot_info \<Rightarrow> effective_time \<Rightarrow> real \<Rightarrow> string \<Rightarrow> nat \<Rightarrow>
    parsed_game option \<Rightarrow> parsed_game option \<Rightarrow> bool" where
  "game_members j slot tc cpu note i p other \<longleftrightarrow>
     (let r = client_report slot tc cpu note i p other
      in is_object j \<and> json_find j ''game_in_pair'' = Some (JInt (int i)) \<and>
         json_find j ''candidate_is_white'' = Some (JBool (gr_candidate_is_white r)) \<and>
         json_find j ''outcome'' = Some (JString (gr_outcome r)) \<and>
         json_find j ''termination'' = Some (JString (gr_termination r)) \<and>
         json_find j ''ply_count'' = Some (nullable JInt (gr_ply_count r)) \<and>
         json_find j ''duration_ms'' = Some (nullable JInt (gr_duration_ms r)) \<and>
         json_find j ''cpu_factor'' = Some (JReal cpu) \<and>
         json_find j ''tc_base_effective_ms'' = Some (JInt (et_base_ms tc)) \<and>
         json_find j ''tc_increment_effective_ms'' = Some (JInt (et_increment_ms tc)) \<and>
         json_find j ''slot_index'' = Some (JInt (si_index slot)) \<and>
         json_find j ''core_id'' = Some (nullable JInt (si_core slot)) \<and>
         json_find j ''pgn'' = Some (JString (gr_pgn r)))"

lemma game_json_members: "game_members (game_json slot tc cpu note i p other) slot tc cpu note i p other"
  unfolding game_members_def Let_def
  by (cases p) (simp_all add: game_json_def client_report_def usage_json_def)

lemma game_json_usage:
  "json_find (game_json slot tc cpu note i (Some p) other) ''candidate_nodes'' = Some (nullable (\<lambda>u. JInt (eu_nodes u)) (pg_candidate_usage p))"
  "json_find (game_json slot tc cpu note i (Some p) other) ''candidate_time_ms'' = Some (nullable (\<lambda>u. JInt (eu_time_ms u)) (pg_candidate_usage p))"
  "json_find (game_json slot tc cpu note i (Some p) other) ''baseline_nodes'' = Some (nullable (\<lambda>u. JInt (eu_nodes u)) (pg_baseline_usage p))"
  "json_find (game_json slot tc cpu note i (Some p) other) ''baseline_time_ms'' = Some (nullable (\<lambda>u. JInt (eu_time_ms u)) (pg_baseline_usage p))"
  by (simp_all add: game_json_def usage_json_def)

lemma game_json_no_usage:
  "json_find (game_json slot tc cpu note i None other) ''candidate_nodes'' = None"
  "json_find (game_json slot tc cpu note i None other) ''candidate_time_ms'' = None"
  "json_find (game_json slot tc cpu note i None other) ''baseline_nodes'' = None"
  "json_find (game_json slot tc cpu note i None other) ''baseline_time_ms'' = None"
  by (simp_all add: game_json_def)

lemma game_json_counts:
  fixes slot tc cpu i p other and "note" :: string
  assumes "pred_option game_ready p"
  defines "j \<equiv> game_json slot tc cpu note i p other" and "r \<equiv> client_report slot tc cpu note i p other"
  shows "opt_count j ''candidate_nodes'' = Inr (gr_candidate_nodes r) \<and>
      opt_count j ''candidate_time_ms'' = Inr (gr_candidate_time_ms r) \<and>
      opt_count j ''baseline_nodes'' = Inr (gr_baseline_nodes r) \<and>
      opt_count j ''baseline_time_ms'' = Inr (gr_baseline_time_ms r)"
proof (cases p)
  case None
  then show ?thesis
    using game_json_no_usage [of slot tc cpu "note" i other]
    by (simp add: j_def r_def read_opt_count_missing client_report_def)
next
  case (Some g)
  have u: "pred_option usage_ready (pg_candidate_usage g)" "pred_option usage_ready (pg_baseline_usage g)"
    using assms(1) Some by (simp_all add: game_ready_def)
  have c: "pred_option (\<lambda>u. 0 \<le> eu_nodes u \<and> eu_nodes u < 2 ^ 63) (pg_candidate_usage g)"
    "pred_option (\<lambda>u. 0 \<le> eu_time_ms u \<and> eu_time_ms u < 2 ^ 63) (pg_candidate_usage g)"
    "pred_option (\<lambda>u. 0 \<le> eu_nodes u \<and> eu_nodes u < 2 ^ 63) (pg_baseline_usage g)"
    "pred_option (\<lambda>u. 0 \<le> eu_time_ms u \<and> eu_time_ms u < 2 ^ 63) (pg_baseline_usage g)"
    using u by (auto elim!: option.pred_mono_strong simp: usage_ready_def)
  note usage = game_json_usage [of slot tc cpu "note" i g other, folded Some]
  show ?thesis
    using read_opt_count [OF usage(1) c(1)] read_opt_count [OF usage(2) c(2)]
      read_opt_count [OF usage(3) c(3)] read_opt_count [OF usage(4) c(4)]
    by (simp add: j_def r_def client_report_def Some)
qed

text \<open>The server's parser reads a game as the client has meant it.\<close>

lemma parse_game_json:
  assumes "slot_ready slot tc cpu" and "pred_option game_ready p" and "i \<in> {0, 1}"
  shows "parse_game (game_json slot tc cpu note i p other) = Inr (client_report slot tc cpu note i p other)"
proof -
  let ?j = "game_json slot tc cpu note i p other" and ?r = "client_report slot tc cpu note i p other"
  note m = game_json_members [of slot tc cpu "note" i p other, unfolded game_members_def Let_def]
  have r: "gr_outcome ?r \<in> set kOutcomes" "gr_termination ?r \<in> set kTerminations"
    "pred_option natural (gr_ply_count ?r)" "pred_option natural (gr_duration_ms ?r)"
    using assms(2) by (cases p; simp add: client_report_def game_ready_def kOutcomes_def kTerminations_def)+
  have frame: "gr_game_in_pair ?r = int i" "gr_cpu_factor_at_play ?r = cpu"
    "gr_tc_base_effective_ms ?r = et_base_ms tc" "gr_tc_increment_effective_ms ?r = et_increment_ms tc"
    "gr_slot_index ?r = si_index slot" "gr_core_id ?r = si_core slot"
    by (cases p; simp add: client_report_def)+
  have ints: "req_int ?j ''game_in_pair'' 0 = Inr (int i)" "req_int ?j ''tc_base_effective_ms'' 0 = Inr (et_base_ms tc)"
    "req_int ?j ''tc_increment_effective_ms'' 0 = Inr (et_increment_ms tc)"
    "req_int ?j ''slot_index'' 0 = Inr (si_index slot)"
    using m assms(1,3) by (auto intro!: read_int simp: json_member_def slot_ready_def natural_def INT32_MAX_def)
  have core: "opt_int ?j ''core_id'' 0 = Inr (si_core slot)"
    using m assms(1) by (auto intro!: read_opt_int simp: slot_ready_def)
  have opts: "opt_int ?j ''ply_count'' 0 = Inr (gr_ply_count ?r)" "opt_int ?j ''duration_ms'' 0 = Inr (gr_duration_ms ?r)"
    using m r by (auto intro!: read_opt_int)
  have others: "req_bool ?j ''candidate_is_white'' = Inr (gr_candidate_is_white ?r)"
    "req_enum ?j ''outcome'' kOutcomes = Inr (gr_outcome ?r)"
    "req_enum ?j ''termination'' kTerminations = Inr (gr_termination ?r)"
    "req_double ?j ''cpu_factor'' = Inr cpu" "req_string ?j ''pgn'' = Inr (gr_pgn ?r)"
    using m r by (auto intro!: read_bool read_enum read_double read_string)
  have "\<not> 1 < int i" "0 < cpu" "is_object ?j" using assms(1,3) m by (auto simp: slot_ready_def)
  then show ?thesis
    unfolding parse_game_def
    by (simp add: ints core opts others game_json_counts [OF assms(2)] frame guardE_def
        del: bindE_eq_Inr_iff)
qed

text \<open>The whole report.\<close>

theorem parse_result_body:
  assumes "make_result_body oob client pgn note slot tc cpu = Inr body"
    and "slot_ready slot tc cpu" and "int64 client"
    and "parsed_games oob pgn = Inr ps" and "\<And>g. Some g \<in> set ps \<Longrightarrow> game_ready g"
  shows "parse_pair_report body = Inr \<lparr>pr_client_id = client,
    pr_games = [client_report slot tc cpu note 0 (ps ! 0) (ps ! 1), client_report slot tc cpu note 1 (ps ! 1) (ps ! 0)]\<rparr>"
proof -
  let ?g0 = "game_json slot tc cpu note 0 (ps ! 0) (ps ! 1)" and ?g1 = "game_json slot tc cpu note 1 (ps ! 1) (ps ! 0)"
  have body: "body = JObject [(''client_id'', JInt client), (''games'', JArray [?g0, ?g1])]"
    using assms(1,4) by (simp add: make_result_body_def)
  have len: "length ps = 2" by (rule parsed_games_shape(1) [OF assms(4)])
  have ready: "pred_option game_ready (ps ! 0)" "pred_option game_ready (ps ! 1)"
    using assms(5) len nth_mem [of 0 ps] nth_mem [of 1 ps]
    by (cases "ps ! 0"; cases "ps ! 1"; auto)+
  have id: "req_int64 body ''client_id'' = Inr client"
    using assms(3) by (simp add: body req_int64_def field_def int64_of_json_id)
  have games: "field body ''games'' = Inr (JArray [?g0, ?g1])"
    by (simp add: body field_def)
  have pos: "json_find ?g0 ''game_in_pair'' \<noteq> json_find ?g1 ''game_in_pair''"
    using game_json_members [of slot tc cpu "note" 0 "ps ! 0" "ps ! 1"]
      game_json_members [of slot tc cpu "note" 1 "ps ! 1" "ps ! 0"]
    by (simp add: game_members_def Let_def)
  have in_pair: "gr_game_in_pair (client_report slot tc cpu note i p other) = int i" for i p other
    by (cases p) (simp_all add: client_report_def)
  show ?thesis
    unfolding parse_pair_report_def id games bindE.simps Let_def json.case list.case
    using parse_game_json [OF assms(2) ready(1), of 0 "note" "ps ! 1"]
      parse_game_json [OF assms(2) ready(2), of 1 "note" "ps ! 0"] pos
    by (simp add: store_game_def in_pair guardE_def del: bindE_eq_Inr_iff)
qed

section \<open>Counts are in range\<close>

definition counts_nonneg :: "parsed_game \<Rightarrow> bool" where
  "counts_nonneg p \<longleftrightarrow> pred_option (\<lambda>n. 0 \<le> n) (pg_ply_count p) \<and> pred_option (\<lambda>n. 0 \<le> n) (pg_duration_ms p) \<and>
     pred_option (\<lambda>u. 0 \<le> eu_nodes u \<and> 0 \<le> eu_time_ms u) (pg_candidate_usage p) \<and>
     pred_option (\<lambda>u. 0 \<le> eu_nodes u \<and> 0 \<le> eu_time_ms u) (pg_baseline_usage p)"

definition usage_int64 :: "usage_state \<Rightarrow> bool" where
  "usage_int64 st \<longleftrightarrow> (\<forall>u. fst st = Some u \<or> snd st = Some u \<longrightarrow> int64 (eu_nodes u) \<and> int64 (eu_time_ms u))"

lemma add_usage_int64: "add_usage n t u = Some v \<Longrightarrow> int64 (eu_nodes v) \<and> int64 (eu_time_ms v)"
  by (auto simp: add_usage_def Let_def wrap_int_range)

lemma count_comment_int64: "count_comment oob w c st = Inr st' \<Longrightarrow> usage_int64 st \<Longrightarrow> usage_int64 st'"
  by (auto simp: count_comment_def usage_int64_def Let_def dest: add_usage_int64
      split: option.splits prod.splits if_splits)

lemma count_comments_int64: "count_comments oob w cs st = Inr st' \<Longrightarrow> usage_int64 st \<Longrightarrow> usage_int64 st'"
  by (induction oob w cs st rule: count_comments.induct) (auto dest: count_comment_int64)

lemma usage_by_color_int64:
  assumes "usage_by_color oob game w = Inr u"
  shows "usage_int64 (cu_white u, cu_black u)"
  using assms count_comments_int64 [of oob w _ "(None, None)"]
  by (auto simp: usage_by_color_def usage_int64_def split: option.splits)

lemma parse_duration_int32: "parse_duration s = Inr (Some n) \<Longrightarrow> n \<le> INT32_MAX"
proof -
  have "wrap_int 32 k \<le> INT32_MAX" for k
    using wrap_int_range [of 32 k] by (simp add: in_int_range_def INT32_MAX_def)
  then show "parse_duration s = Inr (Some n) \<Longrightarrow> n \<le> INT32_MAX"
    by (auto simp: parse_duration_def Let_def split: option.splits if_splits)
qed

lemma stoi_int32: "cpp_stoi s = Some (n, k) \<Longrightarrow> n \<le> INT32_MAX"
  by (auto simp: cpp_sto_def Let_def in_int_range_def INT32_MAX_def split: if_splits)

lemma parse_pgn_game_ready:
  assumes "parse_pgn_game oob game name = Inr (Some g)" and "counts_nonneg g"
  shows "game_ready g"
proof -
  obtain d u where d: "(case tags_of game ''GameDuration'' of None \<Rightarrow> Inr None | Some d \<Rightarrow> parse_duration d) = Inr d"
    and u: "usage_by_color oob game (white_moves_first (tags_of game ''FEN'')) = Inr u"
    and g: "pg_ply_count g = (case tags_of game ''PlyCount'' of None \<Rightarrow> None | Some n \<Rightarrow> map_option fst (cpp_stoi n))"
      "pg_duration_ms g = d"
      "pg_candidate_usage g = (if pg_candidate_is_white g then cu_white u else cu_black u)"
      "pg_baseline_usage g = (if pg_candidate_is_white g then cu_black u else cu_white u)"
    by (rule parse_pgn_game_Some [OF assms(1)])
  have "n \<le> INT32_MAX" if "pg_ply_count g = Some n" for n
    using that unfolding g(1) by (auto split: option.splits dest: stoi_int32)
  then have "pred_option natural (pg_ply_count g)"
    using assms(2) unfolding counts_nonneg_def natural_def by (cases "pg_ply_count g") auto
  moreover have "pred_option natural (pg_duration_ms g)"
    using assms(2) d g(2) parse_duration_int32 unfolding counts_nonneg_def natural_def
    by (cases d) (auto split: option.splits)
  moreover have "pred_option usage_ready (pg_candidate_usage g)" "pred_option usage_ready (pg_baseline_usage g)"
    using assms(2) usage_by_color_int64 [OF u] unfolding g(3,4) counts_nonneg_def
    by (cases "cu_white u"; cases "cu_black u"; auto simp: usage_ready_def usage_int64_def in_int_range_def)+
  ultimately show ?thesis
    using parse_pgn_game_labels [OF assms(1)] by (simp add: game_ready_def kOutcomes_def kTerminations_def)
qed

section \<open>Replies\<close>

text \<open>The reply the client sees of a response.\<close>

definition reply_of :: "response \<Rightarrow> http_reply" where
  "reply_of res = Inr (rs_status res, rs_body res)"

lemma reply_send [simp]:
  "reply_of (send_json s j) = Inr (s, Some j)" "reply_of no_content = Inr (204, None)"
  "reply_of (send_error s e m) = Inr (s, Some (JObject ((''error'', JString e) #
     (if m \<noteq> [] then [(''reason'', JString m)] else []))))"
  by (simp_all add: reply_of_def send_json_def send_error_def no_content_def)

fun submit_meaning :: "submit_status \<Rightarrow> api_submit_status option" where
  "submit_meaning Accepted = Some ApiAccepted"
| "submit_meaning AlreadyCompleted = Some ApiAlreadyCompleted"
| "submit_meaning LeaseLost = Some ApiLeaseLost"
| "submit_meaning TestFinished = Some ApiTestFinished"
| "submit_meaning ClientBanned = Some ApiClientBanned"
| "submit_meaning PairNotFound = None"
| "submit_meaning UnknownClient = None"

lemma submit_agrees:
  "case submit_meaning (sr_status r) of
     Some s \<Rightarrow> api_submit dump pair body (reply_of (submit_response r)) = Inr s
   | None \<Rightarrow> \<exists>m. api_submit dump pair body (reply_of (submit_response r)) = Inl (ProtocolErr m)"
  by (cases "sr_status r")
    (simp_all add: submit_response_def api_submit_def reason_of_def submit_reason_def del: bindE_eq_Inr_iff)

definition pair_seen :: "claimed_pair \<Rightarrow> api_pair" where
  "pair_seen p = \<lparr>pp_pair_id = cp_pair_id p, pp_position_seq = cp_position_seq p, pp_fen = cp_fen p\<rparr>"

lemma decode_pair_json:
  "int64 (cp_pair_id p) \<Longrightarrow> int32 (cp_position_seq p) \<Longrightarrow> decode_pair (claimed_pair_json p) = Inr (pair_seen p)"
  by (simp add: decode_pair_def claimed_pair_json_def pair_seen_def wrap_int_id del: bindE_eq_Inr_iff)

lemma decode_pairs:
  assumes "\<forall>p \<in> set ps. int64 (cp_pair_id p) \<and> int32 (cp_position_seq p)"
  shows "foldE (\<lambda>p ps. bindE (decode_pair p) (\<lambda>q. Inr (ps @ [q]))) (map claimed_pair_json ps) out
       = Inr (out @ map pair_seen ps)"
  using assms by (induction ps arbitrary: out) (simp_all add: decode_pair_json del: bindE_eq_Inr_iff)

lemma claim_agrees:
  assumes "int64 (cr_test_id c)" and "\<forall>p \<in> set (cr_pairs c). int64 (cp_pair_id p) \<and> int32 (cp_position_seq p)"
  shows "case cr_status c of
      ClaimOk \<Rightarrow> api_claim dump client n (reply_of (claim_response c)) =
        Inr \<lparr>ak_status = ApiOk, ak_test_id = cr_test_id c, ak_pairs = map pair_seen (cr_pairs c)\<rparr>
    | ClaimNoActiveTest \<Rightarrow> api_claim dump client n (reply_of (claim_response c)) =
        Inr \<lparr>ak_status = ApiNoActiveTest, ak_test_id = 0, ak_pairs = []\<rparr>
    | ClaimBanned \<Rightarrow> api_claim dump client n (reply_of (claim_response c)) =
        Inr \<lparr>ak_status = ApiBanned, ak_test_id = 0, ak_pairs = []\<rparr>
    | ClaimUnknownClient \<Rightarrow> \<exists>m. api_claim dump client n (reply_of (claim_response c)) = Inl (ProtocolErr m)"
  using decode_pairs [OF assms(2), of "[]"] assms(1)
  by (cases "cr_status c")
    (simp_all add: claim_response_def api_claim_def json_at_def wrap_int_id del: bindE_eq_Inr_iff)

lemma adjudication_agrees:
  assumes "pred_option (\<lambda>d. int32 (dr_movenumber d) \<and> int32 (dr_movecount d) \<and> int32 (dr_score_cp d)) (adj_draw a)"
    and "pred_option (\<lambda>r. int32 (rs_movecount r) \<and> int32 (rs_score_cp r)) (adj_resign a)"
    and "json_find b ''adjudication'' = Some (adjudication_json a)"
  shows "decode_adjudication b = Inr a"
  using assms
  by (cases "adj_draw a"; cases "adj_resign a"; cases a)
    (simp_all add: decode_adjudication_def decode_draw_def decode_resign_def adjudication_json_def
      wrap_int_id del: bindE_eq_Inr_iff)

end
