(* ===== verification/TimeControl.thy ===== *)
theory TimeControl
  imports Runner
begin

text \<open>
  The time control on its way from the server to fastchess: the text the client hands to
  fastchess is one the server's own parser reads back to the same milliseconds.
\<close>

section \<open>Milliseconds as decimal seconds\<close>

lemma digit_char_eq: "m < 10 \<Longrightarrow> n < 10 \<Longrightarrow> digit_char m = digit_char n \<longleftrightarrow> m = n"
  by (metis byte_digit_char add_left_cancel)

lemma digit_char_0 [simp]: "n < 10 \<Longrightarrow> digit_char n = CHR ''0'' \<longleftrightarrow> n = 0"
proof -
  have "digit_char 0 = CHR ''0''" unfolding digit_char_def by code_simp
  then show "n < 10 \<Longrightarrow> digit_char n = CHR ''0'' \<longleftrightarrow> n = 0" using digit_char_eq [of n 0] by simp
qed

lemma digit_value_digit_char [simp]: "d < 10 \<Longrightarrow> digit_value (digit_char d) = int d"
  by (simp add: digit_value_def byte_digit_char)

text \<open>The stripped text: the seconds, and the fraction without trailing zeros if it is not zero.\<close>

definition fraction :: "nat \<Rightarrow> string" where
  "fraction r = strip_back (\<lambda>c. c = CHR ''0'')
     [digit_char (r div 100), digit_char (r div 10 mod 10), digit_char (r mod 10)]"

lemma fraction_cases:
  assumes "r < 1000"
  obtains "r = 0" "fraction r = []"
  | a where "r = 100 * a" "0 < a" "a < 10" "fraction r = [digit_char a]"
  | a b where "r = 100 * a + 10 * b" "a < 10" "0 < b" "b < 10" "fraction r = [digit_char a, digit_char b]"
  | a b c where "r = 100 * a + 10 * b + c" "a < 10" "b < 10" "0 < c" "c < 10"
      "fraction r = [digit_char a, digit_char b, digit_char c]"
proof -
  let ?a = "r div 100" and ?b = "r div 10 mod 10" and ?c = "r mod 10"
  have d: "?a < 10" "?b < 10" "?c < 10" using assms by auto
  have r: "r = 100 * ?a + 10 * ?b + ?c"
    using div_mult_mod_eq [of r 10] div_mult_mod_eq [of "r div 10" 10]
    by (simp add: div_mult2_eq [symmetric], linarith)
  have f: "fraction r = (if ?c \<noteq> 0 then [digit_char ?a, digit_char ?b, digit_char ?c]
      else if ?b \<noteq> 0 then [digit_char ?a, digit_char ?b] else if ?a \<noteq> 0 then [digit_char ?a] else [])"
    using d by (simp add: fraction_def strip_back_def)
  consider "?c \<noteq> 0" | "?c = 0" "?b \<noteq> 0" | "?c = 0" "?b = 0" "?a \<noteq> 0" | "?c = 0" "?b = 0" "?a = 0" by blast
  then show thesis
  proof cases
    case 1 then show thesis using that(4) [of ?a ?b ?c] r d f by simp
  next
    case 2 then show thesis using that(3) [of ?a ?b] r d f by simp
  next
    case 3 then show thesis using that(2) [of ?a] r d f by simp
  next
    case 4 then show thesis using that(1) r f by simp
  qed
qed

lemma strip_back_append:
  "strip_back P (xs @ ys) = (if strip_back P ys = [] then strip_back P xs else xs @ strip_back P ys)"
  by (simp add: strip_back_def dropWhile_append)

lemma tc_secs_nonneg:
  assumes "0 \<le> ms"
  shows "tc_secs ms = show_nat (nat ms div 1000) @
    (if fraction (nat ms mod 1000) = [] then [] else CHR ''.'' # fraction (nat ms mod 1000))"
proof -
  let ?q = "show_nat (nat ms div 1000)" and ?f = "fraction (nat ms mod 1000)"
  have fmt: "strip_back (\<lambda>c. c = CHR ''0'') (format_millis ms) = ?q @ CHR ''.'' # ?f"
    using assms unfolding format_millis_def fraction_def Let_def
    by (simp add: strip_back_append strip_back_def)
  show ?thesis
  proof (cases "?f = []")
    case True
    then show ?thesis unfolding tc_secs_def fmt Let_def by (simp add: butlast_append)
  next
    case False
    have "nat ms mod 1000 < 1000" by simp
    then have "is_digit (last ?f)"
      by (rule fraction_cases) (use False in auto)
    then have "last ?f \<noteq> CHR ''.''" by (auto simp: is_digit_def byte_def)
    then show ?thesis using False unfolding tc_secs_def fmt Let_def by simp
  qed
qed

lemma fraction_digits: "r < 1000 \<Longrightarrow> \<forall>c \<in> set (fraction r). is_digit c"
  by (erule fraction_cases) auto

lemma fraction_value:
  "r < 1000 \<Longrightarrow> of_int (digits_value (fraction r)) / 10 ^ length (fraction r) = (of_nat r / 1000 :: real)"
  by (erule fraction_cases) (simp_all add: digits_value_def field_simps)

lemma strtod_seconds:
  assumes "0 \<le> ms"
  shows "strtod_decimal (tc_secs ms) = Some (of_int ms / 1000, length (tc_secs ms))"
proof -
  let ?q = "nat ms div 1000" and ?r = "nat ms mod 1000"
  have r: "?r < 1000" by simp
  have ms: "of_int ms = (1000 * of_nat ?q + of_nat ?r :: real)"
    using assms div_mult_mod_eq [of "nat ms" 1000] by (metis mult.commute of_nat_add of_nat_mult of_nat_nat of_nat_numeral of_int_of_nat_eq)
  have q: "show_nat ?q \<noteq> []" "\<forall>c \<in> set (show_nat ?q). is_digit c" using show_nat_digits by auto
  have dot: "\<not> is_digit (CHR ''.'')" by (simp add: is_digit_def byte_def)
  show ?thesis
  proof (cases "fraction ?r = []")
    case True
    have "?r = 0" by (rule fraction_cases [OF r]) (use True in auto)
    moreover have drop_all: "dropWhile is_digit (show_nat ?q) = []" using q(2) by (simp add: dropWhile_eq_Nil_conv)
    ultimately show ?thesis
      using True q ms unfolding tc_secs_nonneg [OF assms] strtod_decimal_def
      by (simp add: takeWhile_all drop_all Let_def)
  next
    case False
    have tw: "takeWhile is_digit (show_nat ?q @ CHR ''.'' # fraction ?r) = show_nat ?q"
      "dropWhile is_digit (show_nat ?q @ CHR ''.'' # fraction ?r) = CHR ''.'' # fraction ?r"
      using q(2) dot by (simp_all add: takeWhile_append dropWhile_append)
    have "strtod_decimal (tc_secs ms) = Some (of_nat ?q + of_int (digits_value (fraction ?r)) / 10 ^ length (fraction ?r),
        length (show_nat ?q) + 1 + length (fraction ?r))"
      unfolding tc_secs_nonneg [OF assms] strtod_decimal_def Let_def
      using False q(1) fraction_digits [OF r] by (simp add: tw takeWhile_all)
    moreover have "of_nat ?q + of_nat ?r / 1000 = (of_int ms / 1000 :: real)" unfolding ms by simp
    ultimately show ?thesis
      using False by (simp add: fraction_value [OF r] tc_secs_nonneg [OF assms])
  qed
qed

lemma tc_secs_chars: "0 \<le> ms \<Longrightarrow> tc_secs ms \<noteq> [] \<and> (\<forall>c \<in> set (tc_secs ms). is_digit c \<or> c = CHR ''.'')"
  using show_nat_digits [of "nat ms div 1000"] fraction_digits [of "nat ms mod 1000"]
  by (auto simp: tc_secs_nonneg)

section \<open>Round trip\<close>

lemma small_not_overflow: "x \<le> 10 ^ 7 \<Longrightarrow> \<not> double_overflow \<le> x"
proof -
  have "(10 :: real) ^ 7 < 2 ^ 970" by simp
  also have "(2 :: real) ^ 970 \<le> 2 ^ 970 * (2 ^ 54 - 1)" by simp
  also have "\<dots> = double_overflow" by (simp add: double_overflow_def field_simps)
  finally show "x \<le> 10 ^ 7 \<Longrightarrow> \<not> double_overflow \<le> x" by linarith
qed

lemma parse_seconds_tc_secs:
  assumes "0 \<le> ms" and "ms \<le> 10 ^ 10"
  shows "parse_seconds (tc_secs ms) tc = Inr (of_int ms / 1000)"
proof -
  have "of_int ms \<le> (10 ^ 10 :: real)" using assms(2) by (metis of_int_le_iff of_int_numeral of_int_power)
  then have "\<not> double_overflow \<le> of_int ms / 1000" by (intro small_not_overflow) simp
  then show ?thesis
    using tc_secs_chars [OF assms(1)] strtod_seconds [OF assms(1)]
    by (simp add: parse_seconds_def list_all_iff Let_def)
qed

lemma find_plus: "CHR ''+'' \<notin> set s \<Longrightarrow> find_char (CHR ''+'') (s @ CHR ''+'' # t) = Some (length s)"
  by (induction s) auto

lemma fastchess_tc_roundtrip:
  assumes "0 < et_base_ms tc" "et_base_ms tc \<le> 86400000" "0 \<le> et_increment_ms tc" "et_increment_ms tc \<le> 3600000"
  shows "parse_tc oob (fastchess_tc tc) = Inr \<lparr>tc_base = et_base_ms tc, tc_increment = et_increment_ms tc\<rparr>"
proof -
  have "CHR ''+'' \<notin> set (tc_secs (et_base_ms tc))"
    using tc_secs_chars [of "et_base_ms tc"] assms(1) by (auto simp: is_digit_def byte_def)
  then have plus: "find_char (CHR ''+'') (fastchess_tc tc) = Some (length (tc_secs (et_base_ms tc)))"
    by (simp add: fastchess_tc_def find_plus)
  have secs: "parse_seconds (tc_secs (et_base_ms tc)) t = Inr (of_int (et_base_ms tc) / 1000)"
    "parse_seconds (tc_secs (et_increment_ms tc)) t = Inr (of_int (et_increment_ms tc) / 1000)" for t
    using assms by (auto intro!: parse_seconds_tc_secs)
  have round: "cpp_llround oob (of_int k) = k" "wrap_int 32 k = k" if "0 \<le> k" "k \<le> 86400000" for k
    using that by (auto simp: cpp_llround_def in_int_range_def intro!: wrap_int_id)
  show ?thesis
    unfolding parse_tc_def plus Let_def
    using assms round [of "et_base_ms tc"] round [of "et_increment_ms tc"]
    by (simp add: fastchess_tc_def secs del: bindE_eq_Inr_iff)
qed

end
