(* ===== verification/Topology.thy ===== *)
theory Topology
  imports CppStrings "HOL-Library.Sublist"
begin

text \<open>
  client/topology.hpp and client/topology.cpp: the cores of a host, the admission rule and the
  default number of slots. Parameters: \<open>files\<close>, the contents of the files of
  \<^verbatim>\<open>/sys\<close>, \<^verbatim>\<open>/proc\<close> and \<^verbatim>\<open>/etc\<close>; \<open>uname\<close>, \<open>sysctl\<close> and the answers of the scheduler's
  calls. Sets of cores are sorted lists without repetition. Texts are UTF-8 bytes.
\<close>

record topology =
  tp_os :: string
  tp_cpu_model :: string
  tp_nproc :: int
  tp_heterogeneous :: bool
  tp_pinning_available :: bool
  tp_qos_hint_available :: bool
  tp_fast_cores :: "int list"
  tp_description :: string

definition empty_topology :: topology where
  "empty_topology = \<lparr>tp_os = [], tp_cpu_model = [], tp_nproc = 0, tp_heterogeneous = False,
     tp_pinning_available = False, tp_qos_hint_available = False, tp_fast_cores = [],
     tp_description = []\<rparr>"

type_synonym files = "string \<Rightarrow> string option"

section \<open>Texts\<close>

definition nucleo :: string where "nucleo = ''n'' @ [CHR 0xC3, CHR 0xBA] @ ''cleo''"
definition nucleos :: string where "nucleos = nucleo @ ''s''"
definition nucleos_homogeneos :: string where
  "nucleos_homogeneos = nucleos @ '' homog'' @ [CHR 0xC3, CHR 0xAA] @ ''neos''"
definition minus_sign :: string where "minus_sign = [CHR 0xE2, CHR 0x88, CHR 0x92]"
definition nao :: string where "nao = ''n'' @ [CHR 0xC3, CHR 0xA3] @ ''o''"
definition maximo :: string where "maximo = ''m'' @ [CHR 0xC3, CHR 0xA1] @ ''x''"
definition core_list :: "int list \<Rightarrow> string" where
  "core_list cs = join_with '','' (map show_int cs)"

section \<open>Detection on Linux\<close>

definition read_file :: "files \<Rightarrow> string \<Rightarrow> string" where
  "read_file files path =
     strip_back (\<lambda>c. c = newline \<or> c = carriage_return \<or> c = CHR '' '')
       (case files path of None \<Rightarrow> [] | Some s \<Rightarrow> s)"

definition insert_core :: "int \<Rightarrow> int list \<Rightarrow> int list" where
  "insert_core i s = (if i \<in> set s then s else insort i s)"

text \<open>One part of a list of cores; what \<^verbatim>\<open>std::stoi\<close> throws is caught, leaving the set as it is.\<close>

definition add_cpu_part :: "string \<Rightarrow> int list \<Rightarrow> int list" where
  "add_cpu_part part out =
     (if part = [] then out
      else case find_char (CHR ''-'') part of
        None \<Rightarrow> (case cpp_stoi part of None \<Rightarrow> out | Some (i, _) \<Rightarrow> insert_core i out)
      | Some dash \<Rightarrow>
          (case (cpp_stoi (take dash part), cpp_stoi (drop (dash + 1) part)) of
             (Some (a, _), Some (b, _)) \<Rightarrow> fold insert_core [a..b] out
           | _ \<Rightarrow> out))"

definition parse_cpu_list :: "string \<Rightarrow> int list" where
  "parse_cpu_list s = fold add_cpu_part (getlines (CHR '','') s) []"

definition os_release_name :: "string \<Rightarrow> string \<Rightarrow> string" where
  "os_release_name line os =
     (if starts_with line ''PRETTY_NAME='' then
        (let v = drop 12 line;
             v = (if 2 \<le> length v \<and> hd v = CHR 0x22 then take (length v - 2) (drop 1 v) else v)
         in os @ '' ('' @ v @ '')'')
      else os)"

definition os_string :: "files \<Rightarrow> string \<times> string \<Rightarrow> string" where
  "os_string files uname =
     fold os_release_name
       (getlines newline (case files ''/etc/os-release'' of None \<Rightarrow> [] | Some s \<Rightarrow> s))
       (fst uname @ '' '' @ snd uname)"

text \<open>The class of a core; \<^verbatim>\<open>std::stol\<close> throws on a capacity that is no number.\<close>

definition core_class :: "files \<Rightarrow> int list \<Rightarrow> int list \<Rightarrow> int \<Rightarrow> int result" where
  "core_class files intel_p intel_e cpu =
     (let cap = read_file files (''/sys/devices/system/cpu/cpu'' @ show_int cpu @ ''/cpu_capacity'')
      in if intel_e \<noteq> [] then Inr (if cpu \<in> set intel_p then 1 else 0)
         else if cap \<noteq> [] then (case cpp_sto 64 cap of None \<Rightarrow> Inl InvalidArgument | Some (k, _) \<Rightarrow> Inr k)
         else Inr 1)"

definition core_speed :: "files \<Rightarrow> int \<Rightarrow> int result" where
  "core_speed files cpu =
     core_class files (parse_cpu_list (read_file files ''/sys/devices/cpu_core/cpus''))
       (parse_cpu_list (read_file files ''/sys/devices/cpu_atom/cpus'')) cpu"

definition core_classes :: "files \<Rightarrow> int list \<Rightarrow> (int \<times> int) list result" where
  "core_classes files cores =
     foldE (\<lambda>cpu ks. bindE (core_speed files cpu) (\<lambda>k. Inr (ks @ [(cpu, k)]))) cores []"

text \<open>The package and the number of the physical core, empty when the host does not tell.\<close>

definition core_key :: "files \<Rightarrow> int \<Rightarrow> string \<times> string" where
  "core_key files cpu =
     (let topo = ''/sys/devices/system/cpu/cpu'' @ show_int cpu @ ''/topology/''
      in (read_file files (topo @ ''physical_package_id''), read_file files (topo @ ''core_id'')))"

text \<open>One logical core per physical core: the keys of the cores seen and the cores kept.\<close>

definition keep_core :: "files \<Rightarrow> int \<Rightarrow> (string \<times> string) list \<times> int list \<Rightarrow> (string \<times> string) list \<times> int list" where
  "keep_core files cpu st =
     (case st of (seen, fast) \<Rightarrow>
        let key = core_key files cpu
        in if snd key = [] then (seen, fast @ [cpu])
           else if key \<in> set seen then (seen, fast)
           else (key # seen, fast @ [cpu]))"

definition fastest_cores :: "files \<Rightarrow> (int \<times> int) list \<Rightarrow> int list" where
  "fastest_cores files klass =
     (let best = foldr max (map snd klass) 0
      in snd (fold (keep_core files) (map fst (filter (\<lambda>(_, k). k = best) klass)) ([], [])))"

definition class_counts :: "(int \<times> int) list \<Rightarrow> (int \<times> int) list" where
  "class_counts klass =
     map (\<lambda>k. (k, int (length (filter (\<lambda>(_, j). j = k) klass)))) (sort (remdups (map snd klass)))"

definition describe_classes :: "(int \<times> int) list \<Rightarrow> string" where
  "describe_classes counts =
     concat (map (\<lambda>(i, _, n). (if i = 0 then [] else ''+'') @ show_int n @
                    (if i = (0::nat) then ''P'' else if i = 1 then ''E'' else ''L''))
       (zip [0..<length counts] (rev counts)))"

text \<open>The model's name in \<^verbatim>\<open>/proc/cpuinfo\<close>: the first of each key.\<close>

definition cpuinfo_line :: "string \<Rightarrow> string \<times> string \<Rightarrow> string \<times> string" where
  "cpuinfo_line line st =
     (case st of (model_name, model) \<Rightarrow>
        (case find_char (CHR '':'') line of
           None \<Rightarrow> st
         | Some colon \<Rightarrow>
             let key = strip_back (\<lambda>c. c = CHR '' '' \<or> c = tab) (take colon line);
                 val = drop (colon + 1) line;
                 val = (if val \<noteq> [] \<and> hd val = CHR '' '' then drop 1 val else val)
             in (if key = ''model name'' \<and> model_name = [] then val else model_name,
                 if key = ''Model'' \<and> model = [] then val else model)))"

definition cpu_model_name :: "files \<Rightarrow> string" where
  "cpu_model_name files =
     (let (model_name, model) =
            fold cpuinfo_line
              (getlines newline (case files ''/proc/cpuinfo'' of None \<Rightarrow> [] | Some s \<Rightarrow> s)) ([], [])
      in if model_name \<noteq> [] then model_name else model)"

definition online_cores :: "files \<Rightarrow> nat \<Rightarrow> int list" where
  "online_cores files nprocessors =
     (let listed = parse_cpu_list (read_file files ''/sys/devices/system/cpu/online'')
      in if listed = [] then map int [0..<nprocessors] else listed)"

definition detect_linux :: "files \<Rightarrow> string \<times> string \<Rightarrow> nat \<Rightarrow> bool \<Rightarrow> topology result" where
  "detect_linux files uname nprocessors getaffinity_ok =
     (let cores = online_cores files nprocessors
      in bindE (core_classes files cores) (\<lambda>klass.
           let fast = fastest_cores files klass; counts = class_counts klass;
               heterogeneous = (1 < length counts)
           in Inr \<lparr>tp_os = os_string files uname, tp_cpu_model = cpu_model_name files,
                   tp_nproc = int (length cores), tp_heterogeneous = heterogeneous,
                   tp_pinning_available = getaffinity_ok, tp_qos_hint_available = False,
                   tp_fast_cores = fast,
                   tp_description =
                     (if heterogeneous then describe_classes counts
                      else show_nat (length fast) @ '' '' @ nucleos_homogeneos @
                        (if length fast \<noteq> length cores
                         then '' ('' @ show_nat (length cores) @ '' l'' @ [CHR 0xC3, CHR 0xB3] @ ''gicos, SMT)''
                         else []))\<rparr>))"

section \<open>Detection on macOS\<close>

definition value_or :: "'a option \<Rightarrow> 'a \<Rightarrow> 'a" where
  "value_or v d = (case v of None \<Rightarrow> d | Some x \<Rightarrow> x)"

text \<open>
  What \<^verbatim>\<open>sysctlbyname\<close> has written: the number of bytes and the number they hold in a cleared
  buffer, or the bytes of a text of at most 256.
\<close>

definition sysctl_int :: "(string \<Rightarrow> (nat \<times> int) option) \<Rightarrow> string \<Rightarrow> int option" where
  "sysctl_int ask key =
     (case ask key of
        None \<Rightarrow> None
      | Some (len, v) \<Rightarrow> Some (if len = 4 then wrap_int 32 v else v))"

definition c_text :: "string \<Rightarrow> string" where
  "c_text bytes = takeWhile (\<lambda>c. c \<noteq> CHR 0x00) bytes"

definition sysctl_str :: "(string \<Rightarrow> string option) \<Rightarrow> string \<Rightarrow> string" where
  "sysctl_str ask key = (case ask key of None \<Rightarrow> [] | Some bytes \<Rightarrow> c_text bytes)"

definition detect_macos ::
  "files \<Rightarrow> string \<times> string \<Rightarrow> (string \<Rightarrow> int option) \<Rightarrow> (string \<Rightarrow> string) \<Rightarrow> topology" where
  "detect_macos files uname int_of text_of =
     (let nproc = wrap_int 32 (value_or (int_of ''hw.logicalcpu'') 1);
          heterogeneous = (1 < value_or (int_of ''hw.nperflevels'') 1);
          fast = (if heterogeneous then value_or (int_of ''hw.perflevel0.physicalcpu'') 0
                  else value_or (int_of ''hw.physicalcpu'') nproc);
          e = value_or (int_of ''hw.perflevel1.physicalcpu'') 0
      in \<lparr>tp_os = os_string files uname @ '' (macOS)'',
          tp_cpu_model = text_of ''machdep.cpu.brand_string'', tp_nproc = nproc,
          tp_heterogeneous = heterogeneous, tp_pinning_available = False,
          tp_qos_hint_available = (heterogeneous \<and> 0 < fast), tp_fast_cores = [0..fast - 1],
          tp_description = (if heterogeneous then show_int fast @ ''P+'' @ show_int e @ ''E''
                            else show_int fast @ '' '' @ nucleos_homogeneos)\<rparr>)"

text \<open>The platform the program is compiled for, with what its system answers.\<close>

datatype platform =
    Linux nat bool
  | MacOS "string \<Rightarrow> (nat \<times> int) option" "string \<Rightarrow> string option"
  | OtherSystem

definition detect_topology :: "platform \<Rightarrow> files \<Rightarrow> string \<times> string \<Rightarrow> topology result" where
  "detect_topology platform files uname =
     (case platform of
        Linux nprocessors getaffinity_ok \<Rightarrow> detect_linux files uname nprocessors getaffinity_ok
      | MacOS ints texts \<Rightarrow> Inr (detect_macos files uname (sysctl_int ints) (sysctl_str texts))
      | OtherSystem \<Rightarrow>
          Inr (empty_topology\<lparr>tp_os := os_string files uname,
                 tp_description := ''sistema n'' @ [CHR 0xC3, CHR 0xA3] @ ''o suportado''\<rparr>))"

section \<open>Slots and admission\<close>

definition kQosHintReservedCores :: int where
  "kQosHintReservedCores = 2"

definition fast_count :: "topology \<Rightarrow> int" where
  "fast_count t = int (length (tp_fast_cores t))"

definition default_slots :: "topology \<Rightarrow> int" where
  "default_slots t =
     (let slots = max 1 (cpp_div (tp_nproc t) 4)
      in if tp_heterogeneous t \<and> \<not> tp_pinning_available t \<and> tp_qos_hint_available t
         then min slots (max 1 (fast_count t - kQosHintReservedCores))
         else slots)"

record admission =
  ad_ok :: bool
  ad_pinning_mode :: string
  ad_cores :: "int list"
  ad_core_topology :: string
  ad_error :: string

definition refuse :: "string \<Rightarrow> admission" where
  "refuse e = \<lparr>ad_ok = False, ad_pinning_mode = [], ad_cores = [], ad_core_topology = [], ad_error = e\<rparr>"

definition admit :: "string \<Rightarrow> int list \<Rightarrow> string \<Rightarrow> admission" where
  "admit mode cores text =
     \<lparr>ad_ok = True, ad_pinning_mode = mode, ad_cores = cores, ad_core_topology = text, ad_error = []\<rparr>"

definition needs_affinity :: string where
  "needs_affinity = ''cores= exige afinidade de CPU, indispon'' @ [CHR 0xC3, CHR 0xAD] @ ''vel neste SO''"

definition no_pinning_error :: "topology \<Rightarrow> string" where
  "no_pinning_error t =
     nucleos @ '' heterog'' @ [CHR 0xC3, CHR 0xAA] @ ''neos ('' @ tp_description t @ '') e o SO '' @ nao @
     '' permite fixar processos em '' @ nucleos @ '': partidas migrariam entre '' @ nucleos @ '' r'' @
     [CHR 0xC3, CHR 0xA1] @ ''pidos e lentos no meio do jogo (plano '' @ [CHR 0xC2, CHR 0xA7] @
     ''3.3). Este host '' @ nao @ '' pode ser client.''"

definition admit_unpinned :: "topology \<Rightarrow> int \<Rightarrow> int list option \<Rightarrow> admission" where
  "admit_unpinned t slots requested =
     (if tp_heterogeneous t then
        (if \<not> tp_qos_hint_available t then refuse (no_pinning_error t)
         else if requested \<noteq> None then refuse needs_affinity
         else
           let max_slots = max 1 (fast_count t - kQosHintReservedCores)
           in if max_slots < slots
              then refuse (''modo degradado qos_hint: no '' @ maximo @ ''imo '' @ show_int max_slots @
                     '' slots em '' @ tp_description t @ '' ('' @ nucleos @ '' r'' @ [CHR 0xC3, CHR 0xA1] @
                     ''pidos '' @ minus_sign @ '' '' @ show_int kQosHintReservedCores @
                     '', para o escalonador '' @ nao @ '' precisar usar os '' @ nucleos @ '' lentos)'')
              else admit ''qos_hint'' []
                     (tp_description t @ '', qos_hint (sem afinidade; '' @ show_int slots @ '' de no '' @
                      maximo @ ''. '' @ show_int max_slots @ '' slots)''))
      else if requested \<noteq> None then refuse needs_affinity
      else if fast_count t < slots
      then refuse (''slots ('' @ show_int slots @ '') excede os '' @ show_int (fast_count t) @ '' '' @
             nucleos @ '' f'' @ [CHR 0xC3, CHR 0xAD] @ ''sicos'')
      else admit ''homogeneous_unpinned'' [] (tp_description t @ '', sem afinidade''))"

text \<open>The first requested core that is not a fast one.\<close>

definition bad_core :: "topology \<Rightarrow> int list \<Rightarrow> int option" where
  "bad_core t cores = find (\<lambda>c. c \<notin> set (tp_fast_cores t)) cores"

definition choose_cores :: "topology \<Rightarrow> int \<Rightarrow> int list option \<Rightarrow> string + int list" where
  "choose_cores t slots requested =
     (case requested of
        Some cores \<Rightarrow>
          (case bad_core t cores of
             Some c \<Rightarrow>
               Inl (nucleo @ '' '' @ show_int c @ '' '' @ nao @ '' '' @ [CHR 0xC3, CHR 0xA9] @ '' um '' @ nucleo @
                    '' f'' @ [CHR 0xC3, CHR 0xAD] @ ''sico da classe mais r'' @ [CHR 0xC3, CHR 0xA1] @
                    ''pida (dispon'' @ [CHR 0xC3, CHR 0xAD] @ ''veis: '' @ core_list (tp_fast_cores t) @ '')'')
           | None \<Rightarrow>
               if int (length cores) \<noteq> slots \<or> length (remdups cores) \<noteq> length cores
               then Inl (''cores= deve listar exatamente '' @ show_int slots @ '' '' @ nucleos @
                         '' distintos (um por slot)'')
               else Inr cores)
      | None \<Rightarrow>
          if fast_count t < slots
          then Inl (''slots ('' @ show_int slots @ '') excede os '' @ show_int (fast_count t) @ '' '' @
                 nucleos @ '' r'' @ [CHR 0xC3, CHR 0xA1] @ ''pidos dispon'' @ [CHR 0xC3, CHR 0xAD] @ ''veis ('' @
                 tp_description t @ '')'')
          else Inr (drop (length (tp_fast_cores t) - nat slots) (tp_fast_cores t)))"

definition decide_admission :: "topology \<Rightarrow> int \<Rightarrow> int list option \<Rightarrow> admission" where
  "decide_admission t slots requested =
     (if slots < 1 then refuse ''slots deve ser >= 1''
      else if \<not> tp_pinning_available t then admit_unpinned t slots requested
      else case choose_cores t slots requested of
        Inl e \<Rightarrow> refuse e
      | Inr cores \<Rightarrow> admit ''pinned'' cores (tp_description t @ '', pinado em '' @ core_list cores))"

text \<open>\<open>probe\<close> tells whether a thread pinned to a core runs there; \<open>linux\<close> the build.\<close>

definition verify_pinning :: "bool \<Rightarrow> (int \<Rightarrow> bool) \<Rightarrow> int list \<Rightarrow> string option" where
  "verify_pinning linux probe cores =
     (if \<not> linux
      then Some (''afinidade de CPU '' @ nao @ '' suportada neste SO'')
      else map_option (\<lambda>c. nao @ '' foi poss'' @ [CHR 0xC3, CHR 0xAD] @ ''vel fixar uma thread no '' @ nucleo @
             '' '' @ show_int c)
           (find (\<lambda>c. \<not> probe c) cores))"

section \<open>Lemmas\<close>

lemma length_remdups_distinct: "length (remdups xs) = length xs \<longleftrightarrow> distinct xs"
  by (metis distinct_remdups_id length_remdups_card_conv card_distinct distinct_card)

lemma choose_cores_fast:
  assumes "choose_cores t slots requested = Inr cores" and "1 \<le> slots" and "distinct (tp_fast_cores t)"
  shows "int (length cores) = slots \<and> distinct cores \<and> set cores \<subseteq> set (tp_fast_cores t)"
proof (cases requested)
  case None
  then have "slots \<le> fast_count t"
    and cores: "cores = drop (length (tp_fast_cores t) - nat slots) (tp_fast_cores t)"
    using assms(1) by (auto simp: choose_cores_def split: if_splits)
  then show ?thesis using assms(2,3) by (auto simp: fast_count_def dest: in_set_dropD)
next
  case (Some cs)
  then have "bad_core t cs = None" "int (length cs) = slots" "length (remdups cs) = length cs" "cores = cs"
    using assms(1) by (auto simp: choose_cores_def split: option.splits if_splits)
  then show ?thesis by (auto simp: bad_core_def find_None_iff length_remdups_distinct)
qed

lemma insert_core_sorted: "sorted xs \<and> distinct xs \<Longrightarrow> sorted (insert_core i xs) \<and> distinct (insert_core i xs)"
  by (simp add: insert_core_def sorted_insort distinct_insort)

lemma fold_keeps: "(\<And>x s. x \<in> set xs \<Longrightarrow> P s \<Longrightarrow> P (f x s)) \<Longrightarrow> P s \<Longrightarrow> P (fold f xs s)"
  by (induction xs arbitrary: s) auto

lemma parse_cpu_list_sorted: "sorted (parse_cpu_list s) \<and> distinct (parse_cpu_list s)"
  unfolding parse_cpu_list_def
proof (rule fold_keeps)
  fix part and out :: "int list"
  assume "sorted out \<and> distinct out"
  then show "sorted (add_cpu_part part out) \<and> distinct (add_cpu_part part out)"
    by (auto simp: add_cpu_part_def insert_core_sorted split: option.splits
        intro!: fold_keeps [where P = "\<lambda>s. sorted s \<and> distinct s", THEN conjunct1]
          fold_keeps [where P = "\<lambda>s. sorted s \<and> distinct s", THEN conjunct2])
qed simp

text \<open>The fast cores a host reports are kept in order.\<close>

lemma keep_core_subseq:
  "\<exists>zs. snd (fold (keep_core files) cs (seen, fast)) = fast @ zs \<and> subseq zs cs"
proof (induction cs arbitrary: seen fast)
  case Nil
  then show ?case by simp
next
  case (Cons c cs)
  obtain seen' fast' where k: "keep_core files c (seen, fast) = (seen', fast')" by fastforce
  then have "fast' = fast \<or> fast' = fast @ [c]"
    by (auto simp: keep_core_def Let_def split: if_splits)
  moreover obtain zs where "snd (fold (keep_core files) cs (seen', fast')) = fast' @ zs" "subseq zs cs"
    using Cons.IH by blast
  ultimately show ?case by (auto simp: k intro: subseq_Cons')
qed

lemma core_classes_spec:
  assumes "core_classes files cores = Inr klass"
  shows "map fst klass = cores" and "\<And>c k. (c, k) \<in> set klass \<Longrightarrow> core_speed files c = Inr k"
proof -
  have "map fst ks' = map fst ks @ cs \<and> (\<forall>(c, k) \<in> set ks'. (c, k) \<in> set ks \<or> core_speed files c = Inr k)"
    if "foldE (\<lambda>cpu ks. bindE (core_speed files cpu) (\<lambda>k. Inr (ks @ [(cpu, k)]))) cs ks = Inr ks'" for cs ks ks'
    using that
  proof (induction cs arbitrary: ks)
    case (Cons c cs)
    obtain k where "core_speed files c = Inr k"
      "foldE (\<lambda>cpu ks. bindE (core_speed files cpu) (\<lambda>k. Inr (ks @ [(cpu, k)]))) cs (ks @ [(c, k)]) = Inr ks'"
      using Cons.prems by auto
    with Cons.IH [OF this(2)] show ?case by auto
  qed auto
  from this [of cores "[]" klass] assms show "map fst klass = cores"
    and "\<And>c k. (c, k) \<in> set klass \<Longrightarrow> core_speed files c = Inr k"
    by (auto simp: core_classes_def)
qed

lemma core_classes_class:
  "core_classes files cores = Inr klass \<Longrightarrow> c \<in> set cores \<Longrightarrow> \<exists>k. core_speed files c = Inr k \<and> (c, k) \<in> set klass"
  using core_classes_spec [of files cores klass] by force

text \<open>A core is one of the fastest: no online core is of a better class.\<close>

definition fastest :: "files \<Rightarrow> nat \<Rightarrow> int \<Rightarrow> bool" where
  "fastest files nprocessors c \<longleftrightarrow>
     c \<in> set (online_cores files nprocessors) \<and>
     (\<exists>k. core_speed files c = Inr k \<and>
        (\<forall>c' \<in> set (online_cores files nprocessors). \<exists>k'. core_speed files c' = Inr k' \<and> k' \<le> k))"

definition own_core :: "files \<Rightarrow> int list \<Rightarrow> bool" where
  "own_core files cs \<longleftrightarrow>
     distinct cs \<and> distinct (filter (\<lambda>key. snd key \<noteq> []) (map (core_key files) cs))"

lemma foldr_max: "x \<in> set xs \<Longrightarrow> (x::int) \<le> foldr max xs d"
  by (induction xs) auto

lemma foldr_max_cases: "foldr max xs d = (d::int) \<or> foldr max xs d \<in> set xs"
  by (induction xs) (auto simp: max_def)

text \<open>The keys seen are those of the cores kept; a core that is not kept has the key of one that is.\<close>

definition cores_kept :: "files \<Rightarrow> int list \<Rightarrow> (string \<times> string) list \<Rightarrow> int list \<Rightarrow> bool" where
  "cores_kept files passed seen fast \<longleftrightarrow>
     set seen = {key \<in> core_key files ` set fast. snd key \<noteq> []} \<and>
     distinct (filter (\<lambda>key. snd key \<noteq> []) (map (core_key files) fast)) \<and>
     (\<forall>c \<in> set passed. c \<in> set fast \<or> core_key files c \<in> core_key files ` set fast)"

lemma keep_core_kept:
  "cores_kept files passed seen fast \<Longrightarrow> keep_core files c (seen, fast) = (seen', fast') \<Longrightarrow>
     cores_kept files (passed @ [c]) seen' fast'"
  by (auto simp: cores_kept_def keep_core_def Let_def split: if_splits)

lemma fold_keep_core_kept:
  "cores_kept files passed seen fast \<Longrightarrow> fold (keep_core files) cs (seen, fast) = (seen', fast') \<Longrightarrow>
     cores_kept files (passed @ cs) seen' fast'"
proof (induction cs arbitrary: passed seen fast)
  case (Cons c cs)
  obtain seen1 fast1 where k: "keep_core files c (seen, fast) = (seen1, fast1)" by fastforce
  from Cons.IH [OF keep_core_kept [OF Cons.prems(1) k]] Cons.prems(2) k show ?case by simp
qed simp

lemma fast_cores_spec:
  assumes "detect_linux files uname nprocessors getaffinity_ok = Inr t"
  shows "sorted (tp_fast_cores t)" and "own_core files (tp_fast_cores t)"
    and "c \<in> set (tp_fast_cores t) \<Longrightarrow> fastest files nprocessors c"
    and "fastest files nprocessors c \<Longrightarrow> core_speed files c = Inr k \<Longrightarrow> 0 \<le> k \<Longrightarrow>
      c \<in> set (tp_fast_cores t) \<or> core_key files c \<in> core_key files ` set (tp_fast_cores t)"
proof -
  define cores where "cores = online_cores files nprocessors"
  have c: "sorted cores" "distinct cores"
    using parse_cpu_list_sorted [of "read_file files ''/sys/devices/system/cpu/online''"]
    by (simp_all add: cores_def online_cores_def Let_def distinct_map sorted_map)
  obtain klass where k: "core_classes files cores = Inr klass"
    and t: "tp_fast_cores t = fastest_cores files klass"
    using assms unfolding detect_linux_def Let_def cores_def [symmetric] bindE_eq_Inr_iff by auto
  note spec = core_classes_spec [OF k]
  define best where "best = foldr max (map snd klass) 0"
  define first where "first = map fst (filter (\<lambda>(_, k). k = best) klass)"
  obtain seen fast where f: "fold (keep_core files) first ([], []) = (seen, fast)" by fastforce
  then have fast: "tp_fast_cores t = fast"
    by (simp add: t fastest_cores_def Let_def first_def best_def)
  have sub: "subseq fast first" using keep_core_subseq [of files first "[]" "[]"] f by auto
  have "subseq first cores" unfolding first_def spec(1) [symmetric] by (intro subseq_map subseq_filter_left)
  then have "subseq fast cores" using sub by (metis subseq_order.order_trans)
  then have sorted: "sorted fast" "distinct fast" using c by (auto simp: subseq_conv_nths sorted_nths distinct_nthsI)
  have kept: "cores_kept files first seen fast"
    using fold_keep_core_kept [OF _ f, of "[]"] by (simp add: cores_kept_def)
  show "sorted (tp_fast_cores t)" by (simp add: fast sorted)
  show "own_core files (tp_fast_cores t)" using kept sorted by (simp add: own_core_def fast cores_kept_def)
  have class_le: "\<exists>k'. core_speed files c' = Inr k' \<and> k' \<le> best" if "c' \<in> set cores" for c'
    using core_classes_class [OF k that] foldr_max [of _ "map snd klass" 0] by (force simp: best_def)
  show "fastest files nprocessors c" if "c \<in> set (tp_fast_cores t)"
  proof -
    have "c \<in> set first" using that sub unfolding fast by (metis notin_set_nthsI subseq_conv_nths)
    then have "(c, best) \<in> set klass" by (auto simp: first_def)
    then have "core_speed files c = Inr best" "c \<in> set cores" using spec by force+
    then show ?thesis using class_le by (auto simp: fastest_def cores_def)
  qed
  show "c \<in> set (tp_fast_cores t) \<or> core_key files c \<in> core_key files ` set (tp_fast_cores t)"
    if c: "fastest files nprocessors c" "core_speed files c = Inr k" "0 \<le> k"
  proof -
    have "k' \<le> k" if "k' \<in> set (map snd klass)" for k'
    proof -
      obtain c' where "(c', k') \<in> set klass" using \<open>k' \<in> set (map snd klass)\<close> by auto
      then have "core_speed files c' = Inr k'" "c' \<in> set cores" using spec by force+
      then show ?thesis using c(1,2) by (force simp: fastest_def cores_def)
    qed
    then have "best \<le> k" using foldr_max_cases [of "map snd klass" 0] c(3) by (auto simp: best_def)
    moreover have "(c, k) \<in> set klass"
      using core_classes_class [OF k, of c] c(1,2) by (auto simp: fastest_def cores_def)
    then have "k \<le> best" using foldr_max [of k "map snd klass" 0] by (force simp: best_def)
    ultimately have "c \<in> set first" using \<open>(c, k) \<in> set klass\<close> by (force simp: first_def)
    then show ?thesis using kept by (simp add: fast cores_kept_def)
  qed
qed

lemma own_core_subset:
  assumes "own_core files fast" and "set cs \<subseteq> set fast" and "distinct cs"
  shows "own_core files cs"
proof -
  have filter_keys: "filter (\<lambda>key. snd key \<noteq> []) (map (core_key files) xs)
      = map (core_key files) (filter (\<lambda>c. snd (core_key files c) \<noteq> []) xs)" for xs
    by (simp add: filter_map comp_def)
  show ?thesis
    using assms unfolding own_core_def filter_keys distinct_map by (auto intro: inj_on_subset)
qed

end
