(* ===== verification/ClientConfig.thy ===== *)
theory ClientConfig
  imports CppStrings "HOL-Library.List_Lexorder" "HOL-Library.Char_ord"
begin

text \<open>
  client/config.hpp and client/config.cpp: the client's configuration, from a file of lines
  \<open>key = value\<close> and from the command line, which overrides it. Parameters: \<open>home\<close>, the
  variable \<^verbatim>\<open>HOME\<close>; \<open>files\<close>, the contents of the files. Texts are UTF-8 bytes.
\<close>

record client_config =
  cc_server :: string
  cc_name :: string
  cc_slots :: "int option"
  cc_cores :: "int list option"
  cc_work_dir :: string
  cc_fastchess :: string
  cc_make_args :: "string list"
  cc_poll_interval :: int
  cc_max_pairs :: int
  cc_check :: bool

definition default_client_config :: client_config where
  "default_client_config =
     \<lparr>cc_server = ''http://localhost:8080'', cc_name = [], cc_slots = None, cc_cores = None,
      cc_work_dir = [], cc_fastchess = [], cc_make_args = [], cc_poll_interval = 10,
      cc_max_pairs = 0, cc_check = False\<rparr>"

definition kClientUsage :: string where
  "kClientUsage = concat (map (\<lambda>l. l @ [newline])
       [''uso: capi_net_client [op'' @ [CHR 0xC3, CHR 0xA7, CHR 0xC3, CHR 0xB5] @ ''es]'',
        [],
        ''  --config ARQ        arquivo de configura'' @ [CHR 0xC3, CHR 0xA7, CHR 0xC3, CHR 0xA3] @ ''o (padr'' @ [CHR 0xC3, CHR 0xA3] @ ''o: ~/.config/capi_net/client.conf)'',
        ''  --server URL        URL do server (ex: http://<host-do-server>:8080)'',
        ''  --name NOME         nome do client (padr'' @ [CHR 0xC3, CHR 0xA3] @ ''o: <hostname>-<N>slots)'',
        ''  --slots N           partidas simult'' @ [CHR 0xC3, CHR 0xA2] @ ''neas (padr'' @ [CHR 0xC3, CHR 0xA3] @ ''o: NPROC/4)'',
        ''  --cores LISTA       n'' @ [CHR 0xC3, CHR 0xBA] @ ''cleos, um por slot (ex: 2,3)'',
        ''  --work-dir DIR      builds e arquivos tempor'' @ [CHR 0xC3, CHR 0xA1] @ ''rios (padr'' @ [CHR 0xC3, CHR 0xA3] @ ''o: ~/.cache/capi_net)'',
        ''  --fastchess CMD     bin'' @ [CHR 0xC3, CHR 0xA1] @ ''rio do fastchess (padr'' @ [CHR 0xC3, CHR 0xA3] @ ''o: compila a vers'' @ [CHR 0xC3, CHR 0xA3] @ ''o fixa do capi_net)'',
        ''  --make-args '' @ [CHR 0x22] @ ''A B'' @ [CHR 0x22] @ ''   argumentos extras para '' @ [CHR 0x60] @ ''make build'' @ [CHR 0x60],
        ''  --poll-interval S   intervalo de consulta ao server, em segundos (padr'' @ [CHR 0xC3, CHR 0xA3] @ ''o: 10)'',
        ''  --max-pairs N       sai depois de N pares (testes)'',
        ''  --check             mostra topologia e admiss'' @ [CHR 0xC3, CHR 0xA3] @ ''o e sai''])"

definition expand_home :: "string option \<Rightarrow> string \<Rightarrow> string" where
  "expand_home home p =
     (if starts_with p ''~/'' then (case home of Some h \<Rightarrow> h @ drop 1 p | None \<Rightarrow> p) else p)"

definition trim :: "string \<Rightarrow> string" where
  "trim s = trim_chars (\<lambda>c. c = CHR '' '' \<or> c = tab \<or> c = carriage_return) s"

definition to_int :: "string \<Rightarrow> string \<Rightarrow> int \<Rightarrow> int result" where
  "to_int key v min_value =
     (let err = Inl (ConfigErr (key @ '': valor inv'' @ [CHR 0xC3, CHR 0xA1] @ ''lido '' @ [CHR 0x27] @ v @ [CHR 0x27]))
      in case cpp_stoi v of
           None \<Rightarrow> err
         | Some (n, pos) \<Rightarrow> if pos = length v \<and> min_value \<le> n then Inr n else err)"

definition parse_cores :: "string \<Rightarrow> string \<Rightarrow> int list result" where
  "parse_cores key value =
     bindE (foldE (\<lambda>part cores. bindE (to_int key (trim part) 0) (\<lambda>n. Inr (cores @ [n])))
              (getlines (CHR '','') value) []) (\<lambda>cores.
       if cores = [] then Inl (ConfigErr ''cores: lista vazia'') else Inr cores)"

definition apply_option :: "string option \<Rightarrow> string \<times> string \<Rightarrow> client_config \<Rightarrow> client_config result" where
  "apply_option home kv c =
     (case kv of (key, value) \<Rightarrow>
        if key = ''server'' then Inr (c\<lparr>cc_server := value\<rparr>)
        else if key = ''name'' then Inr (c\<lparr>cc_name := value\<rparr>)
        else if key = ''slots'' then bindE (to_int key value 1) (\<lambda>n. Inr (c\<lparr>cc_slots := Some n\<rparr>))
        else if key = ''cores'' then bindE (parse_cores key value) (\<lambda>cs. Inr (c\<lparr>cc_cores := Some cs\<rparr>))
        else if key = ''work_dir'' \<or> key = ''work-dir''
        then Inr (c\<lparr>cc_work_dir := expand_home home value\<rparr>)
        else if key = ''fastchess'' then Inr (c\<lparr>cc_fastchess := expand_home home value\<rparr>)
        else if key = ''make_args'' \<or> key = ''make-args''
        then Inr (c\<lparr>cc_make_args := stream_words value\<rparr>)
        else if key = ''poll_interval'' \<or> key = ''poll-interval''
        then bindE (to_int key value 1) (\<lambda>n. Inr (c\<lparr>cc_poll_interval := n\<rparr>))
        else if key = ''max_pairs'' \<or> key = ''max-pairs''
        then bindE (to_int key value 0) (\<lambda>n. Inr (c\<lparr>cc_max_pairs := n\<rparr>))
        else Inl (ConfigErr (''op'' @ [CHR 0xC3, CHR 0xA7, CHR 0xC3, CHR 0xA3] @ ''o desconhecida: '' @ key)))"

section \<open>The file\<close>

text \<open>A line without its comment, trimmed; the key and value it sets, \<^const>\<open>None\<close> for an empty line.\<close>

definition config_line :: "string \<Rightarrow> string" where
  "config_line line = trim (case find_char (CHR ''#'') line of None \<Rightarrow> line | Some i \<Rightarrow> take i line)"

text \<open>\<^verbatim>\<open>catch (const ConfigError& e)\<close>: the error with its place.\<close>

definition at_place :: "string \<Rightarrow> 'a result \<Rightarrow> 'a result" where
  "at_place place r = (case r of Inl (ConfigErr m) \<Rightarrow> Inl (ConfigErr (place @ m)) | _ \<Rightarrow> r)"

definition load_line :: "string option \<Rightarrow> string \<Rightarrow> nat \<times> string \<Rightarrow> client_config \<Rightarrow> client_config result" where
  "load_line home path nl c =
     (case nl of (lineno, raw) \<Rightarrow>
        let line = config_line raw; place = path @ '':'' @ show_nat lineno @ '': ''
        in if line = [] then Inr c
           else case find_char (CHR ''='') line of
             None \<Rightarrow> Inl (ConfigErr (place @ ''esperado chave = valor''))
           | Some eq \<Rightarrow>
               at_place place (apply_option home (trim (take eq line), trim (drop (eq + 1) line)) c))"

definition load_file :: "string option \<Rightarrow> (string \<Rightarrow> string option) \<Rightarrow> string \<Rightarrow> client_config \<Rightarrow> client_config result" where
  "load_file home files path c =
     (case files path of
        None \<Rightarrow> Inl (ConfigErr (''n'' @ [CHR 0xC3, CHR 0xA3] @ ''o foi poss'' @ [CHR 0xC3, CHR 0xAD] @ ''vel ler '' @ path))
      | Some s \<Rightarrow> foldE (load_line home path) (List.enumerate 1 (getlines newline s)) c)"

section \<open>The command line\<close>

record cli_flags =
  cf_flags :: "(string \<times> string) list"
  cf_config_path :: "string option"
  cf_check :: bool

text \<open>\<^verbatim>\<open>std::map\<close> of the flags: sorted by key, one value per key.\<close>

fun set_flag :: "string \<Rightarrow> string \<Rightarrow> (string \<times> string) list \<Rightarrow> (string \<times> string) list" where
  "set_flag k v [] = [(k, v)]"
| "set_flag k v ((k', v') # kvs) =
     (if k = k' then (k, v) # kvs
      else if k < k' then (k, v) # (k', v') # kvs
      else (k', v') # set_flag k v kvs)"

fun parse_flags :: "string option \<Rightarrow> string list \<Rightarrow> cli_flags \<Rightarrow> cli_flags result" where
  "parse_flags home [] f = Inr f"
| "parse_flags home (arg # args) f =
     (if arg = ''--help'' \<or> arg = ''-h'' then Inl (ConfigErr kClientUsage)
      else if arg = ''--check'' then parse_flags home args (f\<lparr>cf_check := True\<rparr>)
      else if \<not> starts_with arg ''--'' then Inl (ConfigErr (''argumento inesperado: '' @ arg))
      else case args of
        [] \<Rightarrow> Inl (ConfigErr (''faltou o valor de '' @ arg))
      | v # rest \<Rightarrow>
          let key = drop 2 arg
          in if key = ''config''
             then parse_flags home rest (f\<lparr>cf_config_path := Some (expand_home home v)\<rparr>)
             else parse_flags home rest (f\<lparr>cf_flags := set_flag key v (cf_flags f)\<rparr>))"

text \<open>\<^verbatim>\<open>while (s.size() > 1 && s.back() == '/') s.pop_back();\<close> .\<close>

definition drop_slashes :: "string \<Rightarrow> string" where
  "drop_slashes s = take 1 s @ strip_back (\<lambda>c. c = CHR ''/'') (drop 1 s)"

definition base_config ::
  "string option \<Rightarrow> (string \<Rightarrow> string option) \<Rightarrow> string option \<Rightarrow> client_config result" where
  "base_config home files config_path =
     (let default_path = expand_home home ''~/.config/capi_net/client.conf''
      in case config_path of
           Some path \<Rightarrow> load_file home files path default_client_config
         | None \<Rightarrow> if files default_path \<noteq> None then load_file home files default_path default_client_config
                   else Inr default_client_config)"

definition finish_config :: "string option \<Rightarrow> bool \<Rightarrow> client_config \<Rightarrow> client_config" where
  "finish_config home check c =
     c\<lparr>cc_check := check,
       cc_work_dir := (if cc_work_dir c = [] then expand_home home ''~/.cache/capi_net'' else cc_work_dir c),
       cc_server := drop_slashes (cc_server c)\<rparr>"

definition load_client_config ::
  "string option \<Rightarrow> (string \<Rightarrow> string option) \<Rightarrow> string list \<Rightarrow> client_config result" where
  "load_client_config home files args =
     bindE (parse_flags home args \<lparr>cf_flags = [], cf_config_path = None, cf_check = False\<rparr>) (\<lambda>f.
     bindE (base_config home files (cf_config_path f)) (\<lambda>c.
     bindE (foldE (apply_option home) (cf_flags f) c) (\<lambda>c.
       Inr (finish_config home (cf_check f) c))))"

section \<open>Lemmas\<close>

definition client_config_ok :: "client_config \<Rightarrow> bool" where
  "client_config_ok c \<longleftrightarrow> (\<forall>n. cc_slots c = Some n \<longrightarrow> 1 \<le> n) \<and>
     (\<forall>cs. cc_cores c = Some cs \<longrightarrow> cs \<noteq> [] \<and> (\<forall>n \<in> set cs. 0 \<le> n)) \<and>
     1 \<le> cc_poll_interval c \<and> 0 \<le> cc_max_pairs c"

lemma to_int_min: "to_int key v m = Inr n \<Longrightarrow> m \<le> n"
  by (auto simp: to_int_def Let_def split: option.splits if_splits)

lemma parse_cores_ok: "parse_cores key v = Inr cs \<Longrightarrow> cs \<noteq> [] \<and> (\<forall>n \<in> set cs. 0 \<le> n)"
proof -
  assume a: "parse_cores key v = Inr cs"
  let ?f = "\<lambda>part cores. bindE (to_int key (trim part) 0) (\<lambda>n. Inr (cores @ [n]))"
  have "foldE ?f (getlines (CHR '','') v) [] = Inr cs" "cs \<noteq> []"
    using a by (auto simp: parse_cores_def split: if_splits)
  moreover have "\<forall>n \<in> set cs. 0 \<le> n"
    by (rule foldE_invariant [OF calculation(1), where P = "\<lambda>cs. \<forall>n \<in> set cs. 0 \<le> n"]) (auto dest: to_int_min)
  ultimately show ?thesis by simp
qed

text \<open>One branch of a chain of tests, whatever it tested.\<close>

lemma branchE: "(if b then x else y) = Inr z \<Longrightarrow> (x = Inr z \<Longrightarrow> R) \<Longrightarrow> (y = Inr z \<Longrightarrow> R) \<Longrightarrow> R"
  by (cases b) auto

lemma apply_option_ok:
  assumes "apply_option home kv c = Inr c'" and ok: "client_config_ok c"
  shows "client_config_ok c'"
proof (cases kv)
  case (Pair key v)
  show ?thesis
    using assms(1) unfolding apply_option_def Pair prod.case
    by (elim branchE) (use ok in \<open>auto simp: client_config_ok_def dest: to_int_min parse_cores_ok\<close>)
qed

lemma at_place_Inr [simp]: "at_place p r = Inr x \<longleftrightarrow> r = Inr x"
  by (auto simp: at_place_def split: sum.splits exn.splits)

lemma load_line_ok: "load_line home path nl c = Inr c' \<Longrightarrow> client_config_ok c \<Longrightarrow> client_config_ok c'"
  unfolding load_line_def Let_def
  by (auto split: prod.splits if_splits option.splits dest: apply_option_ok)

lemma load_file_ok: "load_file home files path c = Inr c' \<Longrightarrow> client_config_ok c \<Longrightarrow> client_config_ok c'"
  by (auto simp: load_file_def split: option.splits
      elim!: foldE_invariant [where P = client_config_ok] intro: load_line_ok)

lemma default_config_ok: "client_config_ok default_client_config"
  by (simp add: client_config_ok_def default_client_config_def)

text \<open>Whatever the file and the command line hold, what is loaded is in range.\<close>

lemma load_client_config_ok:
  assumes "load_client_config home files args = Inr c"
  shows "client_config_ok c"
proof -
  from assms obtain f :: cli_flags and c0 c1 where c0: "base_config home files (cf_config_path f) = Inr c0"
    and c1: "foldE (apply_option home) (cf_flags f) c0 = Inr c1" and c: "finish_config home (cf_check f) c1 = c"
    unfolding load_client_config_def bindE_eq_Inr_iff sum.inject by blast
  have "client_config_ok c0"
    using c0 load_file_ok default_config_ok unfolding base_config_def Let_def
    by (auto split: option.splits if_splits)
  then have "client_config_ok c1"
    by (rule foldE_invariant [OF c1]) (rule apply_option_ok)
  then show ?thesis by (simp add: c [symmetric] client_config_ok_def finish_config_def)
qed

end
