(* ===== verification/RunnerLoop.thy ===== *)
theory RunnerLoop
  imports Runner ClientConfig
begin

text \<open>
  The loops of client/runner.cpp: the poll of the server with the preparation of the engines,
  one turn of a slot's thread, and the delivery of a result. The state the threads share is a
  record; what a thread meets (the replies, the outcome of fastchess, the clock, the stop flag
  when it looks) is its input, and what it does is the list of its actions. How the threads
  interleave is the subject of RunnerThreads; \<^verbatim>\<open>wake\<close> only shortens a sleep.
\<close>

section \<open>Shared state\<close>

record runner_state =
  ru_stop :: bool
  ru_banned :: bool
  ru_pairs_done :: int
  ru_engines :: "engine_set option"
  ru_failed_test :: "int option"

definition request_stop :: "runner_state \<Rightarrow> runner_state" where
  "request_stop st = st\<lparr>ru_stop := True\<rparr>"

definition ban_runner :: "runner_state \<Rightarrow> runner_state" where
  "ban_runner st = request_stop (st\<lparr>ru_banned := True\<rparr>)"

section \<open>The engines\<close>

text \<open>
  \<open>build key url\<close> is \<^verbatim>\<open>build::build_engine\<close>: the path of the engine, \<^const>\<open>None\<close> when the build
  fails or is cancelled.
\<close>

definition cache_key :: "string \<Rightarrow> string \<Rightarrow> string" where
  "cache_key arch sha = sha @ ''-'' @ arch"

definition prepare_engines ::
  "(string \<Rightarrow> string \<Rightarrow> string option result) \<Rightarrow> string \<Rightarrow> api_test \<Rightarrow> engine_set option result" where
  "prepare_engines build arch t =
     bindE (build (cache_key arch (ap_candidate_commit t)) (ap_candidate_tarball_url t)) (\<lambda>c.
       case c of
         None \<Rightarrow> Inr None
       | Some candidate \<Rightarrow>
           bindE (build (cache_key arch (ap_baseline_commit t)) (ap_baseline_tarball_url t)) (\<lambda>b.
             case b of
               None \<Rightarrow> Inr None
             | Some baseline \<Rightarrow>
                 Inr (Some \<lparr>es_test_id = ap_test_id t, es_candidate = candidate, es_baseline = baseline,
                   es_tc_base_ms = ap_tc_base_ms t, es_tc_increment_ms = ap_tc_increment_ms t,
                   es_hash_mb = ap_hash_mb t, es_threads = ap_threads t,
                   es_adjudication = ap_adjudication t\<rparr>)))"

section \<open>The poll\<close>

text \<open>\<^verbatim>\<open>poll_server\<close>: the state it leaves, and the exception that leaves it, if any.\<close>

definition poll_server ::
  "(string \<Rightarrow> string \<Rightarrow> string option result) \<Rightarrow> string \<Rightarrow> bool result \<Rightarrow> api_test option result \<Rightarrow>
   runner_state \<Rightarrow> unit result \<times> runner_state" where
  "poll_server build arch heartbeat active st =
     (case heartbeat of
        Inl e \<Rightarrow> (Inl e, st)
      | Inr banned \<Rightarrow>
          if banned then (Inr (), ban_runner st)
          else case active of
            Inl e \<Rightarrow> (Inl e, st)
          | Inr None \<Rightarrow> (Inr (), st\<lparr>ru_engines := None\<rparr>)
          | Inr (Some t) \<Rightarrow>
              if map_option es_test_id (ru_engines st) = Some (ap_test_id t) then (Inr (), st)
              else if ru_failed_test st = Some (ap_test_id t) then (Inr (), st)
              else
                let st = st\<lparr>ru_engines := None\<rparr>
                in case prepare_engines build arch t of
                     Inl e \<Rightarrow> (Inl e, st)
                   | Inr (Some es) \<Rightarrow> (Inr (), st\<lparr>ru_engines := Some es\<rparr>)
                   | Inr None \<Rightarrow> (Inr (), st\<lparr>ru_failed_test := Some (ap_test_id t)\<rparr>))"

text \<open>The turns of \<^verbatim>\<open>run\<close>: every exception is logged and the loop goes on until the stop flag is set.\<close>

fun poll_turns ::
  "(string \<Rightarrow> string \<Rightarrow> string option result) \<Rightarrow> string \<Rightarrow> (bool result \<times> api_test option result) list \<Rightarrow>
   runner_state \<Rightarrow> runner_state" where
  "poll_turns build arch [] st = st"
| "poll_turns build arch ((hb, act) # inputs) st =
     (if ru_stop st then st else poll_turns build arch inputs (snd (poll_server build arch hb act st)))"

section \<open>One pair\<close>

definition play_timeout_ms :: "effective_time \<Rightarrow> int" where
  "play_timeout_ms tc = 4 * (et_base_ms tc + 200 * et_increment_ms tc) + 120000"

definition failure_note :: "process_result \<Rightarrow> string" where
  "failure_note r =
     (let note = (if pr_timed_out r then ''fastchess excedeu o tempo limite e foi encerrado.''
                  else if pr_exit_code r \<noteq> 0
                  then ''fastchess saiu com c'' @ [CHR 0xC3, CHR 0xB3] @ ''digo '' @ show_int (pr_exit_code r) @ ''.''
                  else [])
      in if note = [] then []
         else note @ '' Sa'' @ [CHR 0xC3, CHR 0xAD] @ ''da: '' @ tail_lines (pr_output r) 10)"

text \<open>The directory and the files of a slot, and what is handed to \<^verbatim>\<open>run_process\<close> .\<close>

definition slot_dir :: "client_config \<Rightarrow> slot_info \<Rightarrow> string" where
  "slot_dir cfg slot = path_join (path_join (cc_work_dir cfg) ''slots'') (show_int (si_index slot))"

definition play_argv ::
  "client_config \<Rightarrow> int \<Rightarrow> slot_info \<Rightarrow> engine_set \<Rightarrow> real \<Rightarrow> api_pair \<Rightarrow> string list" where
  "play_argv cfg oob slot e cpu_factor pair =
     fastchess_args (cc_fastchess cfg) e (effective_tc oob e cpu_factor)
       (path_join (slot_dir cfg slot) ''pair.epd'') (path_join (slot_dir cfg slot) ''pair.pgn'')
       (''capi_net test '' @ show_int (es_test_id e) @ '' pair '' @ show_int (pp_pair_id pair))"

definition play_options :: "client_config \<Rightarrow> int \<Rightarrow> slot_info \<Rightarrow> engine_set \<Rightarrow> real \<Rightarrow> process_options" where
  "play_options cfg oob slot e cpu_factor =
     \<lparr>po_cwd = slot_dir cfg slot, po_stdin_data = [],
      po_timeout_ms = play_timeout_ms (effective_tc oob e cpu_factor), po_max_output = 2 ^ 20,
      po_has_cancel = True, po_cpu = (case si_core slot of None \<Rightarrow> - 1 | Some c \<Rightarrow> c)\<rparr>"

text \<open>The body, \<^const>\<open>None\<close> when the stop flag has cut the game short; \<open>r\<close> and \<open>pgn\<close> are the outcome of
  fastchess and the file it wrote.\<close>

definition play_pair ::
  "int \<Rightarrow> int \<Rightarrow> slot_info \<Rightarrow> engine_set \<Rightarrow> real \<Rightarrow> process_result result \<Rightarrow> string \<Rightarrow> json option result" where
  "play_pair oob client_id slot e cpu_factor run pgn =
     bindE run (\<lambda>r.
       if pr_cancelled r then Inr None
       else bindE (make_result_body oob client_id pgn (failure_note r) slot (effective_tc oob e cpu_factor) cpu_factor)
              (\<lambda>body. Inr (Some body)))"

section \<open>Delivery\<close>

datatype slot_action =
    SleepFor int
  | CallClaim
  | CallAbandon int
  | CallSubmit int json

datatype delivery = Delivered | Dropped | Rejected | GaveUp | SenderBanned

text \<open>What one attempt meets: the outcome of the call, the seconds since the delivery began, the stop flag.\<close>

record attempt =
  at_reply :: "api_submit_status result"
  at_elapsed :: real
  at_stop :: bool

definition next_backoff :: "int \<Rightarrow> int" where
  "next_backoff b = min (b * 2) 60"

text \<open>\<^verbatim>\<open>submit_with_retry\<close> after so many attempts with the stop flag set; \<^const>\<open>None\<close>: not ended yet.\<close>

fun submit_attempts ::
  "int \<Rightarrow> json \<Rightarrow> int \<Rightarrow> nat \<Rightarrow> attempt list \<Rightarrow> slot_action list \<times> delivery option" where
  "submit_attempts pair body backoff stopped [] = ([], None)"
| "submit_attempts pair body backoff stopped (a # attempts) =
     (case at_reply a of
        Inr ApiAccepted \<Rightarrow> ([CallSubmit pair body], Some Delivered)
      | Inr ApiAlreadyCompleted \<Rightarrow> ([CallSubmit pair body], Some Delivered)
      | Inr ApiLeaseLost \<Rightarrow> ([CallSubmit pair body], Some Dropped)
      | Inr ApiTestFinished \<Rightarrow> ([CallSubmit pair body], Some Dropped)
      | Inr ApiClientBanned \<Rightarrow> ([CallSubmit pair body], Some SenderBanned)
      | Inl (TransientErr _) \<Rightarrow>
          let stopped' = (if at_elapsed a \<le> 900 \<and> at_stop a then stopped + 1 else stopped)
          in if 900 < at_elapsed a \<or> at_stop a \<and> 3 < stopped'
             then ([CallSubmit pair body], Some GaveUp)
             else (case submit_attempts pair body (next_backoff backoff) stopped' attempts of
                     (acts, d) \<Rightarrow> (CallSubmit pair body # SleepFor (backoff * 1000) # acts, d))
      | Inl _ \<Rightarrow> ([CallSubmit pair body], Some Rejected))"

definition submit_with_retry :: "int \<Rightarrow> json \<Rightarrow> attempt list \<Rightarrow> slot_action list \<times> delivery option" where
  "submit_with_retry pair body attempts = submit_attempts pair body 2 0 attempts"

section \<open>A turn of a slot\<close>

record slot_input =
  in_engines :: "engine_set option"
  in_claim :: "api_claim_result result"
  in_play :: "api_pair \<Rightarrow> json option result"
  in_attempts :: "attempt list"

datatype turn_end = NextTurn | LeaveLoop | Unfinished | Terminate exn

record turn_outcome =
  st_actions :: "slot_action list"
  st_end :: turn_end
  st_backoff :: int
  st_ban :: bool
  st_done :: bool

definition turn :: "slot_action list \<Rightarrow> turn_end \<Rightarrow> int \<Rightarrow> turn_outcome" where
  "turn acts e backoff = \<lparr>st_actions = acts, st_end = e, st_backoff = backoff, st_ban = False, st_done = False\<rparr>"

text \<open>After the claim: \<open>e\<close> the engines the turn has read, \<open>pair\<close> the first pair handed out.\<close>

definition work_on :: "slot_input \<Rightarrow> engine_set \<Rightarrow> int \<Rightarrow> api_pair \<Rightarrow> turn_outcome" where
  "work_on inp e test pair =
     (if test \<noteq> es_test_id e
      then turn [CallClaim, CallAbandon (pp_pair_id pair), SleepFor 2000] NextTurn 2
      else case in_play inp pair of
        Inl ex \<Rightarrow> turn [CallClaim] (Terminate ex) 2
      | Inr None \<Rightarrow> turn [CallClaim, CallAbandon (pp_pair_id pair)] LeaveLoop 2
      | Inr (Some body) \<Rightarrow>
          (case submit_with_retry (pp_pair_id pair) body (in_attempts inp) of
             (acts, None) \<Rightarrow> turn (CallClaim # acts) Unfinished 2
           | (acts, Some d) \<Rightarrow>
               (turn (CallClaim # acts) NextTurn 2)\<lparr>st_ban := (d = SenderBanned), st_done := True\<rparr>))"

definition slot_turn :: "client_config \<Rightarrow> slot_input \<Rightarrow> int \<Rightarrow> turn_outcome" where
  "slot_turn cfg inp backoff =
     (let poll = cc_poll_interval cfg * 1000
      in case in_engines inp of
           None \<Rightarrow> turn [SleepFor 2000] NextTurn backoff
         | Some e \<Rightarrow>
             (case in_claim inp of
                Inl (TransientErr _) \<Rightarrow> turn [CallClaim, SleepFor (backoff * 1000)] NextTurn (next_backoff backoff)
              | Inl _ \<Rightarrow> turn [CallClaim, SleepFor poll] NextTurn backoff
              | Inr c \<Rightarrow>
                  if ak_status c = ApiBanned then (turn [CallClaim] LeaveLoop 2)\<lparr>st_ban := True\<rparr>
                  else if ak_status c = ApiNoActiveTest then turn [CallClaim, SleepFor poll] NextTurn 2
                  else case ak_pairs c of
                    [] \<Rightarrow> turn [CallClaim, SleepFor poll] NextTurn 2
                  | pair # _ \<Rightarrow> work_on inp e (ak_test_id c) pair))"

text \<open>What a turn does to the shared state.\<close>

definition after_turn :: "client_config \<Rightarrow> turn_outcome \<Rightarrow> runner_state \<Rightarrow> runner_state" where
  "after_turn cfg t st =
     (let st = (if st_ban t then ban_runner st else st);
          st = (if st_done t then st\<lparr>ru_pairs_done := ru_pairs_done st + 1\<rparr> else st)
      in if st_done t \<and> 0 < cc_max_pairs cfg \<and> cc_max_pairs cfg \<le> ru_pairs_done st
         then request_stop st else st)"

text \<open>The thread's loop; between its turns \<open>others\<close> is what the other threads do to the state.\<close>

fun slot_loop ::
  "client_config \<Rightarrow> ((runner_state \<Rightarrow> runner_state) \<times> slot_input) list \<Rightarrow> int \<Rightarrow> runner_state \<Rightarrow>
   slot_action list \<times> runner_state" where
  "slot_loop cfg [] backoff st = ([], st)"
| "slot_loop cfg ((others, inp) # inputs) backoff st =
     (let st = others st
      in if ru_stop st then ([], st)
         else
           let t = slot_turn cfg (inp\<lparr>in_engines := ru_engines st\<rparr>) backoff; st = after_turn cfg t st
           in if st_end t = NextTurn
              then (case slot_loop cfg inputs (st_backoff t) st of (acts, st) \<Rightarrow> (st_actions t @ acts, st))
              else (st_actions t, st))"

section \<open>The delivery ends\<close>

text \<open>The attempts of a delivery whose sleeps take their time, the first at \<open>t\<close> or later.\<close>

fun timed :: "int \<Rightarrow> real \<Rightarrow> attempt list \<Rightarrow> bool" where
  "timed backoff t [] = True"
| "timed backoff t (a # attempts) =
     (t \<le> at_elapsed a \<and> timed (next_backoff backoff) (at_elapsed a + of_int backoff) attempts)"

text \<open>The seconds the first \<open>n\<close> sleeps take.\<close>

fun waited :: "int \<Rightarrow> nat \<Rightarrow> int" where
  "waited b 0 = 0"
| "waited b (Suc n) = b + waited (next_backoff b) n"

lemma submit_ends:
  assumes "timed b t attempts" and "900 < t + of_int (waited b n)" and "n < length attempts"
  shows "snd (submit_attempts pair body b stopped attempts) \<noteq> None"
  using assms
proof (induction pair body b stopped attempts arbitrary: t n rule: submit_attempts.induct)
  case (1 pair body b stopped)
  then show ?case by simp
next
  case (2 pair body b stopped a attempts)
  show ?case
  proof (cases "\<exists>m. at_reply a = Inl (TransientErr m)")
    case False
    then show ?thesis by (auto split: sum.splits api_submit_status.splits exn.splits)
  next
    case True
    then obtain m where m: "at_reply a = Inl (TransientErr m)" by blast
    let ?s = "if at_elapsed a \<le> 900 \<and> at_stop a then stopped + 1 else stopped"
    show ?thesis
    proof (cases "900 < at_elapsed a \<or> at_stop a \<and> 3 < ?s")
      case True
      then show ?thesis by (simp add: m Let_def)
    next
      case False
      have t: "t \<le> at_elapsed a" "timed (next_backoff b) (at_elapsed a + of_int b) attempts"
        using "2.prems"(1) by simp_all
      show ?thesis
      proof (cases n)
        case 0
        then show ?thesis using "2.prems"(2) t(1) False by simp
      next
        case (Suc k)
        have "900 < (at_elapsed a + of_int b) + of_int (waited (next_backoff b) k)" "k < length attempts"
          using "2.prems"(2,3) t(1) Suc by simp_all
        from "2.IH" [OF m refl refl False t(2) this]
        have "snd (submit_attempts pair body (next_backoff b) ?s attempts) \<noteq> None" .
        moreover obtain acts d where
          "submit_attempts pair body (next_backoff b) ?s attempts = (acts, d)" by fastforce
        moreover have "at_elapsed a \<le> 900" using False by simp
        ultimately show ?thesis
          using False by (cases "at_stop a") (simp_all add: m Let_def)
      qed
    qed
  qed
qed

lemma waited_budget: "waited 2 19 = 902"
  by (simp add: eval_nat_numeral next_backoff_def)

section \<open>What a turn does with its pair\<close>

fun pair_of :: "slot_action \<Rightarrow> int option" where
  "pair_of (CallAbandon p) = Some p"
| "pair_of (CallSubmit p _) = Some p"
| "pair_of _ = None"

fun is_submit :: "slot_action \<Rightarrow> bool" where
  "is_submit (CallSubmit _ _) = True"
| "is_submit _ = False"

fun is_abandon :: "slot_action \<Rightarrow> bool" where
  "is_abandon (CallAbandon _) = True"
| "is_abandon _ = False"

lemma submit_actions:
  assumes "submit_attempts pair body b stopped attempts = (acts, d)"
  shows "\<forall>a \<in> set acts. a = CallSubmit pair body \<or> (\<exists>t. a = SleepFor t)"
    and "d \<noteq> None \<Longrightarrow> CallSubmit pair body \<in> set acts"
  using assms
  by (induction pair body b stopped attempts arbitrary: acts d rule: submit_attempts.induct;
      fastforce simp: Let_def split: sum.splits api_submit_status.splits exn.splits prod.splits if_splits)+

end
