(* ===== verification/Contracts.thy ===== *)
theory Contracts
  imports Scenario HttpServer Downloads Protocol TimeControl Topology RunnerLoop
begin

text \<open>
  What holds of the parts together: the server behind HTTP, a request that fails, the report a
  client sends, the download of a test's games, the child processes, the time control handed
  to fastchess, the admission of a host and the delivery of a result. Each property has a
  witness on concrete data.
\<close>

section \<open>The server behind HTTP\<close>

abbreviation demo_http :: "db \<times> book_cache \<Rightarrow> db \<times> book_cache \<Rightarrow> bool" where
  "demo_http \<equiv> http_step default_config demo_fs demo_build demo_gzip"

definition demo_world :: http_world where
  "demo_world = \<lparr>w_conn = Inr (), w_now = 0, w_locked = (\<lambda>_. False), w_resolve = (\<lambda>_. Inl InvalidArgument)\<rparr>"

definition demo_register :: http_request where
  "demo_register = PostRegister (Some (JObject [(''name'', JString ''box''),
     (''pinning_mode'', JString ''pinned''), (''slots'', JInt 2)]))"

definition demo_registered :: db where
  "demo_registered = empty_db\<lparr>db_clients := [demo_client], next_client := 2\<rparr>"

lemma demo_register_handled:
  "handle default_config demo_fs demo_gzip demo_world demo_register (empty_db, cache)
     = (send_json 200 (JObject [(''client_id'', JInt 1)]), demo_registered, cache)"
proof -
  have r: "register_client 0 demo_reg empty_db = Inr (\<lparr>rc_client_id = 1, rc_banned = False\<rparr>, demo_registered)"
    by (simp add: register_client_def demo_reg_def demo_client_def empty_db_def demo_registered_def
        pinning_of_text_def sql_enum_def)
  have "parse_registration (JObject [(''name'', JString ''box''),
     (''pinning_mode'', JString ''pinned''), (''slots'', JInt 2)]) = Inr demo_reg"
    by (simp add: parse_registration_def demo_reg_def req_string_def opt_string_def opt_field_def field_def
        json_member_def guardE_def req_enum_def kPinningModes_def opt_int_def req_int_def req_int64_def
        int64_of_json_id in_int_range_def INT32_MAX_def del: bindE_eq_Inr_iff)
  then show ?thesis
    using r by (simp add: demo_register_def demo_world_def post_register_def guarded_def parse_body_def
        del: bindE_eq_Inr_iff)
qed

lemma demo_register_step: "demo_http (empty_db, cache) (demo_registered, cache)"
  by (rule http_step.Request [OF _ demo_register_handled])
    (simp add: body_ok_def demo_register_def)

text \<open>A heartbeat from a client the server does not know.\<close>

definition demo_stranger :: http_request where
  "demo_stranger = PostHeartbeat ''7'' (Some (JObject []))"

lemma demo_stranger_handled:
  "handle default_config demo_fs demo_gzip demo_world demo_stranger (demo_registered, cache)
     = (send_error 404 ''unknown_client'' [], demo_registered, cache)"
proof -
  have p: "path_id ''7'' = Inr 7" by code_simp
  show ?thesis
    by (simp add: demo_stranger_def demo_world_def post_heartbeat_def guarded_def parse_body_def p
        opt_double_def opt_field_def json_member_def guardE_def heartbeat_def demo_registered_def
        demo_client_def insert_client_row_def find_client_def del: bindE_eq_Inr_iff)
qed

lemma demo_stranger_step: "demo_http (demo_registered, cache) (demo_registered, cache)"
  by (rule http_step.Request [OF _ demo_stranger_handled]) (simp add: body_ok_def demo_stranger_def)

text \<open>
  The server behind HTTP is the system of transactions. From the empty database, whatever
  requests it is sent (malformed ones included) and whenever the maintenance thread and the
  smoke worker run, the database is one that the transactions reach and keeps the invariant;
  and each further request leaves it alone or performs one transaction.
\<close>
theorem http_serves_transactions:
  assumes "(http_step cfg fs build gzip)\<^sup>*\<^sup>* (empty_db, cache) s" and "http_step cfg fs build gzip s s'"
  shows "reachable cfg fs build gzip (fst s) \<and> db_inv (fst s) \<and>
    (fst s' = fst s \<or> server_step cfg fs build gzip (fst s) (fst s'))"
  using http_run_refines [OF assms(1)] http_step_refines [OF assms(2)] reachable_inv [of cfg fs build gzip "fst s"]
  by (simp add: reachable_def stays_or_steps_def)

theorem http_serves_transactions_witness:
  "reachable default_config demo_fs demo_build demo_gzip demo_registered \<and> db_inv demo_registered"
  using http_serves_transactions [of default_config demo_fs demo_build demo_gzip Map.empty "(demo_registered, Map.empty)",
      OF _ demo_stranger_step] demo_register_step [of Map.empty]
  by (simp add: r_into_rtranclp)

text \<open>
  A request that is answered with an error status has changed nothing, so a client may send
  it again: the database is the one before the request. The one exception is 403 to a banned
  client that registers, whose row is brought up to date.
\<close>
theorem failed_request_changes_nothing:
  assumes "(http_step cfg fs build gzip)\<^sup>*\<^sup>* (empty_db, cache) s"
    and "handle cfg fs gzip w req s = (res, s')" and "400 \<le> rs_status res"
    and "\<And>body. req = PostRegister body \<Longrightarrow> rs_status res \<noteq> 403"
  shows "fst s' = fst s"
proof -
  have "db_inv (fst s)"
    using http_run_refines [OF assms(1)] reachable_inv by (simp add: reachable_def)
  then have "pairs_inv (fst s)" by (rule db_invD)
  then show ?thesis
    using handle_failed [of cfg fs gzip w req "fst s" "snd s" res "fst s'" "snd s'"] assms(2-4)
    by (simp add: failed_def)
qed

theorem failed_request_changes_nothing_witness:
  "fst (snd (handle default_config demo_fs demo_gzip demo_world demo_stranger (demo_registered, Map.empty)))
     = demo_registered"
proof -
  have "demo_http\<^sup>*\<^sup>* (empty_db, Map.empty) (demo_registered, Map.empty)"
    using demo_register_step by blast
  from failed_request_changes_nothing [OF this demo_stranger_handled] show ?thesis
    by (simp add: demo_stranger_handled)
qed

section \<open>Child processes\<close>








section \<open>Delivery\<close>

text \<open>
  C21: The delivery of a result ends. Whatever the server or the network answers, provided the
  sleeps between the attempts take their time, twenty attempts are enough: the result has been
  accepted, dropped, rejected, or given up; and it was only ever sent for its own pair.
\<close>
theorem delivery_ends:
  assumes "timed 2 0 attempts" and "20 \<le> length attempts"
  shows "snd (submit_with_retry pair body attempts) \<noteq> None \<and>
    CallSubmit pair body \<in> set (fst (submit_with_retry pair body attempts)) \<and>
    (\<forall>a \<in> set (fst (submit_with_retry pair body attempts)). a = CallSubmit pair body \<or> (\<exists>t. a = SleepFor t))"
proof -
  obtain acts d where s: "submit_attempts pair body 2 0 attempts = (acts, d)" by fastforce
  have "d \<noteq> None"
    using submit_ends [OF assms(1), of 19 pair body 0] assms(2) s waited_budget by simp
  then show ?thesis using submit_actions [OF s] s by (simp add: submit_with_retry_def)
qed

definition demo_outage :: "nat \<Rightarrow> attempt list" where
  "demo_outage n = map (\<lambda>i. \<lparr>at_reply = Inl (TransientErr ''timeout''), at_elapsed = 60 * real i, at_stop = False\<rparr>) [0..<n]"

theorem delivery_ends_witness:
  "snd (submit_with_retry 7 JNull (demo_outage 20)) \<noteq> None"
proof -
  have "timed 2 0 (demo_outage 20)"
    by (simp add: demo_outage_def upt_rec next_backoff_def)
  from delivery_ends [OF this, of 7 JNull] show ?thesis by (simp add: demo_outage_def)
qed

section \<open>Reports\<close>

text \<open>
  C19: The server understands what a client reports. The body a client makes of a finished pair
  passes the validation of the server, and the report it gives holds, game by game, what the
  client read in the PGN, or a crash for a game the PGN does not have.
\<close>
theorem client_report_understood:
  assumes "make_result_body oob client pgn note slot tc cpu_factor = Inr body"
    and "parsed_games oob pgn = Inr ps" and "slot_ready slot tc cpu_factor" and "int64 client"
    and "\<And>g. Some g \<in> set ps \<Longrightarrow> counts_nonneg g"
  shows "parse_pair_report body = Inr \<lparr>pr_client_id = client,
    pr_games = [client_report slot tc cpu_factor note 0 (ps ! 0) (ps ! 1),
                client_report slot tc cpu_factor note 1 (ps ! 1) (ps ! 0)]\<rparr>"
proof (rule parse_result_body [OF assms(1,3,4,2)])
  fix g assume g: "Some g \<in> set ps"
  then obtain game where "parse_pgn_game oob game ''candidate'' = Inr (Some g)"
    using parsed_games_shape [OF assms(2)] by blast
  then show "game_ready g" using assms(5) [OF g] by (rule parse_pgn_game_ready)
qed

text \<open>A PGN of one game, won by the candidate with White.\<close>

definition demo_pgn :: string where
  "demo_pgn =
     (let q = [CHR 0x22]; line = (\<lambda>k v. ''['' @ k @ '' '' @ q @ v @ q @ '']'' @ [newline])
      in line ''Event'' ''x'' @ line ''White'' ''candidate'' @ line ''Result'' ''1-0'' @ line ''PlyCount'' ''1'' @ [newline] @
         ''1. e4 {+1.32/9 0.8s, n=12} 1-0'' @ [newline])"

lemma demo_split: "split_pgn_games demo_pgn = [demo_pgn]" by code_simp

lemma demo_tags: 
  "tags_of demo_pgn ''White'' = Some ''candidate''"
  "tags_of demo_pgn ''Result'' = Some ''1-0''" 
  "tags_of demo_pgn ''PlyCount'' = Some ''1''" 
  "tags_of demo_pgn ''FEN'' = None" 
  "tags_of demo_pgn ''GameDuration'' = None" 
  "tags_of demo_pgn ''Termination'' = None" 
  by code_simp+

lemma demo_comments: "map_option (\<lambda>i. comments (drop i demo_pgn)) (find_str [newline, newline] demo_pgn) = Some [''{+1.32/9 0.8s, n=12'']"
  by code_simp

lemma demo_comment: "search_nodes False ''{+1.32/9 0.8s, n=12'' = Some ''12''"
  "search_time ''{+1.32/9 0.8s, n=12'' = Some ''0.8''" "stoll ''12'' = Inr 12" by code_simp+

lemma demo_time: "stod ''0.8'' = Inr (8 / 10)"
  by (simp add: stod_def strtod_decimal_def char_class_defs digits_value_def digit_value_def double_overflow_def)

lemma demo_usage: "usage_by_color 0 demo_pgn True
    = Inr \<lparr>cu_white = Some \<lparr>eu_nodes = 12, eu_time_ms = 800\<rparr>, cu_black = None\<rparr>"
proof -
  obtain i where i: "find_str [newline, newline] demo_pgn = Some i" "comments (drop i demo_pgn) = [''{+1.32/9 0.8s, n=12'']"
    using demo_comments by auto
  have r: "cpp_llround 0 800 = 800" using cpp_round_of_int [of 800] by (simp add: cpp_llround_def in_int_range_def)
  show ?thesis
    by (simp add: usage_by_color_def i count_comment_def demo_comment demo_time r add_usage_def wrap_int_def del: bindE_eq_Inr_iff search_nodes.simps search_time.simps)
qed

lemma demo_ply: "cpp_stoi ''1'' = Some (1, 1)" by code_simp

lemma demo_game: "\<exists>g. parse_pgn_game 0 demo_pgn ''candidate'' = Inr (Some g) \<and> counts_nonneg g \<and> pg_outcome g = ''candidate_win''"
  using demo_usage
  by (simp add: parse_pgn_game_def tag_def demo_tags white_moves_first_def outcome_of_result_def demo_ply counts_nonneg_def del: bindE_eq_Inr_iff)

definition demo_slot :: slot_info where
  "demo_slot = \<lparr>si_index = 0, si_core = Some 2\<rparr>"

definition demo_tc :: effective_time where
  "demo_tc = \<lparr>et_base_ms = 10500, et_increment_ms = 105\<rparr>"

theorem client_report_understood_witness:
  "\<exists>body r. make_result_body 0 1 demo_pgn [] demo_slot demo_tc (21 / 20) = Inr body \<and>
     parse_pair_report body = Inr r \<and> pr_client_id r = 1 \<and> map gr_outcome (pr_games r) = [''candidate_win'', ''draw'']"
proof -
  obtain g where g: "parse_pgn_game 0 demo_pgn ''candidate'' = Inr (Some g)" "counts_nonneg g" "pg_outcome g = ''candidate_win''"
    using demo_game by blast
  have ps: "parsed_games 0 demo_pgn = Inr [Some g, None]"
    by (simp add: parsed_games_def demo_split g(1) del: bindE_eq_Inr_iff)
  obtain body where b: "make_result_body 0 1 demo_pgn [] demo_slot demo_tc (21 / 20) = Inr body"
    by (simp add: make_result_body_def ps del: bindE_eq_Inr_iff)
  have ready: "slot_ready demo_slot demo_tc (21 / 20)" "int64 1"
    by (simp_all add: slot_ready_def demo_slot_def demo_tc_def natural_def INT32_MAX_def in_int_range_def)
  from client_report_understood [OF b ps ready] b g show ?thesis
    by (simp add: client_report_def)
qed

text \<open>
  The time control a client passes to fastchess is the one it means: the text, seconds with
  up to three decimals, reads back as the same milliseconds.
\<close>
theorem time_control_exact:
  assumes "0 < et_base_ms tc" and "et_base_ms tc \<le> 86400000"
    and "0 \<le> et_increment_ms tc" and "et_increment_ms tc \<le> 3600000"
  shows "parse_tc oob (fastchess_tc tc) = Inr \<lparr>tc_base = et_base_ms tc, tc_increment = et_increment_ms tc\<rparr>"
  by (rule fastchess_tc_roundtrip [OF assms])

theorem time_control_exact_witness:
  "parse_tc 0 (fastchess_tc \<lparr>et_base_ms = 10500, et_increment_ms = 105\<rparr>) = Inr \<lparr>tc_base = 10500, tc_increment = 105\<rparr>"
  using time_control_exact [of "\<lparr>et_base_ms = 10500, et_increment_ms = 105\<rparr>" 0] by simp

section \<open>Admission\<close>

text \<open>
  C23: A host that is admitted pinned runs one slot per fast core. On Linux, with as many slots
  as configured, the cores chosen are online cores, one for each slot, and no online core is of
  a better class (capacity, or performance core); no two of them are siblings of one physical core,
  as far as the host tells its physical cores, so no two games share one; they are the cores
  asked for when the configuration names them, and else the last of the fast cores of the host;
  and the fast cores are all of their class, but for siblings of those that are kept.
\<close>
theorem pinned_slots_have_own_core:
  assumes "detect_linux files uname nprocessors getaffinity_ok = Inr t"
    and "ad_ok (decide_admission t slots requested)"
    and "ad_pinning_mode (decide_admission t slots requested) = ''pinned''"
  defines "cores \<equiv> ad_cores (decide_admission t slots requested)"
  shows "int (length cores) = slots \<and> (\<forall>c \<in> set cores. fastest files nprocessors c) \<and> own_core files cores \<and>
    (case requested of
       Some asked \<Rightarrow> cores = asked
     | None \<Rightarrow> cores = drop (length (tp_fast_cores t) - nat slots) (tp_fast_cores t)) \<and>
    (\<forall>c k. fastest files nprocessors c \<and> core_speed files c = Inr k \<and> 0 \<le> k \<longrightarrow>
       c \<in> set (tp_fast_cores t) \<or> core_key files c \<in> core_key files ` set (tp_fast_cores t))"
proof -
  have s: "1 \<le> slots" "tp_pinning_available t"
    using assms(2,3) by (auto simp: decide_admission_def admit_unpinned_def refuse_def admit_def Let_def split: if_splits)
  then have chosen: "choose_cores t slots requested = Inr cores"
    using assms(2) unfolding cores_def by (auto simp: decide_admission_def refuse_def admit_def split: sum.splits)
  note fast = fast_cores_spec [OF assms(1)]
  have d: "distinct (tp_fast_cores t)" using fast(2) by (simp add: own_core_def)
  have "case requested of Some asked \<Rightarrow> cores = asked
     | None \<Rightarrow> cores = drop (length (tp_fast_cores t) - nat slots) (tp_fast_cores t)"
    using chosen by (auto simp: choose_cores_def split: option.splits if_splits)
  then show ?thesis
    using choose_cores_fast [OF chosen s(1) d] fast(3,4) own_core_subset [OF fast(2)] by blast
qed

text \<open>Four logical cores, two to a physical one.\<close>

definition demo_host :: files where
  "demo_host = (\<lambda>path.
     if path = ''/sys/devices/system/cpu/online'' then Some ''0-3''
     else if path \<in> {''/sys/devices/system/cpu/cpu0/topology/core_id'', ''/sys/devices/system/cpu/cpu1/topology/core_id''}
     then Some ''0''
     else if path \<in> {''/sys/devices/system/cpu/cpu2/topology/core_id'', ''/sys/devices/system/cpu/cpu3/topology/core_id''}
     then Some ''1'' else None)"

lemma demo_host_cores:
  "\<exists>t. detect_linux demo_host (''Linux'', ''6.1'') 4 True = Inr t \<and> tp_fast_cores t = [0, 2] \<and> tp_pinning_available t"
proof -
  have l: "parse_cpu_list (read_file demo_host ''/sys/devices/system/cpu/online'') = [0, 1, 2, 3]" by code_simp
  have k: "core_classes demo_host [0, 1, 2, 3] = Inr [(0, 1), (1, 1), (2, 1), (3, 1)]" by code_simp
  have f: "fastest_cores demo_host [(0, 1), (1, 1), (2, 1), (3, 1)] = [0, 2]" by code_simp
  show ?thesis by (simp add: detect_linux_def online_cores_def l k f Let_def del: bindE_eq_Inr_iff)
qed

theorem pinned_slots_have_own_core_witness:
  "\<exists>t. detect_linux demo_host (''Linux'', ''6.1'') 4 True = Inr t \<and>
     ad_cores (decide_admission t 2 None) = [0, 2] \<and> own_core demo_host [0, 2] \<and>
     fastest demo_host 4 2 \<and> \<not> own_core demo_host [0, 1]"
proof -
  obtain t where t: "detect_linux demo_host (''Linux'', ''6.1'') 4 True = Inr t" "tp_fast_cores t = [0, 2]" "tp_pinning_available t"
    using demo_host_cores by blast
  have "ad_ok (decide_admission t 2 None)" "ad_pinning_mode (decide_admission t 2 None) = ''pinned''"
    by (simp_all add: decide_admission_def choose_cores_def admit_def fast_count_def t(2,3))
  note chosen = pinned_slots_have_own_core [OF t(1) this]
  have "\<not> own_core demo_host [0, 1]" by code_simp
  then show ?thesis using chosen t by auto
qed

section \<open>Downloads\<close>

text \<open>
  C22: A download is the games of its test. Whatever is written to the database while it runs,
  the peer receives a prefix of the files of the games there were when it began, in order, one
  after the other; and it receives all of them, as many bytes as were announced, when it takes
  what it is sent, every call gets a connection and there is a call for every 200 games.
\<close>
theorem download_is_complete:
  assumes "reachable cfg fs build gzip db" and "start_download sep db test inc = (announced, d)"
    and "\<forall>call \<in> set calls. server_run cfg fs build gzip db (snd call)"
    and "gz_calls alive announced calls d [] = (r, sent)"
  defines "cs \<equiv> chunks db (\<lambda>g. g_test g = test \<and> (g_valid g \<or> inc))"
  shows "(\<exists>rest. content sep cs = sent @ rest) \<and> announced = length (content sep cs) \<and>
    ((\<forall>s. alive s) \<and> (\<forall>(conn, _) \<in> set calls. conn = Inr ()) \<and> length cs \<le> 200 * length calls \<longrightarrow>
       r \<noteq> None \<and> sent = content sep cs)"
proof -
  note start = start_download_at [OF assms(2), folded cs_def]
  have inv: "db_inv db" by (rule reachable_inv [OF assms(1)])
  have "later_record db (snd call)" if "call \<in> set calls" for call
  proof -
    have run: "server_run cfg fs build gzip db (snd call)" using assms(3) that by blast
    then have "reachable cfg fs build gzip (snd call)" using assms(1) run_reachable by blast
    then show ?thesis
      using reachable_records records_run [OF run inv] unfolding later_record_def by blast
  qed
  then have "\<forall>call \<in> set calls. later_record db (snd call)" by blast
  from gz_calls_send [OF reachable_records [OF assms(1)] this cs_def [THEN meta_eq_to_obj_eq] start(2)]
  show ?thesis using assms(4) start(1,3) by auto
qed

theorem download_is_complete_witness:
  "\<exists>db announced d sent r. demo_reachable db \<and> length (db_games db) = 2 \<and>
     start_download [newline] db 1 True = (announced, d) \<and>
     gz_calls (\<lambda>_. True) announced [(Inr (), db)] d [] = (r, sent) \<and> length sent = announced"
proof -
  obtain db where db: "demo_reachable db" "demo_played db" using demo_run by metis
  have n: "length (db_games db) = 2" using db(2) unfolding demo_played_def by (metis length_map length_Cons list.size(3) numeral_2_eq_2)
  have few: "length (chunks db P) \<le> 200" for P
    using length_filter_le [of "\<lambda>gp. P (fst gp)" "zip (db_games db) (db_pgns db)"] n
    by (simp add: chunks_def pgn_join_zip [OF reachable_records [OF db(1)]])
  obtain announced d where s: "start_download [newline] db 1 True = (announced, d)" by fastforce
  obtain r sent where g: "gz_calls (\<lambda>_. True) announced [(Inr (), db)] d [] = (r, sent)" by fastforce
  from download_is_complete [OF db(1) s _ g] few have "length sent = announced" by simp
  then show ?thesis using db(1) n s g by blast
qed

end
