(* ===== verification/Pool.thy ===== *)
theory Pool
  imports Transitions
begin

text \<open>
  server/db/pool.hpp and server/db/pool.cpp: the pool of database connections. A connection is
  a number; \<open>pl_created\<close> counts the connections there are and the ones being opened, as
  \<^verbatim>\<open>created_\<close> does. The threads inside \<^verbatim>\<open>acquire()\<close> are counted by where they are:
  blocked in \<^verbatim>\<open>cv_.wait\<close>, awake but not yet back under the lock, or opening a connection outside
  of it; \<open>pl_leased\<close> is the connections handed out. Each step is one section under the lock.
\<close>

record pool =
  pl_size :: nat
  pl_created :: nat
  pl_idle :: "nat list"
  pl_waiting :: nat
  pl_woken :: nat
  pl_opening :: nat
  pl_leased :: "nat list"

definition new_pool :: "nat \<Rightarrow> pool" where
  "new_pool limit = \<lparr>pl_size = limit, pl_created = 0, pl_idle = [], pl_waiting = 0, pl_woken = 0,
     pl_opening = 0, pl_leased = []\<rparr>"

section \<open>Operations\<close>

text \<open>The predicate of the wait.\<close>

definition can_acquire :: "pool \<Rightarrow> bool" where
  "can_acquire p \<longleftrightarrow> pl_idle p \<noteq> [] \<or> pl_created p < pl_size p"

text \<open>
  A thread under the lock for which the predicate holds: it leaves with the idle connection
  returned last, or reserves a place and goes on to connect.
\<close>

definition take_connection :: "pool \<Rightarrow> nat option \<times> pool" where
  "take_connection p =
     (if pl_idle p \<noteq> []
      then (Some (last (pl_idle p)),
            p\<lparr>pl_idle := butlast (pl_idle p), pl_leased := last (pl_idle p) # pl_leased p\<rparr>)
      else (None, p\<lparr>pl_created := pl_created p + 1, pl_opening := pl_opening p + 1\<rparr>))"

definition block_thread :: "pool \<Rightarrow> pool" where
  "block_thread p = p\<lparr>pl_waiting := pl_waiting p + 1\<rparr>"

definition notify_one :: "pool \<Rightarrow> pool" where
  "notify_one p =
     (if 0 < pl_waiting p then p\<lparr>pl_waiting := pl_waiting p - 1, pl_woken := pl_woken p + 1\<rparr> else p)"

text \<open>The first half of \<^verbatim>\<open>acquire()\<close>: the predicate is tested before the first wait and after each.\<close>

definition enter_acquire :: "pool \<Rightarrow> nat option \<times> pool" where
  "enter_acquire p = (if can_acquire p then take_connection p else (None, block_thread p))"

text \<open>The second half: the new connection, or the place given back when connecting throws.\<close>

definition connected :: "nat \<Rightarrow> pool \<Rightarrow> pool" where
  "connected c p = p\<lparr>pl_opening := pl_opening p - 1, pl_leased := c # pl_leased p\<rparr>"

definition connect_failed :: "pool \<Rightarrow> pool" where
  "connect_failed p = notify_one (p\<lparr>pl_opening := pl_opening p - 1, pl_created := pl_created p - 1\<rparr>)"

text \<open>\<^verbatim>\<open>release\<close>, called by the destructor of a lease.\<close>

definition release_connection :: "nat \<Rightarrow> bool \<Rightarrow> pool \<Rightarrow> pool" where
  "release_connection c is_open p =
     (let p = p\<lparr>pl_leased := remove1 c (pl_leased p)\<rparr>
      in notify_one (if is_open then p\<lparr>pl_idle := pl_idle p @ [c]\<rparr>
                     else p\<lparr>pl_created := pl_created p - 1\<rparr>))"

section \<open>Steps\<close>

inductive pool_step :: "pool \<Rightarrow> pool \<Rightarrow> bool" where
  Enter: "pool_step p (snd (enter_acquire p))"
| Retry: "0 < pl_woken p \<Longrightarrow> pool_step p (snd (enter_acquire (p\<lparr>pl_woken := pl_woken p - 1\<rparr>)))"
| Spurious: "0 < pl_waiting p \<Longrightarrow> pool_step p (notify_one p)"
| Connected: "0 < pl_opening p \<Longrightarrow> c \<notin> set (pl_idle p) \<union> set (pl_leased p) \<Longrightarrow> pool_step p (connected c p)"
| ConnectFailed: "0 < pl_opening p \<Longrightarrow> pool_step p (connect_failed p)"
| Release: "c \<in> set (pl_leased p) \<Longrightarrow> pool_step p (release_connection c is_open p)"

inductive_cases pool_stepE: "pool_step p q"

section \<open>Invariant\<close>

text \<open>The connections that a thread could have now.\<close>

definition available :: "pool \<Rightarrow> nat" where
  "available p = length (pl_idle p) + (pl_size p - pl_created p)"

definition pool_inv :: "nat \<Rightarrow> pool \<Rightarrow> bool" where
  "pool_inv limit p \<longleftrightarrow> pl_size p = limit \<and> pl_created p \<le> limit \<and>
     pl_created p = length (pl_idle p) + pl_opening p + length (pl_leased p) \<and>
     distinct (pl_idle p @ pl_leased p) \<and> (0 < pl_waiting p \<longrightarrow> available p \<le> pl_woken p)"

lemmas pool_defs = pool_inv_def available_def can_acquire_def enter_acquire_def take_connection_def
  block_thread_def notify_one_def connected_def connect_failed_def release_connection_def

lemma can_acquire_iff: "pl_created p \<le> pl_size p \<Longrightarrow> can_acquire p \<longleftrightarrow> 0 < available p"
  by (cases "pl_idle p") (auto simp: pool_defs)

text \<open>Taking a connection makes one fewer available; blocking happens when there is none.\<close>

lemma enter_inv:
  assumes "pool_inv limit (p\<lparr>pl_woken := w\<rparr>)" and "w = pl_woken p \<or> w = pl_woken p + 1"
  shows "pool_inv limit (snd (enter_acquire p))"
proof (cases "can_acquire p")
  case True
  then show ?thesis
    using assms by (cases "pl_idle p" rule: rev_cases) (auto simp: pool_defs)
next
  case False
  then show ?thesis using assms by (auto simp: pool_defs)
qed

lemma notify_inv:
  assumes "pool_inv limit p" and "pl_size q = limit" "pl_created q \<le> limit"
    "pl_created q = length (pl_idle q) + pl_opening q + length (pl_leased q)"
    "distinct (pl_idle q @ pl_leased q)" "available q \<le> available p + 1"
    "pl_waiting q = pl_waiting p" "pl_woken q = pl_woken p"
  shows "pool_inv limit (notify_one q)"
  using assms by (auto simp: pool_inv_def available_def notify_one_def)

lemma pool_step_inv: "pool_step p q \<Longrightarrow> pool_inv limit p \<Longrightarrow> pool_inv limit q"
proof (induction rule: pool_step.induct)
  case (Enter p)
  then show ?case by (intro enter_inv [where w = "pl_woken p"]) simp_all
next
  case (Retry p)
  then show ?case by (intro enter_inv [where w = "pl_woken p"]) simp_all
next
  case (Spurious p)
  then show ?case by (auto simp: pool_defs)
next
  case (Connected p c)
  then show ?case by (auto simp: pool_defs)
next
  case (ConnectFailed p)
  then show ?case unfolding connect_failed_def by (intro notify_inv [where p = p]) (auto simp: pool_defs)
next
  case (Release c p is_open)
  obtain k where n: "length (pl_leased p) = Suc k" using Release.hyps by (cases "pl_leased p") auto
  have "distinct (pl_idle p @ c # remove1 c (pl_leased p))"
    using Release by (auto simp: pool_inv_def)
  then show ?case
    unfolding release_connection_def Let_def
    using Release n by (intro notify_inv [where p = p]) (auto simp: pool_inv_def available_def length_remove1)
qed

lemma new_pool_inv: "pool_inv limit (new_pool limit)"
  by (simp add: pool_defs new_pool_def)

interpretation pool_system: guarded_system pool_step "pool_inv limit"
  by unfold_locales (rule pool_step_inv)

lemma pool_run_inv: "pool_step\<^sup>*\<^sup>* (new_pool limit) p \<Longrightarrow> pool_inv limit p"
  using pool_system.run_keeps new_pool_inv by blast

section \<open>Property\<close>

text \<open>
  C27: The pool of connections never opens more than its limit and never hands one connection
  to two threads, and no wake-up is lost: while a thread is blocked, a connection that can be
  had has a thread awake to take it, and one that cannot is in use, so it will be returned.
\<close>
theorem pool_bounded_and_live:
  assumes "pool_step\<^sup>*\<^sup>* (new_pool limit) p"
  shows "length (pl_idle p) + pl_opening p + length (pl_leased p) \<le> limit \<and>
    distinct (pl_idle p @ pl_leased p) \<and>
    (0 < pl_waiting p \<and> can_acquire p \<longrightarrow> 0 < pl_woken p) \<and>
    (0 < limit \<and> 0 < pl_waiting p \<and> \<not> can_acquire p \<longrightarrow> 0 < pl_opening p \<or> pl_leased p \<noteq> [])"
  using pool_run_inv [OF assms] can_acquire_iff [of p] by (auto simp: pool_inv_def can_acquire_def)

text \<open>A pool of one connection, in use, and a second thread that waits for it.\<close>

lemma demo_pool_run:
  "pool_step\<^sup>*\<^sup>* (new_pool 1)
     \<lparr>pl_size = 1, pl_created = 1, pl_idle = [], pl_waiting = 1, pl_woken = 0, pl_opening = 0, pl_leased = [7]\<rparr>"
proof -
  let ?p = "new_pool 1"
  let ?q = "snd (enter_acquire ?p)" let ?r = "connected 7 ?q"
  have "pool_step ?p ?q" by (rule Enter)
  moreover have "pool_step ?q ?r" by (rule Connected) (simp_all add: new_pool_def pool_defs)
  moreover have "pool_step ?r (snd (enter_acquire ?r))" by (rule Enter)
  ultimately have "pool_step\<^sup>*\<^sup>* ?p (snd (enter_acquire ?r))" by (meson converse_rtranclp_into_rtranclp r_into_rtranclp)
  then show ?thesis by (simp add: new_pool_def pool_defs)
qed

theorem pool_bounded_and_live_witness:
  "\<exists>p. pool_step\<^sup>*\<^sup>* (new_pool 1) p \<and> pl_waiting p = 1 \<and> length (pl_leased p) \<le> 1 \<and> pl_leased p \<noteq> []"
  using pool_bounded_and_live [OF demo_pool_run] demo_pool_run by fastforce

end
