(* ===== verification/Effects.thy ===== *)
theory Effects
  imports Prelude
begin

text \<open>
  Operations with a state that may throw: the result and the state they leave, in both cases.
\<close>

type_synonym ('s, 'a) effect = "'s \<Rightarrow> 'a result \<times> 's"

definition give :: "'a \<Rightarrow> ('s, 'a) effect" where
  "give x s = (Inr x, s)"

definition throw :: "exn \<Rightarrow> ('s, 'a) effect" where
  "throw e s = (Inl e, s)"

definition lift :: "'a result \<Rightarrow> ('s, 'a) effect" where
  "lift r s = (r, s)"

definition and_then :: "('s, 'a) effect \<Rightarrow> ('a \<Rightarrow> ('s, 'b) effect) \<Rightarrow> ('s, 'b) effect" where
  "and_then m f s = (case m s of (Inl e, s) \<Rightarrow> (Inl e, s) | (Inr x, s) \<Rightarrow> f x s)"

lemma and_then_iff:
  "and_then m f s = (r, s') \<longleftrightarrow>
     (\<exists>e. m s = (Inl e, s') \<and> r = Inl e) \<or> (\<exists>x s1. m s = (Inr x, s1) \<and> f x s1 = (r, s'))"
  by (cases "m s"; cases "fst (m s)") (auto simp: and_then_def)

lemma and_then_simps [simp]:
  "m s = (Inr x, s1) \<Longrightarrow> and_then m f s = f x s1"
  "m s = (Inl e, s1) \<Longrightarrow> and_then m f s = (Inl e, s1)"
  "and_then (give x) f = f x" "and_then (throw e) f = throw e"
  by (simp_all add: and_then_def give_def throw_def fun_eq_iff)

end
