(* ===== verification/EngineBuild.thy ===== *)
theory EngineBuild
  imports Process Effects
begin

text \<open>
  common/engine_build.hpp and common/engine_build.cpp: download, build and check of an engine.
  The disk is the list of what exists, by path. The commands that are run are a parameter:
  \<open>run argv opts disk\<close> is the result of \<^verbatim>\<open>run_process\<close>, the seconds it took as they are
  printed in the log, and the disk after it. The library's calls on the file system succeed.
\<close>

section \<open>The disk\<close>

datatype disk_entry = Directory | PlainFile bool

type_synonym disk = "(string \<times> disk_entry) list"

definition exists_on :: "disk \<Rightarrow> string \<Rightarrow> bool" where
  "exists_on d p \<longleftrightarrow> map_of d p \<noteq> None"

text \<open>A path is the other one or lies beneath it.\<close>

definition under :: "string \<Rightarrow> string \<Rightarrow> bool" where
  "under p q \<longleftrightarrow> q = p \<or> starts_with q (p @ ''/'')"

definition remove_all :: "string \<Rightarrow> disk \<Rightarrow> disk" where
  "remove_all p d = filter (\<lambda>e. \<not> under p (fst e)) d"

definition ancestors :: "string \<Rightarrow> string list" where
  "ancestors p = [take i p. i \<leftarrow> [1..<length p], p ! i = CHR ''/''] @ [p]"

definition create_directories :: "string \<Rightarrow> disk \<Rightarrow> disk" where
  "create_directories p d =
     fold (\<lambda>q d. if exists_on d q then d else d @ [(q, Directory)]) (ancestors p) d"

definition rename_path :: "string \<Rightarrow> string \<Rightarrow> disk \<Rightarrow> disk" where
  "rename_path a b d =
     map (\<lambda>(p, e). (if under a p then b @ drop (length a) p else p, e)) (remove_all b d)"

text \<open>The entries of a directory, and the last part of a path.\<close>

definition list_directory :: "string \<Rightarrow> disk \<Rightarrow> (string \<times> disk_entry) list" where
  "list_directory p d =
     filter (\<lambda>e. starts_with (fst e) (p @ ''/'') \<and> CHR ''/'' \<notin> set (drop (length p + 1) (fst e))
                 \<and> drop (length p + 1) (fst e) \<noteq> []) d"

definition file_name :: "string \<Rightarrow> string" where
  "file_name p = rev (takeWhile (\<lambda>c. c \<noteq> CHR ''/'') (rev p))"

section \<open>One step\<close>

record build_state =
  bs_log :: string
  bs_disk :: disk

type_synonym command_runner = "string list \<Rightarrow> process_options \<Rightarrow> disk \<Rightarrow> (process_result result \<times> string) \<times> disk"

type_synonym 'a building = "build_state \<Rightarrow> 'a result \<times> build_state"

definition say :: "string \<Rightarrow> build_state \<Rightarrow> build_state" where
  "say text s = s\<lparr>bs_log := bs_log s @ text\<rparr>"

definition on_disk :: "(disk \<Rightarrow> disk) \<Rightarrow> build_state \<Rightarrow> build_state" where
  "on_disk f s = s\<lparr>bs_disk := f (bs_disk s)\<rparr>"

definition kLogTailLines :: nat where
  "kLogTailLines = 30"

definition succeeded :: "process_result \<Rightarrow> bool" where
  "succeeded r \<longleftrightarrow> \<not> pr_cancelled r \<and> \<not> pr_timed_out r \<and> pr_exit_code r = 0"

definition step_line :: "string list \<Rightarrow> string \<Rightarrow> process_result \<Rightarrow> string" where
  "step_line argv secs r =
     ''$ '' @ join_with '' '' argv @ ''  -> '' @
     (if pr_cancelled r then ''cancelled'' else if pr_timed_out r then ''TIMEOUT''
      else ''exit '' @ show_int (pr_exit_code r)) @ '' ('' @ secs @ ''s)'' @ [newline]"

definition build_step ::
  "command_runner \<Rightarrow> string list \<Rightarrow> process_options \<Rightarrow> (bool \<times> process_result) building" where
  "build_step run argv opts s =
     (case run argv opts (bs_disk s) of
        ((Inl e, _), d) \<Rightarrow> (Inl e, s\<lparr>bs_disk := d\<rparr>)
      | ((Inr r, secs), d) \<Rightarrow>
          let s = say (step_line argv secs r) (s\<lparr>bs_disk := d\<rparr>);
              s = (if \<not> succeeded r \<and> \<not> pr_cancelled r
                   then say (tail_lines (pr_output r) kLogTailLines @ [newline]) s else s)
          in (Inr (succeeded r, r), s))"

text \<open>The options of the steps: the cancellation is the caller's, the limit in milliseconds.\<close>

definition step_options :: "int \<Rightarrow> string \<Rightarrow> process_options" where
  "step_options timeout_ms stdin =
     \<lparr>po_cwd = [], po_stdin_data = stdin, po_timeout_ms = timeout_ms, po_max_output = 2 ^ 20,
      po_has_cancel = True, po_cpu = - 1\<rparr>"

section \<open>The host\<close>

datatype host_cpu = CpuX86 bool bool | CpuArm64 | CpuOther

fun host_has_bmi2 :: "host_cpu \<Rightarrow> bool" where
  "host_has_bmi2 (CpuX86 bmi2 avx2) = bmi2"
| "host_has_bmi2 _ = False"

fun host_arch_target :: "host_cpu \<Rightarrow> string" where
  "host_arch_target (CpuX86 bmi2 avx2) =
     (if bmi2 then ''x86-64-bmi2'' else if avx2 then ''x86-64-avx2'' else ''x86-64'')"
| "host_arch_target CpuArm64 = ''armv8''"
| "host_arch_target CpuOther = ''unknown''"

section \<open>Building\<close>

record build_options =
  bo_work_dir :: string
  bo_tarball_url :: string
  bo_cache_key :: string
  bo_make_args :: "string list"

definition build_dir :: "build_options \<Rightarrow> string" where
  "build_dir opts = path_join (path_join (bo_work_dir opts) ''builds'') (bo_cache_key opts)"

definition build_bin :: "build_options \<Rightarrow> string" where
  "build_bin opts = path_join (build_dir opts) ''capizero''"

definition build_tmp :: "build_options \<Rightarrow> string" where
  "build_tmp opts = path_join (path_join (bo_work_dir opts) ''builds'') (bo_cache_key opts @ ''.tmp'')"

text \<open>Download and unpack: \<^verbatim>\<open>curl\<close> and \<^verbatim>\<open>tar\<close>, the same for the engines and for fastchess.\<close>

definition fetch_argv :: "string \<Rightarrow> string \<Rightarrow> string list" where
  "fetch_argv tarball url =
     [''curl'', ''-fsSL'', ''--retry'', ''2'', ''--max-time'', ''150'', ''-o'', tarball, url]"

definition unpack_argv :: "string \<Rightarrow> string \<Rightarrow> string list" where
  "unpack_argv tarball src = [''tar'', ''-xzf'', tarball, ''-C'', src, ''--strip-components=1'']"

definition make_argv :: "host_cpu \<Rightarrow> string list \<Rightarrow> string \<Rightarrow> string list" where
  "make_argv cpu make_args src =
     [''make'', ''-C'', src, ''build'', ''NAME=capizero''] @
     (if list_ex (\<lambda>a. starts_with a ''PEXT='') make_args \<or> host_has_bmi2 cpu then [] else [''PEXT=false'']) @
     make_args"

text \<open>The binary: the one asked for, or the only executable whose name begins like it.\<close>

definition built_binary :: "string \<Rightarrow> build_state \<Rightarrow> string option \<times> build_state" where
  "built_binary src s =
     (let built = path_join src ''capizero''
      in if exists_on (bs_disk s) built then (Some built, s)
         else case filter (\<lambda>e. snd e = PlainFile True \<and> starts_with (file_name (fst e)) ''capizero'')
                     (list_directory src (bs_disk s)) of
           [(p, _)] \<Rightarrow> (Some p, say (''Makefile ignored NAME; using '' @ file_name p @ [newline]) s)
         | _ \<Rightarrow> (None, say (''build finished but produced no single capizero* binary in '' @ src @ [newline]) s))"

text \<open>The end of a build that has succeeded: the binary moves into the cache.\<close>

definition install :: "string \<Rightarrow> string \<Rightarrow> string \<Rightarrow> string \<Rightarrow> build_state \<Rightarrow> build_state" where
  "install dir tmp built bin s =
     on_disk (\<lambda>d. remove_all tmp (rename_path built bin (create_directories dir d))) s"

definition build_engine :: "host_cpu \<Rightarrow> command_runner \<Rightarrow> build_options \<Rightarrow> string option building" where
  "build_engine cpu run opts s =
     (let dir = build_dir opts; bin = build_bin opts; tmp = build_tmp opts;
          src = path_join tmp ''src''; tarball = path_join tmp ''src.tar.gz''
      in if exists_on (bs_disk s) bin
         then (Inr (Some bin), say (''cached build: '' @ bin @ [newline]) s)
         else
           and_then (build_step run (fetch_argv tarball (bo_tarball_url opts)) (step_options 180000 [])) (\<lambda>(ok, _).
             if \<not> ok then give None else
           and_then (build_step run (unpack_argv tarball src) (step_options 60000 [])) (\<lambda>(ok, _).
             if \<not> ok then give None else
           and_then (build_step run (make_argv cpu (bo_make_args opts) src) (step_options 1800000 [])) (\<lambda>(ok, _) s.
             if \<not> ok then (Inr None, s)
             else case built_binary src s of
               (None, s) \<Rightarrow> (Inr None, s)
             | (Some built, s) \<Rightarrow>
                 (Inr (Some bin), say (''built '' @ bin @ [newline]) (install dir tmp built bin s)))))
           (on_disk (\<lambda>d. create_directories src (remove_all tmp d)) s))"

section \<open>Checking\<close>

text \<open>\<^verbatim>\<open>Nodes:\s*(\d+)\<close> at the head of a text, and its first match: the matched text and the digits.\<close>

definition bench_nodes_at :: "string \<Rightarrow> (string \<times> string) option" where
  "bench_nodes_at s =
     (let r = drop 6 s; ws = takeWhile is_space r; ds = takeWhile is_digit (dropWhile is_space r)
      in if starts_with s ''Nodes:'' \<and> ds \<noteq> [] then Some (''Nodes:'' @ ws @ ds, ds) else None)"

fun search_bench_nodes :: "string \<Rightarrow> (string \<times> string) option" where
  "search_bench_nodes [] = None"
| "search_bench_nodes (c # cs) =
     (case bench_nodes_at (c # cs) of Some m \<Rightarrow> Some m | None \<Rightarrow> search_bench_nodes cs)"

definition stoull_digits :: "string \<Rightarrow> int result" where
  "stoull_digits ds = (if digits_value ds < 2 ^ 64 then Inr (digits_value ds) else Inl OutOfRange)"

text \<open>The nodes of the bench: the matched text when the count is positive.\<close>

definition positive_bench :: "string \<Rightarrow> string option result" where
  "positive_bench out =
     (case search_bench_nodes out of
        None \<Rightarrow> Inr None
      | Some (text, ds) \<Rightarrow> bindE (stoull_digits ds) (\<lambda>n. Inr (if n = 0 then None else Some text)))"

definition uci_input :: string where
  "uci_input = ''uci'' @ [newline] @ ''isready'' @ [newline] @ ''quit'' @ [newline]"

definition check_engine :: "command_runner \<Rightarrow> string \<Rightarrow> int \<Rightarrow> bool building" where
  "check_engine run bin bench_depth =
     and_then (build_step run [bin, ''bench'', show_int bench_depth] (step_options 300000 [])) (\<lambda>(ok, r).
       if \<not> ok then give False else
       (\<lambda>s. case positive_bench (pr_output r) of
          Inl e \<Rightarrow> (Inl e, s)
        | Inr None \<Rightarrow>
            (Inr False, say (''bench output has no positive ''@ [CHR 0x27] @ ''Nodes:'' @ [CHR 0x27] @ '' line:'' @
               [newline] @ tail_lines (pr_output r) kLogTailLines @ [newline]) s)
        | Inr (Some text) \<Rightarrow>
            and_then (build_step run [bin, ''uci''] (step_options 20000 uci_input)) (\<lambda>(ok, r).
              if \<not> ok then give False
              else if \<not> contains_str ''uciok'' (pr_output r) \<or> \<not> contains_str ''readyok'' (pr_output r)
              then (\<lambda>s. (Inr False, say (''engine did not answer uciok/readyok:'' @ [newline] @
                      tail_lines (pr_output r) kLogTailLines @ [newline]) s))
              else (\<lambda>s. (Inr True, say (''uci ok: uciok, readyok'' @ [newline]) s)))
              (say (''bench ok: '' @ text @ [newline]) s)))"

section \<open>Lemmas on the disk\<close>

lemma exists_on_iff: "exists_on d p \<longleftrightarrow> p \<in> fst ` set d"
  by (simp add: exists_on_def map_of_eq_None_iff)

lemma exists_remove_all: "exists_on (remove_all p d) q \<longleftrightarrow> exists_on d q \<and> \<not> under p q"
  by (auto simp: exists_on_iff remove_all_def)

lemma exists_create_directories:
  "exists_on (create_directories p d) q \<longleftrightarrow> exists_on d q \<or> q \<in> set (ancestors p)"
proof -
  have "exists_on (fold (\<lambda>q d. if exists_on d q then d else d @ [(q, Directory)]) ps d) q
      \<longleftrightarrow> exists_on d q \<or> q \<in> set ps" for ps
    by (induction ps arbitrary: d) (auto simp: exists_on_iff)
  then show ?thesis by (simp add: create_directories_def)
qed

lemma ancestor_prefix: "q \<in> set (ancestors p) \<Longrightarrow> starts_with p q"
  by (auto simp: ancestors_def starts_with_def)

lemma exists_rename_path:
  assumes "exists_on d a" and "\<not> under b a"
  shows "exists_on (rename_path a b d) b"
proof -
  obtain e where "(a, e) \<in> set d" using assms(1) by (auto simp: exists_on_iff)
  then have "(a, e) \<in> set (remove_all b d)" using assms(2) by (simp add: remove_all_def)
  then have "(\<lambda>(p, e). (if under a p then b @ drop (length a) p else p, e)) (a, e) \<in> set (rename_path a b d)"
    unfolding rename_path_def set_map by (rule imageI)
  then have "(b, e) \<in> set (rename_path a b d)" by (simp add: under_def)
  then show ?thesis unfolding exists_on_iff by (metis fst_conv image_eqI)
qed

lemma starts_with_slash: "starts_with s ''/'' \<longleftrightarrow> s \<noteq> [] \<and> hd s = CHR ''/''"
  by (cases s) (simp_all add: starts_with_def)

lemma path_join_append: "\<not> starts_with t ''/'' \<Longrightarrow> path_join a (b @ t) = path_join a b @ t"
  by (cases "b = []") (simp_all add: path_join_def starts_with_slash)

lemma path_join_name:
  "\<not> starts_with b ''/'' \<Longrightarrow> path_join a b = a @ (if a = [] \<or> last a = CHR ''/'' then [] else ''/'') @ b"
  by (simp add: path_join_def)

text \<open>The binary of the cache is outside of the temporary directory, which is not one of its ancestors either.\<close>

lemma build_tmp_eq: "build_tmp opts = build_dir opts @ ''.tmp''"
  by (simp add: build_tmp_def build_dir_def path_join_append starts_with_def)

lemma build_src_eq: "path_join (build_tmp opts) ''src'' = build_tmp opts @ ''/src''"
  by (simp add: path_join_name build_tmp_eq starts_with_def)

lemma bin_not_in_tmp: "\<not> starts_with (build_tmp opts @ t) (build_bin opts)"
  "\<not> starts_with (build_bin opts) (build_tmp opts @ t)"
  by (auto simp: build_tmp_eq build_bin_def path_join_name starts_with_iff)

lemma bin_not_under_tmp: "\<not> under (build_tmp opts) (build_bin opts)"
  using bin_not_in_tmp(2) [of opts "[]"] bin_not_in_tmp(2) [of opts "''/''"] by (auto simp: under_def starts_with_iff)

section \<open>The cache\<close>

text \<open>Commands that are told to work in a directory leave what is outside of it as it is.\<close>

definition confined :: "command_runner \<Rightarrow> string \<Rightarrow> bool" where
  "confined run dir \<longleftrightarrow>
     (\<forall>argv opts d q. \<not> under dir q \<longrightarrow> exists_on (snd (run argv opts d)) q = exists_on d q)"

lemma say_disk [simp]: "bs_disk (say t s) = bs_disk s"
  by (simp add: say_def)

lemma on_disk_disk [simp]: "bs_disk (on_disk f s) = f (bs_disk s)"
  by (simp add: on_disk_def)

lemma build_step_disk: "bs_disk (snd (build_step run argv opts s)) = snd (run argv opts (bs_disk s))"
  by (auto simp: build_step_def Let_def split: prod.splits sum.splits)

lemma build_step_keeps:
  "confined run dir \<Longrightarrow> \<not> under dir q \<Longrightarrow> build_step run argv opts s = (r, s') \<Longrightarrow>
     exists_on (bs_disk s') q = exists_on (bs_disk s) q"
  using build_step_disk [of run argv opts s] by (simp add: confined_def)

text \<open>A command of the build that has been run and has succeeded.\<close>

definition ran_well :: "command_runner \<Rightarrow> string list \<Rightarrow> process_options \<Rightarrow> bool" where
  "ran_well run argv opts \<longleftrightarrow> (\<exists>d r secs d'. run argv opts d = ((Inr r, secs), d') \<and> succeeded r)"

lemma build_step_ran: "build_step run argv opts s = (Inr (True, x), s') \<Longrightarrow> ran_well run argv opts"
  by (auto simp: build_step_def ran_well_def Let_def split: prod.splits sum.splits)

definition build_ran_well :: "host_cpu \<Rightarrow> command_runner \<Rightarrow> build_options \<Rightarrow> bool" where
  "build_ran_well cpu run opts \<longleftrightarrow>
     (let src = path_join (build_tmp opts) ''src''; tarball = path_join (build_tmp opts) ''src.tar.gz''
      in ran_well run (fetch_argv tarball (bo_tarball_url opts)) (step_options 180000 []) \<and>
         ran_well run (unpack_argv tarball src) (step_options 60000 []) \<and>
         ran_well run (make_argv cpu (bo_make_args opts) src) (step_options 1800000 []))"

lemma built_binary_in:
  assumes "built_binary src s = (b, s')"
  shows "bs_disk s' = bs_disk s"
    and "b = Some p \<Longrightarrow> exists_on (bs_disk s) p \<and> (p = path_join src ''capizero'' \<or> starts_with p (src @ ''/''))"
proof -
  let ?es = "filter (\<lambda>e. snd e = PlainFile True \<and> starts_with (file_name (fst e)) ''capizero'')
    (list_directory src (bs_disk s))"
  show "bs_disk s' = bs_disk s"
    using assms by (auto simp: built_binary_def Let_def split: if_splits list.splits)
  assume b: "b = Some p"
  show "exists_on (bs_disk s) p \<and> (p = path_join src ''capizero'' \<or> starts_with p (src @ ''/''))"
  proof (cases "exists_on (bs_disk s) (path_join src ''capizero'')")
    case True
    then show ?thesis using assms b by (simp add: built_binary_def Let_def)
  next
    case False
    then obtain e where "?es = [(p, e)]"
      using assms b by (auto simp: built_binary_def Let_def split: list.splits)
    then have "(p, e) \<in> set ?es" by simp
    then have "(p, e) \<in> set (list_directory src (bs_disk s))" unfolding set_filter by blast
    then show ?thesis by (force simp: list_directory_def exists_on_iff)
  qed
qed

lemma install_exists:
  assumes "exists_on (bs_disk s) built" and "starts_with built (build_tmp opts @ ''/'')"
  shows "exists_on (bs_disk (install dir (build_tmp opts) built (build_bin opts) s)) (build_bin opts)"
proof -
  have "\<not> under (build_bin opts) built"
  proof
    assume "under (build_bin opts) built"
    then obtain v where "built = build_bin opts @ v" by (auto simp: under_def starts_with_iff)
    then obtain u where "build_bin opts @ v = (build_tmp opts @ ''/'') @ u"
      using assms(2) by (auto simp: starts_with_iff)
    then obtain us where "build_bin opts = (build_tmp opts @ ''/'') @ us \<or> build_bin opts @ us = build_tmp opts @ ''/''"
      unfolding append_eq_append_conv2 by blast
    then have "starts_with (build_bin opts) (build_tmp opts @ ''/'') \<or> starts_with (build_tmp opts @ ''/'') (build_bin opts)"
      unfolding starts_with_iff by metis
    then show False using bin_not_in_tmp by blast
  qed
  then show ?thesis
    using assms(1) bin_not_under_tmp
    by (simp add: install_def exists_remove_all exists_rename_path exists_create_directories)
qed

text \<open>A build that starts without the binary either fails without it or installs it.\<close>

lemma build_engine_fresh:
  assumes "confined run (build_tmp opts)" and "\<not> exists_on (bs_disk s) (build_bin opts)"
    and "build_engine cpu run opts s = (r, s')"
  shows "exists_on (bs_disk s') (build_bin opts) \<longleftrightarrow> r = Inr (Some (build_bin opts))"
    and "r = Inr (Some p) \<Longrightarrow> p = build_bin opts" and "r = Inr (Some p) \<Longrightarrow> build_ran_well cpu run opts"
proof -
  let ?bin = "build_bin opts" and ?tmp = "build_tmp opts"
  let ?src = "path_join ?tmp ''src''" let ?tar = "path_join ?tmp ''src.tar.gz''"
  let ?s0 = "on_disk (\<lambda>d. create_directories ?src (remove_all ?tmp d)) s"
  note keeps = build_step_keeps [OF assms(1) bin_not_under_tmp]
  have s0: "\<not> exists_on (bs_disk ?s0) ?bin"
    using assms(2) bin_not_in_tmp(1) [of opts "''/src''"] ancestor_prefix [of ?bin ?src]
    by (auto simp: exists_create_directories exists_remove_all build_src_eq)
  obtain r1 s1 where b1: "build_step run (fetch_argv ?tar (bo_tarball_url opts)) (step_options 180000 []) ?s0 = (r1, s1)"
    by fastforce
  have s1: "\<not> exists_on (bs_disk s1) ?bin" using keeps [OF b1] s0 by simp
  obtain r2 s2 where b2: "build_step run (unpack_argv ?tar ?src) (step_options 60000 []) s1 = (r2, s2)" by fastforce
  have s2: "\<not> exists_on (bs_disk s2) ?bin" using keeps [OF b2] s1 by simp
  obtain r3 s3 where b3: "build_step run (make_argv cpu (bo_make_args opts) ?src) (step_options 1800000 []) s2 = (r3, s3)"
    by fastforce
  have s3: "\<not> exists_on (bs_disk s3) ?bin" using keeps [OF b3] s2 by simp
  obtain b s4 where bb: "built_binary ?src s3 = (b, s4)" by fastforce
  note in' = built_binary_in [OF bb]
  have s4: "\<not> exists_on (bs_disk s4) ?bin" using s3 in'(1) by simp
  have inst: "exists_on (bs_disk (install (build_dir opts) ?tmp q ?bin s4)) ?bin" if "b = Some q" for q
  proof (rule install_exists)
    show "exists_on (bs_disk s4) q" using in'(1) in'(2) [OF that] by simp
    show "starts_with q (?tmp @ ''/'')"
      using in'(2) [OF that] path_join_name [of "''capizero''" ?src]
      by (auto simp: build_src_eq starts_with_iff)
  qed
  have "(exists_on (bs_disk s') ?bin \<longleftrightarrow> r = Inr (Some ?bin)) \<and> (r = Inr (Some p) \<longrightarrow> p = ?bin)"
    using assms(3) s1 s2 s3 s4 inst unfolding build_engine_def Let_def if_not_P [OF assms(2)]
    by (auto simp: and_then_iff give_def b1 b2 b3 bb split: if_splits option.splits)
  then show "exists_on (bs_disk s') ?bin \<longleftrightarrow> r = Inr (Some ?bin)" "r = Inr (Some p) \<Longrightarrow> p = ?bin"
    by blast+
  show "build_ran_well cpu run opts" if r: "r = Inr (Some p)"
  proof -
    obtain x1 x2 x3 where "r1 = Inr (True, x1)" "r2 = Inr (True, x2)" "r3 = Inr (True, x3)"
      using assms(3) unfolding r build_engine_def Let_def if_not_P [OF assms(2)]
      by (auto simp: and_then_iff give_def b1 b2 b3 split: if_splits)
    with b1 b2 b3 show ?thesis unfolding build_ran_well_def Let_def by (blast intro: build_step_ran)
  qed
qed

section \<open>Property\<close>

text \<open>
  C28: The cache of engines holds finished builds only. When the commands keep to the temporary
  directory they are given, a build ends with the binary in the cache exactly when it reports
  that path, whatever failed, was cancelled or threw on the way; it reports a new binary only
  when download, unpacking and \<^verbatim>\<open>make\<close> have succeeded; and the next build of the same key
  then runs nothing and returns it.
\<close>
theorem cache_holds_finished_builds:
  assumes "confined run (build_tmp opts)" and "build_engine cpu run opts s = (r, s')"
  shows "(exists_on (bs_disk s') (build_bin opts) \<longleftrightarrow> r = Inr (Some (build_bin opts))) \<and>
    (\<forall>p. r = Inr (Some p) \<longrightarrow> p = build_bin opts \<and>
       (exists_on (bs_disk s) p \<or> build_ran_well cpu run opts)) \<and>
    (r = Inr (Some (build_bin opts)) \<longrightarrow>
       build_engine cpu other opts s' =
         (Inr (Some (build_bin opts)), say (''cached build: '' @ build_bin opts @ [newline]) s'))"
proof -
  have again: "build_engine cpu run' opts t =
      (Inr (Some (build_bin opts)), say (''cached build: '' @ build_bin opts @ [newline]) t)"
    if "exists_on (bs_disk t) (build_bin opts)" for t run'
    using that by (simp add: build_engine_def Let_def)
  show ?thesis
  proof (cases "exists_on (bs_disk s) (build_bin opts)")
    case True
    then show ?thesis using again [OF True, of run] again [of s' other] assms(2) by auto
  next
    case False
    show ?thesis using build_engine_fresh [OF assms(1) False assms(2)] again [of s' other] by blast
  qed
qed

text \<open>A \<^verbatim>\<open>make\<close> that leaves a binary; \<^verbatim>\<open>curl\<close> and \<^verbatim>\<open>tar\<close> succeed.\<close>

definition demo_make :: command_runner where
  "demo_make argv opts d =
     ((Inr \<lparr>pr_exit_code = 0, pr_timed_out = False, pr_cancelled = False, pr_output = []\<rparr>, ''0.1''),
      if argv \<noteq> [] \<and> hd argv = ''make'' then d @ [(''w/builds/k.tmp/src/capizero'', PlainFile True)] else d)"

definition demo_build_options :: build_options where
  "demo_build_options = \<lparr>bo_work_dir = ''w'', bo_tarball_url = ''u'', bo_cache_key = ''k'', bo_make_args = []\<rparr>"

lemma demo_build_paths:
  "build_tmp demo_build_options = ''w/builds/k.tmp''" "build_bin demo_build_options = ''w/builds/k/capizero''"
  by code_simp+

theorem cache_holds_finished_builds_witness:
  "\<exists>s'. build_engine CpuArm64 demo_make demo_build_options \<lparr>bs_log = [], bs_disk = []\<rparr>
       = (Inr (Some ''w/builds/k/capizero''), s') \<and> exists_on (bs_disk s') ''w/builds/k/capizero''"
proof -
  have "confined demo_make (build_tmp demo_build_options)"
    by (auto simp: confined_def demo_make_def demo_build_paths exists_on_iff under_def starts_with_def)
  moreover have "fst (build_engine CpuArm64 demo_make demo_build_options \<lparr>bs_log = [], bs_disk = []\<rparr>)
      = Inr (Some ''w/builds/k/capizero'')"
  proof -
    have src: "path_join ''w/builds/k.tmp'' ''src'' = ''w/builds/k.tmp/src''"
      "path_join ''w/builds/k.tmp/src'' ''capizero'' = ''w/builds/k.tmp/src/capizero''"
      by code_simp+
    have step: "build_step demo_make argv o' s = (Inr (True, \<lparr>pr_exit_code = 0, pr_timed_out = False,
        pr_cancelled = False, pr_output = []\<rparr>), say (step_line argv ''0.1'' \<lparr>pr_exit_code = 0, pr_timed_out = False,
        pr_cancelled = False, pr_output = []\<rparr>) (s\<lparr>bs_disk := snd (demo_make argv o' (bs_disk s))\<rparr>))" for argv o' s
      by (simp add: build_step_def demo_make_def succeeded_def Let_def)
    show ?thesis
      by (simp add: build_engine_def demo_build_paths and_then_def step built_binary_def src Let_def
          fetch_argv_def unpack_argv_def make_argv_def demo_make_def exists_on_def)
  qed
  ultimately show ?thesis
    using cache_holds_finished_builds [of demo_make demo_build_options CpuArm64 "\<lparr>bs_log = [], bs_disk = []\<rparr>"]
    by (metis demo_build_paths(2) prod.collapse)
qed

end
