(* ===== verification/FastchessSetup.thy ===== *)
theory FastchessSetup
  imports EngineBuild
begin

text \<open>
  client/fastchess_setup.hpp and client/fastchess_setup.cpp: the fastchess binary of a client,
  configured or built once in a fixed version. The disk and the commands are the ones of the
  engine builds; \<open>concurrency\<close> is \<^verbatim>\<open>std::thread::hardware_concurrency()\<close>.
\<close>

definition kFastchessTag :: string where
  "kFastchessTag = ''v1.8.2-alpha''"

record fastchess_info =
  fi_path :: string
  fi_version :: string

definition fastchess_tarball_url :: "string \<Rightarrow> string" where
  "fastchess_tarball_url t = ''https://codeload.github.com/Disservin/fastchess/tar.gz/refs/tags/'' @ t"

text \<open>The first line of what \<^verbatim>\<open>-version\<close> prints, without trailing blanks.\<close>

definition first_line :: "string \<Rightarrow> string" where
  "first_line out = strip_back (\<lambda>c. c = carriage_return \<or> c = CHR '' '') (takeWhile (\<lambda>c. c \<noteq> newline) out)"

definition codigo :: string where
  "codigo = ''c'' @ [CHR 0xC3, CHR 0xB3] @ ''digo ''"

definition probe_version :: "command_runner \<Rightarrow> string \<Rightarrow> string option building" where
  "probe_version run bin s =
     (case run [bin, ''-version''] ((step_options 10000 [])\<lparr>po_has_cancel := False\<rparr>) (bs_disk s) of
        ((Inl e, _), d) \<Rightarrow> (Inl e, s\<lparr>bs_disk := d\<rparr>)
      | ((Inr r, _), d) \<Rightarrow>
          if pr_exit_code r \<noteq> 0
          then (Inr None, say (bin @ '' -version falhou ('' @ codigo @ show_int (pr_exit_code r) @ ''): '' @
                  tail_lines (pr_output r) 3 @ [newline]) (s\<lparr>bs_disk := d\<rparr>))
          else (Inr (Some (first_line (pr_output r))), s\<lparr>bs_disk := d\<rparr>))"

definition fastchess_step :: "command_runner \<Rightarrow> string list \<Rightarrow> process_options \<Rightarrow> bool building" where
  "fastchess_step run argv opts s =
     (case run argv opts (bs_disk s) of
        ((Inl e, _), d) \<Rightarrow> (Inl e, s\<lparr>bs_disk := d\<rparr>)
      | ((Inr r, _), d) \<Rightarrow>
          let s = say (''$ '' @ join_with '' '' argv @ ''  -> '' @
                    (if pr_cancelled r then ''cancelled'' else if pr_timed_out r then ''TIMEOUT''
                     else ''exit '' @ show_int (pr_exit_code r)) @ [newline]) (s\<lparr>bs_disk := d\<rparr>);
              s = (if \<not> succeeded r \<and> \<not> pr_cancelled r
                   then say (tail_lines (pr_output r) 20 @ [newline]) s else s)
          in (Inr (succeeded r), s))"

definition tools_dir :: "string \<Rightarrow> string" where
  "tools_dir work_dir = path_join (path_join work_dir ''tools'') (''fastchess-'' @ kFastchessTag)"

definition tools_bin :: "string \<Rightarrow> string" where
  "tools_bin work_dir = path_join (tools_dir work_dir) ''fastchess''"

definition tools_tmp :: "string \<Rightarrow> string" where
  "tools_tmp work_dir = path_join (path_join work_dir ''tools'') (''fastchess-'' @ kFastchessTag @ ''.tmp'')"

definition fastchess_jobs :: "nat \<Rightarrow> nat" where
  "fastchess_jobs concurrency = max 1 (min 2 (concurrency div 2))"

text \<open>Download, build and install; then the version of what has been built.\<close>

definition compile_fastchess :: "nat \<Rightarrow> command_runner \<Rightarrow> string \<Rightarrow> fastchess_info option building" where
  "compile_fastchess concurrency run work_dir s =
     (let dir = tools_dir work_dir; bin = tools_bin work_dir; tmp = tools_tmp work_dir;
          src = path_join tmp ''src''; tarball = path_join tmp ''src.tar.gz''; built = path_join src ''fastchess''
      in and_then (fastchess_step run (fetch_argv tarball (fastchess_tarball_url kFastchessTag)) (step_options 180000 [])) (\<lambda>ok.
           if \<not> ok then give None else
         and_then (fastchess_step run (unpack_argv tarball src) (step_options 60000 [])) (\<lambda>ok.
           if \<not> ok then give None else
         and_then (fastchess_step run [''make'', ''-C'', src, ''-j'' @ show_nat (fastchess_jobs concurrency)]
                     (step_options 3600000 [])) (\<lambda>ok s.
           if \<not> ok then (Inr None, s)
           else if \<not> exists_on (bs_disk s) built
           then (Inr None, say (''make terminou mas n'' @ [CHR 0xC3, CHR 0xA3] @ ''o gerou '' @ built @ [newline]) s)
           else
             and_then (probe_version run bin) (\<lambda>v.
               case v of
                 None \<Rightarrow> give None
               | Some v \<Rightarrow> (\<lambda>s. (Inr (Some \<lparr>fi_path = bin, fi_version = v\<rparr>),
                               say (''compilado '' @ bin @ '' ('' @ v @ '')'' @ [newline]) s)))
               (install dir tmp built bin s))))
         (on_disk (\<lambda>d. create_directories src (remove_all tmp d)) s))"

definition ensure_fastchess :: "nat \<Rightarrow> command_runner \<Rightarrow> string \<Rightarrow> string \<Rightarrow> fastchess_info option building" where
  "ensure_fastchess concurrency run configured work_dir s =
     (let bin = tools_bin work_dir
      in if configured \<noteq> []
         then and_then (probe_version run configured) (\<lambda>v.
                give (map_option (\<lambda>v. \<lparr>fi_path = configured, fi_version = v\<rparr>) v)) s
         else if exists_on (bs_disk s) bin
         then and_then (probe_version run bin) (\<lambda>v.
                case v of
                  Some v \<Rightarrow> give (Some \<lparr>fi_path = bin, fi_version = v\<rparr>)
                | None \<Rightarrow>
                    (\<lambda>s. compile_fastchess concurrency run work_dir
                           (on_disk (remove_all (tools_dir work_dir))
                              (say (''bin'' @ [CHR 0xC3, CHR 0xA1] @ ''rio em cache inv'' @ [CHR 0xC3, CHR 0xA1] @
                                 ''lido; recompilando'' @ [newline]) s)))) s
         else compile_fastchess concurrency run work_dir s)"

section \<open>Lemmas\<close>

text \<open>Whatever is returned has answered \<^verbatim>\<open>-version\<close> with success.\<close>

definition answers_version :: "command_runner \<Rightarrow> fastchess_info \<Rightarrow> bool" where
  "answers_version run fi \<longleftrightarrow>
     (\<exists>opts d r secs d'. run [fi_path fi, ''-version''] opts d = ((Inr r, secs), d') \<and> pr_exit_code r = 0 \<and>
        fi_version fi = first_line (pr_output r))"

lemma probe_version_Some:
  assumes "probe_version run bin s = (Inr (Some v), s')"
  shows "answers_version run \<lparr>fi_path = bin, fi_version = v\<rparr>"
  using assms unfolding probe_version_def answers_version_def
  by (fastforce split: prod.splits sum.splits if_splits)

lemma compile_fastchess_answers:
  "compile_fastchess n run work_dir s = (Inr (Some fi), s') \<Longrightarrow>
     answers_version run fi \<and> fi_path fi = tools_bin work_dir"
  unfolding compile_fastchess_def Let_def
  by (auto simp: and_then_iff give_def dest!: probe_version_Some split: if_splits option.splits)

lemma ensure_fastchess_answers:
  "ensure_fastchess n run configured work_dir s = (Inr (Some fi), s') \<Longrightarrow>
     answers_version run fi \<and> fi_path fi = (if configured = [] then tools_bin work_dir else configured)"
  unfolding ensure_fastchess_def Let_def
  by (auto simp: and_then_iff give_def dest!: probe_version_Some compile_fastchess_answers
      split: if_splits option.splits)

end
