(* ===== verification/Gzip.thy ===== *)
theory Gzip
  imports Prelude
begin

text \<open>
  server/gzip.hpp and server/gzip.cpp: the loops around zlib. What the library answers is a
  parameter: whether the initialisation succeeds, and for each call its status, the bytes it
  has put into the buffer and, for \<^verbatim>\<open>inflate\<close>, whether input and room in the buffer are left.
  \<^const>\<open>None\<close>: the loop has not ended within the calls given.
\<close>

datatype z_status = ZOk | ZStreamEnd | ZStreamError | ZDataError | ZBufError | ZOther

section \<open>Compression\<close>

record deflate_call =
  dc_status :: z_status
  dc_out :: string

fun deflate_loop :: "deflate_call list \<Rightarrow> string \<Rightarrow> string result option" where
  "deflate_loop [] out = None"
| "deflate_loop (c # cs) out =
     (if dc_status c = ZStreamError then Some (Inl (RuntimeError ''deflate failed''))
      else if dc_status c = ZStreamEnd then Some (Inr (out @ dc_out c))
      else deflate_loop cs (out @ dc_out c))"

definition gzip_compress :: "bool \<Rightarrow> deflate_call list \<Rightarrow> string result option" where
  "gzip_compress init_ok calls =
     (if \<not> init_ok then Some (Inl (RuntimeError ''deflateInit2 failed'')) else deflate_loop calls [])"

section \<open>Decompression\<close>

record inflate_call =
  ic_status :: z_status
  ic_out :: string
  ic_input_left :: bool
  ic_room_left :: bool

fun inflate_loop :: "inflate_call list \<Rightarrow> string \<Rightarrow> string result option" where
  "inflate_loop [] out = None"
| "inflate_loop (c # cs) out =
     (if ic_status c \<noteq> ZOk \<and> ic_status c \<noteq> ZStreamEnd then Some (Inl (RuntimeError ''invalid gzip data''))
      else if ic_status c = ZOk \<and> \<not> ic_input_left c \<and> ic_room_left c
      then Some (Inl (RuntimeError ''truncated gzip data''))
      else if ic_status c = ZStreamEnd then Some (Inr (out @ ic_out c))
      else inflate_loop cs (out @ ic_out c))"

definition gzip_decompress :: "bool \<Rightarrow> inflate_call list \<Rightarrow> string result option" where
  "gzip_decompress init_ok calls =
     (if \<not> init_ok then Some (Inl (RuntimeError ''inflateInit2 failed'')) else inflate_loop calls [])"

section \<open>Lemmas\<close>

text \<open>
  \<^verbatim>\<open>deflate\<close> with \<^verbatim>\<open>Z_FINISH\<close> and room in its buffer answers \<^verbatim>\<open>Z_OK\<close> until it has
  written everything, then \<^verbatim>\<open>Z_STREAM_END\<close>: the result is all that it has written.
\<close>

lemma deflate_loop_all:
  "\<forall>c \<in> set cs. dc_status c = ZOk \<Longrightarrow> dc_status e = ZStreamEnd \<Longrightarrow>
     deflate_loop (cs @ e # rest) out = Some (Inr (out @ concat (map dc_out cs) @ dc_out e))"
  by (induction cs arbitrary: out) simp_all

lemma inflate_loop_all:
  "\<forall>c \<in> set cs. ic_status c = ZOk \<and> (ic_input_left c \<or> \<not> ic_room_left c) \<Longrightarrow> ic_status e = ZStreamEnd \<Longrightarrow>
     inflate_loop (cs @ e # rest) out = Some (Inr (out @ concat (map ic_out cs) @ ic_out e))"
  by (induction cs arbitrary: out) auto

text \<open>Data that end before the stream does are an error, never a shorter text.\<close>

lemma inflate_loop_truncated:
  "\<forall>c \<in> set cs. ic_status c = ZOk \<and> (ic_input_left c \<or> \<not> ic_room_left c) \<Longrightarrow>
     ic_status e \<noteq> ZStreamEnd \<Longrightarrow> (ic_status e = ZOk \<longrightarrow> \<not> ic_input_left e \<and> ic_room_left e) \<Longrightarrow>
     \<exists>m. inflate_loop (cs @ e # rest) out = Some (Inl (RuntimeError m))"
  by (induction cs arbitrary: out) auto

end
