(* ===== verification/ClientMain.thy ===== *)
theory ClientMain
  imports Topology FastchessSetup RunnerLoop Protocol
begin

text \<open>
  client/main.cpp: the client's process from the command line to its exit status. Parameters:
  the topology, the host's name, what the probe of a core finds, the outcome of
  \<^verbatim>\<open>ensure_fastchess\<close> and of the runner, and the replies to the registration with the stop
  flag as the loop sees it. What it prints, the signal thread and the sleeps are not modelled.
\<close>

section \<open>Names and bodies\<close>

definition client_name :: "client_config \<Rightarrow> string \<Rightarrow> int \<Rightarrow> string" where
  "client_name cfg hostname slots =
     (if cc_name cfg = [] then hostname @ ''-'' @ show_int slots @ ''slots'' else cc_name cfg)"

definition registration_info ::
  "client_config \<Rightarrow> string \<Rightarrow> topology \<Rightarrow> string \<Rightarrow> int \<Rightarrow> admission \<Rightarrow> string \<Rightarrow> json" where
  "registration_info cfg hostname topo arch slots adm version =
     JObject [(''name'', JString (client_name cfg hostname slots)), (''hostname'', JString hostname),
       (''os'', JString (tp_os topo)), (''cpu_model'', JString (tp_cpu_model topo)),
       (''arch_target'', JString arch), (''pinning_mode'', JString (ad_pinning_mode adm)),
       (''core_topology'', JString (ad_core_topology adm)), (''nproc'', JInt (tp_nproc topo)),
       (''slots'', JInt slots), (''fastchess_version'', JString version)]"

definition slot_infos :: "int \<Rightarrow> admission \<Rightarrow> slot_info list" where
  "slot_infos slots adm =
     map (\<lambda>i. \<lparr>si_index = int i,
              si_core = (if ad_cores adm = [] then None else Some (ad_cores adm ! i))\<rparr>) [0..<nat slots]"

section \<open>Registration\<close>

record registration_attempt =
  ra_stop :: bool
  ra_reply :: http_reply

datatype registration = Registered int | RegistrationRefused | RegistrationStopped

text \<open>\<^const>\<open>None\<close>: not ended within the attempts given.\<close>

fun register_attempts :: "(json \<Rightarrow> string) \<Rightarrow> json \<Rightarrow> registration_attempt list \<Rightarrow> registration option" where
  "register_attempts dump info [] = None"
| "register_attempts dump info (a # attempts) =
     (if ra_stop a then Some RegistrationStopped
      else case api_register dump info (ra_reply a) of
        Inr client \<Rightarrow> Some (Registered client)
      | Inl (TransientErr _) \<Rightarrow> register_attempts dump info attempts
      | Inl _ \<Rightarrow> Some RegistrationRefused)"

section \<open>The process\<close>

text \<open>Admission: the exit status of a refusal, or the number of slots and the admission.\<close>

definition admit_host :: "client_config \<Rightarrow> topology \<Rightarrow> bool \<Rightarrow> (int \<Rightarrow> bool) \<Rightarrow> int + int \<times> admission" where
  "admit_host cfg topo linux probe =
     (let slots = (case cc_slots cfg of None \<Rightarrow> default_slots topo | Some n \<Rightarrow> n);
          adm = decide_admission topo slots (cc_cores cfg)
      in if \<not> ad_ok adm then Inl 3
         else if ad_pinning_mode adm = ''pinned'' \<and> verify_pinning linux probe (ad_cores adm) \<noteq> None then Inl 3
         else if cc_check cfg then Inl 0
         else Inr (slots, adm))"

record process_world =
  pw_topology :: topology
  pw_linux :: bool
  pw_probe :: "int \<Rightarrow> bool"
  pw_hostname :: string
  pw_arch :: string
  pw_fastchess :: "fastchess_info option"
  pw_stop_after_fastchess :: bool
  pw_attempts :: "registration_attempt list"
  pw_stop_after_registration :: bool
  pw_banned :: bool

text \<open>What the process leaves: its exit status, and the client and the slots it has run with.\<close>

record client_run =
  cr_exit :: int
  cr_ran :: "(int \<times> slot_info list) option"

definition leave :: "int \<Rightarrow> client_run" where
  "leave rc = \<lparr>cr_exit = rc, cr_ran = None\<rparr>"

definition client_main :: "(json \<Rightarrow> string) \<Rightarrow> client_config result \<Rightarrow> process_world \<Rightarrow> client_run option" where
  "client_main dump config w =
     (case config of
        Inl (ConfigErr m) \<Rightarrow> Some (leave (if m = kClientUsage then 0 else 2))
      | Inl _ \<Rightarrow> None
      | Inr cfg \<Rightarrow>
          (case admit_host cfg (pw_topology w) (pw_linux w) (pw_probe w) of
             Inl rc \<Rightarrow> Some (leave rc)
           | Inr (slots, adm) \<Rightarrow>
               (case pw_fastchess w of
                  None \<Rightarrow> Some (leave (if pw_stop_after_fastchess w then 0 else 2))
                | Some fc \<Rightarrow>
                    (case register_attempts dump
                            (registration_info cfg (pw_hostname w) (pw_topology w) (pw_arch w) slots adm
                               (fi_version fc)) (pw_attempts w) of
                       None \<Rightarrow> None
                     | Some RegistrationRefused \<Rightarrow> Some (leave 4)
                     | Some RegistrationStopped \<Rightarrow> Some (leave 0)
                     | Some (Registered client) \<Rightarrow>
                         if pw_stop_after_registration w then Some (leave 0)
                         else Some \<lparr>cr_exit = (if pw_banned w then 4 else 0),
                                    cr_ran = Some (client, slot_infos slots adm)\<rparr>))))"

section \<open>Lemmas\<close>

lemma client_name_nonempty: "client_name cfg hostname slots \<noteq> []"
  by (simp add: client_name_def)

lemma admitted_mode:
  "ad_ok (decide_admission t slots requested) \<Longrightarrow>
     1 \<le> slots \<and> ad_pinning_mode (decide_admission t slots requested) \<in> set kPinningModes"
  by (cases requested)
    (auto simp: decide_admission_def admit_unpinned_def refuse_def admit_def Let_def kPinningModes_def
      split: if_splits sum.splits)

text \<open>What the server reads in the registration of a client.\<close>

definition registration_read ::
  "client_config \<Rightarrow> string \<Rightarrow> topology \<Rightarrow> string \<Rightarrow> int \<Rightarrow> admission \<Rightarrow> string \<Rightarrow> client_registration" where
  "registration_read cfg hostname topo arch slots adm version =
     \<lparr>rg_name = client_name cfg hostname slots, rg_hostname = Some hostname, rg_os = Some (tp_os topo),
      rg_cpu_model = Some (tp_cpu_model topo), rg_cpu_arch_target = Some arch,
      rg_pinning_mode = ad_pinning_mode adm, rg_core_topology = Some (ad_core_topology adm),
      rg_bench_ref_commit = None, rg_fastchess_version = Some version,
      rg_nproc_total = Some (tp_nproc topo), rg_slots = slots\<rparr>"

lemma req_int_small: "json_member j k = Some (JInt n) \<Longrightarrow> m \<le> n \<Longrightarrow> 1 \<le> n \<Longrightarrow> n \<le> INT32_MAX \<Longrightarrow> req_int j k m = Inr n"
  by (simp add: req_int_def req_int64_def field_def INT32_MAX_def int64_of_json_id in_int_range_def)

lemma registration_parses:
  assumes "1 \<le> slots" "slots \<le> INT32_MAX" "1 \<le> tp_nproc topo" "tp_nproc topo \<le> INT32_MAX"
    and "ad_pinning_mode adm \<in> set kPinningModes"
  shows "parse_registration (registration_info cfg hostname topo arch slots adm version)
    = Inr (registration_read cfg hostname topo arch slots adm version)"
  using assms client_name_nonempty [of cfg hostname slots]
  by (simp add: parse_registration_def registration_info_def registration_read_def read_string opt_string_def
      opt_field_def guardE_def read_enum opt_int_def req_int_small req_string_def field_def req_enum_def
      del: bindE_eq_Inr_iff)

lemma registration_stores:
  "ad_pinning_mode adm \<in> set kPinningModes \<Longrightarrow>
     \<exists>c db'. register_client now (registration_read cfg hostname topo arch slots adm version) db = Inr (c, db')"
  by (auto simp: register_client_def registration_read_def kPinningModes_def pinning_of_text_def sql_enum_def
      split: option.splits)

section \<open>Property\<close>

text \<open>
  C29: A client whose host is admitted can register. What it sends is understood by the server
  field by field, the server stores it, and the client reads in the answer the id of its row,
  or that it is banned; it is never refused for its registration's form.
\<close>
theorem admitted_client_registers:
  fixes dump and db :: db and cfg :: client_config and hostname arch version :: string
  assumes "ad_ok (decide_admission topo slots requested)" and "slots \<le> INT32_MAX"
    and "1 \<le> tp_nproc topo" and "tp_nproc topo \<le> INT32_MAX"
  defines "info \<equiv> registration_info cfg hostname topo arch slots (decide_admission topo slots requested) version"
  shows "\<exists>c db'. register_client now
        (registration_read cfg hostname topo arch slots (decide_admission topo slots requested) version) db = Inr (c, db') \<and>
      snd (post_register (Inr ()) now (Some info) db) = db' \<and>
      api_register dump info (reply_of (fst (post_register (Inr ()) now (Some info) db))) =
        (if rc_banned c then Inl (ProtocolErr ''client banido pelo server'') else Inr (wrap_int 64 (rc_client_id c)))"
proof -
  have m: "1 \<le> slots" "ad_pinning_mode (decide_admission topo slots requested) \<in> set kPinningModes"
    using admitted_mode [OF assms(1)] by simp_all
  have p: "parse_registration info
      = Inr (registration_read cfg hostname topo arch slots (decide_admission topo slots requested) version)"
    unfolding info_def by (rule registration_parses [OF m(1) assms(2-4) m(2)])
  obtain c db' where r: "register_client now
      (registration_read cfg hostname topo arch slots (decide_admission topo slots requested) version) db = Inr (c, db')"
    using registration_stores [OF m(2)] by blast
  have "is_object info" by (simp add: info_def registration_info_def)
  then have "post_register (Inr ()) now (Some info) db =
      (if rc_banned c then send_json 403 (JObject [(''error'', JString ''client_banned''), (''client_id'', JInt (rc_client_id c))])
       else send_json 200 (JObject [(''client_id'', JInt (rc_client_id c))]), db')"
    by (simp add: post_register_def guarded_def parse_body_def p r del: bindE_eq_Inr_iff)
  then show ?thesis
    using r by (simp add: api_register_def api_request_def register_call_def at_as_def json_at_def del: bindE_eq_Inr_iff)
qed

theorem admitted_client_registers_witness:
  "\<exists>c db'. register_client 0
        (registration_read default_client_config ''pi'' (empty_topology\<lparr>tp_nproc := 4, tp_fast_cores := [0, 1]\<rparr>)
          ''armv8'' 1 (decide_admission (empty_topology\<lparr>tp_nproc := 4, tp_fast_cores := [0, 1]\<rparr>) 1 None) ''v1'')
        empty_db = Inr (c, db') \<and> length (db_clients db') = 1"
proof -
  let ?t = "empty_topology\<lparr>tp_nproc := 4, tp_fast_cores := [0, 1]\<rparr>"
  have ok: "ad_ok (decide_admission ?t 1 None)"
    by (simp add: decide_admission_def admit_unpinned_def empty_topology_def fast_count_def admit_def)
  have n: "1 \<le> tp_nproc ?t" "tp_nproc ?t \<le> INT32_MAX" "1 \<le> INT32_MAX"
    by (simp_all add: empty_topology_def INT32_MAX_def)
  from admitted_client_registers [OF ok n(3) n(1,2), of 0 default_client_config "''pi''" "''armv8''" "''v1''" empty_db "\<lambda>_. []"]
  obtain c db' where r: "register_client 0
      (registration_read default_client_config ''pi'' ?t ''armv8'' 1 (decide_admission ?t 1 None) ''v1'') empty_db = Inr (c, db')"
    by blast
  then have "length (db_clients db') = 1" by (auto simp: register_client_def empty_db_def)
  with r show ?thesis by blast
qed

end
