(* ===== verification/Workers.thy ===== *)
theory Workers
  imports HttpServer Scenario Pool
begin

text \<open>
  The background threads of the server and its process: the maintenance of server/main.cpp,
  the thread of server/smoke.cpp and \<^verbatim>\<open>main\<close>. What happens to the database between the two
  transactions of a pass is a parameter (\<open>others\<close>); the waits, signals and log lines are not
  modelled.
\<close>

section \<open>Maintenance\<close>

definition kRequiredSchemaVersion :: int where
  "kRequiredSchemaVersion = 5"

text \<open>Two transactions: an exception of the first leaves the database as it is.\<close>

definition maintenance_tick ::
  "(int \<Rightarrow> bool) \<Rightarrow> real \<Rightarrow> server_config \<Rightarrow> db \<Rightarrow> (lease_recovery \<times> int option) result \<times> db" where
  "maintenance_tick locked now cfg db =
     (case recover_expired_leases locked now (max_attempts cfg) db of
        Inl e \<Rightarrow> (Inl e, db)
      | Inr (rec, db) \<Rightarrow> (case promote_next_test now db of (promoted, db) \<Rightarrow> (Inr (rec, promoted), db)))"

record tick_input =
  ti_stop :: bool
  ti_locked :: "int \<Rightarrow> bool"
  ti_now :: real
  ti_others :: "db \<Rightarrow> db"

fun maintenance_loop :: "server_config \<Rightarrow> tick_input list \<Rightarrow> db \<Rightarrow> db" where
  "maintenance_loop cfg [] db = db"
| "maintenance_loop cfg (t # ts) db =
     (if ti_stop t then db
      else maintenance_loop cfg ts (snd (maintenance_tick (ti_locked t) (ti_now t) cfg (ti_others t db))))"

section \<open>The smoke worker\<close>

record smoke_pass =
  sp_stop :: bool
  sp_stopped_in_pass :: bool
  sp_read :: "unit result"
  sp_conn :: "unit result"
  sp_text :: "string \<Rightarrow> bool"
  sp_now :: real
  sp_dispatch :: "int \<Rightarrow> real"
  sp_others :: "db \<Rightarrow> db"

text \<open>
  Postgres refuses a text that is not valid in the database's encoding: \<open>sp_text\<close> tells which
  texts it takes. A pass sends it the validation log (with the output of compilers and engines)
  and, after a success, the sampled positions.
\<close>

definition smoke_texts :: "smoke_verdict \<Rightarrow> string list" where
  "smoke_texts v =
     (if sm_ok v then sm_positions v @ [sm_log v @ ''SMOKE TEST PASSED'' @ [newline]]
      else [sm_log v @ ''SMOKE TEST FAILED'' @ [newline]])"

text \<open>The last transaction with the texts it sends; a refused one ends it with an exception.\<close>

definition smoke_store :: "smoke_pass \<Rightarrow> int \<Rightarrow> smoke_verdict \<Rightarrow> db \<Rightarrow> (int option option \<times> db) result" where
  "smoke_store p test v db =
     (if map_option t_status (find_test db test) = Some Validating \<and> \<not> list_all (sp_text p) (smoke_texts v)
      then Inl (SqlError ''invalid byte sequence for encoding'')
      else smoke_commit (sp_now p) test (sp_dispatch p) v db)"

text \<open>
  \<^verbatim>\<open>process_next\<close>: whether there was a test to settle, or the exception, and the database.
  \<open>sp_read\<close> and \<open>sp_conn\<close> are the outcomes of taking a connection for the first and the
  second transaction.
\<close>

definition process_next ::
  "server_config \<Rightarrow> file_system \<Rightarrow> builder \<Rightarrow> smoke_pass \<Rightarrow> db \<Rightarrow> bool result \<times> db" where
  "process_next cfg fs build p db =
     (case bindE (sp_read p) (\<lambda>_. Inr (smoke_pick db)) of
        Inl e \<Rightarrow> (Inl e, db)
      | Inr None \<Rightarrow> (Inr False, db)
      | Inr (Some t) \<Rightarrow>
          let v = smoke_test cfg fs build t; db = sp_others p db
          in if sp_stopped_in_pass p then (Inr False, db)
             else case bindE (sp_conn p) (\<lambda>_. smoke_store p (t_id t) v db) of
               Inl e \<Rightarrow> (Inl e, db)
             | Inr (_, db) \<Rightarrow> (Inr True, db))"

text \<open>
  The inner loop of \<^verbatim>\<open>run\<close>, after each wake-up: \<^verbatim>\<open>while (!stop_ && process_next())\<close>, until
  the thread waits again. \<^const>\<open>None\<close>: not within the passes given.
\<close>

fun smoke_turn ::
  "server_config \<Rightarrow> file_system \<Rightarrow> builder \<Rightarrow> smoke_pass list \<Rightarrow> db \<Rightarrow> unit result option \<times> db" where
  "smoke_turn cfg fs build [] db = (None, db)"
| "smoke_turn cfg fs build (p # ps) db =
     (if sp_stop p then (Some (Inr ()), db)
      else case process_next cfg fs build p db of
        (Inl e, db) \<Rightarrow> (Some (Inl e), db)
      | (Inr False, db) \<Rightarrow> (Some (Inr ()), db)
      | (Inr True, db) \<Rightarrow> smoke_turn cfg fs build ps db)"

text \<open>
  \<^verbatim>\<open>run\<close>: one turn after each wake-up until the stop flag is set; a turn that throws is logged
  and the thread goes on. Between the turns others may change the database.
\<close>

record smoke_wake =
  sw_stop :: bool
  sw_others :: "db \<Rightarrow> db"
  sw_passes :: "smoke_pass list"

fun smoke_thread :: "server_config \<Rightarrow> file_system \<Rightarrow> builder \<Rightarrow> smoke_wake list \<Rightarrow> db \<Rightarrow> db" where
  "smoke_thread cfg fs build [] db = db"
| "smoke_thread cfg fs build (w # ws) db =
     (if sw_stop w then db
      else smoke_thread cfg fs build ws (snd (smoke_turn cfg fs build (sw_passes w) (sw_others w db))))"

section \<open>The process\<close>

text \<open>
  \<^verbatim>\<open>main\<close>: its exit status, the pool it has made, and the configuration with which the smoke
  worker, the handlers and the maintenance have run. Parameters: the outcome of the first
  connection and its query for the schema's version; whether the listener could be started and
  whether a signal has ended it.
\<close>

record server_process =
  sv_exit :: int
  sv_pool :: "pool option"
  sv_served :: "server_config option"

definition server_main ::
  "environment \<Rightarrow> (server_config \<Rightarrow> int result) \<Rightarrow> (server_config \<Rightarrow> bool) \<Rightarrow> bool \<Rightarrow> server_process" where
  "server_main e schema listening signalled =
     (case load_config_from_env e of
        Inl _ \<Rightarrow> \<lparr>sv_exit = 2, sv_pool = None, sv_served = None\<rparr>
      | Inr cfg \<Rightarrow>
          let p = Some (new_pool (nat (db_pool_size cfg)))
          in case schema cfg of
               Inl _ \<Rightarrow> \<lparr>sv_exit = 1, sv_pool = p, sv_served = None\<rparr>
             | Inr v \<Rightarrow>
                 if v < kRequiredSchemaVersion then \<lparr>sv_exit = 1, sv_pool = p, sv_served = None\<rparr>
                 else \<lparr>sv_exit = (if \<not> listening cfg \<and> \<not> signalled then 1 else 0), sv_pool = p,
                       sv_served = Some cfg\<rparr>)"

text \<open>The server serves only on a schema it knows, with room for a connection and a positive number of attempts.\<close>

lemma env_int_least: "env_int e k fallback m = Inr v \<Longrightarrow> m \<le> fallback \<Longrightarrow> m \<le> v"
  by (auto simp: env_int_def Let_def split: option.splits prod.splits if_splits)

lemma load_config_least:
  assumes "load_config_from_env e = Inr cfg"
  shows "1 \<le> db_pool_size cfg \<and> 1 \<le> max_attempts cfg \<and> 1 \<le> lease_ttl_min cfg"
proof -
  from assms obtain depth port p ttl attempts interval where
    n: "env_int e ''CAPI_DB_POOL_SIZE'' (db_pool_size default_config) 1 = Inr p"
      "env_int e ''CAPI_LEASE_TTL_MIN_S'' (lease_ttl_min default_config) 1 = Inr ttl"
      "env_int e ''CAPI_MAX_ATTEMPTS'' (max_attempts default_config) 1 = Inr attempts" and
    f: "db_pool_size cfg = p" "lease_ttl_min cfg = ttl" "max_attempts cfg = attempts"
    unfolding load_config_from_env_def Let_def bindE_eq_Inr_iff by auto
  from n [THEN env_int_least] f show ?thesis by (simp add: default_config_def)
qed

lemma server_main_serves:
  assumes "sv_served (server_main e schema listening signalled) = Some cfg"
  shows "load_config_from_env e = Inr cfg \<and> (\<exists>v \<ge> kRequiredSchemaVersion. schema cfg = Inr v) \<and>
    (\<exists>limit > 0. sv_pool (server_main e schema listening signalled) = Some (new_pool limit)) \<and> 1 \<le> max_attempts cfg"
proof -
  have c: "load_config_from_env e = Inr cfg" and v: "\<exists>v \<ge> kRequiredSchemaVersion. schema cfg = Inr v"
    and p: "sv_pool (server_main e schema listening signalled) = Some (new_pool (nat (db_pool_size cfg)))"
    using assms by (auto simp: server_main_def Let_def split: sum.splits if_splits)
  from load_config_least [OF c] have "0 < nat (db_pool_size cfg)" "1 \<le> max_attempts cfg" by simp_all
  with c v p show ?thesis by blast
qed

section \<open>The threads perform transactions\<close>

lemma maintenance_tick_steps:
  "maintenance_tick locked now cfg db = (r, db') \<Longrightarrow> server_run cfg fs build gzip db db' \<or> db' = db"
proof (cases "recover_expired_leases locked now (max_attempts cfg) db")
  case (Inl e)
  then show "maintenance_tick locked now cfg db = (r, db') \<Longrightarrow> ?thesis" by (simp add: maintenance_tick_def)
next
  case (Inr a)
  obtain rec d where a: "a = (rec, d)" by fastforce
  have "server_step cfg fs build gzip db d" using Inr a by (auto intro: server_step.intros)
  moreover have "server_step cfg fs build gzip d (snd (promote_next_test now d))"
    by (rule server_step.intros) (rule prod.collapse [symmetric])
  ultimately have "server_run cfg fs build gzip db (snd (promote_next_test now d))" by simp
  then show "maintenance_tick locked now cfg db = (r, db') \<Longrightarrow> ?thesis"
    using Inr a by (auto simp: maintenance_tick_def case_prod_beta)
qed

text \<open>
  The smoke worker judges the row it has read in its first transaction; what it reads of it is
  frozen, so its verdict is that of the row there is when it stores it.
\<close>

lemma frozen_run:
  assumes "db_inv db" "server_run cfg fs build gzip db db'" "t \<in> set (db_tests db)"
  obtains u where "u \<in> set (db_tests db')" "t_id u = t_id t" "frozen u = frozen t"
proof -
  note inv = assms(1) run_inv [OF assms(1,2)]
  have v: "test_view db (t_id t) = Some (status_of t)"
    using assms(3) test_view_row [OF db_invD(2) [OF inv(1)]] by blast
  obtain w where w: "test_view db' (t_id t) = Some w" "test_edge\<^sup>*\<^sup>* (status_of t) w"
    using test_life.run_moves [OF assms(2) inv(1) v] by blast
  obtain u where u: "u \<in> set (db_tests db')" "t_id u = t_id t" "status_of u = w"
    using w(1) test_view_row [OF db_invD(2) [OF inv(2)]] by blast
  then show thesis using that test_edge_params [OF w(2)] by (auto simp: status_of_def)
qed

lemma smoke_test_frozen: "frozen t = frozen u \<Longrightarrow> smoke_test cfg fs build t = smoke_test cfg fs build u"
proof -
  have "smoke_test cfg fs build (frozen t) = smoke_test cfg fs build t" for t
  proof -
    have p: "t_candidate_commit (frozen t) = t_candidate_commit t" "t_baseline_commit (frozen t) = t_baseline_commit t"
      "t_book_name (frozen t) = t_book_name t" "t_total_pairs (frozen t) = t_total_pairs t" "t_id (frozen t) = t_id t"
      by (simp_all add: frozen_def)
    show ?thesis unfolding smoke_test_def p ..
  qed
  then show "frozen t = frozen u \<Longrightarrow> ?thesis" by metis
qed

lemma process_next_steps:
  assumes "db_inv db" and others: "server_run cfg fs build gzip db (sp_others p db)"
  shows "server_run cfg fs build gzip db (snd (process_next cfg fs build p db))"
proof (cases "sp_read p")
  case (Inl e)
  then show ?thesis by (simp add: process_next_def)
next
  case read: (Inr u)
  show ?thesis
  proof (cases "smoke_pick db")
    case None
    then show ?thesis using read by (simp add: process_next_def)
  next
    case (Some t)
    then have t: "t \<in> set (db_tests db)"
      unfolding smoke_pick_def by (auto split: list.splits dest!: arg_cong [where f = set])
    let ?d = "sp_others p db"
    have inv: "db_inv ?d" using run_inv [OF assms] .
    obtain u where u: "u \<in> set (db_tests ?d)" "t_id u = t_id t" "frozen u = frozen t"
      by (rule frozen_run [OF assms t])
    have find: "find_test ?d (t_id t) = Some u" using find_test_unique [OF db_invD(2) [OF inv] u(1)] u(2) by simp
    have "server_step cfg fs build gzip ?d db'"
      if "smoke_commit (sp_now p) (t_id t) (sp_dispatch p) (smoke_test cfg fs build t) ?d = Inr (r, db')" for r db'
      by (rule server_step.Smoke [OF find]) (use that smoke_test_frozen [OF u(3)] in simp)
    then show ?thesis
      using read Some others
      by (auto simp: process_next_def smoke_store_def Let_def split: sum.splits prod.splits if_splits
          intro: rtranclp.rtrancl_into_rtrancl)
  qed
qed

text \<open>What the other threads do meanwhile is transactions of the server too.\<close>

definition serving ::
  "server_config \<Rightarrow> file_system \<Rightarrow> builder \<Rightarrow> (string \<Rightarrow> string result) \<Rightarrow> (db \<Rightarrow> db) \<Rightarrow> bool" where
  "serving cfg fs build gzip f \<longleftrightarrow> (\<forall>db. db_inv db \<longrightarrow> server_run cfg fs build gzip db (f db))"

lemma serving_then:
  "serving cfg fs build gzip f \<Longrightarrow> serving cfg fs build gzip g \<Longrightarrow> serving cfg fs build gzip (\<lambda>db. g (f db))"
  unfolding serving_def by (meson rtranclp_trans run_inv)

lemma serving_id: "serving cfg fs build gzip (\<lambda>db. db)"
  by (simp add: serving_def)

lemma serving_tick: "serving cfg fs build gzip (\<lambda>db. snd (maintenance_tick locked now cfg db))"
  unfolding serving_def
  using maintenance_tick_steps [OF prod.collapse [symmetric]] by (metis rtranclp.rtrancl_refl)

lemma serving_pass: "serving cfg fs build gzip (sp_others p) \<Longrightarrow>
    serving cfg fs build gzip (\<lambda>db. snd (process_next cfg fs build p db))"
  unfolding serving_def using process_next_steps by blast

lemma serving_turn: "\<forall>p \<in> set ps. serving cfg fs build gzip (sp_others p) \<Longrightarrow>
    serving cfg fs build gzip (\<lambda>db. snd (smoke_turn cfg fs build ps db))"
proof (induction ps)
  case Nil
  then show ?case by (simp add: serving_id)
next
  case (Cons p ps)
  then have pass: "serving cfg fs build gzip (\<lambda>db. snd (process_next cfg fs build p db))"
    and turns: "serving cfg fs build gzip (\<lambda>db. snd (smoke_turn cfg fs build ps db))"
    by (simp_all add: serving_pass)
  have "snd (smoke_turn cfg fs build (p # ps) db) \<in> {db, snd (process_next cfg fs build p db),
      snd (smoke_turn cfg fs build ps (snd (process_next cfg fs build p db)))}" for db
    by (simp split: prod.split sum.split bool.split)
  then show ?case
    using pass serving_then [OF pass turns] unfolding serving_def
    by (metis (no_types, lifting) empty_iff insert_iff rtranclp.rtrancl_refl)
qed

section \<open>The smoke worker settles what it picks\<close>

text \<open>The tests in validation, as rows.\<close>

definition in_validation :: "db \<Rightarrow> test_row list" where
  "in_validation db = filter (\<lambda>t. t_status t = Validating) (db_tests db)"

lemma in_validation_update:
  assumes "\<And>t. t_status (f t) \<noteq> Validating"
    and "db_tests db' = update_where (\<lambda>t. t_id t = i) f (db_tests db)"
  shows "in_validation db' = filter (\<lambda>t. t_id t \<noteq> i) (in_validation db)"
proof -
  have "filter (\<lambda>t. t_status t = Validating) (update_where (\<lambda>t. t_id t = i) f ts)
      = filter (\<lambda>t. t_id t \<noteq> i) (filter (\<lambda>t. t_status t = Validating) ts)" for ts
    using assms(1) by (induction ts) (auto simp: update_where_def)
  then show ?thesis by (simp add: in_validation_def assms(2))
qed

lemma in_validation_other:
  assumes "\<And>t. t_status (f t) \<noteq> Validating" and "db_tests db' = update_where (\<lambda>t. t_id t = i) f (db_tests db)"
    and "tests_core db" "t \<in> set (db_tests db)" "t_id t = i" "t_status t \<noteq> Validating"
  shows "in_validation db' = in_validation db"
  unfolding in_validation_update [OF assms(1,2)]
  using test_unique [OF assms(3) _ assms(4)] assms(5,6)
  by (intro filter_True) (auto simp: in_validation_def)

lemma in_validation_promote:
  "tests_core db \<Longrightarrow> in_validation (snd (promote_next_test now db)) = in_validation db"
proof (cases "promote_next_test now db")
  case (Pair r db')
  show "tests_core db \<Longrightarrow> ?thesis"
  proof (cases r)
    case None
    then show ?thesis using Pair promote_None [of now db db'] by simp
  next
    case (Some i)
    assume core: "tests_core db"
    from Some Pair obtain t where t: "t \<in> set (db_tests db)" "t_status t = Queued" "t_id t = i" and
      db': "db' = update_test i (set_running now) db"
      by (auto elim: promote_Some)
    have "in_validation db' = in_validation db"
      by (rule in_validation_other [OF _ _ core t(1,3)]) (simp_all add: db' t(2) set_running_def)
    then show ?thesis using Pair by simp
  qed
qed

lemma in_validation_refresh:
  assumes core: "tests_core db" and "refresh_test now i db = Inr db'"
  shows "in_validation db' = in_validation db"
  using assms(2)
proof (cases rule: refresh_cases)
  case 1
  then show ?thesis by simp
next
  case (2 t penta e sv s)
  let ?d = "store_stats now s db"
  have same: "in_validation ?d = in_validation db" by (simp add: in_validation_def)
  have dcore: "tests_core ?d" using core by (simp only: store_stats_core)
  show ?thesis
  proof (cases rule: apply_decision_cases [of now t "sv_decision sv" ?d])
    case 1
    then show ?thesis using 2(7) same by simp
  next
    case (2 res)
    let ?u = "update_test (t_id t) (finished_row now res) ?d"
    have "in_validation ?u = in_validation ?d"
      by (rule in_validation_other [OF _ _ dcore, of _ _ _ t])
        (use 2(1) \<open>t \<in> set (db_tests db)\<close> in \<open>simp_all add: finished_row_def\<close>)
    moreover have "tests_core ?u" by (rule tests_core_update [OF dcore]) simp_all
    ultimately show ?thesis
      using in_validation_promote same 2(2) \<open>db' = _\<close> by (simp add: finish_test_alt)
  qed
qed

lemma smoke_commit_settles:
  assumes inv: "db_inv db" and t: "find_test db i = Some t" "t_status t = Validating"
    and "smoke_commit now i dispatch (smoke_test cfg fs build t) db = Inr (r, db')"
  shows "in_validation db' = filter (\<lambda>u. t_id u \<noteq> i) (in_validation db)"
proof -
  note parts = db_invD [OF inv]
  from assms(4) parts(2,5) show ?thesis
  proof (cases rule: smoke_commit_cases)
    case 1
    then show ?thesis using t assms(4) by (auto simp: smoke_commit_def Let_def split: if_splits prod.splits)
  next
    case (2 u vlog)
    then show ?thesis by (intro in_validation_update [where f = "invalid_row vlog"]) simp_all
  next
    case (3 u vlog d)
    let ?w = "with_work i dispatch (sm_positions (smoke_test cfg fs build t)) vlog db"
    have "test_params_ok t" using find_test_Some [OF t(1)] tests_coreD(3) parts(2) by blast
    then have "sm_positions (smoke_test cfg fs build t) \<noteq> []" using smoke_test_positions(1) 3(4) by blast
    then have core: "tests_core ?w" using with_work_base(1) [OF inv 3(1,2,3)] by blast
    have w: "in_validation ?w = filter (\<lambda>u. t_id u \<noteq> i) (in_validation db)"
      by (rule in_validation_update [where f = "queued_row vlog"]) (simp_all add: with_work_def Let_def)
    have "tests_core d" using refresh_facts(1) [OF 3(5) core] .
    then show ?thesis
      unfolding 3(6) using in_validation_promote in_validation_refresh [OF core 3(5)] w by simp
  qed
qed

lemma smoke_pick_None: "smoke_pick db = None \<longleftrightarrow> in_validation db = []"
  unfolding smoke_pick_def in_validation_def [symmetric]
  by (metis (no_types, lifting) length_0_conv length_sort list.case(1,2) list.exhaust option.distinct(1))

lemma smoke_pick_Some:
  assumes "smoke_pick db = Some t"
  shows "t \<in> set (in_validation db)"
proof -
  have "\<exists>ts. sort_key t_id (in_validation db) = t # ts"
    using assms by (auto simp: smoke_pick_def in_validation_def split: list.splits)
  then show ?thesis by (metis list.set_intros(1) set_sort)
qed

definition undisturbed :: "smoke_pass \<Rightarrow> bool" where
  "undisturbed p \<longleftrightarrow> \<not> sp_stop p \<and> \<not> sp_stopped_in_pass p \<and> sp_read p = Inr () \<and> sp_conn p = Inr () \<and> sp_others p = (\<lambda>db. db)"

lemma smoke_texts_taken:
  "find_test db i = Some t \<Longrightarrow> list_all (sp_text p) (smoke_texts v) \<Longrightarrow>
     smoke_store p i v db = smoke_commit (sp_now p) i (sp_dispatch p) v db"
  by (simp add: smoke_store_def)

text \<open>A test in validation has no positions, pairs or games yet, so nothing stops the last transaction.\<close>

lemma smoke_commit_total:
  assumes inv: "db_inv db" and t: "find_test db i = Some t" "t_status t = Validating"
  shows "\<exists>r db'. smoke_commit now i dispatch (smoke_test cfg fs build t) db = Inr (r, db')"
proof (cases "sm_ok (smoke_test cfg fs build t)")
  case False
  then show ?thesis using t by (simp add: smoke_commit_def)
next
  case True
  note parts = db_invD [OF inv]
  note row = find_test_Some [OF t(1)]
  let ?v = "smoke_test cfg fs build t"
  let ?l = "sm_log ?v @ ''SMOKE TEST PASSED'' @ [newline]"
  let ?ops = "position_rows (next_position db) i (sm_positions ?v)"
  let ?w = "with_work i dispatch (sm_positions ?v) ?l db"
  have unprep: "\<not> prepared db i" using not_prepared [OF parts(2), of t] row t(2) by simp
  have no_ops: "op_test op \<noteq> i" if "op \<in> set (db_positions db)" for op
    using parts(5) that unprep by (auto simp: positions_inv_def)
  have no_pairs: "jp_test p \<noteq> i" if "p \<in> set (db_pairs db)" for p
    using parts(6) that unprep by (auto simp: pairs_inv_def)
  have fens: "sm_positions ?v \<noteq> []"
    using smoke_test_positions(1) True tests_coreD(3) [OF parts(2)] row by blast
  have base: "tests_core ?w" "work_inv ?w"
    using with_work_base [OF inv _ _ t(2) fens, where test = i and vlog = ?l and dispatch = dispatch] row by auto
  have pending: "jp_status p = Pending" if "p \<in> set (db_pairs ?w)" "jp_test p = i" for p
    using that no_pairs pair_rows_facts by (auto simp: with_work_def Let_def)
  then have none: "test_outcomes ?w i = []"
    by (auto simp: test_outcomes_def pair_outcomes_def pair_outcome_rows_def Let_def filter_empty_conv
        split: if_splits dest!: pending)
  obtain d where d: "refresh_test now i ?w = Inr d"
  proof (cases "refresh_test now i ?w")
    case (Inl e)
    obtain p where p: "collect_penta (test_outcomes ?w i) = Inr p" "penta_pairs p \<noteq> 0"
      using refresh_fails [OF _ _ base(1) Inl] base(2) by (auto simp: work_inv_def)
    have "p = empty_pentanomial" using p(1) none by (simp add: collect_penta_def)
    then have False using p(2) by (simp add: penta_pairs_def empty_pentanomial_def)
    then show thesis ..
  qed
  have "filter (\<lambda>op. op_test op = i) (db_positions db) = []" "filter (\<lambda>op. op_test op = i) ?ops = ?ops"
    using no_ops position_rows_keys(2) by (auto simp: filter_empty_conv filter_id_conv)
  moreover have "insert_positions i (sm_positions ?v) db = Inr (db\<lparr>db_positions := db_positions db @ ?ops,
      next_position := next_position db + int (length (sm_positions ?v))\<rparr>)"
    using no_ops by (auto simp: insert_positions_def guardE_def Let_def)
  ultimately have "insert_positions i (sm_positions ?v) db = Inr d1 \<Longrightarrow>
      update_test i (queued_row ?l) (insert_pairs i dispatch d1) = ?w" for d1
    by (auto simp: update_test_def insert_pairs_def with_work_def Let_def)
  moreover obtain d1 where "insert_positions i (sm_positions ?v) db = Inr d1"
    using \<open>insert_positions i (sm_positions ?v) db = _\<close> by blast
  ultimately show ?thesis
    using d t True by (simp add: smoke_commit_def queued_row_def [abs_def] case_prod_beta Let_def)
qed

text \<open>How a validation leaves its test, and that it stays so.\<close>

definition validated :: "db \<Rightarrow> int \<Rightarrow> bool \<Rightarrow> bool" where
  "validated db i passed \<longleftrightarrow> (\<exists>u \<in> set (db_tests db). t_id u = i \<and> t_status u \<noteq> Validating \<and>
     (t_status u = InvalidTest \<longleftrightarrow> \<not> passed))"

lemma validated_stays:
  assumes "db_inv db" and "server_run cfg fs build gzip db db'" and "validated db i passed"
  shows "validated db' i passed"
proof -
  note inv = assms(1) run_inv [OF assms(1,2)]
  obtain u where u: "u \<in> set (db_tests db)" "t_id u = i" "t_status u \<noteq> Validating" "t_status u = InvalidTest \<longleftrightarrow> \<not> passed"
    using assms(3) unfolding validated_def by blast
  have v: "test_view db i = Some (status_of u)" using u(1,2) test_view_row [OF db_invD(2) [OF inv(1)]] by blast
  obtain w where w: "test_view db' i = Some w" "test_edge\<^sup>*\<^sup>* (status_of u) w"
    using test_life.run_moves [OF assms(2) inv(1) v] by blast
  have "fst w \<noteq> Validating \<and> (fst w = InvalidTest \<longleftrightarrow> \<not> passed)"
    using w(2)
  proof (induction rule: rtranclp_induct)
    case base
    then show ?case using u by (simp add: status_of_def)
  next
    case (step x y)
    then show ?case by (auto elim!: test_edge.cases)
  qed
  moreover obtain v where "v \<in> set (db_tests db')" "t_id v = i" "status_of v = w"
    using w(1) test_view_row [OF db_invD(2) [OF inv(2)]] by blast
  ultimately show ?thesis unfolding validated_def by (intro bexI [of _ v]) (auto simp: status_of_def)
qed

lemma smoke_commit_validated:
  assumes inv: "db_inv db" and t: "find_test db i = Some t" "t_status t = Validating"
    and "smoke_commit now i dispatch (smoke_test cfg fs build t) db = Inr (r, db')"
  shows "validated db' i (sm_ok (smoke_test cfg fs build t))"
proof -
  note parts = db_invD [OF inv]
  note row = find_test_Some [OF t(1)]
  let ?v = "smoke_test cfg fs build t"
  from assms(4) parts(2,5) show ?thesis
  proof (cases rule: smoke_commit_cases)
    case 1
    then show ?thesis using t assms(4) by (auto simp: smoke_commit_def Let_def split: if_splits prod.splits)
  next
    case (2 u vlog)
    then have "invalid_row vlog u \<in> set (db_tests db')" by (auto simp: update_test_def set_update_where)
    then show ?thesis unfolding validated_def using 2 by (intro bexI [of _ "invalid_row vlog u"]) simp_all
  next
    case (3 u vlog d)
    let ?w = "with_work i dispatch (sm_positions ?v) vlog db"
    have "sm_positions ?v \<noteq> []" using smoke_test_positions(1) 3(4) tests_coreD(3) [OF parts(2)] row by blast
    then have core: "tests_core ?w" using with_work_base(1) [OF inv 3(1,2,3)] by blast
    have q: "queued_row vlog u \<in> set (db_tests ?w)"
      using 3(1,2) by (force simp: with_work_def Let_def set_update_where)
    then have "find_test ?w i = Some (queued_row vlog u)" using find_test_iff [OF core] 3(2) by simp
    then have "queued_row vlog u \<in> set (db_tests d)" using refresh_waiting [OF 3(5)] q by simp
    from promote_status [OF this, of now] obtain v where v: "v \<in> set (db_tests db')" "t_id v = i"
      "t_status v = Queued \<or> t_status v = Running" unfolding 3(6) using 3(2) by auto
    then show ?thesis unfolding validated_def using 3(4) by (intro bexI [of _ v]) auto
  qed
qed

text \<open>One pass over the oldest test in validation.\<close>

definition takes_texts :: "server_config \<Rightarrow> file_system \<Rightarrow> builder \<Rightarrow> smoke_pass \<Rightarrow> test_row \<Rightarrow> bool" where
  "takes_texts cfg fs build p t \<longleftrightarrow> list_all (sp_text p) (smoke_texts (smoke_test cfg fs build t))"

lemma smoke_pick_sorted: "smoke_pick db = Some t \<longleftrightarrow> (\<exists>ts. sort_key t_id (in_validation db) = t # ts)"
  by (auto simp: smoke_pick_def in_validation_def split: list.splits)

lemma sort_key_without_first:
  assumes "sort_key f xs = x # ys" and "distinct (map f xs)"
  shows "sort_key f (filter (\<lambda>y. f y \<noteq> f x) xs) = ys"
proof -
  have "distinct (map f (x # ys))"
    using assms by (metis distinct_map distinct_sort set_sort)
  then have "filter (\<lambda>y. f y \<noteq> f x) (x # ys) = ys" by (auto simp: filter_id_conv simp flip: image_iff) (metis image_eqI)
  then show ?thesis unfolding filter_sort [symmetric] assms(1) .
qed

lemma process_next_settles:
  assumes inv: "db_inv db" and p: "undisturbed p" and t: "smoke_pick db = Some t" and takes: "takes_texts cfg fs build p t"
  obtains db' where "process_next cfg fs build p db = (Inr True, db')"
    and "server_run cfg fs build gzip db db'" and "validated db' (t_id t) (sm_ok (smoke_test cfg fs build t))"
    and "in_validation db' = filter (\<lambda>u. t_id u \<noteq> t_id t) (in_validation db)"
    and "sort_key t_id (in_validation db') = tl (sort_key t_id (in_validation db))"
proof -
  have mem: "t \<in> set (db_tests db)" "t_status t = Validating"
    using smoke_pick_Some [OF t] by (auto simp: in_validation_def)
  have find: "find_test db (t_id t) = Some t" by (rule find_test_unique [OF db_invD(2) [OF inv] mem(1)])
  obtain r db' where c: "smoke_commit (sp_now p) (t_id t) (sp_dispatch p) (smoke_test cfg fs build t) db = Inr (r, db')"
    using smoke_commit_total [OF inv find mem(2)] by blast
  have n: "process_next cfg fs build p db = (Inr True, db')"
    using p t c takes smoke_texts_taken [OF find]
    by (simp add: process_next_def undisturbed_def takes_texts_def Let_def)
  have left: "in_validation db' = filter (\<lambda>u. t_id u \<noteq> t_id t) (in_validation db)"
    by (rule smoke_commit_settles [OF inv find mem(2) c])
  have "distinct (map t_id (in_validation db))"
    using db_invD(2) [OF inv] by (simp add: tests_core_def in_validation_def distinct_map_filter)
  then have "sort_key t_id (in_validation db') = tl (sort_key t_id (in_validation db))"
    using t sort_key_without_first unfolding left smoke_pick_sorted by fastforce
  then show thesis
    using that n left smoke_commit_validated [OF inv find mem(2) c] server_step.Smoke [OF find c] by blast
qed

section \<open>Properties\<close>

text \<open>
  C24: Whatever the maintenance thread and the smoke worker do, over any number of rounds, passes
  and failures, is a run of the server's transactions, as long as the other threads in between
  make such runs. So all that holds along runs holds with the threads at work.
\<close>
theorem background_threads_serve:
  assumes "reachable cfg fs build gzip db"
    and "\<forall>t \<in> set ticks. serving cfg fs build gzip (ti_others t)"
    and "\<forall>w \<in> set wakes. serving cfg fs build gzip (sw_others w) \<and>
      (\<forall>p \<in> set (sw_passes w). serving cfg fs build gzip (sp_others p))"
  shows "server_run cfg fs build gzip db (maintenance_loop cfg ticks db) \<and>
    server_run cfg fs build gzip db (smoke_thread cfg fs build wakes db) \<and>
    reachable cfg fs build gzip (smoke_thread cfg fs build wakes (maintenance_loop cfg ticks db))"
proof -
  have maintenance: "serving cfg fs build gzip (maintenance_loop cfg ticks)"
    using assms(2)
  proof (induction ticks)
    case (Cons t ts)
    then have "serving cfg fs build gzip
        (\<lambda>db. maintenance_loop cfg ts (snd (maintenance_tick (ti_locked t) (ti_now t) cfg (ti_others t db))))"
      using serving_then [OF serving_then [OF _ serving_tick]] by auto
    then show ?case by (simp add: serving_def)
  qed (simp add: serving_def)
  have smoke: "serving cfg fs build gzip (smoke_thread cfg fs build wakes)"
    using assms(3)
  proof (induction wakes)
    case (Cons w ws)
    then have "serving cfg fs build gzip
        (\<lambda>db. smoke_thread cfg fs build ws (snd (smoke_turn cfg fs build (sw_passes w) (sw_others w db))))"
      using serving_then [OF serving_then [OF _ serving_turn]] by auto
    then show ?case by (simp add: serving_def)
  qed (simp add: serving_def)
  show ?thesis
    using maintenance smoke serving_then [OF maintenance smoke] reachable_inv [OF assms(1)]
      run_reachable [OF assms(1)] by (auto simp: serving_def)
qed

text \<open>
  C25: Validation makes progress. Left alone, and with Postgres taking the texts, the smoke worker
  settles one test in each pass, the oldest first, without an exception: after k passes the tests
  in validation are those there were without the k oldest. After one pass more than there were
  the worker waits again, no test is left in validation, and each of them has been made invalid
  exactly when its builds, its check or its sample failed.
\<close>
theorem smoke_worker_drains:
  assumes "reachable cfg fs build gzip db" and "\<forall>p \<in> set passes. undisturbed p"
    and "\<forall>p \<in> set passes. \<forall>t \<in> set (in_validation db). takes_texts cfg fs build p t"
    and "length (in_validation db) < length passes"
  shows "(\<forall>k \<le> length (in_validation db). \<exists>d. smoke_turn cfg fs build (take k passes) db = (None, d) \<and>
      sort_key t_id (in_validation d) = drop k (sort_key t_id (in_validation db))) \<and>
    (\<exists>db'. smoke_turn cfg fs build passes db = (Some (Inr ()), db') \<and> in_validation db' = [] \<and>
      server_run cfg fs build gzip db db' \<and>
      (\<forall>t \<in> set (in_validation db). validated db' (t_id t) (sm_ok (smoke_test cfg fs build t))))"
  using reachable_inv [OF assms(1)] assms(2-4)
proof (induction passes arbitrary: db)
  case (Cons p ps)
  have p: "undisturbed p" and go: "\<not> sp_stop p" using Cons.prems(2) by (simp_all add: undisturbed_def)
  show ?case
  proof (cases "smoke_pick db")
    case None
    then have "process_next cfg fs build p db = (Inr False, db)" "in_validation db = []"
      using smoke_pick_None [of db] p by (simp_all add: process_next_def undisturbed_def)
    then show ?thesis using go by simp
  next
    case (Some t)
    have t: "t \<in> set (in_validation db)" by (rule smoke_pick_Some [OF Some])
    obtain d where d: "process_next cfg fs build p db = (Inr True, d)" "server_run cfg fs build gzip db d"
      "validated d (t_id t) (sm_ok (smoke_test cfg fs build t))"
      "in_validation d = filter (\<lambda>u. t_id u \<noteq> t_id t) (in_validation db)"
      "sort_key t_id (in_validation d) = tl (sort_key t_id (in_validation db))"
      using process_next_settles [OF Cons.prems(1) p Some] Cons.prems(3) t by (metis list.set_intros(1))
    have inv: "db_inv d" by (rule run_inv [OF Cons.prems(1) d(2)])
    have n: "length (in_validation db) = Suc (length (in_validation d))"
      using arg_cong [OF d(5), of length] t by (cases "in_validation db") simp_all
    have turn: "smoke_turn cfg fs build (p # qs) db = smoke_turn cfg fs build qs d" for qs using go d(1) by simp
    note IH = Cons.IH [OF inv]
    have IH: "(\<forall>k \<le> length (in_validation d). \<exists>d'. smoke_turn cfg fs build (take k ps) d = (None, d') \<and>
        sort_key t_id (in_validation d') = drop k (sort_key t_id (in_validation d))) \<and>
      (\<exists>db'. smoke_turn cfg fs build ps d = (Some (Inr ()), db') \<and> in_validation db' = [] \<and>
        server_run cfg fs build gzip d db' \<and>
        (\<forall>t \<in> set (in_validation d). validated db' (t_id t) (sm_ok (smoke_test cfg fs build t))))"
      using Cons.prems(2-4) n by (intro IH) (auto simp: d(4))
    have "\<exists>d'. smoke_turn cfg fs build (take k (p # ps)) db = (None, d') \<and>
        sort_key t_id (in_validation d') = drop k (sort_key t_id (in_validation db))"
      if "k \<le> length (in_validation db)" for k
    proof (cases k)
      case (Suc j)
      then show ?thesis using IH that n d(5) turn by (simp add: drop_Suc)
    qed simp
    moreover obtain db' where db': "smoke_turn cfg fs build ps d = (Some (Inr ()), db')" "in_validation db' = []"
      "server_run cfg fs build gzip d db'"
      "\<forall>t \<in> set (in_validation d). validated db' (t_id t) (sm_ok (smoke_test cfg fs build t))"
      using IH by blast
    have "validated db' (t_id u) (sm_ok (smoke_test cfg fs build u))" if "u \<in> set (in_validation db)" for u
    proof (cases "t_id u = t_id t")
      case True
      then have "u = t"
        using that t test_unique [OF db_invD(2) [OF Cons.prems(1)], of u t] by (simp add: in_validation_def)
      then show ?thesis using validated_stays [OF inv db'(3) d(3)] by simp
    next
      case False
      then show ?thesis using db'(4) that by (simp add: d(4))
    qed
    ultimately show ?thesis using turn db'(1-3) d(2) by (metis rtranclp_trans)
  qed
qed simp

text \<open>
  C26: One refused text stops all validation. When Postgres does not take the log or a position of
  the oldest test in validation, every pass throws: as long as the other threads leave that test in
  place, the worker changes nothing in any of its turns, however often it is woken, so that test
  stays in validation and no test behind it is validated.
\<close>
theorem refused_text_stops_validation:
  assumes "reachable cfg fs build gzip db" and "smoke_pick db = Some t"
    and "\<forall>w \<in> set wakes. serving cfg fs build gzip (sw_others w) \<and>
      (\<forall>d. db_inv d \<and> smoke_pick d = Some t \<longrightarrow> smoke_pick (sw_others w d) = Some t) \<and>
      (\<forall>p \<in> set (sw_passes w). undisturbed p \<and> \<not> takes_texts cfg fs build p t)"
  shows "smoke_thread cfg fs build wakes db = fold sw_others (takeWhile (\<lambda>w. \<not> sw_stop w) wakes) db \<and>
    smoke_pick (smoke_thread cfg fs build wakes db) = Some t"
  using reachable_inv [OF assms(1)] assms(2,3)
proof (induction wakes arbitrary: db)
  case (Cons w ws)
  let ?d = "sw_others w db"
  have d: "db_inv ?d" "smoke_pick ?d = Some t"
    using Cons.prems run_inv [of db cfg fs build gzip ?d] by (auto simp: serving_def)
  have mem: "t \<in> set (db_tests ?d)" "t_status t = Validating"
    using smoke_pick_Some [OF d(2)] by (auto simp: in_validation_def)
  have find: "find_test ?d (t_id t) = Some t" by (rule find_test_unique [OF db_invD(2) [OF d(1)] mem(1)])
  have pass: "snd (process_next cfg fs build p ?d) = ?d \<and> isl (fst (process_next cfg fs build p ?d))"
    if "p \<in> set (sw_passes w)" for p
    using Cons.prems(3) that d(2) find mem(2)
    by (auto simp: process_next_def undisturbed_def smoke_store_def takes_texts_def Let_def)
  have "snd (smoke_turn cfg fs build (sw_passes w) ?d) = ?d"
  proof (cases "sw_passes w")
    case (Cons p ps)
    then show ?thesis using pass [of p] by (auto split: prod.splits sum.splits)
  qed simp
  then show ?case using Cons.IH [OF d] Cons.prems(2,3) by (cases "sw_stop w") auto
qed simp

definition demo_pass :: smoke_pass where
  "demo_pass = \<lparr>sp_stop = False, sp_stopped_in_pass = False, sp_read = Inr (), sp_conn = Inr (),
     sp_text = (\<lambda>_. True), sp_now = 0,
     sp_dispatch = (\<lambda>_. 0), sp_others = (\<lambda>db. db)\<rparr>"

definition demo_wakes :: "smoke_wake list" where
  "demo_wakes = [\<lparr>sw_stop = False, sw_others = (\<lambda>db. db), sw_passes = [demo_pass, demo_pass]\<rparr>]"

theorem background_threads_serve_witness:
  "demo_step\<^sup>*\<^sup>* demo_created (smoke_thread default_config demo_fs demo_build demo_wakes demo_created) \<and>
     length (in_validation demo_created) = 1"
proof -
  have reach: "demo_reachable demo_created" using demo_create_steps by (simp add: reachable_def)
  have "\<forall>w \<in> set demo_wakes. serving default_config demo_fs demo_build demo_gzip (sw_others w) \<and>
      (\<forall>p \<in> set (sw_passes w). serving default_config demo_fs demo_build demo_gzip (sp_others p))"
    by (simp add: demo_wakes_def demo_pass_def serving_id)
  from background_threads_serve [OF reach _ this, of "[]"] show ?thesis
    by (simp add: in_validation_def demo_created_test(1,3))
qed

lemma demo_in_validation: "in_validation demo_created = [demo_test]"
  by (simp add: in_validation_def demo_created_test(1,3))

theorem smoke_worker_drains_witness:
  "\<exists>db'. smoke_turn default_config demo_fs demo_build [demo_pass, demo_pass] demo_created = (Some (Inr ()), db') \<and>
     in_validation demo_created = [demo_test] \<and> in_validation db' = [] \<and> validated db' 1 True"
proof -
  have reach: "demo_reachable demo_created" using demo_create_steps by (simp add: reachable_def)
  have p: "\<forall>p \<in> set [demo_pass, demo_pass]. undisturbed p" by (simp add: demo_pass_def undisturbed_def)
  have t: "\<forall>p \<in> set [demo_pass, demo_pass]. \<forall>t \<in> set (in_validation demo_created).
      takes_texts default_config demo_fs demo_build p t"
    by (simp add: takes_texts_def demo_pass_def list_all_iff)
  have "sm_ok (smoke_test default_config demo_fs demo_build demo_test)" using demo_verdict by auto
  then show ?thesis
    using smoke_worker_drains [OF reach p t] by (simp add: demo_in_validation demo_created_test(5) del: smoke_turn.simps) auto
qed

text \<open>A Postgres that takes no text.\<close>

definition demo_refusals :: "smoke_wake list" where
  "demo_refusals = [\<lparr>sw_stop = False, sw_others = (\<lambda>db. db), sw_passes = [demo_pass\<lparr>sp_text := (\<lambda>_. False)\<rparr>]\<rparr>]"

theorem refused_text_stops_validation_witness:
  "smoke_thread default_config demo_fs demo_build demo_refusals demo_created = demo_created \<and>
     smoke_pick demo_created = Some demo_test"
proof -
  have reach: "demo_reachable demo_created" using demo_create_steps by (simp add: reachable_def)
  have pick: "smoke_pick demo_created = Some demo_test" by (simp add: smoke_pick_sorted demo_in_validation)
  have "\<forall>w \<in> set demo_refusals. serving default_config demo_fs demo_build demo_gzip (sw_others w) \<and>
      (\<forall>d. db_inv d \<and> smoke_pick d = Some demo_test \<longrightarrow> smoke_pick (sw_others w d) = Some demo_test) \<and>
      (\<forall>p \<in> set (sw_passes w). undisturbed p \<and> \<not> takes_texts default_config demo_fs demo_build p demo_test)"
    by (simp add: demo_refusals_def demo_pass_def serving_id undisturbed_def takes_texts_def smoke_texts_def)
  from refused_text_stops_validation [OF reach pick this] pick show ?thesis
    by (simp add: demo_refusals_def del: smoke_thread.simps)
qed

end
