(* ===== verification/Cli.thy ===== *)
theory Cli
  imports ClientApi Effects
begin

text \<open>
  cli/main.cpp: the command-line tool for submitting and following tests, a thin layer over the
  server's HTTP interface. A run makes calls and prints; its state is the calls made so far and
  the text printed. Parameters: \<open>net\<close>, the reply to the n-th call; \<open>fmt\<close>, what
  \<^verbatim>\<open>snprintf\<close> makes of a number; \<open>stod\<close>, the value \<^verbatim>\<open>std::stod\<close> reads and how many
  bytes it takes; the environment. A line is printed whole or, on an exception, not at all.
  Members that the code reads with \<^verbatim>\<open>operator[]\<close> of a constant document are there in the
  server's answers; where one is missing the model throws.
\<close>

section \<open>The command line\<close>

definition kUsage :: string where
  "kUsage = concat (map (\<lambda>l. l @ [newline])
       [''uso: capi_net [--server URL] <comando> [op'' @ [CHR 0xC3, CHR 0xA7, CHR 0xC3, CHR 0xB5] @ ''es]'',
        [],
        ''comandos:'',
        ''  submit --candidate REF --baseline REF --tc BASE+INC --book ARQUIVO --pairs N'',
        ''         [--preset gainer|nonreg|custom] [--elo0 X --elo1 Y [--alpha A] [--beta B]]'',
        ''         [--kind sprt|gauntlet] [--name NOME] [--hash MB] [--priority N] [--wait]'',
        ''  list [--limit N]              testes e status'',
        ''  status <test_id>              LLR, Elo, penta, progresso'',
        ''  validation <test_id>          log do smoke test'',
        ''  stop <test_id>                parada manual'',
        ''  priority <test_id> <n>        reordenar a fila'',
        [],
        ''servidor: --server, ou a vari'' @ [CHR 0xC3, CHR 0xA1] @ ''vel CAPI_SERVER (padr'' @ [CHR 0xC3, CHR 0xA3] @ ''o http://localhost:8080)''])"

record cli_args =
  ca_positional :: "string list"
  ca_options :: "string \<Rightarrow> string option"
  ca_flags :: "string list"

definition no_args :: cli_args where
  "no_args = \<lparr>ca_positional = [], ca_options = (\<lambda>_. None), ca_flags = []\<rparr>"

definition kFlags :: "string list" where
  "kFlags = [''wait'', ''help'']"

fun parse_args :: "string list \<Rightarrow> cli_args \<Rightarrow> cli_args result" where
  "parse_args [] a = Inr a"
| "parse_args (arg # rest) a =
     (let arg = (if arg = ''-h'' then ''--help'' else arg); key = drop 2 arg
      in if \<not> starts_with arg ''--'' then parse_args rest (a\<lparr>ca_positional := ca_positional a @ [arg]\<rparr>)
         else if key \<in> set kFlags then parse_args rest (a\<lparr>ca_flags := key # ca_flags a\<rparr>)
         else case rest of
           [] \<Rightarrow> Inl (RuntimeError (''faltou o valor de '' @ arg))
         | v # rest \<Rightarrow> parse_args rest (a\<lparr>ca_options := (ca_options a)(key \<mapsto> v)\<rparr>))"

definition need :: "cli_args \<Rightarrow> string \<Rightarrow> string result" where
  "need a key =
     (case ca_options a key of None \<Rightarrow> Inl (RuntimeError (''faltou --'' @ key)) | Some v \<Rightarrow> Inr v)"

definition invalid :: "string \<Rightarrow> string \<Rightarrow> exn" where
  "invalid what s = RuntimeError (what @ '' inv'' @ [CHR 0xC3, CHR 0xA1] @ ''lido: '' @ s)"

definition cli_to_int :: "string \<Rightarrow> string \<Rightarrow> int result" where
  "cli_to_int s what =
     (case cpp_stoll s of
        None \<Rightarrow> Inl (invalid what s)
      | Some (v, pos) \<Rightarrow> if pos = length s then Inr v else Inl (invalid what s))"

definition cli_to_double :: "(string \<Rightarrow> (real \<times> nat) option) \<Rightarrow> string \<Rightarrow> string \<Rightarrow> real result" where
  "cli_to_double stod s what =
     (case stod s of
        None \<Rightarrow> Inl (invalid what s)
      | Some (v, pos) \<Rightarrow> if pos = length s then Inr v else Inl (invalid what s))"

section \<open>Calls\<close>

record cli_state =
  cl_calls :: "api_call list"
  cl_out :: string

type_synonym 'a cli = "(cli_state, 'a) effect"

type_synonym network = "nat \<Rightarrow> http_reply"

definition print :: "string \<Rightarrow> unit cli" where
  "print t s = (Inr (), s\<lparr>cl_out := cl_out s @ t\<rparr>)"

text \<open>The message of an answer with an error status.\<close>

definition error_message :: "int \<Rightarrow> json option \<Rightarrow> string result" where
  "error_message status body =
     (let part = (\<lambda>sep k. case body of
            None \<Rightarrow> Inr []
          | Some j \<Rightarrow> if \<not> is_object j then Inr [] else case json_find j k of
              None \<Rightarrow> Inr []
            | Some v \<Rightarrow> bindE (get_string v) (\<lambda>m. Inr (sep @ m)))
      in bindE (part '': '' ''error'') (\<lambda>e. bindE (part ('' '' @ [CHR 0xE2, CHR 0x80, CHR 0x94] @ '' '') ''reason'') (\<lambda>r.
           Inr (''HTTP '' @ show_int status @ e @ r))))"

text \<open>
  The body of a reply: \<^const>\<open>None\<close> when it is empty. A body that does not parse is the JSON library's
  discarded value, of which the code only reads members, texts and numbers, which throws, and over
  which it loops, which runs once, on a value of the same kind. An array that holds \<^const>\<open>JNull\<close>
  behaves so and stands for it.
\<close>

definition discarded :: json where
  "discarded = JArray [JNull]"

lemma discarded_throws:
  "json_at discarded k = Inl JsonErr" "get_string discarded = Inl JsonErr" "get_int discarded = Inl JsonErr"
  "get_int64 discarded = Inl JsonErr" "\<not> is_object discarded"
  "\<forall>j \<in> set (json_elements discarded). json_at j k = Inl JsonErr"
  by (simp_all add: discarded_def json_at_def)

definition cli_reply :: "string \<Rightarrow> string \<Rightarrow> http_reply \<Rightarrow> json result" where
  "cli_reply base path reply =
     (case reply of
        Inl e \<Rightarrow> Inl (RuntimeError (''sem resposta de '' @ base @ path @ '' ('' @ e @ '')''))
      | Inr (status, body) \<Rightarrow>
          if 400 \<le> status then bindE (error_message status body) (\<lambda>m. Inl (RuntimeError m))
          else Inr (case body of None \<Rightarrow> JNull | Some j \<Rightarrow> j))"

definition cli_call :: "network \<Rightarrow> string \<Rightarrow> string \<Rightarrow> string \<Rightarrow> json option \<Rightarrow> json cli" where
  "cli_call net base method path body s =
     (cli_reply base path (net (length (cl_calls s))),
      s\<lparr>cl_calls := cl_calls s @ [\<lparr>ac_method = method, ac_path = path, ac_body = body\<rparr>]\<rparr>)"

section \<open>Formatting\<close>

type_synonym formatter = "string \<Rightarrow> real \<Rightarrow> string"

definition opt_num :: "formatter \<Rightarrow> string \<Rightarrow> json \<Rightarrow> string" where
  "opt_num fmt f v = (case json_number v of None \<Rightarrow> ''-'' | Some r \<Rightarrow> fmt f r)"

definition tc_string :: "formatter \<Rightarrow> int \<Rightarrow> int \<Rightarrow> string" where
  "tc_string fmt base_ms inc_ms = fmt ''%g'' (of_int base_ms / 1000) @ ''+'' @ fmt ''%g'' (of_int inc_ms / 1000)"

definition short_sha :: "json \<Rightarrow> string result" where
  "short_sha side = bindE (at_as get_string side ''commit'') (\<lambda>c. Inr (take 7 c))"

text \<open>The columns of \<^verbatim>\<open>printf\<close>: padded on the left, or on the right.\<close>

definition pad_left :: "nat \<Rightarrow> string \<Rightarrow> string" where
  "pad_left n s = replicate (n - length s) (CHR '' '') @ s"

definition pad_right :: "nat \<Rightarrow> string \<Rightarrow> string" where
  "pad_right n s = s @ replicate (n - length s) (CHR '' '')"

text \<open>Members printed one after the other: what stands before each, the path to it and how it is read.\<close>

fun at_path :: "json \<Rightarrow> string list \<Rightarrow> json result" where
  "at_path j [] = Inr j"
| "at_path j (k # ks) = bindE (json_at j k) (\<lambda>v. at_path v ks)"

datatype reading = AsText | AsInt | AsInt64 | AsNumber string

fun read_member :: "formatter \<Rightarrow> reading \<Rightarrow> json \<Rightarrow> string result" where
  "read_member fmt AsText v = get_string v"
| "read_member fmt AsInt v = bindE (get_int v) (\<lambda>n. Inr (show_int n))"
| "read_member fmt AsInt64 v = bindE (get_int64 v) (\<lambda>n. Inr (show_int n))"
| "read_member fmt (AsNumber f) v = Inr (opt_num fmt f v)"

fun show_members :: "formatter \<Rightarrow> json \<Rightarrow> (string \<times> string list \<times> reading) list \<Rightarrow> string result" where
  "show_members fmt j [] = Inr []"
| "show_members fmt j ((before, path, r) # rest) =
     bindE (at_path j path) (\<lambda>v. bindE (read_member fmt r v) (\<lambda>t.
     bindE (show_members fmt j rest) (\<lambda>ts. Inr (before @ t @ ts))))"

section \<open>validation and submit\<close>

definition validation_path :: "int \<Rightarrow> string" where
  "validation_path test = ''/api/admin/tests/'' @ show_int test @ ''/validation''"

definition cmd_validation :: "network \<Rightarrow> string \<Rightarrow> int \<Rightarrow> bool \<Rightarrow> int cli" where
  "cmd_validation net base test quiet_if_ok =
     and_then (cli_call net base ''GET'' (validation_path test) None) (\<lambda>v.
     and_then (lift (at_as get_string v ''status'')) (\<lambda>status.
     and_then (print (''teste '' @ show_int test @ '': '' @ status @ [newline])) (\<lambda>_.
     and_then (lift (json_at v ''validation_log'')) (\<lambda>log.
       let failed = (status = ''invalid'')
       in and_then (case log of
            JString t \<Rightarrow> if failed \<or> \<not> quiet_if_ok then print t else give ()
          | _ \<Rightarrow> give ()) (\<lambda>_. give (if failed then 1 else 0))))))"

text \<open>A member for an option that is given.\<close>

definition opt_member :: "cli_args \<Rightarrow> string \<Rightarrow> string \<Rightarrow> (string \<Rightarrow> json result) \<Rightarrow> (string \<times> json) list result" where
  "opt_member a opt key read =
     (case ca_options a opt of
        None \<Rightarrow> Inr []
      | Some v \<Rightarrow> bindE (read v) (\<lambda>j. Inr [(key, j)]))"

definition submit_body :: "(string \<Rightarrow> (real \<times> nat) option) \<Rightarrow> string option \<Rightarrow> cli_args \<Rightarrow> json result" where
  "submit_body stod user a =
     bindE (need a ''candidate'') (\<lambda>candidate.
     bindE (need a ''baseline'') (\<lambda>baseline.
     bindE (need a ''tc'') (\<lambda>tc.
     bindE (need a ''book'') (\<lambda>book.
     bindE (need a ''pairs'') (\<lambda>pairs.
     bindE (cli_to_int pairs ''--pairs'') (\<lambda>pairs.
     let kind = (case ca_options a ''kind'' of None \<Rightarrow> ''sprt'' | Some k \<Rightarrow> k);
         preset = (case ca_options a ''preset'' of
                     Some p \<Rightarrow> [(''preset'', JString p)]
                   | None \<Rightarrow> if kind = ''sprt'' then [(''preset'', JString ''gainer'')] else []);
         number = (\<lambda>opt v. bindE (cli_to_double stod v (''--'' @ opt)) (\<lambda>r. Inr (JReal r)));
         integer = (\<lambda>opt v. bindE (cli_to_int v (''--'' @ opt)) (\<lambda>n. Inr (JInt n)))
     in bindE (opt_member a ''elo0'' ''sprt_elo0'' (number ''elo0'')) (\<lambda>elo0.
        bindE (opt_member a ''elo1'' ''sprt_elo1'' (number ''elo1'')) (\<lambda>elo1.
        bindE (opt_member a ''alpha'' ''sprt_alpha'' (number ''alpha'')) (\<lambda>alpha.
        bindE (opt_member a ''beta'' ''sprt_beta'' (number ''beta'')) (\<lambda>beta.
        bindE (opt_member a ''name'' ''name'' (\<lambda>v. Inr (JString v))) (\<lambda>nm.
        bindE (opt_member a ''hash'' ''hash_mb'' (integer ''hash'')) (\<lambda>hash.
        bindE (opt_member a ''priority'' ''priority'' (integer ''priority'')) (\<lambda>priority.
          Inr (JObject
            ([(''candidate_ref'', JString candidate), (''baseline_ref'', JString baseline), (''tc'', JString tc),
              (''book_name'', JString book), (''total_pairs'', JInt pairs), (''kind'', JString kind)] @
             preset @ elo0 @ elo1 @ alpha @ beta @ nm @ hash @ priority @
             (case user of None \<Rightarrow> [] | Some u \<Rightarrow> [(''submitted_by'', JString u)]))))))))))))))))"

text \<open>The wait for the smoke test, for so many polls; \<^const>\<open>None\<close>: still in validation.\<close>

fun wait_validation :: "nat \<Rightarrow> network \<Rightarrow> string \<Rightarrow> int \<Rightarrow> unit option cli" where
  "wait_validation 0 net base test = give None"
| "wait_validation (Suc n) net base test =
     and_then (cli_call net base ''GET'' (validation_path test) None) (\<lambda>v.
     and_then (lift (json_at v ''status'')) (\<lambda>status.
       if status \<noteq> JString ''validating'' then give (Some ())
       else and_then (print ''.'') (\<lambda>_. wait_validation n net base test)))"

definition cmd_submit ::
  "nat \<Rightarrow> (string \<Rightarrow> (real \<times> nat) option) \<Rightarrow> string option \<Rightarrow> network \<Rightarrow> string \<Rightarrow> cli_args \<Rightarrow> int option cli" where
  "cmd_submit polls stod user net base a =
     and_then (lift (submit_body stod user a)) (\<lambda>body.
     and_then (cli_call net base ''POST'' ''/api/admin/tests'' (Some body)) (\<lambda>r.
     and_then (lift (at_as get_int64 r ''test_id'')) (\<lambda>test.
     and_then (lift (show_members (\<lambda>_ _. []) r
        [(''teste '' @ show_int test @ '' criado ('', [''status''], AsText),
         ('')'' @ [newline] @ ''  candidate: '', [''candidate'', ''ref''], AsText),
         ('' '' @ [CHR 0xE2, CHR 0x86, CHR 0x92] @ '' '', [''candidate'', ''commit''], AsText),
         ([newline] @ ''  baseline:  '', [''baseline'', ''ref''], AsText),
         ('' '' @ [CHR 0xE2, CHR 0x86, CHR 0x92] @ '' '', [''baseline'', ''commit''], AsText)])) (\<lambda>text.
     and_then (print (text @ [newline])) (\<lambda>_.
       if ''wait'' \<notin> set (ca_flags a)
       then and_then (print (''acompanhe com: capi_net status '' @ show_int test @ [newline])) (\<lambda>_. give (Some 0))
       else
         and_then (print ''aguardando o smoke test...'') (\<lambda>_.
         and_then (wait_validation polls net base test) (\<lambda>done'.
           case done' of
             None \<Rightarrow> give None
           | Some _ \<Rightarrow>
               and_then (print [newline]) (\<lambda>_.
               and_then (cmd_validation net base test True) (\<lambda>rc. give (Some rc))))))))))"

section \<open>list and status\<close>

definition list_row :: "formatter \<Rightarrow> json \<Rightarrow> string result" where
  "list_row fmt t =
     bindE (at_as get_string t ''name'') (\<lambda>nm.
     bindE (json_at t ''candidate'') (\<lambda>candidate. bindE (short_sha candidate) (\<lambda>c.
     bindE (json_at t ''baseline'') (\<lambda>baseline. bindE (short_sha baseline) (\<lambda>b.
     bindE (at_as get_int t ''pairs_valid'') (\<lambda>valid.
     bindE (at_as get_int t ''total_pairs'') (\<lambda>total'.
     bindE (at_as get_int64 t ''test_id'') (\<lambda>test.
     bindE (at_as get_string t ''status'') (\<lambda>status.
     bindE (at_as get_string t ''result'') (\<lambda>res.
     bindE (at_as get_int t ''priority'') (\<lambda>priority.
     bindE (json_at t ''llr'') (\<lambda>llr.
     bindE (json_at t ''elo'') (\<lambda>elo.
       let nm = (if 28 < length nm then take 27 nm @ [CHR 0xE2, CHR 0x80, CHR 0xA6] else nm)
       in Inr (pad_left 5 (show_int test) @ ''  '' @ pad_right 10 status @ ''  '' @ pad_right 12 res @ ''  '' @
               pad_left 4 (show_int priority) @ ''  '' @ pad_right 28 nm @ ''  '' @ pad_right 19 (c @ ''/'' @ b) @ ''  '' @
               pad_left 8 (opt_num fmt ''%.2f'' llr) @ ''  '' @ pad_left 8 (opt_num fmt ''%+.2f'' elo) @ ''  '' @
               pad_left 13 (show_int valid @ ''/'' @ show_int total') @ [newline]))))))))))))))"

definition list_header :: string where
  "list_header =
     pad_left 5 ''id'' @ ''  '' @ pad_right 10 ''status'' @ ''  '' @ pad_right 12 ''result'' @ ''  '' @ pad_left 4 ''prio'' @
     ''  '' @ pad_right 28 ''name'' @ ''  '' @ pad_right 19 ''candidate/baseline'' @ ''  '' @ pad_left 8 ''LLR'' @ ''  '' @
     pad_left 8 ''Elo'' @ ''  '' @ pad_left 13 ''pares'' @ [newline]"

fun print_rows :: "formatter \<Rightarrow> json list \<Rightarrow> unit cli" where
  "print_rows fmt [] = give ()"
| "print_rows fmt (t # ts) =
     and_then (lift (list_row fmt t)) (\<lambda>row. and_then (print row) (\<lambda>_. print_rows fmt ts))"

definition cmd_list :: "formatter \<Rightarrow> network \<Rightarrow> string \<Rightarrow> cli_args \<Rightarrow> int cli" where
  "cmd_list fmt net base a =
     and_then (lift (case ca_options a ''limit'' of
         None \<Rightarrow> Inr ''/api/tests''
       | Some l \<Rightarrow> bindE (cli_to_int l ''--limit'') (\<lambda>n. Inr (''/api/tests?limit='' @ show_int n)))) (\<lambda>path.
     and_then (cli_call net base ''GET'' path None) (\<lambda>tests.
     and_then (print list_header) (\<lambda>_.
     and_then (print_rows fmt (json_elements tests)) (\<lambda>_. give 0))))"

definition status_head :: "formatter \<Rightarrow> int \<Rightarrow> json \<Rightarrow> string result" where
  "status_head fmt test s =
     bindE (show_members fmt s
       [(''#'' @ show_int test @ '' '', [''name''], AsText), (''  ['', [''status''], AsText), ('']  result: '', [''result''], AsText),
        ([newline] @ ''  candidate  '', [''candidate'', ''ref''], AsText), ('' @ '', [''candidate'', ''commit''], AsText),
        ([newline] @ ''  baseline   '', [''baseline'', ''ref''], AsText), ('' @ '', [''baseline'', ''commit''], AsText)]) (\<lambda>names.
     bindE (at_as get_int s ''tc_base_ms'') (\<lambda>tc_base.
     bindE (at_as get_int s ''tc_increment_ms'') (\<lambda>tc_inc.
     bindE (show_members fmt s
       [('' '' @ [CHR 0xC2, CHR 0xB7] @ '' hash '', [''hash_mb''], AsInt), ('' MB '' @ [CHR 0xC2, CHR 0xB7] @ '' threads '', [''threads''], AsInt),
        ('' '' @ [CHR 0xC2, CHR 0xB7] @ '' book '', [''book_name''], AsText), ('' '' @ [CHR 0xC2, CHR 0xB7] @ '' prioridade '', [''priority''], AsInt),
        ([newline] @ ''  pares      '', [''pairs'', ''valid''], AsInt64), ('' v'' @ [CHR 0xC3, CHR 0xA1] @ ''lidos / '', [''pairs'', ''total''], AsInt),
        (''  (pending '', [''pairs'', ''pending''], AsInt), ('', leased '', [''pairs'', ''leased''], AsInt),
        ('', completed '', [''pairs'', ''completed''], AsInt), ('', discarded '', [''pairs'', ''discarded''], AsInt),
        ('')'' @ [newline] @ ''  penta      LL '', [''penta'', ''ll''], AsInt64), ('' '' @ [CHR 0xC2, CHR 0xB7] @ '' LD '', [''penta'', ''ld''], AsInt64),
        ('' '' @ [CHR 0xC2, CHR 0xB7] @ '' DD/WL '', [''penta'', ''dd_wl''], AsInt64), ('' '' @ [CHR 0xC2, CHR 0xB7] @ '' WD '', [''penta'', ''wd''], AsInt64),
        ('' '' @ [CHR 0xC2, CHR 0xB7] @ '' WW '', [''penta'', ''ww''], AsInt64)]) (\<lambda>numbers.
       Inr (names @ [newline] @ ''  tc '' @ tc_string fmt tc_base tc_inc @ numbers @ [newline])))))"

definition status_score :: "formatter \<Rightarrow> json \<Rightarrow> string result" where
  "status_score fmt s =
     (if json_find s ''score'' = None then Inr []
      else bindE (show_members fmt s
        [(''  placar     +'', [''score'', ''wins''], AsInt), ('' ='', [''score'', ''draws''], AsInt),
         ('' -'', [''score'', ''losses''], AsInt), (''  ('', [''score'', ''points''], AsNumber ''%.1f''),
         ('' / '', [''score'', ''games''], AsInt), ('', '', [''score'', ''pct''], AsNumber ''%.1f'')]) (\<lambda>t.
           Inr (t @ ''%)'' @ [newline])))"

definition status_elo :: "formatter \<Rightarrow> json \<Rightarrow> string result" where
  "status_elo fmt s =
     bindE (show_members fmt s
       [(''  Elo        '', [''elo'', ''value''], AsNumber ''%+.2f''), (''  ['', [''elo'', ''ci_low''], AsNumber ''%+.2f''),
        ('', '', [''elo'', ''ci_high''], AsNumber ''%+.2f'')]) (\<lambda>t. Inr (t @ ''] (95%, log'' @ [CHR 0xC3, CHR 0xAD] @ ''stico)'' @ [newline]))"

definition status_adjudication :: "formatter \<Rightarrow> json \<Rightarrow> string result" where
  "status_adjudication fmt s =
     (case json_find s ''adjudication'' of
        None \<Rightarrow> Inr []
      | Some adj \<Rightarrow>
          bindE (json_at adj ''draw'') (\<lambda>draw.
          bindE (if is_object draw
                 then bindE (show_members fmt draw
                   [(''empate a partir do lance '', [''movenumber''], AsInt), ('', |eval| '' @ [CHR 0xE2, CHR 0x89, CHR 0xA4] @ '' '', [''score_cp''], AsInt),
                    ('' cp por '', [''movecount''], AsInt)]) (\<lambda>t. Inr (t @ '' lances''))
                 else Inr ''empate desligada'') (\<lambda>d.
          bindE (json_at adj ''resign'') (\<lambda>resign.
          bindE (if is_object resign
                 then bindE (show_members fmt resign
                   [('' '' @ [CHR 0xC2, CHR 0xB7] @ '' vit'' @ [CHR 0xC3, CHR 0xB3] @ ''ria com |eval| '' @ [CHR 0xE2, CHR 0x89, CHR 0xA5] @ '' '', [''score_cp''], AsInt), ('' cp por '', [''movecount''], AsInt)]) (\<lambda>t.
                   bindE (at_as get_bool resign ''twosided'') (\<lambda>two.
                     Inr (t @ '' lances'' @ (if two then '' (as duas engines)'' else []))))
                 else Inr ('' '' @ [CHR 0xC2, CHR 0xB7] @ '' vit'' @ [CHR 0xC3, CHR 0xB3] @ ''ria desligada'')) (\<lambda>r.
            Inr (''  adjudica'' @ [CHR 0xC3, CHR 0xA7, CHR 0xC3, CHR 0xA3] @ ''o '' @ d @ r @ [newline]))))))"

definition status_sprt :: "formatter \<Rightarrow> json \<Rightarrow> string result" where
  "status_sprt fmt s =
     (if json_find s ''sprt'' = None then Inr []
      else bindE (show_members fmt s
        [(''  LLR        '', [''sprt'', ''llr''], AsNumber ''%.2f''), (''  ['', [''sprt'', ''llr_lower''], AsNumber ''%.2f''),
         ('', '', [''sprt'', ''llr_upper''], AsNumber ''%.2f''), (''] bounds nElo ['', [''sprt'', ''elo0''], AsNumber ''%g''),
         ('', '', [''sprt'', ''elo1''], AsNumber ''%g''), (''], '' @ [CHR 0xCE, CHR 0xB1] @ '' '', [''sprt'', ''alpha''], AsNumber ''%g''),
         ('', '' @ [CHR 0xCE, CHR 0xB2] @ '' '', [''sprt'', ''beta''], AsNumber ''%g'')]) (\<lambda>t. Inr (t @ [newline])))"

definition cmd_status :: "formatter \<Rightarrow> network \<Rightarrow> string \<Rightarrow> int \<Rightarrow> int cli" where
  "cmd_status fmt net base test =
     and_then (cli_call net base ''GET'' (''/api/tests/'' @ show_int test @ ''/stats'') None) (\<lambda>s.
     and_then (lift (status_head fmt test s)) (\<lambda>head. and_then (print head) (\<lambda>_.
     and_then (lift (status_score fmt s)) (\<lambda>score. and_then (print score) (\<lambda>_.
     and_then (lift (status_elo fmt s)) (\<lambda>elo. and_then (print elo) (\<lambda>_.
     and_then (lift (status_adjudication fmt s)) (\<lambda>adj. and_then (print adj) (\<lambda>_.
     and_then (lift (status_sprt fmt s)) (\<lambda>sprt. and_then (print sprt) (\<lambda>_.
     and_then (lift (json_at s ''status'')) (\<lambda>status.
       if status = JString ''validating'' \<or> status = JString ''invalid''
       then and_then (print [newline]) (\<lambda>_. and_then (cmd_validation net base test False) (\<lambda>_. give 0))
       else give 0))))))))))))"

section \<open>The commands\<close>

definition cmd_stop :: "network \<Rightarrow> string \<Rightarrow> int \<Rightarrow> int cli" where
  "cmd_stop net base test =
     and_then (cli_call net base ''POST'' (''/api/admin/tests/'' @ show_int test @ ''/stop'') None) (\<lambda>r.
     and_then (lift (at_as get_string r ''previous_status'')) (\<lambda>previous.
     and_then (print (''teste '' @ show_int test @ '' parado (estava '' @ previous @ '')'' @ [newline])) (\<lambda>_.
     and_then (lift (json_at r ''promoted_test_id'')) (\<lambda>promoted.
       if json_number promoted = None then give 0
       else and_then (lift (get_int64 promoted)) (\<lambda>p.
              and_then (print (''teste '' @ show_int p @ '' promovido para running'' @ [newline])) (\<lambda>_. give 0))))))"

definition cmd_priority :: "network \<Rightarrow> string \<Rightarrow> int \<Rightarrow> int \<Rightarrow> int cli" where
  "cmd_priority net base test n =
     and_then (cli_call net base ''PATCH'' (''/api/admin/tests/'' @ show_int test) (Some (JObject [(''priority'', JInt n)]))) (\<lambda>_.
     and_then (print (''teste '' @ show_int test @ '': prioridade '' @ show_int n @ [newline])) (\<lambda>_. give 0))"

definition id_arg :: "cli_args \<Rightarrow> nat \<Rightarrow> int result" where
  "id_arg a i =
     (if length (ca_positional a) \<le> i then Inl (RuntimeError ''faltou o test_id'')
      else cli_to_int (ca_positional a ! i) ''test_id'')"

definition some_code :: "int cli \<Rightarrow> int option cli" where
  "some_code m = and_then m (\<lambda>rc. give (Some rc))"

record cli_env =
  ce_user :: "string option"
  ce_server :: "string option"

definition cli_server :: "cli_env \<Rightarrow> cli_args \<Rightarrow> string" where
  "cli_server env a =
     (case ca_options a ''server'' of
        Some u \<Rightarrow> u
      | None \<Rightarrow> (case ce_server env of Some u \<Rightarrow> u | None \<Rightarrow> ''http://localhost:8080''))"

text \<open>\<^verbatim>\<open>run\<close>: the exit status; \<^const>\<open>None\<close>: still waiting after so many polls.\<close>

definition cli_run ::
  "nat \<Rightarrow> formatter \<Rightarrow> (string \<Rightarrow> (real \<times> nat) option) \<Rightarrow> cli_env \<Rightarrow> network \<Rightarrow> string list \<Rightarrow> int option cli" where
  "cli_run polls fmt stod env net argv =
     and_then (lift (parse_args argv no_args)) (\<lambda>a.
       if ''help'' \<in> set (ca_flags a) \<or> ca_positional a = []
       then and_then (print kUsage) (\<lambda>_. give (Some (if ''help'' \<in> set (ca_flags a) then 0 else 2)))
       else
         let base = cli_server env a; cmd = hd (ca_positional a)
         in if cmd = ''submit'' then cmd_submit polls stod (ce_user env) net base a
            else if cmd = ''list'' then some_code (cmd_list fmt net base a)
            else if cmd = ''status'' then and_then (lift (id_arg a 1)) (\<lambda>i. some_code (cmd_status fmt net base i))
            else if cmd = ''validation''
            then and_then (lift (id_arg a 1)) (\<lambda>i. some_code (cmd_validation net base i False))
            else if cmd = ''stop'' then and_then (lift (id_arg a 1)) (\<lambda>i. some_code (cmd_stop net base i))
            else if cmd = ''priority''
            then if length (ca_positional a) < 3
                 then throw (RuntimeError ''uso: capi_net priority <id> <n>'')
                 else and_then (lift (cli_to_int (ca_positional a ! 2) ''prioridade'')) (\<lambda>n.
                      and_then (lift (id_arg a 1)) (\<lambda>i. some_code (cmd_priority net base i n)))
            else throw (RuntimeError (''comando desconhecido: '' @ cmd @ [newline, newline] @ kUsage)))"

text \<open>\<^verbatim>\<open>main\<close>: an exception is an exit status of 1.\<close>

definition cli_main ::
  "nat \<Rightarrow> formatter \<Rightarrow> (string \<Rightarrow> (real \<times> nat) option) \<Rightarrow> cli_env \<Rightarrow> network \<Rightarrow> string list \<Rightarrow> int option \<times> cli_state" where
  "cli_main polls fmt stod env net argv =
     (case cli_run polls fmt stod env net argv \<lparr>cl_calls = [], cl_out = []\<rparr> of
        (Inl _, s) \<Rightarrow> (Some 1, s)
      | (Inr rc, s) \<Rightarrow> (rc, s))"

end
