(* ===== verification/CliRuns.thy ===== *)
theory CliRuns
  imports Cli Spec
begin

text \<open>
  What the runs of the command-line tool promise: when it stops, what its exit status says,
  what it changes on the server, and that the server reads in a submission what was asked for.
\<close>

section \<open>Calls of a command\<close>

text \<open>The reply is an answer without an error status.\<close>

definition accepted :: "network \<Rightarrow> nat \<Rightarrow> bool" where
  "accepted net i \<longleftrightarrow> (case net i of Inl _ \<Rightarrow> False | Inr (status, _) \<Rightarrow> status < 400)"

definition changes_server :: "api_call \<Rightarrow> bool" where
  "changes_server c \<longleftrightarrow> ac_method c \<noteq> ''GET''"

text \<open>
  A command adds calls, at most \<open>w\<close> of them changing the server; all are accepted, except
  perhaps the last one of a command that throws.
\<close>

definition sends :: "network \<Rightarrow> nat \<Rightarrow> 'a cli \<Rightarrow> bool" where
  "sends net w m \<longleftrightarrow>
     (\<forall>s r s'. m s = (r, s') \<longrightarrow>
        (\<exists>cs. cl_calls s' = cl_calls s @ cs \<and> length (filter changes_server cs) \<le> w \<and>
           (\<forall>i. length (cl_calls s) \<le> i \<longrightarrow> i < length (cl_calls s') \<longrightarrow>
              (\<exists>x. r = Inr x) \<or> Suc i < length (cl_calls s') \<longrightarrow> accepted net i)))"

named_theorems sends_intros

lemma sends_simple [sends_intros]:
  "sends net w (give x)" "sends net w (throw e)" "sends net w (lift r)" "sends net w (print t)"
  by (auto simp: sends_def give_def throw_def lift_def print_def)

lemma reply_accepted: "cli_reply base path (net i) = Inr j \<Longrightarrow> accepted net i"
  by (auto simp: cli_reply_def accepted_def not_le split: sum.splits prod.splits if_splits)

lemma sends_call:
  "sends net (if method = ''GET'' then 0 else 1) (cli_call net base method path body)"
  by (auto simp: sends_def cli_call_def changes_server_def less_Suc_eq le_less intro: reply_accepted)

lemma sends_get [sends_intros]: "sends net 0 (cli_call net base ''GET'' path body)"
  using sends_call [of net "''GET''"] by simp

lemma sends_put:
  "sends net 1 (cli_call net base ''POST'' path body)" "sends net 1 (cli_call net base ''PATCH'' path body)"
  using sends_call [of net "''POST''"] sends_call [of net "''PATCH''"] by simp_all

lemma sends_and_then:
  assumes "sends net w m" and "\<And>x. sends net v (f x)"
  shows "sends net (w + v) (and_then m f)"
  unfolding sends_def
proof (intro allI impI)
  fix s r s' assume "and_then m f s = (r, s')"
  then consider e where "m s = (Inl e, s')" "r = Inl e" | x s1 where "m s = (Inr x, s1)" "f x s1 = (r, s')"
    unfolding and_then_iff by blast
  then show "\<exists>cs. cl_calls s' = cl_calls s @ cs \<and> length (filter changes_server cs) \<le> w + v \<and>
      (\<forall>i. length (cl_calls s) \<le> i \<longrightarrow> i < length (cl_calls s') \<longrightarrow>
         (\<exists>x. r = Inr x) \<or> Suc i < length (cl_calls s') \<longrightarrow> accepted net i)"
  proof cases
    case 1
    from assms(1) [unfolded sends_def, rule_format, OF 1(1)] obtain cs where
      "cl_calls s' = cl_calls s @ cs" "length (filter changes_server cs) \<le> w"
      "\<And>i. length (cl_calls s) \<le> i \<Longrightarrow> Suc i < length (cl_calls s') \<Longrightarrow> accepted net i"
      using Suc_lessD by blast
    with 1(2) show ?thesis by (intro exI [of _ cs]) auto
  next
    case 2
    from assms(1) [unfolded sends_def, rule_format, OF 2(1)] obtain cs where
      a: "cl_calls s1 = cl_calls s @ cs" "length (filter changes_server cs) \<le> w"
        "\<And>i. length (cl_calls s) \<le> i \<Longrightarrow> i < length (cl_calls s1) \<Longrightarrow> accepted net i" by blast
    from assms(2) [unfolded sends_def, rule_format, OF 2(2)] obtain ds where
      b: "cl_calls s' = cl_calls s1 @ ds" "length (filter changes_server ds) \<le> v"
        "\<And>i. length (cl_calls s1) \<le> i \<Longrightarrow> i < length (cl_calls s') \<Longrightarrow>
          (\<exists>x. r = Inr x) \<or> Suc i < length (cl_calls s') \<Longrightarrow> accepted net i" by blast
    have "accepted net i" if "length (cl_calls s) \<le> i" "i < length (cl_calls s')"
        "(\<exists>x. r = Inr x) \<or> Suc i < length (cl_calls s')" for i
      using a(3) b(3) that by (cases "i < length (cl_calls s1)") auto
    then show ?thesis using a(1,2) b(1,2) by (intro exI [of _ "cs @ ds"]) auto
  qed
qed

text \<open>Reads before a command, and reads after it.\<close>

lemma sends_after_get [sends_intros]:
  "sends net 0 m \<Longrightarrow> (\<And>x. sends net w (f x)) \<Longrightarrow> sends net w (and_then m f)"
  using sends_and_then [of net 0 m w f] by simp

lemma sends_before_get: "sends net w m \<Longrightarrow> (\<And>x. sends net 0 (f x)) \<Longrightarrow> sends net w (and_then m f)"
  using sends_and_then [of net w m 0 f] by simp

lemma sends_weaken: "sends net 0 m \<Longrightarrow> sends net w m"
  unfolding sends_def by (metis le_zero_eq zero_le)

lemma sends_choice [sends_intros]:
  "(b \<Longrightarrow> sends net w m) \<Longrightarrow> (\<not> b \<Longrightarrow> sends net w n) \<Longrightarrow> sends net w (if b then m else n)"
  "(c = None \<Longrightarrow> sends net w m) \<Longrightarrow> (\<And>x. c = Some x \<Longrightarrow> sends net w (k x)) \<Longrightarrow>
     sends net w (case c of None \<Rightarrow> m | Some x \<Rightarrow> k x)"
  by (auto split: option.split)

section \<open>The commands\<close>

lemma sends_wait [sends_intros]: "sends net 0 (wait_validation n net base test)"
  by (induction n) (auto intro!: sends_intros)

lemma sends_rows [sends_intros]: "sends net 0 (print_rows fmt ts)"
  by (induction ts) (auto intro!: sends_intros)

lemma sends_validation [sends_intros]: "sends net 0 (cmd_validation net base test quiet)"
  unfolding cmd_validation_def Let_def by (intro sends_intros) (auto intro: sends_intros split: json.split)

lemma sends_list: "sends net 0 (cmd_list fmt net base a)"
  unfolding cmd_list_def by (intro sends_intros)

lemma sends_status: "sends net 0 (cmd_status fmt net base test)"
  unfolding cmd_status_def by (intro sends_intros)

lemma sends_submit: "sends net 1 (cmd_submit polls stod user net base a)"
  unfolding cmd_submit_def by (rule sends_after_get, rule sends_intros, rule sends_before_get, rule sends_put, intro sends_intros)

lemma sends_stop: "sends net 1 (cmd_stop net base test)"
  unfolding cmd_stop_def by (rule sends_before_get, rule sends_put, intro sends_intros)

lemma sends_priority: "sends net 1 (cmd_priority net base test n)"
  unfolding cmd_priority_def by (rule sends_before_get, rule sends_put, intro sends_intros)

lemma sends_code: "sends net w m \<Longrightarrow> sends net w (some_code m)"
  unfolding some_code_def by (rule sends_before_get) (auto intro: sends_intros)

lemmas sends_commands = sends_submit sends_code sends_weaken [OF sends_list] sends_weaken [OF sends_status]
  sends_weaken [OF sends_validation] sends_stop sends_priority

lemma sends_run: "sends net 1 (cli_run polls fmt stod env net argv)"
  unfolding cli_run_def Let_def by (intro sends_intros sends_commands)

section \<open>What the server reads in a submission\<close>

text \<open>The members of an option: none, or one.\<close>

definition option_value :: "cli_args \<Rightarrow> string \<Rightarrow> (string \<Rightarrow> json result) \<Rightarrow> json option" where
  "option_value a opt read =
     (case ca_options a opt of None \<Rightarrow> None | Some v \<Rightarrow> (case read v of Inr j \<Rightarrow> Some j | Inl _ \<Rightarrow> None))"

lemma opt_member_find:
  "opt_member a opt key read = Inr ms \<Longrightarrow> map_of ms k = (if k = key then option_value a opt read else None)"
  by (auto simp: opt_member_def option_value_def split: option.splits)

lemma opt_member_reads:
  "opt_member a opt key read = Inr ms \<Longrightarrow> ca_options a opt = Some v \<Longrightarrow> \<exists>j. read v = Inr j"
  by (auto simp: opt_member_def)

lemma cpp_sto_range: "cpp_sto w s = Some (v, n) \<Longrightarrow> in_int_range w v"
  by (auto simp: cpp_sto_def Let_def split: if_splits)

lemma cli_to_int_range: "cli_to_int s what = Inr v \<Longrightarrow> int64_of_json v = v"
  by (auto simp: cli_to_int_def intro!: int64_of_json_id dest: cpp_sto_range split: option.splits if_splits)

abbreviation cli_kind :: "cli_args \<Rightarrow> string" where
  "cli_kind a \<equiv> (case ca_options a ''kind'' of None \<Rightarrow> ''sprt'' | Some k \<Rightarrow> k)"

abbreviation cli_number :: "(string \<Rightarrow> (real \<times> nat) option) \<Rightarrow> string \<Rightarrow> string \<Rightarrow> json result" where
  "cli_number stod opt v \<equiv> bindE (cli_to_double stod v (''--'' @ opt)) (\<lambda>r. Inr (JReal r))"

abbreviation cli_integer :: "string \<Rightarrow> string \<Rightarrow> json result" where
  "cli_integer opt v \<equiv> bindE (cli_to_int v (''--'' @ opt)) (\<lambda>n. Inr (JInt n))"

lemma map_of_parts:
  "map_of xs k = None \<Longrightarrow> map_of (xs @ ys) k = map_of ys k"
  "map_of ys k = None \<Longrightarrow> map_of (xs @ ys) k = map_of xs k"
  by (simp_all add: map_add_def split: option.split)

lemma submit_body_members:
  assumes "submit_body stod user a = Inr body"
  obtains candidate baseline tc book pairs n where
    "ca_options a ''candidate'' = Some candidate" "ca_options a ''baseline'' = Some baseline"
    "ca_options a ''tc'' = Some tc" "ca_options a ''book'' = Some book"
    "ca_options a ''pairs'' = Some pairs" "cli_to_int pairs ''--pairs'' = Inr n"
    "json_find body ''candidate_ref'' = Some (JString candidate)"
    "json_find body ''baseline_ref'' = Some (JString baseline)"
    "json_find body ''tc'' = Some (JString tc)" "json_find body ''book_name'' = Some (JString book)"
    "json_find body ''total_pairs'' = Some (JInt n)" "json_find body ''kind'' = Some (JString (cli_kind a))"
    "json_find body ''preset'' = (case ca_options a ''preset'' of Some p \<Rightarrow> Some (JString p)
        | None \<Rightarrow> if cli_kind a = ''sprt'' then Some (JString ''gainer'') else None)"
    "json_find body ''sprt_elo0'' = option_value a ''elo0'' (cli_number stod ''elo0'')"
    "json_find body ''sprt_elo1'' = option_value a ''elo1'' (cli_number stod ''elo1'')"
    "json_find body ''sprt_alpha'' = option_value a ''alpha'' (cli_number stod ''alpha'')"
    "json_find body ''sprt_beta'' = option_value a ''beta'' (cli_number stod ''beta'')"
    "json_find body ''name'' = option_value a ''name'' (\<lambda>v. Inr (JString v))"
    "json_find body ''hash_mb'' = option_value a ''hash'' (cli_integer ''hash'')"
    "json_find body ''priority'' = option_value a ''priority'' (cli_integer ''priority'')"
    "json_find body ''submitted_by'' = map_option JString user"
    "\<And>v. ca_options a ''hash'' = Some v \<Longrightarrow> \<exists>h. cli_to_int v ''--hash'' = Inr h"
    "\<And>v. ca_options a ''priority'' = Some v \<Longrightarrow> \<exists>p. cli_to_int v ''--priority'' = Inr p"
    "\<And>opt v. opt \<in> {''elo0'', ''elo1'', ''alpha'', ''beta''} \<Longrightarrow> ca_options a opt = Some v \<Longrightarrow>
       \<exists>r. cli_to_double stod v (''--'' @ opt) = Inr r"
proof -
  from assms obtain candidate baseline tc book pairs n elo0 elo1 alpha beta nm hash priority where
    req: "ca_options a ''candidate'' = Some candidate" "ca_options a ''baseline'' = Some baseline"
      "ca_options a ''tc'' = Some tc" "ca_options a ''book'' = Some book" "ca_options a ''pairs'' = Some pairs"
      "cli_to_int pairs ''--pairs'' = Inr n" and
    elo0: "opt_member a ''elo0'' ''sprt_elo0'' (cli_number stod ''elo0'') = Inr elo0" and
    elo1: "opt_member a ''elo1'' ''sprt_elo1'' (cli_number stod ''elo1'') = Inr elo1" and
    alpha: "opt_member a ''alpha'' ''sprt_alpha'' (cli_number stod ''alpha'') = Inr alpha" and
    beta: "opt_member a ''beta'' ''sprt_beta'' (cli_number stod ''beta'') = Inr beta" and
    nm: "opt_member a ''name'' ''name'' (\<lambda>v. Inr (JString v)) = Inr nm" and
    hash: "opt_member a ''hash'' ''hash_mb'' (cli_integer ''hash'') = Inr hash" and
    priority: "opt_member a ''priority'' ''priority'' (cli_integer ''priority'') = Inr priority" and
    body: "body = JObject
       ([(''candidate_ref'', JString candidate), (''baseline_ref'', JString baseline), (''tc'', JString tc),
         (''book_name'', JString book), (''total_pairs'', JInt n), (''kind'', JString (cli_kind a))] @
        (case ca_options a ''preset'' of Some p \<Rightarrow> [(''preset'', JString p)]
           | None \<Rightarrow> if cli_kind a = ''sprt'' then [(''preset'', JString ''gainer'')] else []) @
        elo0 @ elo1 @ alpha @ beta @ nm @ hash @ priority @
        (case user of None \<Rightarrow> [] | Some u \<Rightarrow> [(''submitted_by'', JString u)]))"
    unfolding submit_body_def Let_def need_def bindE_eq_Inr_iff by (auto split: option.splits)
  have preset: "map_of (case ca_options a ''preset'' of Some p \<Rightarrow> [(''preset'', JString p)]
      | None \<Rightarrow> if cli_kind a = ''sprt'' then [(''preset'', JString ''gainer'')] else []) k
    = (if k = ''preset'' then case ca_options a ''preset'' of Some p \<Rightarrow> Some (JString p)
        | None \<Rightarrow> if cli_kind a = ''sprt'' then Some (JString ''gainer'') else None else None)" for k
    by (cases "ca_options a ''preset''") simp_all
  have who: "map_of (case user of None \<Rightarrow> [] | Some u \<Rightarrow> [(''submitted_by'', JString u)]) k
    = (if k = ''submitted_by'' then map_option JString user else None)" for k
    by (cases user) simp_all
  note find = preset who elo0 [THEN opt_member_find] elo1 [THEN opt_member_find] alpha [THEN opt_member_find]
    beta [THEN opt_member_find] nm [THEN opt_member_find] hash [THEN opt_member_find] priority [THEN opt_member_find]
  have "\<exists>h. cli_to_int v ''--hash'' = Inr h" if "ca_options a ''hash'' = Some v" for v
    using opt_member_reads [OF hash that] by simp
  moreover have "\<exists>p. cli_to_int v ''--priority'' = Inr p" if "ca_options a ''priority'' = Some v" for v
    using opt_member_reads [OF priority that] by simp
  moreover have "\<exists>r. cli_to_double stod v (''--'' @ opt) = Inr r"
    if "opt \<in> {''elo0'', ''elo1'', ''alpha'', ''beta''}" "ca_options a opt = Some v" for opt v
    using that opt_member_reads [OF elo0] opt_member_reads [OF elo1] opt_member_reads [OF alpha] opt_member_reads [OF beta]
    by auto
  ultimately show thesis
    using req
    by (intro that [of candidate baseline tc book pairs n])
      (simp_all add: body find map_of_parts del: map_of_append)
qed


lemma read_members:
  "json_find j k = Some (JString t) \<Longrightarrow> spec_req_string j k = Inr t"
  "json_find j k = map_option JString u \<Longrightarrow> spec_opt_string j k = Inr u"
  "json_find j k = Some (JInt n) \<Longrightarrow> spec_opt_integer j k = Inr (Some (int64_of_json n))"
  "json_find j k = None \<Longrightarrow> spec_opt_integer j k = Inr None"
  by (auto simp: spec_req_string_def spec_opt_string_def spec_opt_integer_def json_member_def split: option.splits)

lemma option_value_simps:
  "ca_options a opt = None \<Longrightarrow> option_value a opt read = None"
  "ca_options a opt = Some v \<Longrightarrow> read v = Inr j \<Longrightarrow> option_value a opt read = Some j"
  by (simp_all add: option_value_def)

text \<open>An integer option, as the server reads it.\<close>

definition cli_opt_int :: "cli_args \<Rightarrow> string \<Rightarrow> int option" where
  "cli_opt_int a opt =
     (case ca_options a opt of None \<Rightarrow> None
      | Some v \<Rightarrow> (case cli_to_int v (''--'' @ opt) of Inr n \<Rightarrow> Some n | Inl _ \<Rightarrow> None))"

lemma read_integer_option:
  assumes "json_find body k = option_value a opt (cli_integer opt)"
    and "\<And>v. ca_options a opt = Some v \<Longrightarrow> \<exists>h. cli_to_int v (''--'' @ opt) = Inr h"
  shows "spec_opt_integer body k = Inr (cli_opt_int a opt)"
proof (cases "ca_options a opt")
  case None
  then show ?thesis using assms(1) by (simp add: read_members option_value_simps cli_opt_int_def)
next
  case (Some v)
  with assms(2) obtain h where h: "cli_to_int v (''--'' @ opt) = Inr h" by blast
  have "json_find body k = Some (JInt h)" using assms(1) Some h by (simp add: option_value_simps)
  then show ?thesis using Some h cli_to_int_range [OF h] by (simp add: read_members cli_opt_int_def)
qed

text \<open>The same for a number option.\<close>

definition cli_opt_real :: "(string \<Rightarrow> (real \<times> nat) option) \<Rightarrow> cli_args \<Rightarrow> string \<Rightarrow> real option" where
  "cli_opt_real stod a opt =
     (case ca_options a opt of None \<Rightarrow> None
      | Some v \<Rightarrow> (case cli_to_double stod v (''--'' @ opt) of Inr r \<Rightarrow> Some r | Inl _ \<Rightarrow> None))"

lemma read_number_option:
  assumes "json_find body k = option_value a opt (cli_number stod opt)"
    and "\<And>v. ca_options a opt = Some v \<Longrightarrow> \<exists>r. cli_to_double stod v (''--'' @ opt) = Inr r"
  shows "spec_opt_number body k = Inr (cli_opt_real stod a opt)"
    and "json_member body k = None \<longleftrightarrow> ca_options a opt = None"
proof -
  have "spec_opt_number body k = Inr (cli_opt_real stod a opt) \<and> (json_member body k = None \<longleftrightarrow> ca_options a opt = None)"
  proof (cases "ca_options a opt")
    case None
    then show ?thesis
      using assms(1) by (simp add: spec_opt_number_def json_member_def option_value_simps cli_opt_real_def)
  next
    case (Some v)
    with assms(2) obtain r where r: "cli_to_double stod v (''--'' @ opt) = Inr r" by blast
    have "json_find body k = Some (JReal r)" using assms(1) Some r by (simp add: option_value_simps)
    then show ?thesis using Some r by (simp add: spec_opt_number_def json_member_def cli_opt_real_def)
  qed
  then show "spec_opt_number body k = Inr (cli_opt_real stod a opt)" "json_member body k = None \<longleftrightarrow> ca_options a opt = None"
    by simp_all
qed

lemma read_name:
  "json_find body ''name'' = option_value a ''name'' (\<lambda>v. Inr (JString v)) \<Longrightarrow>
     spec_opt_string body ''name'' = Inr (ca_options a ''name'')"
  by (cases "ca_options a ''name''") (simp_all add: read_members option_value_def)

text \<open>The parts of an accepted body, as the fields of the specification.\<close>

lemma if_Inl_Inr: "(if p then Inl e else Inr x) = Inr y \<longleftrightarrow> \<not> p \<and> x = y"
  by auto

lemma bindE_last: "bindE m f = Inr y \<Longrightarrow> (\<And>x. f x = Inr y \<Longrightarrow> thesis) \<Longrightarrow> thesis"
  by auto

lemma parse_sprt_preset:
  assumes "parse_sprt body presets = Inr pb"
  shows "spec_opt_string body ''preset'' = Inr (Some (fst pb))"
proof -
  from assms obtain q where q: "spec_opt_string body ''preset'' = Inr q"
    unfolding parse_sprt_def bindE_eq_Inr_iff by blast
  with assms obtain p where p: "q = Some p" by (cases q) (simp_all add: parse_sprt_def)
  have "fst pb = p"
    by (rule bindE_last [OF assms [unfolded parse_sprt_def q p bindE.simps option.case]]) (simp split: if_split_asm, force)
  then show ?thesis using q p by simp
qed

text \<open>The bounds: those of the body for the preset \<open>custom\<close>, else those of the preset.\<close>

lemma parse_sprt_bounds:
  assumes "parse_sprt body presets = Inr (p, b)"
  shows "if p = ''custom''
    then spec_opt_number body ''sprt_elo0'' = Inr (Some (ps_elo0 b)) \<and>
      spec_opt_number body ''sprt_elo1'' = Inr (Some (ps_elo1 b)) \<and>
      (\<exists>x. spec_opt_number body ''sprt_alpha'' = Inr x \<and> ps_alpha b = (case x of None \<Rightarrow> 5 / 100 | Some x \<Rightarrow> x)) \<and>
      (\<exists>x. spec_opt_number body ''sprt_beta'' = Inr x \<and> ps_beta b = (case x of None \<Rightarrow> 5 / 100 | Some x \<Rightarrow> x))
    else \<not> has_sprt_bounds body \<and>
      (p = ''gainer'' \<and> b = preset_gainer presets \<or> p = ''nonreg'' \<and> b = preset_nonreg presets)"
proof -
  have p: "spec_opt_string body ''preset'' = Inr (Some p)" using parse_sprt_preset [OF assms] by simp
  show ?thesis
  proof (cases "p = ''custom''")
    case True
    with assms obtain e0 e1 where e: "spec_opt_number body ''sprt_elo0'' = Inr e0" "spec_opt_number body ''sprt_elo1'' = Inr e1"
      by (simp add: parse_sprt_def p) blast
    obtain x0 x1 where x: "e0 = Some x0" "e1 = Some x1"
      using assms True by (cases e0; cases e1) (simp_all add: parse_sprt_def p e)
    obtain al be where r: "spec_opt_number body ''sprt_alpha'' = Inr al" "spec_opt_number body ''sprt_beta'' = Inr be"
      using assms True by (simp add: parse_sprt_def p e x) blast
    have "b = \<lparr>ps_elo0 = x0, ps_elo1 = x1, ps_alpha = (case al of None \<Rightarrow> 5 / 100 | Some a \<Rightarrow> a),
        ps_beta = (case be of None \<Rightarrow> 5 / 100 | Some b \<Rightarrow> b)\<rparr>"
      using assms True by (simp add: parse_sprt_def p e x r Let_def split: if_split_asm)
    then show ?thesis using True e x r by simp
  next
    case False
    then show ?thesis using assms by (auto simp: parse_sprt_def p split: if_split_asm)
  qed
qed

lemma spec_parts:
  assumes "parse_test_spec oob presets body = Inr spec"
  shows "spec_req_string body ''kind'' = Inr (sp_kind spec)"
    and "spec_req_string body ''candidate_ref'' = Inr (sp_candidate_ref spec)"
    and "spec_req_string body ''baseline_ref'' = Inr (sp_baseline_ref spec)"
    and "spec_req_string body ''book_name'' = Inr (sp_book_name spec)"
    and "\<exists>t. spec_req_string body ''tc'' = Inr t \<and>
      parse_tc oob t = Inr \<lparr>tc_base = sp_tc_base_ms spec, tc_increment = sp_tc_increment_ms spec\<rparr>"
    and "\<exists>h. spec_opt_integer body ''hash_mb'' = Inr h \<and> sp_hash_mb spec = (case h of None \<Rightarrow> 16 | Some h \<Rightarrow> h)"
    and "spec_opt_integer body ''total_pairs'' = Inr (Some (sp_total_pairs spec))"
    and "\<exists>p. spec_opt_integer body ''priority'' = Inr p \<and> sp_priority spec = (case p of None \<Rightarrow> 0 | Some p \<Rightarrow> wrap_int 32 p)"
    and "spec_opt_string body ''submitted_by'' = Inr (sp_submitted_by spec)"
    and "\<exists>n. spec_opt_string body ''name'' = Inr n \<and>
      sp_name spec = (case n of None \<Rightarrow> sp_candidate_ref spec @ '' vs '' @ sp_baseline_ref spec | Some n \<Rightarrow> n)"
    and "if sp_kind spec = ''gauntlet'' then sp_sprt_preset spec = None
      else sp_kind spec = ''sprt'' \<and> spec_opt_string body ''preset'' = Inr (sp_sprt_preset spec)"
    and "if sp_kind spec = ''gauntlet''
      then \<not> has_sprt_bounds body \<and> sp_sprt_elo0 spec = None \<and> sp_sprt_elo1 spec = None \<and>
        sp_sprt_alpha spec = None \<and> sp_sprt_beta spec = None
      else \<exists>p b. parse_sprt body presets = Inr (p, b) \<and> sp_sprt_preset spec = Some p \<and>
        sp_sprt_elo0 spec = Some (ps_elo0 b) \<and> sp_sprt_elo1 spec = Some (ps_elo1 b) \<and>
        sp_sprt_alpha spec = Some (ps_alpha b) \<and> sp_sprt_beta spec = Some (ps_beta b)"
proof -
  have w: "1 \<le> n \<Longrightarrow> n \<le> 10000000 \<Longrightarrow> wrap_int 32 n = n" for n :: int
    by (simp add: wrap_int_id in_int_range_def)
  from assms obtain kind c b tt tc h hash book pairs total prio who sprt nm where
    p: "spec_req_string body ''kind'' = Inr kind" "kind = ''sprt'' \<or> kind = ''gauntlet''"
      "spec_req_string body ''candidate_ref'' = Inr c" "spec_req_string body ''baseline_ref'' = Inr b"
      "spec_req_string body ''tc'' = Inr tt" "parse_tc oob tt = Inr tc"
      "spec_opt_integer body ''hash_mb'' = Inr h"
      "(case h of None \<Rightarrow> Inr 16 | Some h \<Rightarrow> if h < 1 \<or> 4096 < h then Inl (SpecErr ''hash_mb must be in [1, 4096]'')
                               else Inr (wrap_int 32 h)) = Inr hash"
      "spec_req_string body ''book_name'' = Inr book"
      "spec_opt_integer body ''total_pairs'' = Inr pairs"
      "(case pairs of None \<Rightarrow> Inl (SpecErr ''missing field: total_pairs'')
                        | Some p \<Rightarrow> if p < 1 \<or> 10000000 < p then Inl (SpecErr ''total_pairs must be positive'')
                                   else Inr (wrap_int 32 p)) = Inr total"
      "spec_opt_integer body ''priority'' = Inr prio" "spec_opt_string body ''submitted_by'' = Inr who"
      "(if kind = ''gauntlet'' then
              (if json_member body ''preset'' \<noteq> None \<or> has_sprt_bounds body
               then Inl (SpecErr ''gauntlet does not take preset or SPRT bounds'')
               else Inr None)
            else bindE (parse_sprt body presets) (\<lambda>pb. Inr (Some pb))) = Inr sprt"
      "spec_opt_string body ''name'' = Inr nm" and
    f: "sp_kind spec = kind" "sp_candidate_ref spec = c" "sp_baseline_ref spec = b" "sp_book_name spec = book"
      "sp_tc_base_ms spec = tc_base tc" "sp_tc_increment_ms spec = tc_increment tc" "sp_hash_mb spec = hash"
      "sp_total_pairs spec = total" "sp_priority spec = (case prio of None \<Rightarrow> 0 | Some p \<Rightarrow> wrap_int 32 p)"
      "sp_submitted_by spec = who" "sp_name spec = (case nm of None \<Rightarrow> c @ '' vs '' @ b | Some n \<Rightarrow> n)"
      "sp_sprt_preset spec = map_option fst sprt" "sp_sprt_elo0 spec = map_option (ps_elo0 \<circ> snd) sprt"
      "sp_sprt_elo1 spec = map_option (ps_elo1 \<circ> snd) sprt" "sp_sprt_alpha spec = map_option (ps_alpha \<circ> snd) sprt"
      "sp_sprt_beta spec = map_option (ps_beta \<circ> snd) sprt"
    unfolding parse_test_spec_def bindE_eq_Inr_iff guardE_Inr Let_def if_Inl_Inr
    by (elim exE conjE) (rule that, assumption+, (hypsubst, simp only: test_spec.select_convs)+)
  show "spec_req_string body ''kind'' = Inr (sp_kind spec)"
    "spec_req_string body ''candidate_ref'' = Inr (sp_candidate_ref spec)"
    "spec_req_string body ''baseline_ref'' = Inr (sp_baseline_ref spec)"
    "spec_req_string body ''book_name'' = Inr (sp_book_name spec)"
    "spec_opt_string body ''submitted_by'' = Inr (sp_submitted_by spec)"
    using p f by simp_all
  show "\<exists>t. spec_req_string body ''tc'' = Inr t \<and>
      parse_tc oob t = Inr \<lparr>tc_base = sp_tc_base_ms spec, tc_increment = sp_tc_increment_ms spec\<rparr>"
    using p(5,6) f(5,6) by simp
  show "\<exists>h. spec_opt_integer body ''hash_mb'' = Inr h \<and> sp_hash_mb spec = (case h of None \<Rightarrow> 16 | Some h \<Rightarrow> h)"
    using p(7,8) f(7) w by (auto split: option.splits if_splits)
  show "spec_opt_integer body ''total_pairs'' = Inr (Some (sp_total_pairs spec))"
    using p(10,11) f(8) w by (auto split: option.splits if_splits)
  show "\<exists>p. spec_opt_integer body ''priority'' = Inr p \<and> sp_priority spec = (case p of None \<Rightarrow> 0 | Some p \<Rightarrow> wrap_int 32 p)"
    using p(12) f(9) by simp
  show "\<exists>n. spec_opt_string body ''name'' = Inr n \<and>
      sp_name spec = (case n of None \<Rightarrow> sp_candidate_ref spec @ '' vs '' @ sp_baseline_ref spec | Some n \<Rightarrow> n)"
    using p(15) f(2,3,11) by (auto split: option.split)
  show "if sp_kind spec = ''gauntlet'' then sp_sprt_preset spec = None
      else sp_kind spec = ''sprt'' \<and> spec_opt_string body ''preset'' = Inr (sp_sprt_preset spec)"
  proof (cases "kind = ''gauntlet''")
    case True
    with p(14) f(1,12) show ?thesis by (simp split: if_split_asm)
  next
    case False
    with p(14) obtain pb where "parse_sprt body presets = Inr pb" "sprt = Some pb" by auto
    with parse_sprt_preset [OF this(1)] False p(2) f(1,12) show ?thesis by simp
  qed
  show "if sp_kind spec = ''gauntlet''
      then \<not> has_sprt_bounds body \<and> sp_sprt_elo0 spec = None \<and> sp_sprt_elo1 spec = None \<and>
        sp_sprt_alpha spec = None \<and> sp_sprt_beta spec = None
      else \<exists>p b. parse_sprt body presets = Inr (p, b) \<and> sp_sprt_preset spec = Some p \<and>
        sp_sprt_elo0 spec = Some (ps_elo0 b) \<and> sp_sprt_elo1 spec = Some (ps_elo1 b) \<and>
        sp_sprt_alpha spec = Some (ps_alpha b) \<and> sp_sprt_beta spec = Some (ps_beta b)"
  proof (cases "kind = ''gauntlet''")
    case True
    with p(14) f(1,13-16) show ?thesis by (simp split: if_split_asm)
  next
    case False
    with p(14) obtain q b where "parse_sprt body presets = Inr (q, b)" "sprt = Some (q, b)" by auto
    with False f(1,12-16) show ?thesis by simp
  qed
qed

section \<open>Properties\<close>

text \<open>
  C31: A run of the command-line tool stops at the first call that fails: a call without an
  answer, or answered with an error status, is its last one and the exit status is 1. A run
  makes at most one call that changes the server, whatever it is asked and answered.
\<close>
theorem cli_stops_at_refusal:
  assumes "cli_main polls fmt stod env net argv = (rc, s)"
  shows "length (filter changes_server (cl_calls s)) \<le> 1 \<and>
    (\<forall>i < length (cl_calls s). \<not> accepted net i \<longrightarrow> rc = Some 1 \<and> Suc i = length (cl_calls s))"
proof -
  obtain r where run: "cli_run polls fmt stod env net argv \<lparr>cl_calls = [], cl_out = []\<rparr> = (r, s)"
    and rc: "rc = (case r of Inl _ \<Rightarrow> Some 1 | Inr rc \<Rightarrow> rc)"
    using assms by (auto simp: cli_main_def split: prod.splits sum.splits)
  from sends_run [unfolded sends_def, rule_format, OF run]
  have "length (filter changes_server (cl_calls s)) \<le> 1"
    and acc: "\<And>i. i < length (cl_calls s) \<Longrightarrow> (\<exists>x. r = Inr x) \<or> Suc i < length (cl_calls s) \<Longrightarrow> accepted net i"
    by auto
  moreover have "\<forall>i < length (cl_calls s). \<not> accepted net i \<longrightarrow> rc = Some 1 \<and> Suc i = length (cl_calls s)"
    using acc rc by (cases r) (auto intro: Suc_lessI)
  ultimately show ?thesis by blast
qed

theorem cli_stops_at_refusal_witness:
  "length (filter changes_server (cl_calls (snd (cli_main 0 (\<lambda>_ _. []) (\<lambda>_. None) \<lparr>ce_user = None, ce_server = None\<rparr>
      (\<lambda>_. Inr (404, Some (JObject [(''error'', JString ''test_not_found'')]))) [''stop'', ''7''])))) \<le> 1 \<and>
   cli_main 0 (\<lambda>_ _. []) (\<lambda>_. None) \<lparr>ce_user = None, ce_server = None\<rparr>
      (\<lambda>_. Inr (404, Some (JObject [(''error'', JString ''test_not_found'')]))) [''stop'', ''7''] =
     (Some 1, \<lparr>cl_calls = [\<lparr>ac_method = ''POST'', ac_path = ''/api/admin/tests/7/stop'', ac_body = None\<rparr>], cl_out = []\<rparr>)"
  (is "length (filter _ (cl_calls (snd ?run))) \<le> 1 \<and> _")
proof -
  have "digit_char 7 = CHR ''7''" by code_simp
  then have "?run = (Some 1, \<lparr>cl_calls = [\<lparr>ac_method = ''POST'', ac_path = ''/api/admin/tests/7/stop'', ac_body = None\<rparr>], cl_out = []\<rparr>)"
    by (simp add: cli_main_def cli_run_def and_then_def lift_def no_args_def starts_with_def kFlags_def
        id_arg_def cli_to_int_def cpp_sto_def Let_def is_space_def is_digit_def byte_def digits_value_def
        digit_value_def in_int_range_def some_code_def cmd_stop_def cli_call_def cli_reply_def error_message_def
        show_int_def show_nat.simps [of 7] is_digit_def)
  then show ?thesis
    using cli_stops_at_refusal [of 0 "\<lambda>_ _. []" "\<lambda>_. None"
        "\<lparr>ce_user = None, ce_server = None\<rparr>"
        "\<lambda>_. Inr (404, Some (JObject [(''error'', JString ''test_not_found'')]))" "[''stop'', ''7'']"]
    by simp
qed

text \<open>
  C30: What the server reads in a submission is what was asked for on the command line: refs,
  book, number of pairs and author as given, the time control as the server reads the text,
  SPRT and 16 MB where nothing is said, the preset \<open>gainer\<close> for an SPRT test without one, and
  the refs as the name of a test without one; with the preset \<open>custom\<close> the bounds and the error
  rates that were asked for, the rates 0.05 where nothing is said, and else those of the preset,
  and a submission that asks for bounds or rates without \<open>custom\<close> is not accepted. One thing may
  not be what was asked for: a priority outside 32 bits is stored modulo 2 to the 32nd.
\<close>
theorem cli_submission_understood:
  assumes "submit_body stod user a = Inr body" and "parse_test_spec oob presets body = Inr spec"
  shows "ca_options a ''candidate'' = Some (sp_candidate_ref spec) \<and>
    ca_options a ''baseline'' = Some (sp_baseline_ref spec) \<and>
    ca_options a ''book'' = Some (sp_book_name spec) \<and>
    (\<exists>tc. ca_options a ''tc'' = Some tc \<and>
       parse_tc oob tc = Inr \<lparr>tc_base = sp_tc_base_ms spec, tc_increment = sp_tc_increment_ms spec\<rparr>) \<and>
    cli_opt_int a ''pairs'' = Some (sp_total_pairs spec) \<and>
    sp_kind spec = (case ca_options a ''kind'' of None \<Rightarrow> ''sprt'' | Some k \<Rightarrow> k) \<and>
    sp_name spec = (case ca_options a ''name'' of
        None \<Rightarrow> sp_candidate_ref spec @ '' vs '' @ sp_baseline_ref spec | Some n \<Rightarrow> n) \<and>
    sp_hash_mb spec = (case cli_opt_int a ''hash'' of None \<Rightarrow> 16 | Some h \<Rightarrow> h) \<and>
    sp_priority spec = (case cli_opt_int a ''priority'' of None \<Rightarrow> 0 | Some p \<Rightarrow> if int32 p then p else wrap_int 32 p) \<and>
    sp_sprt_preset spec = (if sp_kind spec = ''sprt''
       then Some (case ca_options a ''preset'' of None \<Rightarrow> ''gainer'' | Some p \<Rightarrow> p) else None) \<and>
    sp_submitted_by spec = user \<and>
    (if sp_sprt_preset spec = Some ''custom''
     then sp_sprt_elo0 spec = cli_opt_real stod a ''elo0'' \<and> sp_sprt_elo1 spec = cli_opt_real stod a ''elo1'' \<and>
       sp_sprt_elo0 spec \<noteq> None \<and> sp_sprt_elo1 spec \<noteq> None \<and>
       sp_sprt_alpha spec = Some (case cli_opt_real stod a ''alpha'' of None \<Rightarrow> 5 / 100 | Some x \<Rightarrow> x) \<and>
       sp_sprt_beta spec = Some (case cli_opt_real stod a ''beta'' of None \<Rightarrow> 5 / 100 | Some x \<Rightarrow> x)
     else (\<forall>opt \<in> {''elo0'', ''elo1'', ''alpha'', ''beta''}. ca_options a opt = None) \<and>
       (let b = (case sp_sprt_preset spec of None \<Rightarrow> None
           | Some p \<Rightarrow> Some (if p = ''gainer'' then preset_gainer presets else preset_nonreg presets)) in
        sp_sprt_elo0 spec = map_option ps_elo0 b \<and> sp_sprt_elo1 spec = map_option ps_elo1 b \<and>
        sp_sprt_alpha spec = map_option ps_alpha b \<and> sp_sprt_beta spec = map_option ps_beta b))"
proof (rule submit_body_members [OF assms(1)])
  fix candidate baseline tc book pairs n
  assume given: "ca_options a ''candidate'' = Some candidate" "ca_options a ''baseline'' = Some baseline"
      "ca_options a ''tc'' = Some tc" "ca_options a ''book'' = Some book"
      "ca_options a ''pairs'' = Some pairs" "cli_to_int pairs ''--pairs'' = Inr n"
    and refs: "json_find body ''candidate_ref'' = Some (JString candidate)"
      "json_find body ''baseline_ref'' = Some (JString baseline)"
      "json_find body ''tc'' = Some (JString tc)" "json_find body ''book_name'' = Some (JString book)"
      "json_find body ''kind'' = Some (JString (cli_kind a))"
    and total: "json_find body ''total_pairs'' = Some (JInt n)"
    and preset: "json_find body ''preset'' = (case ca_options a ''preset'' of Some p \<Rightarrow> Some (JString p)
        | None \<Rightarrow> if cli_kind a = ''sprt'' then Some (JString ''gainer'') else None)"
    and name: "json_find body ''name'' = option_value a ''name'' (\<lambda>v. Inr (JString v))"
    and hash: "json_find body ''hash_mb'' = option_value a ''hash'' (cli_integer ''hash'')"
      "\<And>v. ca_options a ''hash'' = Some v \<Longrightarrow> \<exists>h. cli_to_int v ''--hash'' = Inr h"
    and prio: "json_find body ''priority'' = option_value a ''priority'' (cli_integer ''priority'')"
      "\<And>v. ca_options a ''priority'' = Some v \<Longrightarrow> \<exists>p. cli_to_int v ''--priority'' = Inr p"
    and user: "json_find body ''submitted_by'' = map_option JString user"
    and number: "json_find body ''sprt_elo0'' = option_value a ''elo0'' (cli_number stod ''elo0'')"
      "json_find body ''sprt_elo1'' = option_value a ''elo1'' (cli_number stod ''elo1'')"
      "json_find body ''sprt_alpha'' = option_value a ''alpha'' (cli_number stod ''alpha'')"
      "json_find body ''sprt_beta'' = option_value a ''beta'' (cli_number stod ''beta'')"
      "\<And>opt v. opt \<in> {''elo0'', ''elo1'', ''alpha'', ''beta''} \<Longrightarrow> ca_options a opt = Some v \<Longrightarrow>
         \<exists>r. cli_to_double stod v (''--'' @ opt) = Inr r"
  note parts = spec_parts [OF assms(2)]
  have strings: "cli_kind a = sp_kind spec" "candidate = sp_candidate_ref spec" "baseline = sp_baseline_ref spec"
      "book = sp_book_name spec" "user = sp_submitted_by spec"
    using parts(1-4,9) by (simp_all add: refs [THEN read_members(1)] user [THEN read_members(2)])
  have tc: "parse_tc oob tc = Inr \<lparr>tc_base = sp_tc_base_ms spec, tc_increment = sp_tc_increment_ms spec\<rparr>"
    using parts(5) by (simp add: refs(3) [THEN read_members(1)])
  have pairs: "cli_opt_int a ''pairs'' = Some (sp_total_pairs spec)"
    using parts(7) given(5,6) total [THEN read_members(3)] cli_to_int_range [OF given(6)] by (simp add: cli_opt_int_def)
  have hash': "sp_hash_mb spec = (case cli_opt_int a ''hash'' of None \<Rightarrow> 16 | Some h \<Rightarrow> h)"
    using parts(6) read_integer_option [OF hash(1)] hash(2) by simp
  have prio': "sp_priority spec = (case cli_opt_int a ''priority'' of None \<Rightarrow> 0 | Some p \<Rightarrow> if int32 p then p else wrap_int 32 p)"
    using parts(8) read_integer_option [OF prio(1)] prio(2) by (simp add: wrap_int_id split: option.split)
  have name': "sp_name spec = (case ca_options a ''name'' of
      None \<Rightarrow> sp_candidate_ref spec @ '' vs '' @ sp_baseline_ref spec | Some n \<Rightarrow> n)"
    using parts(10) read_name [OF name] by simp
  have preset': "sp_sprt_preset spec = (if sp_kind spec = ''sprt''
      then Some (case ca_options a ''preset'' of None \<Rightarrow> ''gainer'' | Some p \<Rightarrow> p) else None)"
  proof (cases "sp_kind spec = ''gauntlet''")
    case True
    then show ?thesis using parts(11) by simp
  next
    case False
    with parts(11) have k: "sp_kind spec = ''sprt''" and r: "spec_opt_string body ''preset'' = Inr (sp_sprt_preset spec)"
      by simp_all
    have "json_find body ''preset'' = map_option JString (Some (case ca_options a ''preset'' of None \<Rightarrow> ''gainer'' | Some p \<Rightarrow> p))"
      using preset strings(1) k by (simp split: option.splits)
    from read_members(2) [OF this] r k show ?thesis by simp
  qed
  note given_numbers = read_number_option [OF number(1)] read_number_option [OF number(2)]
    read_number_option [OF number(3)] read_number_option [OF number(4)]
  have vals: "spec_opt_number body ''sprt_elo0'' = Inr (cli_opt_real stod a ''elo0'')"
      "spec_opt_number body ''sprt_elo1'' = Inr (cli_opt_real stod a ''elo1'')"
      "spec_opt_number body ''sprt_alpha'' = Inr (cli_opt_real stod a ''alpha'')"
      "spec_opt_number body ''sprt_beta'' = Inr (cli_opt_real stod a ''beta'')"
    and none: "\<not> has_sprt_bounds body \<longleftrightarrow> (\<forall>opt \<in> {''elo0'', ''elo1'', ''alpha'', ''beta''}. ca_options a opt = None)"
    using given_numbers number(5) by (simp_all add: has_sprt_bounds_def)
  have bounds: "if sp_sprt_preset spec = Some ''custom''
     then sp_sprt_elo0 spec = cli_opt_real stod a ''elo0'' \<and> sp_sprt_elo1 spec = cli_opt_real stod a ''elo1'' \<and>
       sp_sprt_elo0 spec \<noteq> None \<and> sp_sprt_elo1 spec \<noteq> None \<and>
       sp_sprt_alpha spec = Some (case cli_opt_real stod a ''alpha'' of None \<Rightarrow> 5 / 100 | Some x \<Rightarrow> x) \<and>
       sp_sprt_beta spec = Some (case cli_opt_real stod a ''beta'' of None \<Rightarrow> 5 / 100 | Some x \<Rightarrow> x)
     else (\<forall>opt \<in> {''elo0'', ''elo1'', ''alpha'', ''beta''}. ca_options a opt = None) \<and>
       (let b = (case sp_sprt_preset spec of None \<Rightarrow> None
           | Some p \<Rightarrow> Some (if p = ''gainer'' then preset_gainer presets else preset_nonreg presets)) in
        sp_sprt_elo0 spec = map_option ps_elo0 b \<and> sp_sprt_elo1 spec = map_option ps_elo1 b \<and>
        sp_sprt_alpha spec = map_option ps_alpha b \<and> sp_sprt_beta spec = map_option ps_beta b)"
  proof (cases "sp_kind spec = ''gauntlet''")
    case True
    with parts(11,12) none show ?thesis by simp
  next
    case False
    with parts(12) obtain p b where b: "parse_sprt body presets = Inr (p, b)" "sp_sprt_preset spec = Some p"
      "sp_sprt_elo0 spec = Some (ps_elo0 b)" "sp_sprt_elo1 spec = Some (ps_elo1 b)"
      "sp_sprt_alpha spec = Some (ps_alpha b)" "sp_sprt_beta spec = Some (ps_beta b)" by auto
    from parse_sprt_bounds [OF b(1)] b(2-) vals none show ?thesis by (auto split: if_split_asm)
  qed
  show ?thesis using given strings tc pairs hash' prio' name' preset' bounds by simp
qed

text \<open>A reply that does not parse ends the listing with an exception.\<close>

lemma list_discarded:
  assumes "net (length (cl_calls s)) = Inr (200, Some discarded)" and "ca_options a ''limit'' = None"
  shows "fst (cmd_list fmt net base a s) = Inl JsonErr"
  using assms by (simp add: cmd_list_def and_then_def cli_call_def cli_reply_def print_def lift_def Let_def discarded_def
      list_row_def at_as_def json_at_def)

definition sample_args :: cli_args where
  "sample_args = no_args\<lparr>ca_options := [''candidate'' \<mapsto> ''dev'', ''baseline'' \<mapsto> ''main'', ''tc'' \<mapsto> ''10+0.1'',
     ''book'' \<mapsto> ''uho.epd'', ''pairs'' \<mapsto> ''20000'']\<rparr>"

definition sample_submission :: json where
  "sample_submission = JObject [(''candidate_ref'', JString ''dev''), (''baseline_ref'', JString ''main''),
     (''tc'', JString ''10+0.1''), (''book_name'', JString ''uho.epd''), (''total_pairs'', JInt 20000),
     (''kind'', JString ''sprt''), (''preset'', JString ''gainer''), (''submitted_by'', JString ''ana'')]"

lemma sample_pairs: "cli_to_int ''20000'' what = Inr 20000"
  by (simp add: cli_to_int_def cpp_sto_def Let_def char_class_defs starts_with_def digits_value_def
      digit_value_def in_int_range_def)

lemma sample_submitted: "submit_body (\<lambda>_. None) (Some ''ana'') sample_args = Inr sample_submission"
  by (simp add: submit_body_def need_def sample_args_def no_args_def opt_member_def sample_pairs
      sample_submission_def Let_def del: bindE_eq_Inr_iff)

lemma sample_submission_sprt:
  "parse_sprt sample_submission default_presets = Inr (''gainer'', preset_gainer default_presets)"
  by (simp add: parse_sprt_def sample_submission_def spec_opt_string_def spec_req_string_def
      json_member_def has_sprt_bounds_def default_presets_def del: bindE_eq_Inr_iff)

lemma sample_submission_fields:
  "spec_req_string sample_submission ''kind'' = Inr ''sprt''"
  "spec_req_string sample_submission ''candidate_ref'' = Inr ''dev''"
  "spec_req_string sample_submission ''baseline_ref'' = Inr ''main''"
  "spec_req_string sample_submission ''tc'' = Inr ''10+0.1''"
  "spec_req_string sample_submission ''book_name'' = Inr ''uho.epd''"
  "spec_opt_integer sample_submission ''hash_mb'' = Inr None"
  "spec_opt_integer sample_submission ''total_pairs'' = Inr (Some (int64_of_json 20000))"
  "spec_opt_integer sample_submission ''priority'' = Inr None"
  "spec_opt_string sample_submission ''submitted_by'' = Inr (Some ''ana'')"
  "spec_opt_string sample_submission ''name'' = Inr None"
  by (simp_all add: read_members sample_submission_def)

lemma sample_submission_parsed: "\<exists>s. parse_test_spec oob default_presets sample_submission = Inr s"
proof -
  have "is_object sample_submission" by (simp add: sample_submission_def)
  then show ?thesis
    by (simp add: parse_test_spec_def guardE_def sample_submission_fields sample_tc sample_names
        sample_submission_sprt int64_of_json_def wrap_int_def Let_def del: bindE_eq_Inr_iff)
qed

theorem cli_submission_understood_witness:
  "\<exists>spec. parse_test_spec (- (2 ^ 63)) default_presets sample_submission = Inr spec \<and>
     sp_candidate_ref spec = ''dev'' \<and> sp_total_pairs spec = 20000 \<and> sp_hash_mb spec = 16 \<and>
     sp_name spec = ''dev vs main'' \<and> sp_sprt_preset spec = Some ''gainer'' \<and> sp_submitted_by spec = Some ''ana''"
proof -
  obtain spec where "parse_test_spec (- (2 ^ 63)) default_presets sample_submission = Inr spec"
    using sample_submission_parsed by blast
  with cli_submission_understood [OF sample_submitted this] show ?thesis
    by (intro exI [of _ spec]) (simp add: sample_args_def no_args_def cli_opt_int_def sample_pairs)
qed

end
