(* ===== verification/EndToEnd.thy ===== *)
theory EndToEnd
  imports Contracts Promises
begin

text \<open>
  Client and server together, over the HTTP interface: what becomes of a pair that is claimed, on
  both sides, and of the result of a pair that is played while its lease is open.
\<close>

section \<open>A claim\<close>

text \<open>The ids and numbers of the rows are values of their columns.\<close>

definition ids_in_range :: "db \<Rightarrow> bool" where
  "ids_in_range db \<longleftrightarrow> (\<forall>t \<in> set (db_tests db). int64 (t_id t)) \<and> (\<forall>p \<in> set (db_pairs db). int64 (jp_id p)) \<and>
     (\<forall>op \<in> set (db_positions db). int32 (op_seq op))"

lemma nothing_test_id: "cr_test_id (claim_nothing client db) = 0 \<or>
    (\<exists>t \<in> set (db_tests db). cr_test_id (claim_nothing client db) = t_id t)"
  using running_test_Some [of db] by (auto simp: claim_nothing_def Let_def split: option.splits)

text \<open>What a claim for one slot gives: nothing and no change, or one pair, now leased.\<close>

definition one_leased :: "db \<Rightarrow> claim_result \<Rightarrow> int \<Rightarrow> db \<Rightarrow> bool" where
  "one_leased db r client db' \<longleftrightarrow> cr_status r = ClaimOk \<and>
     (\<exists>x now expires. cr_pairs r = [x] \<and>
        (\<exists>p \<in> set (db_pairs db). jp_id p = cp_pair_id x \<and> jp_status p = Pending \<and> jp_test p = cr_test_id r) \<and>
        db' = db\<lparr>db_pairs := map (\<lambda>p. if jp_id p = cp_pair_id x then lease_pair client now expires p else p) (db_pairs db)\<rparr>)"

lemma claim_one:
  assumes inv: "db_inv db" and range: "ids_in_range db"
    and claim: "claim_pairs cfg locked now client 1 db = Inr (r, db')"
  shows "int64 (cr_test_id r) \<and> (\<forall>x \<in> set (cr_pairs r). int64 (cp_pair_id x) \<and> int32 (cp_position_seq x)) \<and>
    (cr_pairs r = [] \<and> db' = db \<or> one_leased db r client db')"
  using claim
proof (cases rule: claim_cases)
  case 1
  have "int64 (0::int)" by (simp add: in_int_range_def)
  then show ?thesis using 1(1,2) nothing_test_id [of client db] range
    by (auto simp: claim_nothing_pairs ids_in_range_def)
next
  case (2 t c est expires)
  have tid: "int64 (t_id t)" using running_test_Some [OF 2(1)] range by (auto simp: ids_in_range_def)
  have zero: "int64 (0::int)" by (simp add: in_int_range_def)
  let ?rows = "claimed_rows db expires (picked_pairs locked (t_id t) (min (max 1 0) (c_slots c)) db)"
  have h: "if cr_pairs r = [] then db' = db \<and> r = claim_nothing client db
     else \<exists>t c. running_test db = Some t \<and> caller db client = Some c \<and> handout cfg locked now 1 t c db r db'"
    by (rule claim_handout [OF inv 2])
  show ?thesis
  proof (cases "cr_pairs r = []")
    case True
    then have "r = claim_nothing client db" "db' = db" using h by auto
    then show ?thesis using zero nothing_test_id [of client db] range
      by (auto simp: claim_nothing_pairs ids_in_range_def)
  next
    case False
    from h False obtain t' c' where run: "running_test db = Some t'" "caller db client = Some c'"
      and ho: "handout cfg locked now 1 t' c' db r db'" by auto
    have cid: "c_id c' = client"
      using run(2) find_client_Some by (auto simp: caller_def split: option.splits if_splits)
    have rows: "cr_pairs r = ?rows" using 2(7) False by (auto simp: Let_def claim_nothing_pairs split: if_splits)
    have ids: "int64 (cp_pair_id x) \<and> int32 (cp_position_seq x)" if "x \<in> set (cr_pairs r)" for x
      using claimed_rows_facts [of x db expires] that range picked_pairs_facts
      unfolding rows ids_in_range_def by fastforce
    have "int (length (cr_pairs r)) = min (min 1 (c_slots c'))
        (int (length (filter (claimable locked db (t_id t')) (db_pairs db))))"
      using ho unfolding handout_def Let_def by (simp only: length_map)
    then have len: "length (cr_pairs r) \<le> 1" by linarith
    with False obtain x where x: "cr_pairs r = [x]" by (cases "cr_pairs r") auto
    have st: "cr_status r = ClaimOk" using ho unfolding handout_def Let_def by (elim conjE)
    from ho obtain ends where upd: "db' = db\<lparr>db_pairs := map (\<lambda>p. if jp_id p \<in> set (map cp_pair_id (cr_pairs r))
        then lease_pair (c_id c') now ends p else p) (db_pairs db)\<rparr>"
      unfolding handout_def Let_def by (elim conjE exE)
    let ?ps = "filter (\<lambda>p. jp_id p \<in> set (map cp_pair_id (cr_pairs r))) (db_pairs db)"
    have all: "list_all (claimable locked db (t_id t')) ?ps" using ho unfolding handout_def Let_def by (elim conjE)
    have "length ?ps = length (map cp_pair_id (cr_pairs r))" using ho unfolding handout_def Let_def by (elim conjE)
    then have "?ps \<noteq> []" unfolding x by auto
    then have hd: "hd ?ps \<in> set ?ps" by (rule hd_in_set)
    then have "claimable locked db (t_id t') (hd ?ps)" using all unfolding list_all_iff by blast
    moreover have "cr_test_id r = t_id t'" using ho unfolding handout_def Let_def by (elim conjE)
    ultimately have "jp_status (hd ?ps) = Pending" "jp_test (hd ?ps) = cr_test_id r" by (simp_all only: claimable_def)
    moreover have "hd ?ps \<in> set (db_pairs db)" "jp_id (hd ?ps) = cp_pair_id x" using hd x by simp_all
    ultimately have "\<exists>p \<in> set (db_pairs db). jp_id p = cp_pair_id x \<and> jp_status p = Pending \<and> jp_test p = cr_test_id r"
      by blast
    then have "one_leased db r client db'"
      unfolding one_leased_def using st x upd cid by auto
    then show ?thesis using ids tid 2(7) False by (auto simp: Let_def claim_nothing_pairs split: if_splits)
  qed
qed

lemma post_claim_result:
  assumes "int64 client" and "claim_pairs cfg locked now client 1 db = Inr (r, db')"
  shows "post_claim cfg (Inr ()) locked now (ac_body (claim_call client 1)) db = (claim_response r, db')"
proof -
  have "req_int64 (JObject [(''client_id'', JInt client), (''slots_free'', JInt 1)]) ''client_id'' = Inr client"
    using assms(1) by (simp add: req_int64_def field_def int64_of_json_id del: bindE_eq_Inr_iff)
  moreover have "req_int (JObject [(''client_id'', JInt client), (''slots_free'', JInt 1)]) ''slots_free'' 0 = Inr 1"
    by (simp add: req_int_def req_int64_def field_def int64_of_json_id in_int_range_def INT32_MAX_def del: bindE_eq_Inr_iff)
  ultimately show ?thesis
    by (simp add: post_claim_def claim_call_def parse_body_def guarded_def assms(2) del: bindE_eq_Inr_iff)
qed

lemma path_id_show: "0 \<le> pair \<Longrightarrow> int64 pair \<Longrightarrow> path_id (show_int pair) = Inr pair"
  by (simp add: path_id_def show_int_def sto_show_nat)

section \<open>A pair that is given back\<close>

definition given_back :: "db \<Rightarrow> int \<Rightarrow> bool" where
  "given_back db pair \<longleftrightarrow> (\<exists>q \<in> set (db_pairs db). jp_id q = pair \<and> jp_status q = Pending \<and> jp_leased_to q = None)"

lemma post_abandon_gives_back:
  assumes "0 \<le> pair" "int64 pair" "int64 client" and "p \<in> set (db_pairs db)" "held_by pair client p"
  shows "given_back (snd (post_abandon (Inr ()) (show_int pair) (ac_body (abandon_call pair client)) db)) pair"
proof -
  note path_id_show [OF assms(1,2)]
  moreover have "req_int64 (JObject [(''client_id'', JInt client)]) ''client_id'' = Inr client"
    using assms(3) by (simp add: req_int64_def field_def int64_of_json_id del: bindE_eq_Inr_iff)
  ultimately have "snd (post_abandon (Inr ()) (show_int pair) (ac_body (abandon_call pair client)) db)
      = snd (abandon_pair pair client db)"
    by (simp add: post_abandon_def abandon_call_def parse_body_def guarded_def split: prod.split del: bindE_eq_Inr_iff)
  moreover have "release_pair p \<in> set (db_pairs (snd (abandon_pair pair client db)))"
    using assms(4,5) by (force simp: abandon_pair_def set_update_where)
  moreover have "jp_id (release_pair p) = pair" using assms(5) by (simp add: held_by_def release_pair_def)
  ultimately show ?thesis unfolding given_back_def by (intro bexI [of _ "release_pair p"]) (simp_all add: release_pair_def)
qed

section \<open>A delivery\<close>

lemma report_labels:
  "game_ready p \<Longrightarrow> \<not> isl (outcome_of_text (pg_outcome p)) \<and> \<not> isl (termination_of_text (pg_termination p))"
  by (auto simp: game_ready_def kOutcomes_def kTerminations_def outcome_of_text_def termination_of_text_def sql_enum_def)

lemma client_report_storable:
  assumes "pred_option game_ready p"
  shows "\<not> isl (outcome_of_text (gr_outcome (client_report slot tc cpu note i p other))) \<and>
    \<not> isl (termination_of_text (gr_termination (client_report slot tc cpu note i p other)))"
  using assms report_labels
  by (cases p) (simp_all add: client_report_def outcome_of_text_def termination_of_text_def sql_enum_def)

text \<open>What a slot has to report of a pair it has played.\<close>

definition played :: "int \<Rightarrow> int \<Rightarrow> string \<Rightarrow> string \<Rightarrow> slot_info \<Rightarrow> effective_time \<Rightarrow> real \<Rightarrow> json \<Rightarrow> bool" where
  "played oob client pgn note slot tc cpu body \<longleftrightarrow>
     make_result_body oob client pgn note slot tc cpu = Inr body \<and> slot_ready slot tc cpu \<and> int64 client \<and>
     (\<exists>ps. parsed_games oob pgn = Inr ps \<and> (\<forall>g. Some g \<in> set ps \<longrightarrow> counts_nonneg g))"

lemma played_report:
  assumes "played oob client pgn note slot tc cpu body" and gz: "\<And>s. \<not> isl (gzip s)"
  obtains report where "parse_pair_report body = Inr report" "pr_client_id report = client"
    "report_wf report" "storable gzip report"
proof -
  from assms(1) obtain ps where b: "make_result_body oob client pgn note slot tc cpu = Inr body"
    "slot_ready slot tc cpu" "int64 client" "parsed_games oob pgn = Inr ps"
    and nn: "\<And>g. Some g \<in> set ps \<Longrightarrow> counts_nonneg g"
    unfolding played_def by blast
  have ready: "game_ready g" if g: "Some g \<in> set ps" for g
  proof -
    obtain game where "parse_pgn_game oob game ''candidate'' = Inr (Some g)"
      using parsed_games_shape [OF b(4)] g by blast
    then show ?thesis using nn [OF g] by (rule parse_pgn_game_ready)
  qed
  have "length ps = 2" by (rule parsed_games_shape(1) [OF b(4)])
  then have mem: "ps ! 0 \<in> set ps" "ps ! 1 \<in> set ps" by simp_all
  have all: "pred_option game_ready q" if "q \<in> set ps" for q
  proof (cases q)
    case (Some g)
    then show ?thesis using ready [of g] that by simp
  qed simp
  note g = all [OF mem(1)] all [OF mem(2)]
  let ?r = "\<lparr>pr_client_id = client,
    pr_games = [client_report slot tc cpu note 0 (ps ! 0) (ps ! 1), client_report slot tc cpu note 1 (ps ! 1) (ps ! 0)]\<rparr>"
  have in_pair: "gr_game_in_pair (client_report slot tc cpu note i p other) = int i" for i p other
    by (cases p) (simp_all add: client_report_def)
  show thesis
  proof (rule that [of ?r])
    show "parse_pair_report body = Inr ?r" by (rule parse_result_body [OF b ready])
    show "report_wf ?r" by (simp add: report_wf_def in_pair)
    show "storable gzip ?r"
      unfolding storable_def using gz client_report_storable [OF g(1)] client_report_storable [OF g(2)] by simp
  qed simp
qed

lemma accepted_games:
  assumes "db_inv db" and "submit_result gzip now pair report db = Inr (r, db')" and "report_wf report"
    and "sr_status r = Accepted"
  shows "\<exists>new. db_games db' = db_games db @ new \<and> length new = 2 \<and>
    (\<forall>g \<in> set new. g_pair g = pair \<and> g_client g = pr_client_id report)"
  using assms(2,3)
proof (cases rule: submit_cases)
  case 1
  then show ?thesis using assms(4) by simp
next
  case (2 p t r0 r1 gz)
  have "tests_core (with_result now pair (r0, r1) gz db)"
    using db_invD(2) [OF assms(1)] tests_core_frame [of "with_result now pair (r0, r1) gz db" db] by simp
  from refresh_games [OF this 2(10)] have "db_games db' = db_games db @ [r0, r1]" by simp
  then show ?thesis using 2(8,9) by (simp add: row_for_def)
qed

lemma post_result_run:
  assumes "parse_pair_report body = Inr report" and "0 \<le> pair" "int64 pair"
  shows "post_result (Inr ()) gzip now (show_int pair) (Some body) db =
    (case submit_result gzip now pair report db of
       Inl e \<Rightarrow> (error_response e, db) | Inr (r, db') \<Rightarrow> (submit_response r, db'))"
proof -
  have "is_object body"
    using assms(1) by (cases body) (auto simp: parse_pair_report_def req_int64_def field_def json_member_def)
  then show ?thesis
    using assms by (simp add: post_result_def path_id_show parse_body_def guarded_def split: sum.split prod.split del: bindE_eq_Inr_iff)
qed

text \<open>The likelihood ratio of a test is not defined on its scores.\<close>

definition llr_undefined :: "db \<Rightarrow> test_row \<Rightarrow> exn \<Rightarrow> bool" where
  "llr_undefined db t e \<longleftrightarrow> t_kind t = Sprt \<and>
     (\<exists>penta. collect_penta (test_outcomes db (t_id t)) = Inr penta \<and>
        llr_normalized (the (t_sprt_elo0 t)) (the (t_sprt_elo1 t)) penta = Inl e)"

text \<open>The database with the pair completed and its two games on record, before the recalculation.\<close>

definition recorded :: "real \<Rightarrow> pair_report \<Rightarrow> pair_row \<Rightarrow> db \<Rightarrow> db \<Rightarrow> bool" where
  "recorded now report p db d \<longleftrightarrow> (\<exists>r0 r1 gz. d = with_result now (jp_id p) (r0, r1) gz db \<and>
     row_for (next_game db) (jp_id p) (jp_test p) (pr_client_id report) (pr_games report ! 0) (check_pair report ! 0) r0 \<and>
     row_for (next_game db + 1) (jp_id p) (jp_test p) (pr_client_id report) (pr_games report ! 1) (check_pair report ! 1) r1)"

definition scored :: "int \<Rightarrow> int \<Rightarrow> db \<Rightarrow> db \<Rightarrow> bool" where
  "scored pair client db db' \<longleftrightarrow>
     (\<exists>p \<in> set (db_pairs db'). jp_id p = pair \<and> jp_status p = Completed \<and> jp_leased_to p = Some client) \<and>
     (\<exists>new. db_games db' = db_games db @ new \<and> length new = 2 \<and> (\<forall>g \<in> set new. g_pair g = pair \<and> g_client g = client))"

text \<open>
  What a submission on an open lease does: the result is accepted and scored, except when the
  likelihood ratio of the pair's own test is not defined on its scores with this result; then the
  answer is an error and nothing has changed.
\<close>

definition result_settled :: "real \<Rightarrow> int \<Rightarrow> int \<Rightarrow> json \<Rightarrow> db \<Rightarrow> response \<times> db \<Rightarrow> bool" where
  "result_settled now pair client body db out \<longleftrightarrow>
     (\<exists>p \<in> set (db_pairs db). \<exists>t \<in> set (db_tests db). \<exists>report d.
        jp_id p = pair \<and> t_id t = jp_test p \<and> parse_pair_report body = Inr report \<and> recorded now report p db d \<and>
        (if \<exists>e. llr_undefined d t e
         then snd out = db \<and> (\<exists>e. llr_undefined d t e \<and> fst out = error_response e)
         else (\<exists>n. fst out = submit_response \<lparr>sr_status = Accepted, sr_valid_games = n\<rparr>) \<and>
           scored pair client db (snd out)))"

lemma refresh_undefined:
  assumes "pairs_inv d" "games_inv d" "tests_core d" and t: "t \<in> set (db_tests d)" "t_id t = i"
  shows "(\<exists>e. llr_undefined d t e) \<longleftrightarrow> isl (refresh_test now i d)"
    and "refresh_test now i d = Inl e \<Longrightarrow> llr_undefined d t e"
proof -
  show fails: "llr_undefined d t e" if "refresh_test now i d = Inl e" for e
    using refresh_fails [OF assms(1-3) that] test_unique [OF assms(3) _ t(1)] t(2) by (auto simp: llr_undefined_def)
  have "isl (refresh_test now i d)" if u: "llr_undefined d t e" for e
  proof -
    from u obtain penta where penta: "t_kind t = Sprt" "collect_penta (test_outcomes d i) = Inr penta"
      "llr_normalized (the (t_sprt_elo0 t)) (the (t_sprt_elo1 t)) penta = Inl e" using t(2) by (auto simp: llr_undefined_def)
    obtain e0 e1 where b: "t_sprt_elo0 t = Some e0" "t_sprt_elo1 t = Some e1"
      using tests_coreD(3) [OF assms(3) t(1)] penta(1) by (auto simp: test_params_ok_def)
    have find: "find_test d i = Some t" using find_test_iff [OF assms(3)] t by simp
    have "isl (sprt_evaluate t penta)"
      using penta b by (auto simp: sprt_evaluate_def not_null_def Let_def bindE_eq_Inl_iff isl_def)
    then show ?thesis
      using find penta(2) by (cases "refresh_test now i d") (auto simp: refresh_test_def Let_def isl_def)
  qed
  then show "(\<exists>e. llr_undefined d t e) \<longleftrightarrow> isl (refresh_test now i d)" using fails by (auto simp: isl_def)
qed

lemma result_is_settled:
  assumes inv: "db_inv db" and "\<And>s. \<not> isl (gzip s)" and "played oob client pgn note slot tc cpu body"
    and "0 \<le> pair" "int64 pair" and ol: "open_lease db pair client"
  shows "result_settled now pair client body db (post_result (Inr ()) gzip now (show_int pair) (Some body) db)"
proof -
  obtain report where rep: "parse_pair_report body = Inr report" "pr_client_id report = client"
    "report_wf report" "storable gzip report"
    by (rule played_report [OF assms(3,2)])
  note out = post_result_run [OF rep(1) assms(4,5), of gzip now db]
  obtain p t c where p: "p \<in> set (db_pairs db)" "jp_id p = pair" "jp_status p = Leased" "jp_leased_to p = Some (pr_client_id report)"
    and t: "t \<in> set (db_tests db)" "t_id t = jp_test p" "t_status t = Running"
    and c: "c \<in> set (db_clients db)" "c_id c = pr_client_id report" "c_status c \<noteq> Banned"
    using ol unfolding open_lease_def rep(2) by blast
  obtain r0 r1 gz where sub: "submit_result gzip now pair report db =
      bindE (refresh_test now (jp_test p) (with_result now pair (r0, r1) gz db)) (\<lambda>d.
        Inr (\<lparr>sr_status = Accepted, sr_valid_games = count_valid (check_pair report)\<rparr>, d))"
    and rows: "row_for (next_game db) pair (jp_test p) (pr_client_id report) (pr_games report ! 0) (check_pair report ! 0) r0"
    "row_for (next_game db + 1) pair (jp_test p) (pr_client_id report) (pr_games report ! 1) (check_pair report ! 1) r1"
    using submit_open [OF inv rep(3,4) p t c] by blast
  let ?d = "with_result now pair (r0, r1) gz db"
  note base = with_result_base [OF inv rep(3) p rows, where now = now and gz = gz]
  have winv: "pairs_inv ?d" "games_inv ?d" using base(3) by (simp_all add: work_inv_def)
  have td: "t \<in> set (db_tests ?d)" using t(1) by simp
  note undef = refresh_undefined [OF winv base(1) td t(2), of now]
  have rec: "recorded now report p db ?d" unfolding recorded_def p(2) using rows by blast
  show ?thesis
  proof (cases "refresh_test now (jp_test p) ?d")
    case (Inl e)
    then have "post_result (Inr ()) gzip now (show_int pair) (Some body) db = (error_response e, db)"
      unfolding out sub by simp
    then show ?thesis
      unfolding result_settled_def using p(1,2) t(1,2) rep(1) rec undef(2) [OF Inl]
      by (intro bexI [of _ p] bexI [of _ t] exI [of _ report] exI [of _ ?d]) auto
  next
    case (Inr d')
    let ?r = "\<lparr>sr_status = Accepted, sr_valid_games = count_valid (check_pair report)\<rparr>"
    have s: "submit_result gzip now pair report db = Inr (?r, d')" unfolding sub Inr by simp
    then have o: "post_result (Inr ()) gzip now (show_int pair) (Some body) db = (submit_response ?r, d')"
      unfolding out by simp
    have "\<not> (\<exists>e. llr_undefined ?d t e)" using undef(1) Inr by simp
    moreover have "scored pair client db d'"
      using accepted_completes [OF inv s rep(3)] accepted_games [OF inv s rep(3)] rep(2)
      unfolding scored_def by auto
    ultimately show ?thesis
      unfolding result_settled_def o using p(1,2) t(1,2) rep(1) rec
      by (intro bexI [of _ p] bexI [of _ t] exI [of _ report] exI [of _ ?d]) auto
  qed
qed

lemma settled_accepted:
  assumes "result_settled now pair client body db out" and "snd out \<noteq> db"
  shows "api_submit dump pair body (reply_of (fst out)) = Inr ApiAccepted"
proof -
  obtain n where "fst out = submit_response \<lparr>sr_status = Accepted, sr_valid_games = n\<rparr>"
    using assms unfolding result_settled_def by (auto split: if_splits)
  then show ?thesis
    using submit_agrees [where r = "\<lparr>sr_status = Accepted, sr_valid_games = n\<rparr>" and dump = dump and pair = pair and body = body]
    by simp
qed

section \<open>Properties\<close>

text \<open>
  What a turn of a slot does with the pair it has claimed, \<open>x\<close> of the test \<open>test\<close>: a pair of a test
  the slot has no engines for is given back; a pair whose playing throws is not mentioned again,
  and the exception ends the thread, which nothing catches; a pair whose games are cut short is
  given back; a result is sent as often as the delivery goes on, and when that ends the slot goes on.
\<close>

definition pair_worked_on :: "slot_input \<Rightarrow> engine_set \<Rightarrow> int \<Rightarrow> api_pair \<Rightarrow> turn_outcome \<Rightarrow> bool" where
  "pair_worked_on inp e test x t \<longleftrightarrow>
     (let i = pp_pair_id x in
      if test \<noteq> es_test_id e
      then st_actions t = [CallClaim, CallAbandon i, SleepFor 2000] \<and> st_end t = NextTurn
      else case in_play inp x of
        Inl ex \<Rightarrow> st_actions t = [CallClaim] \<and> st_end t = Terminate ex
      | Inr None \<Rightarrow> st_actions t = [CallClaim, CallAbandon i] \<and> st_end t = LeaveLoop
      | Inr (Some body) \<Rightarrow>
          st_actions t = CallClaim # fst (submit_with_retry i body (in_attempts inp)) \<and>
          st_end t = (if snd (submit_with_retry i body (in_attempts inp)) = None then Unfinished else NextTurn))"

lemma work_on_outcome: "pair_worked_on inp e test x (work_on inp e test x)"
  by (auto simp: pair_worked_on_def work_on_def turn_def Let_def split: sum.split option.split prod.split)

lemma work_on_calls:
  "a \<in> set (st_actions (work_on inp e test x)) \<Longrightarrow> pair_of a = None \<or> pair_of a = Some (pp_pair_id x)"
  "CallSubmit i body \<in> set (st_actions (work_on inp e test x)) \<Longrightarrow>
     st_actions (work_on inp e test x) = CallClaim # fst (submit_with_retry i body (in_attempts inp)) \<and>
     (snd (submit_with_retry i body (in_attempts inp)) \<noteq> None \<longrightarrow> st_done (work_on inp e test x))"
proof -
  show "pair_of a = None \<or> pair_of a = Some (pp_pair_id x)" if a: "a \<in> set (st_actions (work_on inp e test x))"
  proof (cases "test \<noteq> es_test_id e")
    case True
    then show ?thesis using a by (auto simp: work_on_def turn_def)
  next
    case False
    then show ?thesis
      using a submit_actions(1) [of "pp_pair_id x" _ 2 0 "in_attempts inp"]
      by (fastforce simp: work_on_def turn_def submit_with_retry_def split: sum.splits option.splits prod.splits)
  qed
  assume sub: "CallSubmit i body \<in> set (st_actions (work_on inp e test x))"
  then have same: "test = es_test_id e" by (auto simp: work_on_def turn_def split: if_splits)
  obtain b where b: "in_play inp x = Inr (Some b)"
    using sub same by (auto simp: work_on_def turn_def split: sum.splits option.splits)
  obtain acts d where s: "submit_attempts (pp_pair_id x) b 2 0 (in_attempts inp) = (acts, d)" by fastforce
  then have w: "work_on inp e test x = (case d of None \<Rightarrow> turn (CallClaim # acts) Unfinished 2
      | Some d \<Rightarrow> (turn (CallClaim # acts) NextTurn 2)\<lparr>st_ban := (d = SenderBanned), st_done := True\<rparr>)"
    using same b by (simp add: work_on_def submit_with_retry_def split: option.split)
  then have "CallSubmit i body \<in> set acts" using sub by (auto simp: turn_def split: option.splits)
  then have "i = pp_pair_id x" "body = b" using submit_actions(1) [OF s] by auto
  then show "st_actions (work_on inp e test x) = CallClaim # fst (submit_with_retry i body (in_attempts inp)) \<and>
     (snd (submit_with_retry i body (in_attempts inp)) \<noteq> None \<longrightarrow> st_done (work_on inp e test x))"
    using w s by (cases d) (simp_all add: submit_with_retry_def turn_def)
qed

text \<open>
  What the server does with that pair, in a database it has come to from the claim, while the lease
  is open there: a call that gives the pair back makes it pending again, with no holder; a result
  that the slot has played and whose first attempt is answered there is settled, and if it is
  accepted, this attempt is the whole delivery.
\<close>

definition pair_served ::
  "(string \<Rightarrow> string result) \<Rightarrow> (json \<Rightarrow> string) \<Rightarrow> int \<Rightarrow> slot_input \<Rightarrow> api_pair \<Rightarrow> turn_outcome \<Rightarrow> db \<Rightarrow> bool" where
  "pair_served gzip dump client inp x t d \<longleftrightarrow>
     (let i = pp_pair_id x in
      (CallAbandon i \<in> set (st_actions t) \<longrightarrow>
         given_back (snd (post_abandon (Inr ()) (show_int i) (ac_body (abandon_call i client)) d)) i) \<and>
      (\<forall>body oob pgn note slot tc cpu now elapsed stopping rest.
         (let out = post_result (Inr ()) gzip now (show_int i) (Some body) d in
          CallSubmit i body \<in> set (st_actions t) \<and> played oob client pgn note slot tc cpu body \<and>
          in_attempts inp = \<lparr>at_reply = api_submit dump i body (reply_of (fst out)),
            at_elapsed = elapsed, at_stop = stopping\<rparr> # rest \<longrightarrow>
          result_settled now i client body d out \<and>
          (snd out \<noteq> d \<longrightarrow> st_actions t = [CallClaim, CallSubmit i body] \<and> st_done t))))"

text \<open>
  C17: What becomes of a claimed pair. When a slot claims over HTTP, either the server changes
  nothing and the slot's turn makes no call about any pair, or the server leases exactly one
  pending pair to the client and the same turn works on it, and on no other. There are four ways
  on: it is given back, for want of engines of its test or because the games were cut short; its
  playing throws, and then the thread ends with no further call and the lease is left to expire;
  or its result is sent. While the lease is open, a server with a connection to its database makes
  a pair that is given back pending again, and settles a result that reaches it with the first
  attempt and has no negative number from the PGN: it completes the pair for the client, who sends
  nothing more about it, unless the likelihood ratio of the pair's own test is not defined.
\<close>
theorem claimed_pair_settled:
  fixes ccfg :: client_config and backoff :: int
  assumes "reachable scfg fs build gzip db" and "ids_in_range db" and "\<forall>p \<in> set (db_pairs db). 0 \<le> jp_id p"
    and "int64 client" and "\<And>s. \<not> isl (gzip s)" and "in_engines inp = Some e"
    and "in_claim inp = api_claim dump client 1
      (reply_of (fst (post_claim scfg (Inr ()) locked now (ac_body (claim_call client 1)) db)))"
  defines "after \<equiv> snd (post_claim scfg (Inr ()) locked now (ac_body (claim_call client 1)) db)"
    and "t \<equiv> slot_turn ccfg inp backoff"
  shows "after = db \<and> (\<forall>a \<in> set (st_actions t). pair_of a = None) \<or>
    (\<exists>p \<in> set (db_pairs db). \<exists>x leased expires. jp_status p = Pending \<and> pp_pair_id x = jp_id p \<and>
      after = db\<lparr>db_pairs := map (\<lambda>q. if jp_id q = jp_id p then lease_pair client leased expires q else q) (db_pairs db)\<rparr> \<and>
      (\<forall>a \<in> set (st_actions t). pair_of a = None \<or> pair_of a = Some (jp_id p)) \<and>
      pair_worked_on inp e (jp_test p) x t \<and>
      (\<forall>d. server_run scfg fs build gzip after d \<and> open_lease d (jp_id p) client \<longrightarrow>
         pair_served gzip dump client inp x t d))"
proof -
  have inv: "db_inv db" by (rule reachable_inv [OF assms(1)])
  obtain r db' where claim: "claim_pairs scfg locked now client 1 db = Inr (r, db')"
    using claim_total [OF inv] by blast
  note one = claim_one [OF inv assms(2) claim]
  have post: "post_claim scfg (Inr ()) locked now (ac_body (claim_call client 1)) db = (claim_response r, db')"
    by (rule post_claim_result [OF assms(4) claim])
  have after: "after = db'" by (simp add: after_def post)
  have agrees: "case cr_status r of
      ClaimOk \<Rightarrow> in_claim inp = Inr \<lparr>ak_status = ApiOk, ak_test_id = cr_test_id r, ak_pairs = map pair_seen (cr_pairs r)\<rparr>
    | ClaimNoActiveTest \<Rightarrow> in_claim inp = Inr \<lparr>ak_status = ApiNoActiveTest, ak_test_id = 0, ak_pairs = []\<rparr>
    | ClaimBanned \<Rightarrow> in_claim inp = Inr \<lparr>ak_status = ApiBanned, ak_test_id = 0, ak_pairs = []\<rparr>
    | ClaimUnknownClient \<Rightarrow> \<exists>m. in_claim inp = Inl (ProtocolErr m)"
    unfolding assms(7) post fst_conv using one by (intro claim_agrees) auto
  show ?thesis
  proof (cases "cr_pairs r = []")
    case True
    then have "after = db" using one after by (auto simp: one_leased_def)
    moreover have "\<forall>a \<in> set (st_actions t). pair_of a = None"
      using agrees True assms(6) unfolding t_def
      by (cases "cr_status r") (auto simp: slot_turn_def turn_def Let_def)
    ultimately show ?thesis by blast
  next
    case False
    then have ol: "one_leased db r client db'" using one by blast
    then obtain y leased expires p where y: "cr_status r = ClaimOk" "cr_pairs r = [y]"
      "p \<in> set (db_pairs db)" "jp_id p = cp_pair_id y" "jp_status p = Pending" "jp_test p = cr_test_id r"
      "db' = db\<lparr>db_pairs := map (\<lambda>q. if jp_id q = cp_pair_id y then lease_pair client leased expires q else q) (db_pairs db)\<rparr>"
      unfolding one_leased_def by blast
    let ?x = "pair_seen y"
    have x: "pp_pair_id ?x = jp_id p" using y(4) by (simp add: pair_seen_def)
    have t: "t = work_on inp e (jp_test p) ?x"
      using agrees y(1,2,6) assms(6) unfolding t_def by (simp add: slot_turn_def Let_def)
    have worked: "pair_worked_on inp e (jp_test p) ?x t" unfolding t by (rule work_on_outcome)
    have ids: "0 \<le> jp_id p" "int64 (jp_id p)" using assms(2,3) y(3) by (auto simp: ids_in_range_def)
    have served: "pair_served gzip dump client inp ?x t d"
      if d: "server_run scfg fs build gzip after d" "open_lease d (jp_id p) client" for d
    proof -
      have "server_step scfg fs build gzip db db'" by (rule server_step.Claim [OF claim])
      then have dinv: "db_inv d" using run_inv [OF server_step_inv [OF inv] d(1) [unfolded after]] by blast
      obtain q where q: "q \<in> set (db_pairs d)" "held_by (jp_id p) client q"
        using d(2) by (auto simp: open_lease_def held_by_def)
      note returned = post_abandon_gives_back [OF ids assms(4) q]
      have "result_settled now' (jp_id p) client body d out \<and>
          (snd out \<noteq> d \<longrightarrow> st_actions t = [CallClaim, CallSubmit (jp_id p) body] \<and> st_done t)"
        if out: "out = post_result (Inr ()) gzip now' (show_int (jp_id p)) (Some body) d"
          and sub: "CallSubmit (jp_id p) body \<in> set (st_actions t)"
          and "played oob client pgn nt slot tc cpu body"
          and att: "in_attempts inp = \<lparr>at_reply = api_submit dump (jp_id p) body (reply_of (fst out)),
            at_elapsed = elapsed, at_stop = stopping\<rparr> # rest"
        for out body oob pgn nt slot tc cpu now' elapsed stopping rest
      proof -
        have settled: "result_settled now' (jp_id p) client body d out"
          unfolding out by (rule result_is_settled [OF dinv assms(5) that(3) ids d(2)])
        have "st_actions t = [CallClaim, CallSubmit (jp_id p) body] \<and> st_done t" if "snd out \<noteq> d"
          using settled_accepted [OF settled that, of dump] work_on_calls(2) [OF sub [unfolded t]]
          unfolding t [symmetric] att by (simp add: submit_with_retry_def)
        with settled show ?thesis by blast
      qed
      with returned show ?thesis unfolding pair_served_def x Let_def by blast
    qed
    have "\<forall>a \<in> set (st_actions t). pair_of a = None \<or> pair_of a = Some (jp_id p)"
      using work_on_calls(1) unfolding t x [symmetric] by blast
    moreover have "after = db\<lparr>db_pairs := map (\<lambda>q. if jp_id q = jp_id p then lease_pair client leased expires q else q) (db_pairs db)\<rparr>"
      unfolding after y(4) by (rule y(7))
    ultimately show ?thesis using served worked x y(3,5) by blast
  qed
qed

text \<open>
  C18: The result of a pair that has been played is scored, when no number in it is negative and the
  server has a connection to its database. On an open lease the submission is settled: the server accepts it, completes the pair for this client and puts two games of this
  pair on record, and the slot stops there; unless the likelihood ratio of the pair's own test, an
  SPRT, is not defined on its scores with this result, and then the answer is an error and nothing
  has changed. Without an open lease nothing changes and the slot ends the delivery too.
\<close>
theorem played_pair_is_scored:
  fixes now :: real and db :: db and dump :: "json \<Rightarrow> string" and attempts :: "attempt list" and stopping :: bool
  assumes "reachable cfg fs build gzip db" and "\<And>s. \<not> isl (gzip s)"
    and "played oob client pgn note slot tc cpu body" and "0 \<le> pair" and "int64 pair"
  defines "out \<equiv> post_result (Inr ()) gzip now (show_int pair) (Some body) db"
  defines "sent \<equiv> submit_with_retry pair body (\<lparr>at_reply = api_submit dump pair body (reply_of (fst out)),
          at_elapsed = 0, at_stop = stopping\<rparr> # attempts)"
  shows "if open_lease db pair client
    then result_settled now pair client body db out \<and>
      (snd out \<noteq> db \<longrightarrow> api_submit dump pair body (reply_of (fst out)) = Inr ApiAccepted \<and>
         sent = ([CallSubmit pair body], Some Delivered))
    else snd out = db \<and> snd sent \<noteq> None"
proof -
  have inv: "db_inv db" by (rule reachable_inv [OF assms(1)])
  show ?thesis
  proof (cases "open_lease db pair client")
    case True
    have settled: "result_settled now pair client body db out"
      unfolding out_def by (rule result_is_settled [OF inv assms(2,3,4,5) True])
    moreover have "api_submit dump pair body (reply_of (fst out)) = Inr ApiAccepted" if "snd out \<noteq> db"
      by (rule settled_accepted [OF settled that])
    ultimately show ?thesis using True by (auto simp: sent_def submit_with_retry_def)
  next
    case False
    obtain report where rep: "parse_pair_report body = Inr report" "pr_client_id report = client"
      "report_wf report" "storable gzip report"
      by (rule played_report [OF assms(3,2)])
    from submit_closed [OF inv, of pair report gzip now] False rep(2) obtain s where
      s: "submit_result gzip now pair report db = Inr (submit_status_only s, db)" "s \<noteq> Accepted" by blast
    then have o: "out = (submit_response (submit_status_only s), db)"
      using post_result_run [OF rep(1) assms(4,5), of gzip now db] by (simp add: out_def)
    have "case submit_meaning s of
         Some s \<Rightarrow> api_submit dump pair body (reply_of (fst out)) = Inr s
       | None \<Rightarrow> \<exists>m. api_submit dump pair body (reply_of (fst out)) = Inl (ProtocolErr m)"
      using submit_agrees [where r = "submit_status_only s" and dump = dump and pair = pair and body = body]
      unfolding o fst_conv by (simp add: submit_status_only_def)
    then have "snd sent \<noteq> None" unfolding sent_def by (cases s) (auto simp: submit_with_retry_def)
    then show ?thesis using False o by simp
  qed
qed

section \<open>Witnesses\<close>

lemma demo_ids_in_range: "demo_started db \<Longrightarrow> ids_in_range db"
  by (auto simp: ids_in_range_def demo_started_def demo_running_def demo_pair_rows demo_position_rows in_int_range_def)

text \<open>A slot whose pair is cut short by the shutdown.\<close>

definition demo_engines :: engine_set where
  "demo_engines = \<lparr>es_test_id = 1, es_candidate = ''c'', es_baseline = ''b'', es_tc_base_ms = 10000,
     es_tc_increment_ms = 100, es_hash_mb = 16, es_threads = 1, es_adjudication = \<lparr>adj_draw = None, adj_resign = None\<rparr>\<rparr>"

definition demo_slot_input :: "db \<Rightarrow> slot_input" where
  "demo_slot_input db =
     \<lparr>in_engines = Some demo_engines,
      in_claim = api_claim (\<lambda>_. []) 1 1
        (reply_of (fst (post_claim default_config (Inr ()) (\<lambda>_. False) 10 (ac_body (claim_call 1 1)) db))),
      in_play = (\<lambda>_. Inr None), in_attempts = [\<lparr>at_reply = Inr ApiAccepted, at_elapsed = 0, at_stop = False\<rparr>]\<rparr>"

lemma demo_claim_one:
  assumes "demo_started db"
  shows "\<exists>r db'. claim_pairs default_config (\<lambda>_. False) 10 1 1 db = Inr (r, db') \<and>
    (\<exists>expires. db_pairs db' = lease_pair 1 10 expires (hd demo_pairs) # tl demo_pairs)"
proof -
  obtain t where t: "db_tests db = [t]" "demo_running t" using assms by (auto simp: demo_started_def)
  note d = assms [unfolded demo_started_def] t
  have c: "caller db 1 = Some demo_client" "c_slots demo_client = 2" "c_cpu_factor demo_client = None"
    using d by (simp_all add: caller_def find_client_def demo_client_def insert_client_row_def demo_reg_def)
  have r: "running_test db = Some t" using t by (simp add: running_test_def demo_running_def)
  have e: "est_pair_ms t = Inr 64000"
    using t(2) by (simp add: est_pair_ms_def demo_running_def pg_int4_def in_int_range_def del: bindE_eq_Inr_iff)
  have p: "picked_pairs (\<lambda>_. False) (t_id t) 1 db = [hd demo_pairs]"
    using d by (simp add: picked_pairs_def demo_pair_rows demo_running_def)
  show ?thesis
    using d unfolding claim_pairs_def
    by (simp add: c r e p Let_def claimed_rows_def demo_position_rows demo_pair_rows update_where_def lease_pair_def
        del: bindE_eq_Inr_iff)
qed

theorem claimed_pair_settled_witness:
  "\<exists>db t. demo_reachable db \<and> t = slot_turn default_client_config (demo_slot_input db) 2 \<and>
     st_actions t = [CallClaim, CallAbandon 1] \<and>
     given_back (snd (post_abandon (Inr ()) (show_int 1) (ac_body (abandon_call 1 1))
       (snd (post_claim default_config (Inr ()) (\<lambda>_. False) 10 (ac_body (claim_call 1 1)) db)))) 1"
proof -
  obtain d0 where d: "demo_reachable d0" "demo_started d0" by (rule demo_run)
  have i: "int64 1" by (simp add: in_int_range_def)
  obtain r db' expires where c: "claim_pairs default_config (\<lambda>_. False) 10 1 1 d0 = Inr (r, db')"
    "db_pairs db' = lease_pair 1 10 expires (hd demo_pairs) # tl demo_pairs"
    using demo_claim_one [OF d(2)] by blast
  let ?after = "snd (post_claim default_config (Inr ()) (\<lambda>_. False) 10 (ac_body (claim_call 1 1)) d0)"
  let ?t = "slot_turn default_client_config (demo_slot_input d0) 2"
  have after: "?after = db'" using post_claim_result [OF i c(1)] by simp
  have pos: "\<forall>p \<in> set (db_pairs d0). 0 \<le> jp_id p"
    using d(2) by (simp add: demo_started_def demo_pair_rows)
  have gz: "\<not> isl (demo_gzip s)" for s by (simp add: demo_gzip_def)
  have eng: "in_engines (demo_slot_input d0) = Some demo_engines" by (simp add: demo_slot_input_def)
  have ne: "db' \<noteq> d0" using c(2) d(2) by (auto simp: demo_started_def demo_pair_rows lease_pair_def)
  note all = claimed_pair_settled [OF d(1) demo_ids_in_range [OF d(2)] pos i gz eng, where ccfg = default_client_config
      and backoff = 2 and dump = "\<lambda>_. []" and locked = "\<lambda>_. False" and now = 10, unfolded after]
  have "in_claim (demo_slot_input d0) = api_claim (\<lambda>_. []) 1 1
      (reply_of (fst (post_claim default_config (Inr ()) (\<lambda>_. False) 10 (ac_body (claim_call 1 1)) d0)))"
    by (simp add: demo_slot_input_def)
  from all [OF this] ne obtain p x where p: "p \<in> set (db_pairs d0)" "pp_pair_id x = jp_id p"
    "\<exists>leased expires. db' = d0\<lparr>db_pairs := map (\<lambda>q. if jp_id q = jp_id p then lease_pair 1 leased expires q else q) (db_pairs d0)\<rparr>"
    "pair_worked_on (demo_slot_input d0) demo_engines (jp_test p) x ?t"
    "open_lease db' (jp_id p) 1 \<longrightarrow> pair_served demo_gzip (\<lambda>_. []) 1 (demo_slot_input d0) x ?t db'"
    by blast
  have first: "jp_id p = 1 \<and> jp_test p = 1"
    using p(1,3) c(2) d(2) by (auto simp: demo_started_def demo_pair_rows lease_pair_def)
  then have acts: "st_actions ?t = [CallClaim, CallAbandon 1]"
    using p(2,4) by (simp add: pair_worked_on_def demo_slot_input_def demo_engines_def)
  have "open_lease db' 1 1"
  proof -
    obtain t where t: "db_tests d0 = [t]" "demo_running t" using d(2) by (auto simp: demo_started_def)
    have "db_tests db' = db_tests d0" "db_clients db' = db_clients d0" using p(3) by auto
    then show ?thesis
      unfolding open_lease_def c(2) using t d(2)
      by (auto simp: demo_started_def demo_pair_rows lease_pair_def demo_running_def demo_client_def insert_client_row_def)
  qed
  then have "given_back (snd (post_abandon (Inr ()) (show_int 1) (ac_body (abandon_call 1 1)) db')) 1"
    using p(2,5) first acts by (simp add: pair_served_def Let_def)
  then show ?thesis using d(1) acts unfolding after [symmetric] by blast
qed

lemma demo_played_body: "\<exists>body. played 0 1 demo_pgn [] demo_slot demo_tc (21 / 20) body"
proof -
  obtain g where g: "parse_pgn_game 0 demo_pgn ''candidate'' = Inr (Some g)" "counts_nonneg g"
    using demo_game by blast
  have ps: "parsed_games 0 demo_pgn = Inr [Some g, None]"
    by (simp add: parsed_games_def demo_split g(1) del: bindE_eq_Inr_iff)
  then obtain body where "make_result_body 0 1 demo_pgn [] demo_slot demo_tc (21 / 20) = Inr body"
    by (simp add: make_result_body_def del: bindE_eq_Inr_iff)
  then show ?thesis
    using ps g(2) by (auto simp: played_def slot_ready_def demo_slot_def demo_tc_def natural_def INT32_MAX_def in_int_range_def)
qed

theorem played_pair_is_scored_witness:
  "\<exists>db body. demo_reachable db \<and> open_lease db 1 1 \<and> played 0 1 demo_pgn [] demo_slot demo_tc (21 / 20) body \<and>
     api_submit (\<lambda>_. []) 1 body (reply_of (fst (post_result (Inr ()) demo_gzip 20 (show_int 1) (Some body) db)))
       = Inr ApiAccepted"
proof -
  obtain d1 where d: "demo_reachable d1" "demo_leased d1" by (rule demo_run)
  obtain body where body: "played 0 1 demo_pgn [] demo_slot demo_tc (21 / 20) body" using demo_played_body by blast
  obtain t where t: "db_tests d1 = [t]" "demo_running t" using d(2) by (auto simp: demo_leased_def)
  have "lease_pair 1 10 610 (hd demo_pairs) \<in> set (db_pairs d1)"
    using d(2) by (simp add: demo_leased_def demo_pair_rows)
  moreover have "demo_client \<in> set (db_clients d1)" using d(2) by (simp add: demo_leased_def)
  ultimately have ol: "open_lease d1 1 1"
    unfolding open_lease_def using t
    by (force simp: demo_pair_rows lease_pair_def demo_running_def demo_client_def insert_client_row_def)
  have gz: "\<not> isl (demo_gzip s)" for s by (simp add: demo_gzip_def)
  have i: "0 \<le> (1::int)" "int64 1" by (simp_all add: in_int_range_def)
  have "\<not> llr_undefined d u e" if "u \<in> set (db_tests d1)" for d u e
    using t that by (simp add: demo_running_def llr_undefined_def)
  moreover have "\<not> scored 1 1 d1 d1" by (simp add: scored_def)
  ultimately have "snd (post_result (Inr ()) demo_gzip 20 (show_int 1) (Some body) d1) \<noteq> d1"
    if "result_settled 20 1 1 body d1 (post_result (Inr ()) demo_gzip 20 (show_int 1) (Some body) d1)"
    using that by (auto simp: result_settled_def)
  with played_pair_is_scored [OF d(1) gz body i, where dump = "\<lambda>_. []" and now = 20 and stopping = False and attempts = "[]"] ol
  have "api_submit (\<lambda>_. []) 1 body (reply_of (fst (post_result (Inr ()) demo_gzip 20 (show_int 1) (Some body) d1)))
       = Inr ApiAccepted" by auto
  with d(1) ol body show ?thesis by blast
qed

end
