(* ===== verification/RunnerThreads.thy ===== *)
theory RunnerThreads
  imports RunnerLoop
begin

text \<open>
  \<^verbatim>\<open>Runner::run\<close> with its threads: the main thread polls the server and prepares the engines,
  each slot's thread runs its loop, and all of them and the signal thread share the stop flag, the
  flag of the ban, the count of delivered pairs and the engines. A step is one access to the
  shared state; what a thread does between two accesses (calls, games, sleeps) belongs to the
  step before. \<^verbatim>\<open>sleep_for\<close> waits for a time at most, so a sleep ends with or without \<^verbatim>\<open>wake\<close>,
  and spurious or lost notifications change nothing but the time.
\<close>

section \<open>A slot's thread\<close>

text \<open>
  Where a slot's thread stands: before the test of its loop, before it reads the engines, in its
  turn with the engines it has read, before each of the writes that may follow the turn, or at
  its end.
\<close>

datatype slot_pc =
    LoopHead int
  | ReadEngines int
  | InTurn int engine_set
  | SetBanned turn_outcome
  | StopBanned turn_outcome
  | CountPair turn_outcome
  | CompareMax turn_outcome int
  | ThreadEnd

definition next_pc :: "turn_outcome \<Rightarrow> slot_pc" where
  "next_pc t = (if st_end t = NextTurn then LoopHead (st_backoff t) else ThreadEnd)"

definition after_ban :: "turn_outcome \<Rightarrow> slot_pc" where
  "after_ban t = (if st_done t then CountPair t else next_pc t)"

text \<open>\<open>inp\<close> is what a turn meets; \<^const>\<open>None\<close>: the thread has ended, or its turn does not end so.\<close>

fun slot_step :: "client_config \<Rightarrow> slot_input \<Rightarrow> slot_pc \<Rightarrow> runner_state \<Rightarrow> (slot_pc \<times> runner_state) option" where
  "slot_step cfg inp (LoopHead b) st = Some (if ru_stop st then ThreadEnd else ReadEngines b, st)"
| "slot_step cfg inp (ReadEngines b) st =
     Some (case ru_engines st of None \<Rightarrow> LoopHead b | Some e \<Rightarrow> InTurn b e, st)"
| "slot_step cfg inp (InTurn b e) st =
     (let t = slot_turn cfg (inp\<lparr>in_engines := Some e\<rparr>) b
      in case st_end t of
           Unfinished \<Rightarrow> None
         | Terminate _ \<Rightarrow> None
         | _ \<Rightarrow> Some (if st_ban t then SetBanned t else after_ban t, st))"
| "slot_step cfg inp (SetBanned t) st = Some (StopBanned t, st\<lparr>ru_banned := True\<rparr>)"
| "slot_step cfg inp (StopBanned t) st = Some (after_ban t, request_stop st)"
| "slot_step cfg inp (CountPair t) st =
     (let pairs = ru_pairs_done st + 1 in Some (CompareMax t pairs, st\<lparr>ru_pairs_done := pairs\<rparr>))"
| "slot_step cfg inp (CompareMax t pairs) st =
     Some (next_pc t,
       if 0 < cc_max_pairs cfg \<and> cc_max_pairs cfg \<le> pairs then request_stop st else st)"
| "slot_step cfg inp ThreadEnd st = None"

text \<open>An exception that nothing catches ends the process.\<close>

definition turn_throws :: "client_config \<Rightarrow> slot_input \<Rightarrow> slot_pc \<Rightarrow> bool" where
  "turn_throws cfg inp pc \<longleftrightarrow>
     (case pc of
        InTurn b e \<Rightarrow> (case st_end (slot_turn cfg (inp\<lparr>in_engines := Some e\<rparr>) b) of Terminate _ \<Rightarrow> True | _ \<Rightarrow> False)
      | _ \<Rightarrow> False)"

section \<open>The main thread\<close>

datatype main_pc =
    MainHead
  | Polling
  | MainBanned
  | MainStop
  | Preparing api_test
  | Joining
  | Returned bool

text \<open>The poll up to the engines that are withdrawn, and what the preparation leaves.\<close>

definition poll_begin ::
  "bool result \<Rightarrow> api_test option result \<Rightarrow> runner_state \<Rightarrow> main_pc \<times> runner_state" where
  "poll_begin hb act st =
     (case hb of
        Inl _ \<Rightarrow> (MainHead, st)
      | Inr banned \<Rightarrow>
          if banned then (MainBanned, st)
          else case act of
            Inl _ \<Rightarrow> (MainHead, st)
          | Inr None \<Rightarrow> (MainHead, st\<lparr>ru_engines := None\<rparr>)
          | Inr (Some t) \<Rightarrow>
              if map_option es_test_id (ru_engines st) = Some (ap_test_id t) then (MainHead, st)
              else if ru_failed_test st = Some (ap_test_id t) then (MainHead, st)
              else (Preparing t, st\<lparr>ru_engines := None\<rparr>))"

definition publish_engines ::
  "(string \<Rightarrow> string \<Rightarrow> string option result) \<Rightarrow> string \<Rightarrow> api_test \<Rightarrow> runner_state \<Rightarrow> runner_state" where
  "publish_engines build arch t st =
     (case prepare_engines build arch t of
        Inl _ \<Rightarrow> st
      | Inr (Some es) \<Rightarrow> st\<lparr>ru_engines := Some es\<rparr>
      | Inr None \<Rightarrow> st\<lparr>ru_failed_test := Some (ap_test_id t)\<rparr>)"

fun main_step ::
  "(string \<Rightarrow> string \<Rightarrow> string option result) \<Rightarrow> string \<Rightarrow> bool result \<Rightarrow> api_test option result \<Rightarrow> bool \<Rightarrow>
   main_pc \<Rightarrow> runner_state \<Rightarrow> (main_pc \<times> runner_state) option" where
  "main_step build arch hb act joined MainHead st = Some (if ru_stop st then Joining else Polling, st)"
| "main_step build arch hb act joined Polling st = Some (poll_begin hb act st)"
| "main_step build arch hb act joined MainBanned st = Some (MainStop, st\<lparr>ru_banned := True\<rparr>)"
| "main_step build arch hb act joined MainStop st = Some (MainHead, request_stop st)"
| "main_step build arch hb act joined (Preparing t) st = Some (MainHead, publish_engines build arch t st)"
| "main_step build arch hb act joined Joining st =
     (if joined then Some (Returned (ru_banned st), st) else None)"
| "main_step build arch hb act joined (Returned b) st = None"

section \<open>All threads\<close>

record client_threads =
  ct_shared :: runner_state
  ct_main :: main_pc
  ct_slots :: "slot_pc list"
  ct_crashed :: bool

definition all_joined :: "client_threads \<Rightarrow> bool" where
  "all_joined s \<longleftrightarrow> list_all (\<lambda>pc. pc = ThreadEnd) (ct_slots s)"

definition run_start :: "nat \<Rightarrow> client_threads" where
  "run_start slots =
     \<lparr>ct_shared = \<lparr>ru_stop = False, ru_banned = False, ru_pairs_done = 0, ru_engines = None, ru_failed_test = None\<rparr>,
      ct_main = MainHead, ct_slots = replicate slots (LoopHead 2), ct_crashed = False\<rparr>"

inductive thread_step ::
  "client_config \<Rightarrow> (string \<Rightarrow> string \<Rightarrow> string option result) \<Rightarrow> string \<Rightarrow> client_threads \<Rightarrow> client_threads \<Rightarrow> bool"
  for cfg build arch where
  Signal: "\<not> ct_crashed s \<Longrightarrow> \<not> ru_stop (ct_shared s) \<Longrightarrow>
    thread_step cfg build arch s (s\<lparr>ct_shared := request_stop (ct_shared s)\<rparr>)"
| Main: "\<not> ct_crashed s \<Longrightarrow>
    main_step build arch hb act (all_joined s) (ct_main s) (ct_shared s) = Some (pc, st) \<Longrightarrow>
    thread_step cfg build arch s (s\<lparr>ct_main := pc, ct_shared := st\<rparr>)"
| Slot: "\<not> ct_crashed s \<Longrightarrow> i < length (ct_slots s) \<Longrightarrow>
    slot_step cfg inp (ct_slots s ! i) (ct_shared s) = Some (pc, st) \<Longrightarrow>
    thread_step cfg build arch s (s\<lparr>ct_slots := (ct_slots s)[i := pc], ct_shared := st\<rparr>)"
| Crash: "\<not> ct_crashed s \<Longrightarrow> i < length (ct_slots s) \<Longrightarrow> turn_throws cfg inp (ct_slots s ! i) \<Longrightarrow>
    thread_step cfg build arch s (s\<lparr>ct_crashed := True\<rparr>)"

section \<open>The steps of a thread alone\<close>

text \<open>Undisturbed, the steps of a poll are \<^const>\<open>poll_server\<close>, and those of a turn \<^const>\<open>after_turn\<close>.\<close>

fun poll_rest :: "(string \<Rightarrow> string \<Rightarrow> string option result) \<Rightarrow> string \<Rightarrow> main_pc \<times> runner_state \<Rightarrow> runner_state" where
  "poll_rest build arch (MainBanned, st) = request_stop (st\<lparr>ru_banned := True\<rparr>)"
| "poll_rest build arch (Preparing t, st) = publish_engines build arch t st"
| "poll_rest build arch (_, st) = st"

lemma poll_alone: "poll_rest build arch (poll_begin hb act st) = snd (poll_server build arch hb act st)"
  by (auto simp: poll_begin_def poll_server_def publish_engines_def ban_runner_def Let_def
      split: sum.splits option.splits)

definition turn_steps :: "client_config \<Rightarrow> turn_outcome \<Rightarrow> runner_state \<Rightarrow> slot_pc \<times> runner_state" where
  "turn_steps cfg t st =
     (let step = (\<lambda>p. case slot_step cfg undefined (fst p) (snd p) of Some q \<Rightarrow> q | None \<Rightarrow> p);
          p = (if st_ban t then step (step (SetBanned t, st)) else (after_ban t, st))
      in if st_done t then step (step p) else p)"

lemma turn_alone: "turn_steps cfg t st = (next_pc t, after_turn cfg t st)"
  by (auto simp: turn_steps_def after_turn_def after_ban_def ban_runner_def request_stop_def Let_def)

section \<open>Invariants\<close>

text \<open>The threads that will count no further pair once the maximum \<open>m\<close> is reached.\<close>

definition finishing :: "int \<Rightarrow> bool \<Rightarrow> slot_pc \<Rightarrow> bool" where
  "finishing m stop pc \<longleftrightarrow>
     (case pc of CompareMax _ pairs \<Rightarrow> m \<le> pairs | LoopHead _ \<Rightarrow> stop | ThreadEnd \<Rightarrow> True | _ \<Rightarrow> False)"

definition pairs_bounded :: "int \<Rightarrow> client_threads \<Rightarrow> bool" where
  "pairs_bounded m s \<longleftrightarrow>
     ru_pairs_done (ct_shared s) < m + int (length (filter (finishing m (ru_stop (ct_shared s))) (ct_slots s)))"


lemma filter_update:
  assumes "i < length xs"
  shows "length (filter P (xs[i := y])) + (if P (xs ! i) then 1 else 0)
     = length (filter P xs) + (if P y then 1 else (0::nat))"
proof -
  have "xs = take i xs @ xs ! i # drop (Suc i) xs" using assms by (rule id_take_nth_drop)
  then have "length (filter P xs) = length (filter P (take i xs @ xs ! i # drop (Suc i) xs))" by simp
  then show ?thesis using assms by (simp add: upd_conv_take_nth_drop)
qed

lemma finishing_mono: "finishing m stop pc \<Longrightarrow> (stop \<Longrightarrow> stop') \<Longrightarrow> finishing m stop' pc"
  by (auto simp: finishing_def split: slot_pc.splits)

lemma filter_finishing_mono:
  "(stop \<Longrightarrow> stop') \<Longrightarrow> length (filter (finishing m stop) xs) \<le> length (filter (finishing m stop') xs)"
  by (induction xs) (auto intro: finishing_mono le_SucI)

text \<open>A step of a slot: the flags only rise, and a thread that is finishing counts nothing.\<close>

lemma slot_step_flags:
  assumes "slot_step cfg inp pc st = Some (pc', st')"
  shows "(ru_stop st \<longrightarrow> ru_stop st') \<and> (ru_banned st \<longrightarrow> ru_banned st')"
  using assms
  by (cases pc) (auto simp: request_stop_def Let_def split: turn_end.splits option.splits if_splits)

lemma slot_step_count:
  assumes "slot_step cfg inp pc st = Some (pc', st')" and "0 < cc_max_pairs cfg"
  shows "ru_pairs_done st' = ru_pairs_done st \<and>
      (finishing (cc_max_pairs cfg) (ru_stop st') pc \<longrightarrow> finishing (cc_max_pairs cfg) (ru_stop st') pc') \<or>
    ru_pairs_done st' = ru_pairs_done st + 1 \<and> \<not> finishing (cc_max_pairs cfg) (ru_stop st') pc \<and>
      (cc_max_pairs cfg \<le> ru_pairs_done st' \<longrightarrow> finishing (cc_max_pairs cfg) (ru_stop st') pc')"
  using assms
  by (cases pc) (auto simp: request_stop_def finishing_def next_pc_def Let_def split: turn_end.splits option.splits if_splits)

lemma main_step_keeps:
  assumes "main_step build arch hb act joined pc st = Some (pc', st')"
  shows "ru_pairs_done st' = ru_pairs_done st \<and> (ru_stop st \<longrightarrow> ru_stop st')"
  using assms
  by (cases pc) (auto simp: poll_begin_def publish_engines_def request_stop_def
      split: sum.splits option.splits if_splits)

lemma pairs_bounded_step:
  assumes "thread_step cfg build arch s s'" and "0 < cc_max_pairs cfg"
    and "pairs_bounded (cc_max_pairs cfg) s"
  shows "pairs_bounded (cc_max_pairs cfg) s'"
  using assms(1)
proof cases
  case Signal
  then show ?thesis
    using assms(3) filter_finishing_mono [of "ru_stop (ct_shared s)" True "cc_max_pairs cfg" "ct_slots s"]
    by (simp add: pairs_bounded_def request_stop_def)
next
  case (Main hb act pc st)
  then show ?thesis
    using assms(3) main_step_keeps [OF Main(3)]
      filter_finishing_mono [of "ru_stop (ct_shared s)" "ru_stop st" "cc_max_pairs cfg" "ct_slots s"]
    by (simp add: pairs_bounded_def)
next
  case (Slot i inp pc st)
  let ?m = "cc_max_pairs cfg" and ?stop = "ru_stop (ct_shared s)"
  let ?old = "ct_slots s ! i"
  have mono: "length (filter (finishing ?m ?stop) (ct_slots s)) \<le> length (filter (finishing ?m (ru_stop st)) (ct_slots s))"
    using slot_step_flags [OF Slot(4)] by (intro filter_finishing_mono) simp
  have upd: "length (filter (finishing ?m (ru_stop st)) ((ct_slots s)[i := pc])) + (if finishing ?m (ru_stop st) ?old then 1 else 0)
      = length (filter (finishing ?m (ru_stop st)) (ct_slots s)) + (if finishing ?m (ru_stop st) pc then 1 else 0)"
    by (rule filter_update [OF Slot(3)])
  show ?thesis
    using slot_step_count [OF Slot(4) assms(2)] upd mono assms(3)
    by (auto simp: pairs_bounded_def Slot(1) split: if_splits)
next
  case (Crash i inp)
  then show ?thesis using assms(3) by (simp add: pairs_bounded_def)
qed

lemma pairs_bounded_run:
  assumes "(thread_step cfg build arch)\<^sup>*\<^sup>* (run_start n) s" and "0 < cc_max_pairs cfg"
  shows "pairs_bounded (cc_max_pairs cfg) s"
  using assms(1)
proof (induction rule: rtranclp_induct)
  case base
  then show ?case using assms(2) by (simp add: pairs_bounded_def run_start_def)
next
  case (step s s')
  then show ?case using pairs_bounded_step [OF _ assms(2)] by blast
qed

lemma threads_kept:
  assumes "(thread_step cfg build arch)\<^sup>*\<^sup>* s s'"
  shows "length (ct_slots s') = length (ct_slots s)"
  using assms by (induction rule: rtranclp_induct) (auto elim!: thread_step.cases)





section \<open>The shutdown\<close>















section \<open>Properties\<close>

text \<open>
  C34: The limit of pairs is kept up to the pairs in hand. With a maximum, however the threads
  interleave, the client delivers fewer than the maximum plus the number of its slots: the slot
  that reaches the maximum stops the others, and each of them delivers at most the pair it has.
\<close>
theorem max_pairs_kept:
  assumes "(thread_step cfg build arch)\<^sup>*\<^sup>* (run_start slots) s" and "0 < cc_max_pairs cfg"
  shows "ru_pairs_done (ct_shared s) < cc_max_pairs cfg + int slots"
proof -
  have "length (ct_slots s) = slots" using threads_kept [OF assms(1)] by (simp add: run_start_def)
  moreover have "length (filter (finishing (cc_max_pairs cfg) (ru_stop (ct_shared s))) (ct_slots s)) \<le> length (ct_slots s)"
    by (rule length_filter_le)
  ultimately show ?thesis using pairs_bounded_run [OF assms] by (simp add: pairs_bounded_def)
qed

text \<open>
  The bound is sharp: two slots that are both in a turn when the first delivers the only pair
  asked for.
\<close>

definition quick_delivery :: slot_input where
  "quick_delivery = \<lparr>in_engines = None,
     in_claim = Inr \<lparr>ak_status = ApiOk, ak_test_id = 1, ak_pairs = [\<lparr>pp_pair_id = 1, pp_position_seq = 1, pp_fen = []\<rparr>]\<rparr>,
     in_play = (\<lambda>_. Inr (Some JNull)), in_attempts = [\<lparr>at_reply = Inr ApiAccepted, at_elapsed = 0, at_stop = False\<rparr>]\<rparr>"

definition quick_test :: api_test where
  "quick_test = \<lparr>ap_test_id = 1, ap_kind = ''sprt'', ap_candidate_commit = ''c'', ap_baseline_commit = ''b'',
     ap_candidate_tarball_url = [], ap_baseline_tarball_url = [], ap_tc_base_ms = 10000, ap_tc_increment_ms = 100,
     ap_hash_mb = 16, ap_threads = 1, ap_adjudication = \<lparr>adj_draw = None, adj_resign = None\<rparr>\<rparr>"

datatype scheduled = ByMain "bool result" "api_test option result" | BySlot nat slot_input | BySignal

definition one_step ::
  "client_config \<Rightarrow> (string \<Rightarrow> string \<Rightarrow> string option result) \<Rightarrow> string \<Rightarrow> scheduled \<Rightarrow> client_threads \<Rightarrow> client_threads option" where
  "one_step cfg build arch x s =
     (if ct_crashed s then None
      else case x of
        ByMain hb act \<Rightarrow> map_option (\<lambda>(pc, st). s\<lparr>ct_main := pc, ct_shared := st\<rparr>)
                           (main_step build arch hb act (all_joined s) (ct_main s) (ct_shared s))
      | BySlot i inp \<Rightarrow>
          if i < length (ct_slots s)
          then map_option (\<lambda>(pc, st). s\<lparr>ct_slots := (ct_slots s)[i := pc], ct_shared := st\<rparr>)
                 (slot_step cfg inp (ct_slots s ! i) (ct_shared s))
          else None
      | BySignal \<Rightarrow> if ru_stop (ct_shared s) then None else Some (s\<lparr>ct_shared := request_stop (ct_shared s)\<rparr>))"

fun run_schedule ::
  "client_config \<Rightarrow> (string \<Rightarrow> string \<Rightarrow> string option result) \<Rightarrow> string \<Rightarrow> scheduled list \<Rightarrow> client_threads \<Rightarrow> client_threads option" where
  "run_schedule cfg build arch [] s = Some s"
| "run_schedule cfg build arch (x # xs) s =
     (case one_step cfg build arch x s of None \<Rightarrow> None | Some s \<Rightarrow> run_schedule cfg build arch xs s)"

lemma one_step_steps: "one_step cfg build arch x s = Some s' \<Longrightarrow> thread_step cfg build arch s s'"
  by (auto simp: one_step_def intro: thread_step.intros split: scheduled.splits if_splits)

lemma schedule_steps:
  "run_schedule cfg build arch xs s = Some s' \<Longrightarrow> (thread_step cfg build arch ^^ length xs) s s'"
proof (induction xs arbitrary: s)
  case (Cons x xs)
  then obtain u where u: "one_step cfg build arch x s = Some u" "run_schedule cfg build arch xs u = Some s'"
    by (auto split: option.splits)
  show ?case
    using one_step_steps [OF u(1)] Cons.IH [OF u(2)] relpowp_Suc_I2 by fastforce
qed simp

abbreviation quick_build :: "string \<Rightarrow> string \<Rightarrow> string option result" where
  "quick_build \<equiv> \<lambda>_ _. Inr (Some [])"

definition race :: "scheduled list" where
  "race =
     replicate 3 (ByMain (Inr False) (Inr (Some quick_test))) @
     concat (replicate 3 [BySlot 0 quick_delivery, BySlot 1 quick_delivery]) @
     concat (replicate 2 [BySlot 0 quick_delivery, BySlot 1 quick_delivery])"

lemma race_runs:
  "\<exists>s. run_schedule (default_client_config\<lparr>cc_max_pairs := 1\<rparr>) quick_build [] race (run_start 2) = Some s \<and>
     ru_pairs_done (ct_shared s) = 2 \<and> ru_stop (ct_shared s)"
  by (simp add: race_def run_start_def one_step_def all_joined_def poll_begin_def quick_test_def publish_engines_def
      prepare_engines_def quick_delivery_def slot_turn_def work_on_def submit_with_retry_def turn_def Let_def
      after_ban_def next_pc_def request_stop_def numeral_2_eq_2 numeral_3_eq_3)

theorem max_pairs_kept_witness:
  "\<exists>s. (thread_step (default_client_config\<lparr>cc_max_pairs := 1\<rparr>) quick_build [])\<^sup>*\<^sup>* (run_start 2) s \<and>
     ru_pairs_done (ct_shared s) = 2 \<and> ru_pairs_done (ct_shared s) < 1 + int 2"
proof -
  obtain s where s: "run_schedule (default_client_config\<lparr>cc_max_pairs := 1\<rparr>) quick_build [] race (run_start 2) = Some s"
    "ru_pairs_done (ct_shared s) = 2" using race_runs by blast
  have run: "(thread_step (default_client_config\<lparr>cc_max_pairs := 1\<rparr>) quick_build [])\<^sup>*\<^sup>* (run_start 2) s"
    using schedule_steps [OF s(1)] by (rule relpowp_imp_rtranclp)
  from max_pairs_kept [OF run] s(2) run show ?thesis by auto
qed














end
