(* ===== verification/Router.thy ===== *)
theory Router
  imports HttpServer WebRoutes ClientApi
begin

text \<open>
  The server's routes as they are registered, and a request on its way through them: the static
  directory, the first pattern that fits, the handler with the groups it has matched, and the
  handler that runs on every answer. server/main.cpp registers routes.cpp, admin_routes.cpp and
  web_routes.cpp in this order. A pattern is a regular expression made of literal segments and
  groups \<^verbatim>\<open>(\d+)\<close> between slashes, matched against the whole path; it is the list of its
  segments here. The HTTP library splits the target of a request into path and parameters and
  answers 404 without a body when no pattern fits.
\<close>

section \<open>Patterns\<close>

datatype segment = Text string | Digits

fun split_path_at :: "string \<Rightarrow> string \<Rightarrow> string list" where
  "split_path_at [] acc = [rev acc]"
| "split_path_at (c # cs) acc =
     (if c = CHR ''/'' then rev acc # split_path_at cs [] else split_path_at cs (c # acc))"

definition path_segments :: "string \<Rightarrow> string list" where
  "path_segments path = split_path_at path []"

definition is_number :: "string \<Rightarrow> bool" where
  "is_number s \<longleftrightarrow> s \<noteq> [] \<and> list_all is_digit s"

text \<open>\<^verbatim>\<open>regex_match\<close>: the groups, when every segment fits.\<close>

fun match_segments :: "segment list \<Rightarrow> string list \<Rightarrow> string list option" where
  "match_segments [] [] = Some []"
| "match_segments (Text t # ps) (s # ss) = (if s = t then match_segments ps ss else None)"
| "match_segments (Digits # ps) (s # ss) =
     (if is_number s then map_option (\<lambda>gs. s # gs) (match_segments ps ss) else None)"
| "match_segments _ _ = None"

section \<open>The routes\<close>

datatype endpoint =
    AtHealthz | AtRegister | AtHeartbeat | AtActiveTest | AtClaim | AtResult | AtAbandon | AtStats
  | AtCreate | AtValidation | AtPriority | AtStop | AtList
  | AtPage page | AtConfig | AtBooks | AtHistory | AtTestClients | AtClients | AtSpeed | AtGamePgn
  | AtPgnGz | AtPgn

type_synonym route = "string \<times> segment list \<times> endpoint"

text \<open>Every pattern begins with a slash, so its first segment is empty.\<close>

abbreviation at_root :: "segment list \<Rightarrow> segment list" where
  "at_root ps \<equiv> Text [] # ps"

definition client_routes :: "route list" where
  "client_routes =
     [(''GET'', at_root [Text ''healthz''], AtHealthz),
      (''POST'', at_root [Text ''api'', Text ''clients'', Text ''register''], AtRegister),
      (''POST'', at_root [Text ''api'', Text ''clients'', Digits, Text ''heartbeat''], AtHeartbeat),
      (''GET'', at_root [Text ''api'', Text ''active_test''], AtActiveTest),
      (''POST'', at_root [Text ''api'', Text ''jobs'', Text ''claim''], AtClaim),
      (''POST'', at_root [Text ''api'', Text ''jobs'', Digits, Text ''result''], AtResult),
      (''POST'', at_root [Text ''api'', Text ''jobs'', Digits, Text ''abandon''], AtAbandon),
      (''GET'', at_root [Text ''api'', Text ''tests'', Digits, Text ''stats''], AtStats)]"

definition admin_routes :: "route list" where
  "admin_routes =
     [(''POST'', at_root [Text ''api'', Text ''admin'', Text ''tests''], AtCreate),
      (''GET'', at_root [Text ''api'', Text ''admin'', Text ''tests'', Digits, Text ''validation''], AtValidation),
      (''PATCH'', at_root [Text ''api'', Text ''admin'', Text ''tests'', Digits], AtPriority),
      (''POST'', at_root [Text ''api'', Text ''admin'', Text ''tests'', Digits, Text ''stop''], AtStop),
      (''GET'', at_root [Text ''api'', Text ''tests''], AtList)]"

definition web_routes :: "route list" where
  "web_routes =
     [(''GET'', at_root [Text []], AtPage Root),
      (''GET'', at_root [Text ''tests''], AtPage TestsPage),
      (''GET'', at_root [Text ''clients''], AtPage ClientsPage),
      (''GET'', at_root [Text ''tests'', Text ''new''], AtPage NewTestPage),
      (''GET'', at_root [Text ''tests'', Digits], AtPage TestPage),
      (''GET'', at_root [Text ''api'', Text ''config''], AtConfig),
      (''GET'', at_root [Text ''api'', Text ''books''], AtBooks),
      (''GET'', at_root [Text ''api'', Text ''tests'', Digits, Text ''history''], AtHistory),
      (''GET'', at_root [Text ''api'', Text ''tests'', Digits, Text ''clients''], AtTestClients),
      (''GET'', at_root [Text ''api'', Text ''clients''], AtClients),
      (''GET'', at_root [Text ''api'', Text ''tests'', Digits, Text ''speed''], AtSpeed),
      (''GET'', at_root [Text ''api'', Text ''tests'', Digits, Text ''games'', Digits, Text ''pgn''], AtGamePgn),
      (''GET'', at_root [Text ''api'', Text ''tests'', Digits, Text ''pgn.gz''], AtPgnGz),
      (''GET'', at_root [Text ''api'', Text ''tests'', Digits, Text ''pgn''], AtPgn)]"

definition server_routes :: "route list" where
  "server_routes = client_routes @ admin_routes @ web_routes"

text \<open>The first route of the method whose pattern fits, with the groups.\<close>

fun dispatch :: "route list \<Rightarrow> string \<Rightarrow> string list \<Rightarrow> (endpoint \<times> string list) option" where
  "dispatch [] m ss = None"
| "dispatch ((rm, p, e) # routes) m ss =
     (case (if rm = m then match_segments p ss else None) of
        Some gs \<Rightarrow> Some (e, gs)
      | None \<Rightarrow> dispatch routes m ss)"

section \<open>Requests and answers\<close>

record wire_request =
  wr_method :: string
  wr_path :: string
  wr_params :: "string \<Rightarrow> string option"
  wr_body :: "json option"

text \<open>
  What the handlers meet beside the state: the world of the JSON routes, and for the pages the
  files below the static directory, the names in the directory of the books, the order of texts
  in the database and the compressed line feed.
\<close>

record web_world = http_world +
  w_dir_exists :: "string \<Rightarrow> bool"
  w_find_file :: "string \<Rightarrow> string \<Rightarrow> (string \<times> string) option"
  w_book_names :: "string list"
  w_collate :: "string \<Rightarrow> int"
  w_gunzip :: "string \<Rightarrow> string result"
  w_separator :: "string result"

definition group :: "string list \<Rightarrow> nat \<Rightarrow> string" where
  "group gs i = (if i < length gs then gs ! i else [])"

text \<open>The JSON routes: the request their handler is given.\<close>

definition json_request :: "endpoint \<Rightarrow> string list \<Rightarrow> wire_request \<Rightarrow> http_request option" where
  "json_request e gs r =
     (case e of
        AtHealthz \<Rightarrow> Some GetHealthz
      | AtRegister \<Rightarrow> Some (PostRegister (wr_body r))
      | AtHeartbeat \<Rightarrow> Some (PostHeartbeat (group gs 0) (wr_body r))
      | AtActiveTest \<Rightarrow> Some GetActiveTest
      | AtClaim \<Rightarrow> Some (PostClaim (wr_body r))
      | AtResult \<Rightarrow> Some (PostResult (group gs 0) (wr_body r))
      | AtAbandon \<Rightarrow> Some (PostAbandon (group gs 0) (wr_body r))
      | AtStats \<Rightarrow> Some (GetStats (group gs 0))
      | AtCreate \<Rightarrow> Some (PostTests (wr_body r))
      | AtValidation \<Rightarrow> Some (GetValidation (group gs 0))
      | AtPriority \<Rightarrow> Some (PatchPriority (group gs 0) (wr_body r))
      | AtStop \<Rightarrow> Some (PostStop (group gs 0))
      | AtList \<Rightarrow> Some (GetTests (wr_params r ''limit''))
      | _ \<Rightarrow> None)"

text \<open>The routes of the pages; they change nothing but the cache of the books' counts.\<close>

definition web_handle ::
  "server_config \<Rightarrow> file_system \<Rightarrow> web_world \<Rightarrow> endpoint \<Rightarrow> string list \<Rightarrow> wire_request \<Rightarrow>
   db \<Rightarrow> book_cache \<Rightarrow> web_answer \<times> book_cache" where
  "web_handle cfg fs w e gs r db cache =
     (let json = (\<lambda>res. (plain (WebJson res), cache)); conn = w_conn w
      in case e of
           AtPage p \<Rightarrow> (get_page cfg fs p, cache)
         | AtConfig \<Rightarrow> json (get_config cfg)
         | AtBooks \<Rightarrow> (case get_books cfg fs (w_book_names w) cache of (res, cache) \<Rightarrow> (plain (WebJson res), cache))
         | AtHistory \<Rightarrow> json (get_history conn (group gs 0) db)
         | AtTestClients \<Rightarrow> json (get_test_clients (w_collate w) conn (w_now w) (group gs 0) db)
         | AtClients \<Rightarrow> json (get_clients conn (w_now w) db)
         | AtSpeed \<Rightarrow> json (get_speed conn (group gs 0) db)
         | AtGamePgn \<Rightarrow> (get_game_pgn (w_gunzip w) conn (wr_path r # gs) db, cache)
         | AtPgnGz \<Rightarrow> (get_pgn_gz (w_separator w) conn (group gs 0) (wr_params r ''all'') db, cache)
         | AtPgn \<Rightarrow> (get_pgn conn (group gs 0) db, cache)
         | _ \<Rightarrow> json (send_error 500 ''internal_error'' []))"

text \<open>The answer of the library to a request that no route takes.\<close>

definition not_found :: web_answer where
  "not_found = plain (WebJson \<lparr>rs_status = 404, rs_body = None\<rparr>)"

definition respond ::
  "server_config \<Rightarrow> file_system \<Rightarrow> (string \<Rightarrow> string result) \<Rightarrow> web_world \<Rightarrow> wire_request \<Rightarrow>
   db \<times> book_cache \<Rightarrow> web_answer \<times> db \<times> book_cache" where
  "respond cfg fs gzip w r s =
     (let (answer, s') =
        (case (if wr_method r = ''GET'' then serve_static (w_find_file w) (mount_static (w_dir_exists w) cfg) (wr_path r) else None) of
           Some a \<Rightarrow> (a, s)
         | None \<Rightarrow>
             (case dispatch server_routes (wr_method r) (path_segments (wr_path r)) of
                None \<Rightarrow> (not_found, s)
              | Some (e, gs) \<Rightarrow>
                  (case json_request e gs r of
                     Some req \<Rightarrow> (case handle cfg fs gzip (http_world.truncate w) req s of
                         (res, s') \<Rightarrow> (plain (WebJson res), s'))
                   | None \<Rightarrow> (case web_handle cfg fs w e gs r (fst s) (snd s) of
                         (a, cache) \<Rightarrow> (a, fst s, cache)))))
      in (post_routing (wr_path r) answer, s'))"

section \<open>A call on the wire\<close>

text \<open>
  The request the library makes of a call: the target up to its query is the path; the
  parameters are the pairs of the query. What the client and the tool write there needs no
  decoding.
\<close>

definition query_pairs :: "string \<Rightarrow> (string \<times> string) list" where
  "query_pairs q =
     map (\<lambda>part. (takeWhile (\<lambda>c. c \<noteq> CHR ''='') part, drop 1 (dropWhile (\<lambda>c. c \<noteq> CHR ''='') part)))
       (getlines (CHR ''&'') q)"

definition wire :: "api_call \<Rightarrow> wire_request" where
  "wire c =
     \<lparr>wr_method = ac_method c, wr_path = takeWhile (\<lambda>c. c \<noteq> CHR ''?'') (ac_path c),
      wr_params = map_of (query_pairs (drop 1 (dropWhile (\<lambda>c. c \<noteq> CHR ''?'') (ac_path c)))),
      wr_body = ac_body c\<rparr>"

section \<open>At most one route fits\<close>

definition fits :: "segment list \<Rightarrow> string list \<Rightarrow> bool" where
  "fits p ss \<longleftrightarrow> list_all2 (\<lambda>q s. case q of Text t \<Rightarrow> s = t | Digits \<Rightarrow> is_number s) p ss"

lemma match_segments_fits: "(\<exists>gs. match_segments p ss = Some gs) \<longleftrightarrow> fits p ss"
  by (induction p ss rule: match_segments.induct) (auto simp: fits_def)

text \<open>A path has the shape of every pattern that fits it.\<close>

definition shape :: "string list \<Rightarrow> segment list" where
  "shape ss = map (\<lambda>s. if is_number s then Digits else Text s) ss"

definition wordy :: "segment list \<Rightarrow> bool" where
  "wordy p \<longleftrightarrow> list_all (\<lambda>q. case q of Text t \<Rightarrow> \<not> is_number t | Digits \<Rightarrow> True) p"

lemma fits_shape: "fits p ss \<Longrightarrow> wordy p \<Longrightarrow> shape ss = p"
  unfolding fits_def
  by (induction rule: list_all2_induct) (auto simp: shape_def wordy_def split: segment.splits)

lemma routes_wordy: "\<forall>(m, p, e) \<in> set server_routes. wordy p"
  by (simp add: server_routes_def client_routes_def admin_routes_def web_routes_def wordy_def is_number_def char_class_defs)

lemma routes_distinct: "distinct (map fst (map (\<lambda>(m, p, e). ((m, p), e)) server_routes))"
  by (simp add: server_routes_def client_routes_def admin_routes_def web_routes_def)

lemma one_route:
  assumes "(m, p, e) \<in> set server_routes" and "(m, q, f) \<in> set server_routes"
    and "fits p ss" and "fits q ss"
  shows "p = q \<and> e = f"
proof -
  have "wordy p" "wordy q" using routes_wordy assms(1,2) by auto
  then have pq: "p = q" using fits_shape [OF assms(3)] fits_shape [OF assms(4)] by simp
  have "((m, p), e) \<in> set (map (\<lambda>(m, p, e). ((m, p), e)) server_routes)"
    "((m, p), f) \<in> set (map (\<lambda>(m, p, e). ((m, p), e)) server_routes)"
    using assms(1,2) pq by force+
  then show ?thesis using eq_key_imp_eq_value [OF routes_distinct] pq by blast
qed

lemma dispatch_Some:
  "dispatch routes m ss = Some (e, gs) \<Longrightarrow> \<exists>p. (m, p, e) \<in> set routes \<and> match_segments p ss = Some gs"
  by (induction routes m ss rule: dispatch.induct) (auto split: option.splits if_splits)

lemma dispatch_None: "dispatch routes m ss = None \<Longrightarrow> (m, p, e) \<in> set routes \<Longrightarrow> match_segments p ss = None"
  by (induction routes m ss rule: dispatch.induct) (auto split: option.splits if_splits)

section \<open>Calls reach their handlers\<close>

lemma show_nat_number: "is_number (show_nat n)"
  using show_nat_digits [of n] by (simp add: is_number_def list_all_iff)

lemma show_int_number: "0 \<le> k \<Longrightarrow> is_number (show_int k)"
  by (simp add: show_int_def show_nat_number)

lemma digit_plain: "is_digit c \<Longrightarrow> c \<noteq> CHR ''/'' \<and> c \<noteq> CHR ''?''"
  by (auto simp: char_class_defs)

lemma number_plain: "is_number s \<Longrightarrow> c \<in> set s \<Longrightarrow> c \<noteq> CHR ''/'' \<and> c \<noteq> CHR ''?''"
  using digit_plain by (auto simp: is_number_def list_all_iff)

lemma split_path_append:
  "CHR ''/'' \<notin> set s \<Longrightarrow> split_path_at (s @ t) acc = split_path_at t (rev s @ acc)"
  by (induction s arbitrary: acc) auto

lemma split_path_number:
  "is_number s \<Longrightarrow> split_path_at (s @ CHR ''/'' # t) [] = s # split_path_at t []"
  "is_number s \<Longrightarrow> split_path_at s [] = [s]"
  using split_path_append [of s "CHR ''/'' # t" "[]"] split_path_append [of s "[]" "[]"] number_plain by auto

lemma takeWhile_number:
  "is_number s \<Longrightarrow> takeWhile (\<lambda>c. c \<noteq> CHR ''?'') (s @ t) = s @ takeWhile (\<lambda>c. c \<noteq> CHR ''?'') t"
  "is_number s \<Longrightarrow> takeWhile (\<lambda>c. c \<noteq> CHR ''?'') s = s"
  using number_plain by (auto intro: takeWhile_append2)

definition endpoint_of :: "api_call \<Rightarrow> (endpoint \<times> string list) option" where
  "endpoint_of c = dispatch server_routes (wr_method (wire c)) (path_segments (wr_path (wire c)))"

lemmas route_tables = server_routes_def client_routes_def admin_routes_def web_routes_def

lemma reach_plain:
  "endpoint_of (register_call info) = Some (AtRegister, [])"
  "endpoint_of active_test_call = Some (AtActiveTest, [])"
  "endpoint_of (claim_call client n) = Some (AtClaim, [])"
  by (simp_all add: endpoint_of_def wire_def register_call_def active_test_call_def claim_call_def
      path_segments_def route_tables)

lemma not_numbers [simp]: "\<not> is_number ''register''" "\<not> is_number ''claim''" "\<not> is_number ''new''"
  by (simp_all add: is_number_def char_class_defs)

lemma number_words: "is_number s \<Longrightarrow> \<not> is_number t \<Longrightarrow> s \<noteq> t"
  by auto

lemma reach_ids:
  assumes "0 \<le> k"
  shows "endpoint_of (heartbeat_call k f) = Some (AtHeartbeat, [show_int k])"
    and "endpoint_of (submit_call k body) = Some (AtResult, [show_int k])"
    and "endpoint_of (abandon_call k client) = Some (AtAbandon, [show_int k])"
  using show_int_number [OF assms]
  by (simp_all add: endpoint_of_def wire_def heartbeat_call_def submit_call_def abandon_call_def
      path_segments_def route_tables takeWhile_number split_path_number number_words)

section \<open>What a request does\<close>

lemma static_needs_prefix: "serve_static find_file (mount_static ex cfg) path = Some a \<Longrightarrow> starts_with path ''/static''"
  by (auto simp: serve_static_def mount_static_def Let_def split: if_splits)

lemma starts_with_shorter: "starts_with s (t @ u) \<Longrightarrow> starts_with s t"
  by (auto simp: starts_with_def dest: arg_cong [of _ _ "take (length t)"])

lemma post_routing_content [simp]: "wa_content (post_routing path a) = wa_content a"
  by (simp add: post_routing_def)

lemma post_routing_id: "\<not> starts_with path ''/static'' \<Longrightarrow> post_routing path a = a"
  using starts_with_shorter [of path "''/static''" "''/''"] by (auto simp: post_routing_def)

lemma respond_json:
  assumes "dispatch server_routes (wr_method r) (path_segments (wr_path r)) = Some (e, gs)"
    and "json_request e gs r = Some req" and "\<not> starts_with (wr_path r) ''/static''"
  shows "respond cfg fs gzip w r s =
    (plain (WebJson (fst (handle cfg fs gzip (http_world.truncate w) req s))),
     snd (handle cfg fs gzip (http_world.truncate w) req s))"
  using assms static_needs_prefix
  by (auto simp: respond_def post_routing_id case_prod_beta split: option.splits)

text \<open>A static file has just the header that makes browsers ask again.\<close>

lemma static_revalidated:
  assumes "serve_static find_file (mount_static ex cfg) path = Some a" and "starts_with path ''/static/''"
  shows "no_cache \<in> set (wa_headers (post_routing path a))"
  using assms by (auto simp: serve_static_def mount_static_def plain_def post_routing_def Let_def split: if_splits)

text \<open>The effect of a request: one handler of the JSON routes, or none on the database.\<close>

lemma json_request_methods:
  assumes "(m, p, e) \<in> set server_routes" and "json_request e gs r = Some req"
  shows "m = ''GET'' \<longleftrightarrow> req \<in> {GetHealthz, GetActiveTest} \<or> (\<exists>path. req \<in> {GetStats path, GetValidation path}) \<or> (\<exists>l. req = GetTests l)"
  using assms by (auto simp: route_tables json_request_def)

lemma respond_cases:
  assumes "respond cfg fs gzip w r s = (a, s')"
  obtains (handled) p e gs req res where "(wr_method r, p, e) \<in> set server_routes" "json_request e gs r = Some req"
      "dispatch server_routes (wr_method r) (path_segments (wr_path r)) = Some (e, gs)"
      "handle cfg fs gzip (http_world.truncate w) req s = (res, s')" "wa_content a = WebJson res"
    | (served) "fst s' = fst s"
proof (cases "if wr_method r = ''GET'' then serve_static (w_find_file w) (mount_static (w_dir_exists w) cfg) (wr_path r) else None")
  case (Some x)
  then show thesis using assms served by (auto simp: respond_def)
next
  case none: None
  show thesis
  proof (cases "dispatch server_routes (wr_method r) (path_segments (wr_path r))")
    case None
    then show thesis using assms none served by (auto simp: respond_def)
  next
    case (Some eg)
    obtain e gs where eg: "eg = (e, gs)" by fastforce
    obtain p where p: "(wr_method r, p, e) \<in> set server_routes" using dispatch_Some Some eg by blast
    show thesis
    proof (cases "json_request e gs r")
      case None
      then show thesis using assms none Some eg served by (auto simp: respond_def split: prod.splits)
    next
      case (Some req)
      then show thesis
        using assms none \<open>dispatch _ _ _ = Some eg\<close> eg handled [OF p Some]
        by (auto simp: respond_def plain_def split: prod.splits)
    qed
  qed
qed

definition request_ok :: "wire_request \<Rightarrow> bool" where
  "request_ok r \<longleftrightarrow> (case wr_body r of None \<Rightarrow> True | Some j \<Rightarrow> json_ints_ok j)"

lemma json_request_body: "json_request e gs r = Some req \<Longrightarrow> request_ok r \<Longrightarrow> body_ok req"
  by (auto simp: json_request_def body_ok_def request_ok_def split: endpoint.splits)

fun answer_status :: "web_response \<Rightarrow> int" where
  "answer_status (WebJson res) = rs_status res"
| "answer_status (WebRedirect _) = 302"
| "answer_status _ = 200"

lemma respond_steps:
  assumes "respond cfg fs gzip w r (db, cache) = (a, db', cache')" and "request_ok r"
  shows "db' = db \<or> wr_method r \<noteq> ''GET'' \<and> server_step cfg fs build gzip db db'"
  using assms(1)
proof (cases rule: respond_cases)
  case (handled p e gs req res)
  have "db' = db" if "wr_method r = ''GET''"
  proof -
    from json_request_methods [OF handled(1,2)] that
    consider "req = GetHealthz" | "req = GetActiveTest" | path where "req = GetStats path"
      | path where "req = GetValidation path" | l where "req = GetTests l" by blast
    then show ?thesis
      using handled(4) by cases (auto dest!: read_handlers split: prod.splits)
  qed
  moreover have "stays_or_steps cfg fs build gzip db db'"
    by (rule handle_steps [OF handled(4) json_request_body [OF handled(2) assms(2)]])
  ultimately show ?thesis by (auto simp: stays_or_steps_def)
qed simp

text \<open>The one error after which something has changed is the 403 of a banned client that registers.\<close>

definition registers :: "wire_request \<Rightarrow> bool" where
  "registers r \<longleftrightarrow> (\<exists>gs. dispatch server_routes (wr_method r) (path_segments (wr_path r)) = Some (AtRegister, gs))"

lemma json_request_register: "json_request e gs r = Some (PostRegister body) \<Longrightarrow> e = AtRegister"
  by (auto simp: json_request_def split: endpoint.splits)

lemma respond_failed:
  assumes "respond cfg fs gzip w r (db, cache) = (a, db', cache')" and "pairs_inv db"
    and "400 \<le> answer_status (wa_content a)" and "registers r \<Longrightarrow> answer_status (wa_content a) \<noteq> 403"
  shows "db' = db"
  using assms(1)
proof (cases rule: respond_cases)
  case (handled p e gs req res)
  have "rs_status res \<noteq> 403" if "req = PostRegister body" for body
    using assms(4) handled(2,3,5) json_request_register that by (auto simp: registers_def)
  then show ?thesis
    using handle_failed [OF handled(4) _ assms(2)] assms(3) handled(5) by (auto simp: failed_def)
qed simp

section \<open>Runs of the server\<close>

inductive wire_step ::
  "server_config \<Rightarrow> file_system \<Rightarrow> builder \<Rightarrow> (string \<Rightarrow> string result) \<Rightarrow>
   db \<times> book_cache \<Rightarrow> db \<times> book_cache \<Rightarrow> bool"
  for cfg fs build gzip where
  Received: "request_ok r \<Longrightarrow> respond cfg fs gzip w r s = (a, s') \<Longrightarrow> wire_step cfg fs build gzip s s'"
| Background: "http_step cfg fs build gzip s s' \<Longrightarrow> wire_step cfg fs build gzip s s'"

lemma wire_run_refines:
  assumes "(wire_step cfg fs build gzip)\<^sup>*\<^sup>* s s'"
  shows "server_run cfg fs build gzip (fst s) (fst s')"
  using assms
proof (induction rule: rtranclp_induct)
  case base
  then show ?case by simp
next
  case (step y z)
  from step.hyps(2) have "stays_or_steps cfg fs build gzip (fst y) (fst z)"
  proof cases
    case (Received r w a)
    then show ?thesis
      using respond_steps [of cfg fs gzip w r "fst y" "snd y" a "fst z" "snd z" build]
      by (auto simp: stays_or_steps_def)
  next
    case Background
    then show ?thesis by (rule http_step_refines)
  qed
  then show ?case using step.IH by (auto simp: stays_or_steps_def)
qed

end
