(* ===== verification/CliServer.thy ===== *)
theory CliServer
  imports Router CliRuns Protocol
begin

text \<open>
  The command-line tool and the server together. When the replies a run of the tool sees are the
  server's answers to its calls, each of them routed and handled, the tool can read every one:
  no member it reads is missing or of another type. A command's reads are followed by rules, one
  per construct, that hand each call's possible answers to what comes after it.
\<close>

section \<open>The tool's calls and their routes\<close>

lemma negative_no_number: "k < 0 \<Longrightarrow> \<not> is_number (show_int k)"
  by (simp add: show_int_def is_number_def char_class_defs)

lemma split_path_show:
  "split_path_at (show_int k @ CHR ''/'' # t) [] = show_int k # split_path_at t []"
  "split_path_at (show_int k) [] = [show_int k]"
proof -
  have "CHR ''/'' \<notin> set (show_int k)"
    using show_nat_number [of "nat k"] show_nat_number [of "nat (- k)"] number_plain by (auto simp: show_int_def)
  then show "split_path_at (show_int k @ CHR ''/'' # t) [] = show_int k # split_path_at t []"
    "split_path_at (show_int k) [] = [show_int k]"
    using split_path_append [of "show_int k" "CHR ''/'' # t" "[]"] split_path_append [of "show_int k" "[]" "[]"] by auto
qed

lemma takeWhile_show:
  "takeWhile (\<lambda>c. c \<noteq> CHR ''?'') (show_int k @ t) = show_int k @ takeWhile (\<lambda>c. c \<noteq> CHR ''?'') t"
  "takeWhile (\<lambda>c. c \<noteq> CHR ''?'') (show_int k) = show_int k"
proof -
  have "c \<noteq> CHR ''?''" if "c \<in> set (show_int k)" for c
    using that show_nat_number [of "nat k"] show_nat_number [of "nat (- k)"] number_plain
    by (auto simp: show_int_def split: if_splits)
  then show "takeWhile (\<lambda>c. c \<noteq> CHR ''?'') (show_int k @ t) = show_int k @ takeWhile (\<lambda>c. c \<noteq> CHR ''?'') t"
    "takeWhile (\<lambda>c. c \<noteq> CHR ''?'') (show_int k) = show_int k" by (auto intro: takeWhile_append2)
qed

definition cli_call_of :: "string \<Rightarrow> string \<Rightarrow> json option \<Rightarrow> api_call" where
  "cli_call_of method path body = \<lparr>ac_method = method, ac_path = path, ac_body = body\<rparr>"

definition by_id :: "int \<Rightarrow> endpoint \<Rightarrow> (endpoint \<times> string list) option" where
  "by_id k e = (if 0 \<le> k then Some (e, [show_int k]) else None)"

lemma reach_cli_ids:
  "endpoint_of (cli_call_of ''GET'' (validation_path k) body) = by_id k AtValidation"
  "endpoint_of (cli_call_of ''GET'' (''/api/tests/'' @ show_int k @ ''/stats'') body) = by_id k AtStats"
  "endpoint_of (cli_call_of ''POST'' (''/api/admin/tests/'' @ show_int k @ ''/stop'') body) = by_id k AtStop"
  "endpoint_of (cli_call_of ''PATCH'' (''/api/admin/tests/'' @ show_int k) body) = by_id k AtPriority"
  using show_int_number [of k] negative_no_number [of k]
  by (cases "0 \<le> k"; simp add: endpoint_of_def wire_def cli_call_of_def by_id_def validation_path_def path_segments_def
      route_tables takeWhile_show split_path_show)+

lemma reach_cli_plain:
  "endpoint_of (cli_call_of ''POST'' ''/api/admin/tests'' body) = Some (AtCreate, [])"
  "endpoint_of (cli_call_of ''GET'' ''/api/tests'' body) = Some (AtList, [])"
  "endpoint_of (cli_call_of ''GET'' (''/api/tests?limit='' @ show_int n) body) = Some (AtList, [])"
  by (simp_all add: endpoint_of_def wire_def cli_call_of_def path_segments_def route_tables)

section \<open>Answers\<close>

text \<open>The reply to a call is the server's answer to it, in some state and world, or none came.\<close>

definition served ::
  "server_config \<Rightarrow> file_system \<Rightarrow> (string \<Rightarrow> string result) \<Rightarrow> http_reply \<Rightarrow> api_call \<Rightarrow> bool" where
  "served cfg fs gzip reply c \<longleftrightarrow>
     isl reply \<or>
     (\<exists>w s res. wa_content (fst (respond cfg fs gzip w (wire c) s)) = WebJson res \<and> reply = reply_of res)"

definition error_body :: "json option \<Rightarrow> bool" where
  "error_body b \<longleftrightarrow>
     (case b of
        None \<Rightarrow> True
      | Some j \<Rightarrow> (\<forall>v. json_find j ''error'' = Some v \<longrightarrow> (\<exists>t. v = JString t)) \<and>
                  (\<forall>v. json_find j ''reason'' = Some v \<longrightarrow> (\<exists>t. v = JString t)))"

lemma error_message_reads: "error_body b \<Longrightarrow> error_message status b \<noteq> Inl JsonErr"
  by (auto simp: error_message_def error_body_def Let_def split: option.splits)

lemma error_body_send [simp]: "error_body (rs_body (send_error s e m))"
  by (simp add: error_body_def send_error_def send_json_def)

lemma error_body_response [simp]: "error_body (rs_body (error_response e))"
  by (simp add: error_response_def split: exn.split)

text \<open>A response the tool may get: an error the tool can print, or a body with the property.\<close>

definition answers :: "(json \<Rightarrow> bool) \<Rightarrow> response \<Rightarrow> bool" where
  "answers P res \<longleftrightarrow>
     (if 400 \<le> rs_status res then error_body (rs_body res)
      else P (case rs_body res of None \<Rightarrow> JNull | Some j \<Rightarrow> j))"

named_theorems answer_intros

lemma answers_send [answer_intros]:
  "400 \<le> s \<Longrightarrow> answers P (send_error s e m)" "s < 400 \<Longrightarrow> P j \<Longrightarrow> answers P (send_json s j)"
  "answers P (error_response x)"
  using error_response_status [of x] by (auto simp: answers_def send_error_def send_json_def error_body_def error_response_def split: exn.splits)

lemma answers_guarded:
  assumes "\<And>res s'. h = Inr (res, s') \<Longrightarrow> answers P res"
  shows "answers P (fst (guarded h s))"
proof (cases h)
  case (Inl e)
  then show ?thesis by (simp add: guarded_def answers_send)
next
  case (Inr r)
  then show ?thesis using assms [of "fst r" "snd r"] by (simp add: guarded_def)
qed

definition validation_shape :: "json \<Rightarrow> bool" where
  "validation_shape j \<longleftrightarrow>
     (\<exists>status log. j = JObject [(''status'', JString status), (''validation_log'', nullable JString log)])"

definition stats_shape :: "json \<Rightarrow> bool" where
  "stats_shape j \<longleftrightarrow> (\<exists>s. j = stats_json s)"

definition created_shape :: "json \<Rightarrow> bool" where
  "created_shape j \<longleftrightarrow> (\<exists>i spec candidate baseline. j = created_json i spec candidate baseline)"

definition stopped_shape :: "json \<Rightarrow> bool" where
  "stopped_shape j \<longleftrightarrow>
     (\<exists>previous promoted. j = JObject [(''status'', JString ''stopped''), (''previous_status'', JString previous),
        (''promoted_test_id'', nullable JInt promoted)])"

definition list_shape :: "json \<Rightarrow> bool" where
  "list_shape j \<longleftrightarrow> (\<exists>ts. j = JArray (map summary_json ts))"

lemma shapes:
  "validation_shape (JObject [(''status'', JString status), (''validation_log'', nullable JString text)])"
  "stats_shape (stats_json sn)" "created_shape (created_json i spec candidate baseline)"
  "stopped_shape (JObject [(''status'', JString ''stopped''), (''previous_status'', JString previous),
        (''promoted_test_id'', nullable JInt promoted)])"
  "list_shape (JArray (map summary_json ts))"
  unfolding validation_shape_def stats_shape_def created_shape_def stopped_shape_def list_shape_def by blast+

lemma stop_answers: "answers stopped_shape (stop_response r)"
  by (cases "so_status r") (simp_all add: stop_response_def answers_send shapes)

lemma priority_answer: "answers (\<lambda>_. True) (priority_response n r)"
  by (cases "pro_status r") (simp_all add: priority_response_def answers_send)

lemma validation_answers: "answers validation_shape (fst (get_validation_route conn path db))"
  unfolding get_validation_route_def
  by (rule answers_guarded) (auto intro!: answers_send shapes split: option.split_asm)

lemma stats_answers: "answers stats_shape (fst (get_stats conn path db))"
  unfolding get_stats_def
  by (rule answers_guarded) (auto intro!: answers_send shapes split: option.split_asm)

lemma stopped_answers: "answers stopped_shape (fst (post_stop conn now path db))"
  unfolding post_stop_def
  by (rule answers_guarded) (auto simp: case_prod_beta intro!: stop_answers)

lemma priority_answers: "answers (\<lambda>_. True) (fst (patch_priority conn path body db))"
  unfolding patch_priority_def
  by (rule answers_guarded) (auto simp: case_prod_beta intro!: priority_answer)

lemma list_answers: "answers list_shape (fst (get_tests conn param db))"
  unfolding get_tests_def
  by (rule answers_guarded) (auto intro!: answers_send shapes)

lemma resolve_answers: "resolve_both resolve spec = Inr (Inl res) \<Longrightarrow> answers P res"
  by (auto simp: resolve_both_def intro!: answers_send split: sum.splits exn.splits if_splits)

lemma store_answers:
  assumes "store_test resolve conn now spec db = Inr (res, st)"
  shows "answers created_shape res"
proof -
  from assms obtain r where r: "resolve_both resolve spec = Inr r" by (auto simp: store_test_def)
  show ?thesis
  proof (cases r)
    case (Inl res')
    then show ?thesis using assms r resolve_answers by (auto simp: store_test_def)
  next
    case (Inr cb)
    obtain candidate baseline where cb: "cb = (candidate, baseline)" by fastforce
    show ?thesis
    proof (cases "candidate = baseline")
      case True
      then have "res = send_error 400 ''invalid_spec'' (''candidate and baseline resolve to the same commit '' @ candidate)"
        using assms r Inr cb by (simp add: store_test_def)
      then show ?thesis by (simp add: answers_send)
    next
      case False
      then obtain i where "res = send_json 201 (created_json i spec candidate baseline)"
        using assms r Inr cb by (auto simp: store_test_def)
      then show ?thesis by (simp add: answers_send shapes)
    qed
  qed
qed

lemma book_answers: "check_book cfg fs cache spec = Inr (Some res, cache') \<Longrightarrow> answers P res"
  by (auto simp: check_book_def Let_def answers_send split: if_split_asm)

lemma created_answers:
  "answers created_shape (fst (fst (post_tests cfg fs resolve conn now body db cache)))"
proof -
  have err: "answers created_shape (fst (guarded (Inl e) st))" for e and st :: "db \<times> bool"
    by (simp add: guarded_def answers_send)
  have stored: "answers created_shape (fst (guarded (store_test resolve conn now spec db) (db, False)))" for spec
    by (rule answers_guarded) (rule store_answers)
  show ?thesis
    unfolding post_tests_def
    by (auto simp: err stored answers_send book_answers split: sum.split exn.split option.split)
qed

section \<open>Replies\<close>

lemma cli_paths:
  "\<not> starts_with (wr_path (wire (cli_call_of ''GET'' (validation_path k) body))) ''/static''"
  "\<not> starts_with (wr_path (wire (cli_call_of ''GET'' (''/api/tests/'' @ show_int k @ ''/stats'') body))) ''/static''"
  "\<not> starts_with (wr_path (wire (cli_call_of ''POST'' (''/api/admin/tests/'' @ show_int k @ ''/stop'') body))) ''/static''"
  "\<not> starts_with (wr_path (wire (cli_call_of ''PATCH'' (''/api/admin/tests/'' @ show_int k) body))) ''/static''"
  "\<not> starts_with (wr_path (wire (cli_call_of ''POST'' ''/api/admin/tests'' body))) ''/static''"
  "\<not> starts_with (wr_path (wire (cli_call_of ''GET'' ''/api/tests'' body))) ''/static''"
  "\<not> starts_with (wr_path (wire (cli_call_of ''GET'' (''/api/tests?limit='' @ show_int n) body))) ''/static''"
  by (simp_all add: wire_def cli_call_of_def validation_path_def starts_with_def)

lemma served_answers:
  assumes "served cfg fs gzip (Inr (status, b)) c" and "endpoint_of c = Some (e, gs)"
    and "json_request e gs (wire c) = Some req" and "\<not> starts_with (wr_path (wire c)) ''/static''"
    and "\<And>w s. answers P (fst (handle cfg fs gzip w req s))"
  shows "if 400 \<le> status then error_body b else P (case b of None \<Rightarrow> JNull | Some j \<Rightarrow> j)"
proof -
  from assms(1) obtain w s res where r: "wa_content (fst (respond cfg fs gzip w (wire c) s)) = WebJson res"
    "Inr (status, b) = reply_of res" by (auto simp: served_def)
  have "respond cfg fs gzip w (wire c) s =
    (plain (WebJson (fst (handle cfg fs gzip (http_world.truncate w) req s))), snd (handle cfg fs gzip (http_world.truncate w) req s))"
    using assms(2-4) by (intro respond_json) (simp_all add: endpoint_of_def)
  then have "res = fst (handle cfg fs gzip (http_world.truncate w) req s)" using r(1) by (simp add: plain_def)
  then have "answers P res" using assms(5) by simp
  then show ?thesis using r(2) by (simp add: answers_def reply_of_def)
qed

text \<open>A path with a negative id fits no route, and the library answers 404.\<close>

lemma served_unrouted:
  assumes "served cfg fs gzip (Inr (status, b)) c" and "endpoint_of c = None" and "\<not> starts_with (wr_path (wire c)) ''/static''"
  shows "status = 404 \<and> b = None"
proof -
  from assms(1) obtain w s res where r: "wa_content (fst (respond cfg fs gzip w (wire c) s)) = WebJson res"
    "Inr (status, b) = reply_of res" by (auto simp: served_def)
  have "serve_static (w_find_file w) (mount_static (w_dir_exists w) cfg) (wr_path (wire c)) = None"
    using static_needs_prefix assms(3) by (metis option.exhaust)
  then have "respond cfg fs gzip w (wire c) s = (not_found, s)"
    using assms(2,3) by (cases "wr_method (wire c) = ''GET''") (simp_all add: respond_def endpoint_of_def post_routing_id)
  then show ?thesis using r by (auto simp: not_found_def plain_def reply_of_def)
qed

section \<open>What a command reads\<close>

text \<open>
  The calls of a run are added to the ones made. If all of them are served, the run throws no
  exception of the JSON library, and what it gives has the property.
\<close>

definition all_served ::
  "server_config \<Rightarrow> file_system \<Rightarrow> (string \<Rightarrow> string result) \<Rightarrow> network \<Rightarrow> cli_state \<Rightarrow> cli_state \<Rightarrow> bool" where
  "all_served cfg fs gzip net s s' \<longleftrightarrow>
     (\<forall>i. length (cl_calls s) \<le> i \<longrightarrow> i < length (cl_calls s') \<longrightarrow> served cfg fs gzip (net i) (cl_calls s' ! i))"

definition reads ::
  "server_config \<Rightarrow> file_system \<Rightarrow> (string \<Rightarrow> string result) \<Rightarrow> network \<Rightarrow> 'a cli \<Rightarrow> ('a \<Rightarrow> bool) \<Rightarrow> bool" where
  "reads cfg fs gzip net m P \<longleftrightarrow>
     (\<forall>s r s'. m s = (r, s') \<longrightarrow>
        (\<exists>cs. cl_calls s' = cl_calls s @ cs) \<and>
        (all_served cfg fs gzip net s s' \<longrightarrow> r \<noteq> Inl JsonErr \<and> (\<forall>x. r = Inr x \<longrightarrow> P x)))"

lemma reads_give: "P x \<Longrightarrow> reads cfg fs gzip net (give x) P"
  by (auto simp: reads_def give_def)

lemma reads_throw: "e \<noteq> JsonErr \<Longrightarrow> reads cfg fs gzip net (throw e) P"
  by (auto simp: reads_def throw_def)

lemma reads_print: "P () \<Longrightarrow> reads cfg fs gzip net (print t) P"
  by (auto simp: reads_def print_def)

lemma reads_lift: "r \<noteq> Inl JsonErr \<Longrightarrow> (\<And>x. r = Inr x \<Longrightarrow> P x) \<Longrightarrow> reads cfg fs gzip net (lift r) P"
  by (auto simp: reads_def lift_def)

lemma reads_and_then:
  assumes "reads cfg fs gzip net m P" and "\<And>x. P x \<Longrightarrow> reads cfg fs gzip net (f x) Q"
    and "\<And>x. sends net n (f x)"
  shows "reads cfg fs gzip net (and_then m f) Q"
  unfolding reads_def
proof (intro allI impI)
  fix s r s' assume "and_then m f s = (r, s')"
  then consider e where "m s = (Inl e, s')" "r = Inl e" | x s1 where "m s = (Inr x, s1)" "f x s1 = (r, s')"
    unfolding and_then_iff by blast
  then show "(\<exists>cs. cl_calls s' = cl_calls s @ cs) \<and>
      (all_served cfg fs gzip net s s' \<longrightarrow> r \<noteq> Inl JsonErr \<and> (\<forall>x. r = Inr x \<longrightarrow> Q x))"
  proof cases
    case 1
    then show ?thesis using assms(1) by (auto simp: reads_def)
  next
    case 2
    from assms(1) 2(1) obtain cs where cs: "cl_calls s1 = cl_calls s @ cs"
      and m: "all_served cfg fs gzip net s s1 \<Longrightarrow> P x" by (fastforce simp: reads_def)
    from assms(3) [of x] 2(2) obtain ds where ds: "cl_calls s' = cl_calls s1 @ ds" unfolding sends_def by blast
    have "r \<noteq> Inl JsonErr \<and> (\<forall>x. r = Inr x \<longrightarrow> Q x)" if all: "all_served cfg fs gzip net s s'"
    proof -
      have "all_served cfg fs gzip net s s1" using all ds by (auto simp: all_served_def nth_append)
      then have "P x" by (rule m)
      moreover have "all_served cfg fs gzip net s1 s'" using all cs by (auto simp: all_served_def)
      ultimately show ?thesis using assms(2) 2(2) by (auto simp: reads_def)
    qed
    then show ?thesis using cs ds by auto
  qed
qed

lemma and_then_lift [simp]: "and_then (lift (Inr x)) f = f x" "and_then (lift (Inl e)) f = throw e"
  by (simp_all add: and_then_def lift_def throw_def fun_eq_iff)

lemma reads_print_then:
  assumes "reads cfg fs gzip net (f ()) Q"
  shows "reads cfg fs gzip net (and_then (print t) f) Q"
proof -
  have "all_served cfg fs gzip net (s\<lparr>cl_out := u\<rparr>) s' = all_served cfg fs gzip net s s'" for s u s'
    by (simp add: all_served_def)
  then show ?thesis
    using assms by (fastforce simp: reads_def and_then_def print_def)
qed

lemma reads_call:
  assumes "\<And>status b. served cfg fs gzip (Inr (status, b)) (cli_call_of method path body) \<Longrightarrow>
      (if 400 \<le> status then error_body b else P (case b of None \<Rightarrow> JNull | Some j \<Rightarrow> j))"
  shows "reads cfg fs gzip net (cli_call net base method path body) P"
  unfolding reads_def
proof (intro allI impI)
  fix s r s' assume m: "cli_call net base method path body s = (r, s')"
  then have s': "cl_calls s' = cl_calls s @ [cli_call_of method path body]"
    and r: "r = cli_reply base path (net (length (cl_calls s)))"
    by (auto simp: cli_call_def cli_call_of_def)
  have "r \<noteq> Inl JsonErr \<and> (\<forall>x. r = Inr x \<longrightarrow> P x)" if "all_served cfg fs gzip net s s'"
  proof -
    have sv: "served cfg fs gzip (net (length (cl_calls s))) (cli_call_of method path body)"
      using that s' by (auto simp: all_served_def)
    show ?thesis
    proof (cases "net (length (cl_calls s))")
      case (Inl e)
      then show ?thesis using r by (simp add: cli_reply_def)
    next
      case (Inr sb)
      obtain status b where sb: "sb = (status, b)" by fastforce
      with assms sv Inr have "if 400 \<le> status then error_body b else P (case b of None \<Rightarrow> JNull | Some j \<Rightarrow> j)" by simp
      then show ?thesis using r Inr sb error_message_reads [of b status]
        by (cases "error_message status b") (auto simp: cli_reply_def split: if_splits)
    qed
  qed
  then show "(\<exists>cs. cl_calls s' = cl_calls s @ cs) \<and>
      (all_served cfg fs gzip net s s' \<longrightarrow> r \<noteq> Inl JsonErr \<and> (\<forall>x. r = Inr x \<longrightarrow> P x))"
    using s' by blast
qed

lemma call_by_id:
  assumes "endpoint_of c = by_id k e" and "\<not> starts_with (wr_path (wire c)) ''/static''"
    and "json_request e [show_int k] (wire c) = Some req" and "\<And>w s. answers P (fst (handle cfg fs gzip w req s))"
    and "served cfg fs gzip (Inr (status, b)) c"
  shows "if 400 \<le> status then error_body b else P (case b of None \<Rightarrow> JNull | Some j \<Rightarrow> j)"
proof (cases "0 \<le> k")
  case True
  then show ?thesis using served_answers [OF assms(5) _ assms(3,2,4)] assms(1) by (simp add: by_id_def)
next
  case False
  then show ?thesis using served_unrouted [OF assms(5) _ assms(2)] assms(1) by (simp add: by_id_def error_body_def)
qed

lemma reads_calls:
  "reads cfg fs gzip net (cli_call net base ''GET'' (validation_path k) None) validation_shape"
  "reads cfg fs gzip net (cli_call net base ''GET'' (''/api/tests/'' @ show_int k @ ''/stats'') None) stats_shape"
  "reads cfg fs gzip net (cli_call net base ''POST'' (''/api/admin/tests/'' @ show_int k @ ''/stop'') None) stopped_shape"
  "reads cfg fs gzip net (cli_call net base ''PATCH'' (''/api/admin/tests/'' @ show_int k) body) (\<lambda>_. True)"
  "reads cfg fs gzip net (cli_call net base ''POST'' ''/api/admin/tests'' body) created_shape"
  "reads cfg fs gzip net (cli_call net base ''GET'' ''/api/tests'' None) list_shape"
  "reads cfg fs gzip net (cli_call net base ''GET'' (''/api/tests?limit='' @ show_int n) None) list_shape"
proof -
  have fst_handle:
    "answers validation_shape (fst (handle cfg fs gzip w (GetValidation path) s))"
    "answers stats_shape (fst (handle cfg fs gzip w (GetStats path) s))"
    "answers stopped_shape (fst (handle cfg fs gzip w (PostStop path) s))"
    "answers (\<lambda>_. True) (fst (handle cfg fs gzip w (PatchPriority path b) s))"
    "answers created_shape (fst (handle cfg fs gzip w (PostTests b) s))"
    "answers list_shape (fst (handle cfg fs gzip w (GetTests l) s))" for w path b l s
    using validation_answers stats_answers stopped_answers priority_answers created_answers list_answers
    by (cases s; simp add: case_prod_beta)+
  show "reads cfg fs gzip net (cli_call net base ''GET'' (validation_path k) None) validation_shape"
    by (rule reads_call, rule call_by_id [OF reach_cli_ids(1) cli_paths(1)],
      simp add: json_request_def group_def, rule fst_handle)
  show "reads cfg fs gzip net (cli_call net base ''GET'' (''/api/tests/'' @ show_int k @ ''/stats'') None) stats_shape"
    by (rule reads_call, rule call_by_id [OF reach_cli_ids(2) cli_paths(2)],
      simp add: json_request_def group_def, rule fst_handle)
  show "reads cfg fs gzip net (cli_call net base ''POST'' (''/api/admin/tests/'' @ show_int k @ ''/stop'') None) stopped_shape"
    by (rule reads_call, rule call_by_id [OF reach_cli_ids(3) cli_paths(3)],
      simp add: json_request_def group_def, rule fst_handle)
  show "reads cfg fs gzip net (cli_call net base ''PATCH'' (''/api/admin/tests/'' @ show_int k) body) (\<lambda>_. True)"
    by (rule reads_call, rule call_by_id [OF reach_cli_ids(4) cli_paths(4)],
      simp add: json_request_def group_def, rule fst_handle)
  show "reads cfg fs gzip net (cli_call net base ''POST'' ''/api/admin/tests'' body) created_shape"
    by (rule reads_call, rule served_answers [OF _ reach_cli_plain(1) _ cli_paths(5)],
      assumption, simp add: json_request_def, rule fst_handle)
  show "reads cfg fs gzip net (cli_call net base ''GET'' ''/api/tests'' None) list_shape"
    by (rule reads_call, rule served_answers [OF _ reach_cli_plain(2) _ cli_paths(6)],
      assumption, simp add: json_request_def, rule fst_handle)
  show "reads cfg fs gzip net (cli_call net base ''GET'' (''/api/tests?limit='' @ show_int n) None) list_shape"
    by (rule reads_call, rule served_answers [OF _ reach_cli_plain(3) _ cli_paths(7)],
      assumption, simp add: json_request_def, rule fst_handle)
qed

section \<open>The commands\<close>

abbreviation reads_all :: "server_config \<Rightarrow> file_system \<Rightarrow> (string \<Rightarrow> string result) \<Rightarrow> network \<Rightarrow> 'a cli \<Rightarrow> bool" where
  "reads_all cfg fs gzip net m \<equiv> reads cfg fs gzip net m (\<lambda>_. True)"

lemma reads_validation: "reads_all cfg fs gzip net (cmd_validation net base k quiet)"
  unfolding cmd_validation_def
proof (rule reads_and_then [where n = 0, OF reads_calls(1)])
  fix v assume "validation_shape v"
  then obtain status out where v: "v = JObject [(''status'', JString status), (''validation_log'', nullable JString out)]"
    by (auto simp: validation_shape_def)
  show "reads_all cfg fs gzip net
      (and_then (lift (at_as get_string v ''status'')) (\<lambda>status.
       and_then (print (''teste '' @ show_int k @ '': '' @ status @ [newline])) (\<lambda>_.
       and_then (lift (json_at v ''validation_log'')) (\<lambda>log.
         let failed = (status = ''invalid'')
         in and_then (case log of
              JString t \<Rightarrow> if failed \<or> \<not> quiet then print t else give ()
            | _ \<Rightarrow> give ()) (\<lambda>_. give (if failed then 1 else 0))))))"
    by (cases out; cases quiet; cases "status = ''invalid''") (auto simp: v json_at_def Let_def intro!: reads_print_then reads_give)
qed (auto simp: Let_def intro!: sends_intros split: json.split)

lemma reads_wait: "reads_all cfg fs gzip net (wait_validation n net base k)"
proof (induction n)
  case 0
  then show ?case by (simp add: reads_give)
next
  case (Suc n)
  show ?case
    unfolding wait_validation.simps
  proof (rule reads_and_then [where n = 0, OF reads_calls(1)])
    fix v assume "validation_shape v"
    then show "reads_all cfg fs gzip net (and_then (lift (json_at v ''status'')) (\<lambda>status.
        if status \<noteq> JString ''validating'' then give (Some ())
        else and_then (print ''.'') (\<lambda>_. wait_validation n net base k)))"
      using Suc.IH by (auto simp: validation_shape_def json_at_def intro!: reads_print_then reads_give)
  qed (intro sends_intros)
qed

text \<open>Where the parsing of the command line can fail, it does so with a message of its own.\<close>

lemma own_errors:
  "need a k \<noteq> Inl JsonErr" "cli_to_int t what \<noteq> Inl JsonErr" "cli_to_double rd t what \<noteq> Inl JsonErr" "id_arg a i \<noteq> Inl JsonErr"
  by (simp_all add: need_def cli_to_int_def cli_to_double_def id_arg_def invalid_def split: option.split)

lemma bindE_own: "m \<noteq> Inl JsonErr \<Longrightarrow> (\<And>x. f x \<noteq> Inl JsonErr) \<Longrightarrow> bindE m f \<noteq> Inl JsonErr"
  by (cases m) auto

lemma opt_member_own: "(\<And>v. read v \<noteq> Inl JsonErr) \<Longrightarrow> opt_member a opt k read \<noteq> Inl JsonErr"
  by (cases "ca_options a opt") (simp_all add: opt_member_def bindE_own del: bindE_eq_Inl_iff)

lemma submit_body_own: "submit_body rd user a \<noteq> Inl JsonErr"
  unfolding submit_body_def Let_def
  by (intro bindE_own own_errors opt_member_own) simp_all

lemma reads_submit: "reads_all cfg fs gzip net (cmd_submit polls rd user net base a)"
proof (cases "submit_body rd user a")
  case (Inl e)
  then show ?thesis
    using submit_body_own [of rd user a] by (simp add: cmd_submit_def reads_throw)
next
  case (Inr body)
  show ?thesis
    unfolding cmd_submit_def Inr and_then_lift
  proof (rule reads_and_then [OF reads_calls(5)])
    fix r assume "created_shape r"
    then obtain i spec candidate baseline where r: "r = created_json i spec candidate baseline"
      by (auto simp: created_shape_def)
    have waited: "reads_all cfg fs gzip net (and_then (wait_validation polls net base k)
        (\<lambda>done'. case done' of None \<Rightarrow> give None
          | Some _ \<Rightarrow> and_then (print [newline]) (\<lambda>_. and_then (cmd_validation net base k True) (\<lambda>rc. give (Some rc)))))" for k
    proof (rule reads_and_then [OF reads_wait])
      fix x :: "unit option"
      show "reads_all cfg fs gzip net (case x of None \<Rightarrow> give None
          | Some _ \<Rightarrow> and_then (print [newline]) (\<lambda>_. and_then (cmd_validation net base k True) (\<lambda>rc. give (Some rc))))"
        by (cases x) (auto intro!: reads_print_then reads_give reads_and_then [OF reads_validation] sends_intros)
    qed (intro sends_intros)
    show "reads_all cfg fs gzip net
      (and_then (lift (at_as get_int64 r ''test_id'')) (\<lambda>test.
       and_then (lift (show_members (\<lambda>_ _. []) r
        [(''teste '' @ show_int test @ '' criado ('', [''status''], AsText),
         ('')'' @ [newline] @ ''  candidate: '', [''candidate'', ''ref''], AsText),
         ('' '' @ [CHR 0xE2, CHR 0x86, CHR 0x92] @ '' '', [''candidate'', ''commit''], AsText),
         ([newline] @ ''  baseline:  '', [''baseline'', ''ref''], AsText),
         ('' '' @ [CHR 0xE2, CHR 0x86, CHR 0x92] @ '' '', [''baseline'', ''commit''], AsText)])) (\<lambda>text.
       and_then (print (text @ [newline])) (\<lambda>_.
         if ''wait'' \<notin> set (ca_flags a)
         then and_then (print (''acompanhe com: capi_net status '' @ show_int test @ [newline])) (\<lambda>_. give (Some 0))
         else
           and_then (print ''aguardando o smoke test...'') (\<lambda>_.
           and_then (wait_validation polls net base test) (\<lambda>done'.
             case done' of
               None \<Rightarrow> give None
             | Some _ \<Rightarrow>
                 and_then (print [newline]) (\<lambda>_.
                 and_then (cmd_validation net base test True) (\<lambda>rc. give (Some rc)))))))))"
      by (auto simp: r created_json_def json_at_def intro!: reads_print_then reads_give waited)
  qed (intro sends_intros)
qed

lemma reads_rows: "reads_all cfg fs gzip net (print_rows fmt (map summary_json ts))"
proof (induction ts)
  case (Cons t ts)
  have "\<exists>row. list_row fmt (summary_json t) = Inr row"
    by (simp add: list_row_def summary_json_def json_at_def short_sha_def Let_def)
  then show ?case using Cons.IH by (auto intro!: reads_print_then)
qed (simp add: reads_give)

lemma reads_list: "reads_all cfg fs gzip net (cmd_list fmt net base a)"
proof -
  have rows: "reads_all cfg fs gzip net (and_then (cli_call net base ''GET'' path None) (\<lambda>tests.
      and_then (print list_header) (\<lambda>_. and_then (print_rows fmt (json_elements tests)) (\<lambda>_. give 0))))"
    if "reads cfg fs gzip net (cli_call net base ''GET'' path None) list_shape" for path
  proof (rule reads_and_then [where n = 0, OF that])
    fix tests assume "list_shape tests"
    then show "reads_all cfg fs gzip net (and_then (print list_header) (\<lambda>_. and_then (print_rows fmt (json_elements tests)) (\<lambda>_. give 0)))"
      by (auto simp: list_shape_def intro!: reads_print_then reads_give sends_intros reads_and_then [where n = 0, OF reads_rows])
  qed (intro sends_intros)
  show ?thesis
  proof (cases "ca_options a ''limit''")
    case None
    then show ?thesis using rows [OF reads_calls(6)] by (simp add: cmd_list_def)
  next
    case (Some l)
    then show ?thesis
      using rows [OF reads_calls(7)] own_errors(2) [of l "''--limit''"]
      by (cases "cli_to_int l ''--limit''") (auto simp: cmd_list_def intro: reads_throw)
  qed
qed

lemma status_parts:
  "\<exists>t. status_head fmt k (stats_json s) = Inr t" "\<exists>t. status_score fmt (stats_json s) = Inr t"
  "\<exists>t. status_elo fmt (stats_json s) = Inr t" "\<exists>t. status_adjudication fmt (stats_json s) = Inr t"
  "\<exists>t. status_sprt fmt (stats_json s) = Inr t" "json_at (stats_json s) ''status'' = Inr (JString (sn_status s))"
proof -
  show "\<exists>t. status_head fmt k (stats_json s) = Inr t"
    by (simp add: status_head_def stats_json_def json_at_def)
  show "\<exists>t. status_score fmt (stats_json s) = Inr t"
    by (simp add: status_score_def stats_json_def json_at_def score_json_def Let_def)
  show "\<exists>t. status_elo fmt (stats_json s) = Inr t"
    by (simp add: status_elo_def stats_json_def json_at_def)
  show "\<exists>t. status_adjudication fmt (stats_json s) = Inr t"
    by (cases "adj_draw (sn_adjudication s)"; cases "adj_resign (sn_adjudication s)")
      (simp_all add: status_adjudication_def stats_json_def json_at_def adjudication_json_def)
  show "\<exists>t. status_sprt fmt (stats_json s) = Inr t"
    by (simp add: status_sprt_def stats_json_def json_at_def)
  show "json_at (stats_json s) ''status'' = Inr (JString (sn_status s))"
    by (simp add: stats_json_def json_at_def)
qed

lemma reads_status: "reads_all cfg fs gzip net (cmd_status fmt net base k)"
  unfolding cmd_status_def
proof (rule reads_and_then [where n = 0, OF reads_calls(2)])
  fix j assume "stats_shape j"
  then obtain s where j: "j = stats_json s" by (auto simp: stats_shape_def)
  obtain t1 t2 t3 t4 t5 where t: "status_head fmt k j = Inr t1" "status_score fmt j = Inr t2" "status_elo fmt j = Inr t3"
    "status_adjudication fmt j = Inr t4" "status_sprt fmt j = Inr t5"
    using status_parts(1) [of fmt k s] status_parts(2-5) [where fmt = fmt and s = s] unfolding j by blast
  show "reads_all cfg fs gzip net
     (and_then (lift (status_head fmt k j)) (\<lambda>head. and_then (print head) (\<lambda>_.
     and_then (lift (status_score fmt j)) (\<lambda>score. and_then (print score) (\<lambda>_.
     and_then (lift (status_elo fmt j)) (\<lambda>elo. and_then (print elo) (\<lambda>_.
     and_then (lift (status_adjudication fmt j)) (\<lambda>adj. and_then (print adj) (\<lambda>_.
     and_then (lift (status_sprt fmt j)) (\<lambda>sprt. and_then (print sprt) (\<lambda>_.
     and_then (lift (json_at j ''status'')) (\<lambda>status.
       if status = JString ''validating'' \<or> status = JString ''invalid''
       then and_then (print [newline]) (\<lambda>_. and_then (cmd_validation net base k False) (\<lambda>_. give 0))
       else give 0))))))))))))"
    unfolding t and_then_lift
    by (intro reads_print_then)
      (auto simp: j status_parts(6) intro!: reads_print_then reads_give sends_intros reads_and_then [where n = 0, OF reads_validation])
qed (intro sends_intros)

lemma reads_stop: "reads_all cfg fs gzip net (cmd_stop net base k)"
  unfolding cmd_stop_def
proof (rule reads_and_then [where n = 0, OF reads_calls(3)])
  fix r assume "stopped_shape r"
  then obtain previous promoted where r: "r = JObject [(''status'', JString ''stopped''), (''previous_status'', JString previous),
        (''promoted_test_id'', nullable JInt promoted)]" by (auto simp: stopped_shape_def)
  show "reads_all cfg fs gzip net
     (and_then (lift (at_as get_string r ''previous_status'')) (\<lambda>previous.
     and_then (print (''teste '' @ show_int k @ '' parado (estava '' @ previous @ '')'' @ [newline])) (\<lambda>_.
     and_then (lift (json_at r ''promoted_test_id'')) (\<lambda>promoted.
       if json_number promoted = None then give 0
       else and_then (lift (get_int64 promoted)) (\<lambda>p.
              and_then (print (''teste '' @ show_int p @ '' promovido para running'' @ [newline])) (\<lambda>_. give 0))))))"
    by (cases promoted) (auto simp: r json_at_def intro!: reads_print_then reads_give)
qed (intro sends_intros)

lemma reads_priority: "reads_all cfg fs gzip net (cmd_priority net base k n)"
  unfolding cmd_priority_def
  by (rule reads_and_then [where n = 0, OF reads_calls(4)]) (auto intro!: reads_print_then reads_give sends_intros)

lemma reads_code: "reads_all cfg fs gzip net m \<Longrightarrow> reads_all cfg fs gzip net (some_code m)"
  unfolding some_code_def by (erule reads_and_then [where n = 0]) (auto intro: reads_give sends_intros)

lemma if_own: "(b \<Longrightarrow> x \<noteq> e) \<Longrightarrow> (\<not> b \<Longrightarrow> y \<noteq> e) \<Longrightarrow> (if b then x else y) \<noteq> e"
  by simp

lemma parse_args_own: "parse_args argv a \<noteq> Inl JsonErr"
proof (induction argv a rule: parse_args.induct)
  case (2 arg rest a)
  show ?case
    unfolding parse_args.simps Let_def
  proof (intro if_own)
    let ?arg = "if arg = ''-h'' then ''--help'' else arg"
    assume "\<not> \<not> starts_with ?arg ''--''" "drop 2 ?arg \<notin> set kFlags"
    then show "(case rest of [] \<Rightarrow> Inl (RuntimeError (''faltou o valor de '' @ ?arg))
         | v # rest \<Rightarrow> parse_args rest (a\<lparr>ca_options := (ca_options a)(drop 2 ?arg \<mapsto> v)\<rparr>)) \<noteq> Inl JsonErr"
      by (cases rest) (simp, simp only: list.case, rule 2(3) [OF refl refl])
  qed (erule 2(1) [OF refl refl], erule (1) 2(2) [OF refl refl])
qed simp

lemma reads_by_id:
  assumes "\<And>k. reads_all cfg fs gzip net (m k)"
  shows "reads_all cfg fs gzip net (and_then (lift (id_arg a i)) m)"
  using assms own_errors(4) [of a i] by (cases "id_arg a i") (auto intro: reads_throw)

lemma reads_priority_args:
  "reads_all cfg fs gzip net (and_then (lift (cli_to_int t what)) (\<lambda>n.
     and_then (lift (id_arg a i)) (\<lambda>k. some_code (cmd_priority net base k n))))"
  using own_errors(2) [of t what]
  by (cases "cli_to_int t what") (auto intro: reads_throw reads_by_id reads_code reads_priority)

lemma reads_run: "reads_all cfg fs gzip net (cli_run polls fmt rd who net argv)"
proof (cases "parse_args argv no_args")
  case (Inl e)
  then show ?thesis using parse_args_own [of argv no_args] by (auto simp: cli_run_def intro: reads_throw)
next
  case (Inr a)
  show ?thesis
    unfolding cli_run_def Inr and_then_lift Let_def
    by (auto intro!: reads_print_then reads_give reads_throw reads_submit reads_by_id reads_priority_args
        reads_code reads_list reads_status reads_validation reads_stop)
qed

section \<open>Property\<close>

text \<open>
  C33: The tool can read whatever the server answers. In a run whose calls are answered by the
  server, in any state and even when each in a different one, the tool never meets a member that
  is missing or has another type: if the run ends with an exception, it is the tool's own message
  on a bad command line or on a failed call, never one of the JSON library.
\<close>
theorem cli_reads_every_answer:
  assumes "cli_run polls fmt rd who net argv \<lparr>cl_calls = [], cl_out = []\<rparr> = (r, s)"
    and "\<And>i. i < length (cl_calls s) \<Longrightarrow> served cfg fs gzip (net i) (cl_calls s ! i)"
  shows "r \<noteq> Inl JsonErr"
proof -
  have "all_served cfg fs gzip net \<lparr>cl_calls = [], cl_out = []\<rparr> s"
    using assms(2) by (simp add: all_served_def)
  then show ?thesis
    using reads_run [of cfg fs gzip net polls fmt rd who argv] assms(1) by (auto simp: reads_def)
qed

text \<open>The list of no tests, from a server that has just been set up.\<close>

definition quiet_world :: web_world where
  "quiet_world = \<lparr>w_conn = Inr (), w_now = 0, w_locked = (\<lambda>_. False), w_resolve = (\<lambda>_. Inr []),
     w_dir_exists = (\<lambda>_. False), w_find_file = (\<lambda>_ _. None), w_book_names = [], w_collate = (\<lambda>_. 0),
     w_gunzip = (\<lambda>s. Inr s), w_separator = Inr []\<rparr>"

lemma empty_list_served:
  "served cfg fs gzip (Inr (200, Some (JArray []))) (cli_call_of ''GET'' ''/api/tests'' None)"
proof -
  let ?c = "cli_call_of ''GET'' ''/api/tests'' None"
  have "respond cfg fs gzip quiet_world (wire ?c) (empty_db, Map.empty) =
    (plain (WebJson (fst (handle cfg fs gzip (http_world.truncate quiet_world) (GetTests None) (empty_db, Map.empty)))),
     snd (handle cfg fs gzip (http_world.truncate quiet_world) (GetTests None) (empty_db, Map.empty)))"
    using reach_cli_plain(2) [of None] cli_paths(6) [of None]
    by (intro respond_json) (simp_all add: endpoint_of_def json_request_def, simp add: wire_def cli_call_of_def query_pairs_def)
  moreover have "fst (handle cfg fs gzip (http_world.truncate quiet_world) (GetTests None) (empty_db, Map.empty)) = send_json 200 (JArray [])"
    by (simp add: quiet_world_def http_world.truncate_def get_tests_def list_limit_def list_tests_def empty_db_def guarded_def guardE_def
        del: bindE_eq_Inr_iff)
  ultimately show ?thesis
    unfolding served_def by (intro disjI2 exI [of _ quiet_world] exI [of _ "(empty_db, Map.empty)"] exI [of _ "send_json 200 (JArray [])"])
      (simp add: plain_def)
qed

theorem cli_reads_every_answer_witness:
  "fst (cli_run 0 (\<lambda>_ _. []) (\<lambda>_. None) \<lparr>ce_user = None, ce_server = None\<rparr> (\<lambda>_. Inr (200, Some (JArray []))) [''list'']
      \<lparr>cl_calls = [], cl_out = []\<rparr>) \<noteq> Inl JsonErr"
proof -
  obtain r s where run: "cli_run 0 (\<lambda>_ _. []) (\<lambda>_. None) \<lparr>ce_user = None, ce_server = None\<rparr>
      (\<lambda>_. Inr (200, Some (JArray []))) [''list''] \<lparr>cl_calls = [], cl_out = []\<rparr> = (r, s)" by fastforce
  then have "cl_calls s = [cli_call_of ''GET'' ''/api/tests'' None]"
    by (auto simp: cli_run_def lift_def and_then_def no_args_def starts_with_def some_code_def cmd_list_def cli_call_def
        cli_call_of_def cli_reply_def print_def give_def Let_def)
  then have "served default_config (\<lambda>_. None) (\<lambda>s. Inr s) (Inr (200, Some (JArray []))) (cl_calls s ! i)"
    if "i < length (cl_calls s)" for i
    using that empty_list_served by simp
  from cli_reads_every_answer [OF run this] run show ?thesis by simp
qed

end
