(* ===== verification/Settings.thy ===== *)
theory Settings
  imports Scenario
begin

text \<open>
  The settings of a stored test: what the validation of server/spec.cpp and the insertion of
  server/admin.cpp make of a row of the table tests, and that every later operation leaves it so.
  It is what the other parts rely on when they read a row: ranges that fit the client's
  \<^verbatim>\<open>int\<close>, names that are safe in paths, bounds of the likelihood ratio that exist exactly for an
  SPRT test, and the rules of adjudication, which are never absent.
\<close>

section \<open>Well-formed settings\<close>

definition sprt_settings :: "test_row \<Rightarrow> bool" where
  "sprt_settings t \<longleftrightarrow>
     (case (t_sprt_elo0 t, t_sprt_elo1 t, t_sprt_alpha t, t_sprt_beta t) of
        (Some e0, Some e1, Some a, Some b) \<Rightarrow>
          t_kind t = Sprt \<and> t_sprt_preset t \<noteq> None \<and> e0 < e1 \<and> 0 < a \<and> a < 1 \<and> 0 < b \<and> b < 1
      | (None, None, None, None) \<Rightarrow> t_kind t = Gauntlet \<and> t_sprt_preset t = None
      | _ \<Rightarrow> False)"

definition adjudication_set :: "test_row \<Rightarrow> bool" where
  "adjudication_set t \<longleftrightarrow>
     t_adj_draw_movenumber t = Some 34 \<and> t_adj_draw_movecount t = Some 8 \<and> t_adj_draw_score_cp t = Some 20 \<and>
     t_adj_resign_movecount t = Some 5 \<and> t_adj_resign_score_cp t = Some 1000 \<and> t_adj_resign_twosided t = Some True"

definition settings_ok :: "test_row \<Rightarrow> bool" where
  "settings_ok t \<longleftrightarrow>
     t_name t \<noteq> [] \<and> valid_ref (t_candidate_ref t) \<and> valid_ref (t_baseline_ref t) \<and>
     t_candidate_commit t \<noteq> t_baseline_commit t \<and> valid_book_name (t_book_name t) \<and>
     0 < t_tc_base_ms t \<and> t_tc_base_ms t \<le> 86400000 \<and>
     0 \<le> t_tc_increment_ms t \<and> t_tc_increment_ms t \<le> 3600000 \<and>
     1 \<le> t_hash_mb t \<and> t_hash_mb t \<le> 4096 \<and> t_threads t = 1 \<and>
     1 \<le> t_total_pairs t \<and> t_total_pairs t \<le> 10000000 \<and>
     sprt_settings t \<and> adjudication_set t"

lemma settings_frozen [simp]: "settings_ok (frozen t) = settings_ok t"
  by (simp add: settings_ok_def sprt_settings_def adjudication_set_def frozen_def split: option.splits)

text \<open>A validated specification, inserted.\<close>

lemma sprt_row_settings:
  assumes "spec_wf s" and "kind_of_text (sp_kind s) = Inr kind"
    and "sql_opt preset_of_text (sp_sprt_preset s) = Inr preset"
  shows "sprt_settings (test_row_of now i kind preset s cand base)"
  using assms
  by (auto simp: sprt_settings_def test_row_of_def spec_wf_def sprt_fields_ok_def no_sprt_fields_def
      kind_of_text_def sql_opt_def sql_enum_def preset_of_text_def)

lemma inserted_settings:
  assumes "spec_wf s" and "insert_test now s cand base db = Inr (i, db')"
  obtains t where "settings_ok t" and "db' = db\<lparr>db_tests := db_tests db @ [t], next_test := next_test db + 1\<rparr>"
proof -
  from assms(2) obtain kind preset where k: "kind_of_text (sp_kind s) = Inr kind"
    "sql_opt preset_of_text (sp_sprt_preset s) = Inr preset" "cand \<noteq> base"
    "db' = db\<lparr>db_tests := db_tests db @ [test_row_of now (next_test db) kind preset s cand base], next_test := next_test db + 1\<rparr>"
    by (auto simp: insert_test_def Let_def)
  have "settings_ok (test_row_of now (next_test db) kind preset s cand base)"
    using sprt_row_settings [OF assms(1) k(1,2)] assms(1) k(3)
    by (simp add: settings_ok_def adjudication_set_def spec_wf_def test_row_of_def)
  then show thesis using that k(4) by blast
qed

section \<open>What the operations keep\<close>

definition same_settings :: "db \<Rightarrow> db \<Rightarrow> bool" where
  "same_settings db db' \<longleftrightarrow> map frozen (db_tests db') = map frozen (db_tests db)"

named_theorems settings_intros

lemma same_settings_same [settings_intros]: "db_tests db' = db_tests db \<Longrightarrow> same_settings db db'"
  by (simp add: same_settings_def)

lemma same_settings_trans: "same_settings a b \<Longrightarrow> same_settings b c \<Longrightarrow> same_settings a c"
  by (simp add: same_settings_def)

lemma same_settings_work: "same_work db db' \<Longrightarrow> same_settings db db'"
  by (simp add: same_settings_def same_work_def)

lemma same_settings_update:
  "(\<And>t. frozen (f t) = frozen t) \<Longrightarrow> db_tests db' = update_where P f (db_tests db) \<Longrightarrow> same_settings db db'"
  by (simp add: same_settings_def update_where_def comp_def if_distrib cong: if_cong)

lemma same_settings_update_test [settings_intros]:
  "(\<And>t. frozen (f t) = frozen t) \<Longrightarrow> same_settings db (update_test i f db)"
  by (rule same_settings_update) simp_all

lemma same_settings_promote: "same_settings db (snd (promote_next_test now db))"
  by (rule same_settings_work [OF promote_same_work])

lemma same_settings_refresh: "refresh_test now i db = Inr db' \<Longrightarrow> tests_core db \<Longrightarrow> same_settings db db'"
  by (rule same_settings_work [OF refresh_facts(3)])

lemma same_settings_refresh_all:
  assumes "foldE (refresh_test now) is db = Inr db'" and "tests_core db"
  shows "same_settings db db'"
proof -
  have "tests_core db' \<and> same_settings db db'"
    using assms(1)
    by (rule foldE_invariant [where P = "\<lambda>d. tests_core d \<and> same_settings db d"])
      (use assms(2) same_settings_refresh same_settings_trans refresh_facts(1) in \<open>blast intro: same_settings_same\<close>)+
  then show ?thesis by blast
qed

lemma settings_kept:
  assumes inv: "db_inv db" and "server_step cfg fs build gzip db db'"
    and "\<And>body s now cand base i. parse_test_spec (- (2 ^ 63)) (cfg_sprt_presets cfg) body = Inr s \<Longrightarrow>
      insert_test now s cand base db \<noteq> Inr (i, db')"
  shows "same_settings db db'"
  using assms(2)
proof (cases rule: server_step.cases)
  case (Claim locked now client slots_free cr)
  from Claim(1) show ?thesis by (cases rule: claim_cases) (simp_all add: same_settings_same)
next
  case (Submit report now pair sr)
  show ?thesis
    using Submit(2,1)
  proof (cases rule: submit_cases)
    case (2 p t r0 r1 gz)
    let ?d = "with_result now pair (r0, r1) gz db"
    have "tests_core ?d" using db_invD(2) [OF inv] tests_core_frame [of ?d db] by simp
    from same_settings_refresh [OF 2(10) this] show ?thesis
      by (rule same_settings_trans [rotated]) (simp add: same_settings_same)
  qed (simp add: same_settings_same)
next
  case (Abandon pair client ok)
  then show ?thesis by (auto simp: abandon_pair_def intro!: same_settings_same)
next
  case (Recover locked now lr)
  let ?d = "update_pairs (lease_expired locked now) (expire_pair (max_attempts cfg)) db"
  have "tests_core ?d" using db_invD(2) [OF inv] tests_core_frame [of ?d db] by simp
  from same_settings_refresh_all [OF recover_cases [OF Recover(1)] this] show ?thesis
    by (rule same_settings_trans [rotated]) (simp add: same_settings_same)
next
  case (Promote now i)
  then show ?thesis using same_settings_promote [of db now] by simp
next
  case (Smoke test t now dispatch r)
  note parts = db_invD [OF inv]
  show ?thesis
    using Smoke(2) parts(2,5)
  proof (cases rule: smoke_commit_cases)
    case (2 u vlog)
    then show ?thesis by (simp add: same_settings_update_test)
  next
    case (3 u vlog d)
    let ?v = "smoke_test cfg fs build t"
    let ?w = "with_work test dispatch (sm_positions ?v) vlog db"
    have "test_params_ok t" using find_test_Some [OF Smoke(1)] tests_coreD(3) parts(2) by blast
    then have "sm_positions ?v \<noteq> []" using smoke_test_positions(1) 3(4) by blast
    then have core: "tests_core ?w" using with_work_base(1) [OF inv 3(1,2,3)] by blast
    have "same_settings db ?w"
      by (rule same_settings_update [where f = "queued_row vlog"]) (simp_all add: with_work_def Let_def)
    moreover have "same_settings ?w d" by (rule same_settings_refresh [OF 3(5) core])
    ultimately show ?thesis unfolding 3(6) using same_settings_promote same_settings_trans by blast
  qed (simp add: same_settings_same)
next
  case (Stop now test so)
  then show ?thesis
  proof (cases rule: stop_test_cases)
    case (2 t)
    have "same_settings db (update_test test (stopped_row now) db)" by (simp add: same_settings_update_test)
    then show ?thesis unfolding 2(4) using same_settings_promote same_settings_trans by blast
  next
    case (3 t)
    then show ?thesis by (simp add: same_settings_update_test)
  qed (simp add: same_settings_same)
next
  case (Priority test n po)
  then show ?thesis
    by (cases rule: set_priority_cases) (auto simp: frozen_def intro: settings_intros)
next
  case (Register now reg rc)
  then show ?thesis by (auto simp: register_client_def split: option.splits intro!: same_settings_same)
next
  case (Heartbeat now client factor b)
  then show ?thesis by (auto simp: heartbeat_def split: option.splits intro!: same_settings_same)
next
  case (Create body s now cand base i)
  then show ?thesis using assms(3) by blast
qed

section \<open>Every stored test\<close>

definition settings_inv :: "db \<Rightarrow> bool" where
  "settings_inv db \<longleftrightarrow> list_all settings_ok (db_tests db)"

lemma settings_inv_frozen: "settings_inv db \<longleftrightarrow> list_all settings_ok (map frozen (db_tests db))"
  by (simp add: settings_inv_def list_all_iff)

lemma settings_step:
  assumes inv: "db_inv db" and step: "server_step cfg fs build gzip db db'" and "settings_inv db"
  shows "settings_inv db'"
proof (cases "\<exists>body s now cand base i. parse_test_spec (- (2 ^ 63)) (cfg_sprt_presets cfg) body = Inr s \<and>
    insert_test now s cand base db = Inr (i, db')")
  case True
  then obtain body s now cand base i where s: "parse_test_spec (- (2 ^ 63)) (cfg_sprt_presets cfg) body = Inr s"
    "insert_test now s cand base db = Inr (i, db')" by blast
  have "spec_wf s" by (rule parse_test_spec_wf [OF s(1)]) (simp add: wrap_int_def)
  from this s(2) obtain t where "settings_ok t" "db' = db\<lparr>db_tests := db_tests db @ [t], next_test := next_test db + 1\<rparr>"
    by (rule inserted_settings)
  then show ?thesis using assms(3) by (simp add: settings_inv_def)
next
  case False
  then have "same_settings db db'" by (intro settings_kept [OF inv step]) blast
  then show ?thesis using assms(3) by (simp add: settings_inv_frozen same_settings_def)
qed

interpretation settings_system: guarded_system "server_step cfg fs build gzip" "\<lambda>db. db_inv db \<and> settings_inv db"
  for cfg fs build gzip
  by unfold_locales (use server_step_inv settings_step in blast)

lemma settings_run: "reachable cfg fs build gzip db \<Longrightarrow> settings_inv db"
  using settings_system.run_keeps [of cfg fs build gzip empty_db db] db_inv_empty
  by (simp add: reachable_def settings_inv_def empty_db_def)

lemma reachable_settings:
  "reachable cfg fs build gzip db \<Longrightarrow> t \<in> set (db_tests db) \<Longrightarrow> settings_ok t"
  using settings_run by (auto simp: settings_inv_def list_all_iff)

text \<open>
  C32: A stored test is well-formed, whatever the server has done since it was created: a name,
  two safe refs that resolved to different commits, a safe book name, a time control between a
  millisecond and a day with an increment of at most an hour, 1 to 4096 MB of hash, one thread,
  1 to ten million pairs, the rules of adjudication, and bounds of the likelihood ratio exactly
  when it is an SPRT test: two Elo values in order and two probabilities strictly between 0 and 1.
\<close>
theorem stored_tests_well_formed:
  assumes "reachable cfg fs build gzip db" and "t \<in> set (db_tests db)"
  shows "settings_ok t"
  by (rule reachable_settings [OF assms])

theorem stored_tests_well_formed_witness:
  "\<exists>db t. demo_reachable db \<and> demo_played db \<and> t \<in> set (db_tests db) \<and> settings_ok t"
proof -
  obtain db where db: "demo_reachable db" "demo_played db" by (rule demo_run)
  then obtain t where "t \<in> set (db_tests db)" by (auto simp: demo_played_def)
  then show ?thesis using stored_tests_well_formed [OF db(1)] db by blast
qed

end
