(* ===== verification/WireRuns.thy ===== *)
theory WireRuns
  imports Router EndToEnd Settings RunnerThreads
begin

text \<open>
  The server as it is seen on the wire, and the client's poll over it: which route a request
  takes does not depend on the order of the registrations, requests are transactions of the
  database, and the engines and the command line a client ends up with are those of the test
  that runs on the server.
\<close>

section \<open>Routing\<close>

text \<open>
  C15: The routes determine the handler. Whatever way the HTTP library searches them, as long as it
  takes a route of the method whose pattern matches the path, with its groups, whenever there is
  one, and none otherwise, it takes the same one with the same groups: no two routes compete for a
  request, and the order of registration does not matter.
\<close>
theorem routing_determined:
  assumes "\<And>m ss e gs. pick m ss = Some (e, gs) \<Longrightarrow> \<exists>p. (m, p, e) \<in> set server_routes \<and> match_segments p ss = Some gs"
    and "\<And>m ss p e. pick m ss = None \<Longrightarrow> (m, p, e) \<in> set server_routes \<Longrightarrow> match_segments p ss = None"
  shows "pick = dispatch server_routes"
proof (intro ext)
  fix m ss
  show "pick m ss = dispatch server_routes m ss"
  proof (cases "pick m ss")
    case None
    show ?thesis
    proof (cases "dispatch server_routes m ss")
      case (Some eg)
      then obtain e gs p where "(m, p, e) \<in> set server_routes" "match_segments p ss = Some gs"
        using dispatch_Some [of server_routes m ss] by (cases eg) blast
      then show ?thesis using assms(2) [OF None] by simp
    qed (simp add: None)
  next
    case (Some eg)
    obtain e gs where eg: "eg = (e, gs)" by fastforce
    from assms(1) Some eg obtain p where p: "(m, p, e) \<in> set server_routes" "match_segments p ss = Some gs" by blast
    then obtain f hs where d: "dispatch server_routes m ss = Some (f, hs)"
      using dispatch_None [of server_routes m ss p e] by (cases "dispatch server_routes m ss") auto
    from dispatch_Some [OF d] obtain q where q: "(m, q, f) \<in> set server_routes" "match_segments q ss = Some hs" by blast
    have "fits p ss" "fits q ss" using p(2) q(2) match_segments_fits by blast+
    then have "p = q \<and> e = f" by (rule one_route [OF p(1) q(1)])
    then show ?thesis using Some eg d p(2) q(2) by simp
  qed
qed

theorem routing_determined_witness:
  "dispatch (rev server_routes) = dispatch server_routes \<and>
   dispatch (rev server_routes) ''GET'' [[], ''tests'', ''7''] = Some (AtPage TestPage, [''7''])"
proof -
  have "dispatch (rev server_routes) = dispatch server_routes"
  proof (rule routing_determined)
    fix m ss e gs assume "dispatch (rev server_routes) m ss = Some (e, gs)"
    from dispatch_Some [OF this]
    show "\<exists>p. (m, p, e) \<in> set server_routes \<and> match_segments p ss = Some gs" by simp
  next
    fix m ss p e assume "dispatch (rev server_routes) m ss = None" "(m, p, e) \<in> set server_routes"
    then show "match_segments p ss = None" using dispatch_None [of "rev server_routes"] by simp
  qed
  moreover have "dispatch server_routes ''GET'' [[], ''tests'', ''7''] = Some (AtPage TestPage, [''7''])"
    by (simp add: route_tables is_number_def char_class_defs)
  ultimately show ?thesis by simp
qed

section \<open>Requests are transactions\<close>

text \<open>What a registration does to the row of a banned client, which stays banned, and to the sequence.\<close>

definition ban_told :: "db \<Rightarrow> db \<Rightarrow> bool" where
  "ban_told db db' \<longleftrightarrow> (\<exists>c \<in> set (db_clients db). \<exists>now mode reg. c_status c = Banned \<and> rg_name reg = c_name c \<and>
     c_status (update_client_row now mode reg c) = Banned \<and>
     db' = db\<lparr>db_clients := update_where (\<lambda>r. c_name r = c_name c) (update_client_row now mode reg) (db_clients db),
              next_client := next_client db + 1\<rparr>)"

lemma post_register_told:
  assumes "post_register conn now body db = (res, db')" and "rs_status res = 403"
  shows "ban_told db db'"
  using assms(1) unfolding post_register_def
proof (cases rule: guarded_cases)
  case (threw e)
  then show ?thesis using assms(2) error_response_status [of e] by simp
next
  case returned
  then obtain reg c where reg: "register_client now reg db = Inr (c, db')" and c: "rc_banned c"
    using assms(2) by (auto simp: send_json_def split: if_splits)
  then obtain mode r where r: "find (\<lambda>c. c_name c = rg_name reg) (db_clients db) = Some r" "keep_ban (c_status r) = Banned"
    "db' = db\<lparr>db_clients := update_where (\<lambda>r. c_name r = rg_name reg) (update_client_row now mode reg) (db_clients db),
       next_client := next_client db + 1\<rparr>"
    by (auto simp: register_client_def split: option.splits)
  have "r \<in> set (db_clients db)" "c_name r = rg_name reg" using r(1) by (auto simp: find_Some_iff)
  moreover have "c_status r = Banned" using r(2) by (simp add: keep_ban_def split: if_splits)
  ultimately show ?thesis
    unfolding ban_told_def using r(3)
    by (intro bexI [of _ r] exI [of _ now] exI [of _ mode] exI [of _ reg]) (simp_all add: update_client_row_def keep_ban_def)
qed

lemma respond_told:
  assumes "respond cfg fs gzip w r (db, cache) = (a, db', cache')" and "registers r"
    and "answer_status (wa_content a) = 403"
  shows "db' = db \<or> ban_told db db'"
  using assms(1)
proof (cases rule: respond_cases)
  case (handled p e gs req res)
  obtain body where "req = PostRegister body"
    using assms(2) handled(2,3) by (auto simp: registers_def json_request_def)
  then have "post_register (w_conn w) (w_now w) body db = (res, db')"
    using handled(4) by (auto simp: http_world.truncate_def split: prod.splits)
  then show ?thesis using post_register_told assms(3) handled(5) by auto
qed simp

text \<open>
  C14: The server on the wire is the system of transactions. From the empty database, whatever
  requests come in (unknown paths, wrong methods, malformed bodies and ids included) and whenever
  the background threads run, the database is one that the transactions reach and keeps the
  invariant; a further request changes nothing or is one transaction, and a GET changes nothing.
  A request answered with an error has changed nothing and may be sent again, with one exception:
  the 403 of a banned client that registers. Its row then holds the new registration, the client
  stays banned, and nothing else has changed but the sequence of the ids of the clients.
\<close>
theorem wire_serves_transactions:
  assumes "(wire_step cfg fs build gzip)\<^sup>*\<^sup>* (empty_db, cache) s"
    and "request_ok r" and "respond cfg fs gzip w r s = (a, s')"
  shows "reachable cfg fs build gzip (fst s) \<and> db_inv (fst s) \<and>
    (fst s' = fst s \<or> wr_method r \<noteq> ''GET'' \<and> server_step cfg fs build gzip (fst s) (fst s')) \<and>
    (400 \<le> answer_status (wa_content a) \<longrightarrow>
       fst s' = fst s \<or> registers r \<and> answer_status (wa_content a) = 403 \<and> ban_told (fst s) (fst s'))"
proof -
  have reach: "reachable cfg fs build gzip (fst s)"
    using wire_run_refines [OF assms(1)] by (simp add: reachable_def)
  then have inv: "db_inv (fst s)" by (rule reachable_inv)
  have r: "respond cfg fs gzip w r (fst s, snd s) = (a, fst s', snd s')" using assms(3) by simp
  show ?thesis
    using reach inv respond_steps [OF r assms(2)] respond_failed [OF r db_invD(6) [OF inv]] respond_told [OF r] by blast
qed

definition demo_web :: web_world where
  "demo_web =
     \<lparr>w_conn = Inr (), w_now = 0, w_locked = (\<lambda>_. False), w_resolve = (\<lambda>_. Inl InvalidArgument),
      w_dir_exists = (\<lambda>_. True), w_find_file = (\<lambda>_ _. None), w_book_names = [], w_collate = (\<lambda>_. 0),
      w_gunzip = (\<lambda>s. Inr s), w_separator = Inr []\<rparr>"

lemma demo_web_json: "http_world.truncate demo_web = demo_world"
  by (simp add: demo_web_def demo_world_def http_world.defs)

definition demo_knock :: wire_request where
  "demo_knock = \<lparr>wr_method = ''POST'', wr_path = ''/api/clients/7/heartbeat'', wr_params = Map.empty,
     wr_body = Some (JObject [])\<rparr>"

lemma demo_knock_route:
  "dispatch server_routes (wr_method demo_knock) (path_segments (wr_path demo_knock)) = Some (AtHeartbeat, [''7''])"
  by (simp add: demo_knock_def path_segments_def route_tables is_number_def char_class_defs)

lemma demo_knock_answer:
  "respond default_config demo_fs demo_gzip demo_web demo_knock (demo_registered, cache)
     = (plain (WebJson (send_error 404 ''unknown_client'' [])), demo_registered, cache)"
proof -
  have "json_request AtHeartbeat [''7''] demo_knock = Some demo_stranger"
    by (simp add: json_request_def demo_knock_def demo_stranger_def group_def)
  moreover have "\<not> starts_with (wr_path demo_knock) ''/static''"
    by (simp add: demo_knock_def starts_with_def)
  ultimately show ?thesis
    using respond_json [OF demo_knock_route] demo_stranger_handled by (simp add: demo_web_json)
qed

theorem wire_serves_transactions_witness:
  "reachable default_config demo_fs demo_build demo_gzip demo_registered \<and>
   (case respond default_config demo_fs demo_gzip demo_web demo_knock (demo_registered, Map.empty) of
      (a, s') \<Rightarrow> answer_status (wa_content a) = 404 \<and> fst s' = demo_registered)"
proof -
  have "wire_step default_config demo_fs demo_build demo_gzip (empty_db, Map.empty) (demo_registered, Map.empty)"
    by (rule wire_step.Background [OF demo_register_step])
  then have run: "(wire_step default_config demo_fs demo_build demo_gzip)\<^sup>*\<^sup>* (empty_db, Map.empty) (demo_registered, Map.empty)"
    by blast
  have ok: "request_ok demo_knock" by (simp add: request_ok_def demo_knock_def)
  from wire_serves_transactions [OF run ok demo_knock_answer] show ?thesis
    by (simp add: demo_knock_answer plain_def send_error_def send_json_def)
qed

section \<open>The client plays the server's test\<close>

text \<open>The reply the client's HTTP library makes of an answer.\<close>

definition answer_reply :: "web_answer \<Rightarrow> http_reply" where
  "answer_reply a =
     (case wa_content a of
        WebJson res \<Rightarrow> Inr (rs_status res, rs_body res)
      | other \<Rightarrow> Inr (answer_status other, None))"

lemma active_test_answer:
  assumes "w_conn w = Inr ()"
  shows "respond cfg fs gzip w (wire active_test_call) (db, cache)
    = (plain (WebJson (fst (get_active_test cfg (Inr ()) db))), db, cache)"
proof -
  have d: "dispatch server_routes (wr_method (wire active_test_call)) (path_segments (wr_path (wire active_test_call)))
      = Some (AtActiveTest, [])"
    using reach_plain(2) by (simp add: endpoint_of_def)
  have "\<not> starts_with (wr_path (wire active_test_call)) ''/static''"
    by (simp add: wire_def active_test_call_def starts_with_def)
  from respond_json [OF d _ this, of GetActiveTest] assms show ?thesis
    using read_handlers(2) [of cfg "Inr ()" db]
    by (auto simp: json_request_def http_world.defs split: prod.splits)
qed

definition api_test_of :: "server_config \<Rightarrow> test_row \<Rightarrow> api_test" where
  "api_test_of cfg t =
     \<lparr>ap_test_id = t_id t, ap_kind = kind_text (t_kind t),
      ap_candidate_commit = t_candidate_commit t, ap_baseline_commit = t_baseline_commit t,
      ap_candidate_tarball_url = tarball_url cfg (t_candidate_commit t),
      ap_baseline_tarball_url = tarball_url cfg (t_baseline_commit t),
      ap_tc_base_ms = t_tc_base_ms t, ap_tc_increment_ms = t_tc_increment_ms t, ap_hash_mb = t_hash_mb t,
      ap_threads = 1,
      ap_adjudication =
        \<lparr>adj_draw = Some \<lparr>dr_movenumber = 34, dr_movecount = 8, dr_score_cp = 20\<rparr>,
         adj_resign = Some \<lparr>rs_movecount = 5, rs_score_cp = 1000, rs_twosided = True\<rparr>\<rparr>\<rparr>"

lemma api_test_of_id: "ap_test_id (api_test_of cfg t) = t_id t"
  by (simp add: api_test_of_def)

lemma adjudication_of_set:
  "adjudication_set t \<Longrightarrow> adjudication_of t =
     \<lparr>adj_draw = Some \<lparr>dr_movenumber = 34, dr_movecount = 8, dr_score_cp = 20\<rparr>,
      adj_resign = Some \<lparr>rs_movecount = 5, rs_score_cp = 1000, rs_twosided = True\<rparr>\<rparr>"
  by (simp add: adjudication_set_def adjudication_of_def)

lemma active_test_read:
  assumes "settings_ok t" and "running_test db = Some t" and "int64 (t_id t)"
  shows "api_active_test dump (answer_reply (plain (WebJson (fst (get_active_test cfg (Inr ()) db)))))
    = Inr (Some (api_test_of cfg t))"
proof -
  define info where "info = the (active_test db)"
  have info: "active_test db = Some info" "at_adjudication info = adjudication_of t"
    "at_test_id info = t_id t" "at_kind info = kind_text (t_kind t)"
    "at_candidate_commit info = t_candidate_commit t" "at_baseline_commit info = t_baseline_commit t"
    "at_tc_base_ms info = t_tc_base_ms t" "at_tc_increment_ms info = t_tc_increment_ms t"
    "at_hash_mb info = t_hash_mb t" "at_threads info = t_threads t"
    using assms(2) by (simp_all add: info_def active_test_def)
  have set: "adjudication_set t" using assms(1) by (simp add: settings_ok_def)
  have adj: "decode_adjudication (active_test_json cfg info) = Inr (adjudication_of t)"
    by (rule adjudication_agrees)
      (simp_all add: adjudication_of_set [OF set] active_test_json_def in_int_range_def info(2))
  have ranges: "int32 (t_tc_base_ms t)" "int32 (t_tc_increment_ms t)" "int32 (t_hash_mb t)" "t_threads t = 1"
    using assms(1) by (simp_all add: settings_ok_def in_int_range_def)
  have "decode_test (active_test_json cfg info) = Inr (api_test_of cfg t)"
    using assms(3) ranges adj adjudication_of_set [OF set]
    by (simp add: decode_test_def active_test_json_def info api_test_of_def wrap_int_id
        in_int_range_def del: bindE_eq_Inr_iff)
  then show ?thesis
    using info(1)
    by (simp add: api_active_test_def answer_reply_def plain_def get_active_test_def guarded_def send_json_def
        del: bindE_eq_Inr_iff)
qed

definition engines_of :: "string \<Rightarrow> string \<Rightarrow> test_row \<Rightarrow> engine_set" where
  "engines_of candidate baseline t =
     \<lparr>es_test_id = t_id t, es_candidate = candidate, es_baseline = baseline,
      es_tc_base_ms = t_tc_base_ms t, es_tc_increment_ms = t_tc_increment_ms t, es_hash_mb = t_hash_mb t,
      es_threads = 1,
      es_adjudication =
        \<lparr>adj_draw = Some \<lparr>dr_movenumber = 34, dr_movecount = 8, dr_score_cp = 20\<rparr>,
         adj_resign = Some \<lparr>rs_movecount = 5, rs_score_cp = 1000, rs_twosided = True\<rparr>\<rparr>\<rparr>"

lemma prepared_engines:
  assumes "compile (cache_key arch (t_candidate_commit t)) (tarball_url cfg (t_candidate_commit t)) = Inr (Some candidate)"
    and "compile (cache_key arch (t_baseline_commit t)) (tarball_url cfg (t_baseline_commit t)) = Inr (Some baseline)"
  shows "prepare_engines compile arch (api_test_of cfg t) = Inr (Some (engines_of candidate baseline t))"
  using assms by (simp add: prepare_engines_def api_test_of_def engines_of_def del: bindE_eq_Inr_iff)

lemma llround_whole: "int64 k \<Longrightarrow> cpp_llround oob (of_int k) = k"
  by (simp add: cpp_llround_def)

lemma engines_time_control:
  assumes "settings_ok t"
  shows "parse_tc oob (fastchess_tc (effective_tc oob (engines_of candidate baseline t) 1))
    = Inr \<lparr>tc_base = t_tc_base_ms t, tc_increment = t_tc_increment_ms t\<rparr>"
proof -
  have r: "0 < t_tc_base_ms t" "t_tc_base_ms t \<le> 86400000" "0 \<le> t_tc_increment_ms t" "t_tc_increment_ms t \<le> 3600000"
    using assms by (simp_all add: settings_ok_def)
  then have "effective_tc oob (engines_of candidate baseline t) 1
      = \<lparr>et_base_ms = t_tc_base_ms t, et_increment_ms = t_tc_increment_ms t\<rparr>"
    by (simp add: effective_tc_def engines_of_def llround_whole wrap_int_id in_int_range_def)
  then show ?thesis using r by (simp add: fastchess_tc_roundtrip)
qed

lemma shown_rules:
  "show_int 34 = ''34''" "show_int 8 = ''8''" "show_int 20 = ''20''" "show_int 5 = ''5''" "show_int 1000 = ''1000''"
  "show_int 1 = ''1''"
  by code_simp+

lemma engines_argv:
  "play_argv ccfg oob slot (engines_of candidate baseline t) 1 pair =
      [cc_fastchess ccfg,
       ''-engine'', ''cmd='' @ candidate, ''name=candidate'', ''args=uci'',
       ''-engine'', ''cmd='' @ baseline, ''name=baseline'', ''args=uci'',
       ''-each'', ''tc='' @ fastchess_tc (effective_tc oob (engines_of candidate baseline t) 1),
       ''option.Hash='' @ show_int (t_hash_mb t), ''option.Threads=1'',
       ''-openings'', ''file='' @ path_join (slot_dir ccfg slot) ''pair.epd'', ''format=epd'', ''order=sequential'',
       ''-rounds'', ''1'', ''-games'', ''2'', ''-repeat'', ''-concurrency'', ''1'',
       ''-pgnout'', ''file='' @ path_join (slot_dir ccfg slot) ''pair.pgn'', ''notation=san'', ''append=false'',
       ''nodes=true'', ''nps=true'',
       ''-event'', ''capi_net test '' @ show_int (t_id t) @ '' pair '' @ show_int (pp_pair_id pair),
       ''-ratinginterval'', ''0'',
       ''-draw'', ''movenumber=34'', ''movecount=8'', ''score=20'',
       ''-resign'', ''movecount=5'', ''score=1000'', ''twosided=true'']"
  by (simp add: play_argv_def fastchess_args_def adjudication_args_def engines_of_def shown_rules)

text \<open>
  C16: A client plays the test that runs on the server. The poll of a client that has not prepared
  the running test, or failed to, gets it over the wire and, when the two engines build, publishes
  them; the command line of a game then names the engines built from the archives of its two
  commits, a time control that reads back as the test's own, the test's hash, one thread, the
  fixed rules of adjudication, and an event with the ids of the test and of the pair.
\<close>
theorem client_plays_running_test:
  assumes "reachable cfg fs build gzip db" and "running_test db = Some t" and "int64 (t_id t)"
    and "w_conn w = Inr ()" and "respond cfg fs gzip w (wire active_test_call) (db, cache) = (a, s')"
    and "map_option es_test_id (ru_engines st) \<noteq> Some (t_id t)" and "ru_failed_test st \<noteq> Some (t_id t)"
    and "compile (cache_key arch (t_candidate_commit t)) (tarball_url cfg (t_candidate_commit t)) = Inr (Some candidate)"
    and "compile (cache_key arch (t_baseline_commit t)) (tarball_url cfg (t_baseline_commit t)) = Inr (Some baseline)"
  shows "\<exists>es tc. poll_server compile arch (Inr False) (api_active_test dump (answer_reply a)) st
        = (Inr (), st\<lparr>ru_engines := Some es\<rparr>) \<and>
    parse_tc oob tc = Inr \<lparr>tc_base = t_tc_base_ms t, tc_increment = t_tc_increment_ms t\<rparr> \<and>
    play_argv ccfg oob slot es 1 pair =
      [cc_fastchess ccfg,
       ''-engine'', ''cmd='' @ candidate, ''name=candidate'', ''args=uci'',
       ''-engine'', ''cmd='' @ baseline, ''name=baseline'', ''args=uci'',
       ''-each'', ''tc='' @ tc, ''option.Hash='' @ show_int (t_hash_mb t), ''option.Threads=1'',
       ''-openings'', ''file='' @ path_join (slot_dir ccfg slot) ''pair.epd'', ''format=epd'', ''order=sequential'',
       ''-rounds'', ''1'', ''-games'', ''2'', ''-repeat'', ''-concurrency'', ''1'',
       ''-pgnout'', ''file='' @ path_join (slot_dir ccfg slot) ''pair.pgn'', ''notation=san'', ''append=false'',
       ''nodes=true'', ''nps=true'',
       ''-event'', ''capi_net test '' @ show_int (t_id t) @ '' pair '' @ show_int (pp_pair_id pair),
       ''-ratinginterval'', ''0'',
       ''-draw'', ''movenumber=34'', ''movecount=8'', ''score=20'',
       ''-resign'', ''movecount=5'', ''score=1000'', ''twosided=true'']"
proof -
  have ok: "settings_ok t"
    using reachable_settings [OF assms(1)] running_test_Some [OF assms(2)] by blast
  have a: "a = plain (WebJson (fst (get_active_test cfg (Inr ()) db)))"
    using assms(5) by (simp add: active_test_answer [OF assms(4)])
  let ?es = "engines_of candidate baseline t"
  let ?tc = "fastchess_tc (effective_tc oob ?es 1)"
  have "poll_server compile arch (Inr False) (api_active_test dump (answer_reply a)) st = (Inr (), st\<lparr>ru_engines := Some ?es\<rparr>)"
    unfolding a active_test_read [OF ok assms(2,3)]
    using assms(6,7) prepared_engines [OF assms(8,9)] api_test_of_id [of cfg t]
    by (simp only: poll_server_def sum.case option.case Let_def if_False) simp
  then show ?thesis
    using engines_time_control [OF ok, of oob candidate baseline] engines_argv by blast
qed

theorem client_plays_running_test_witness:
  "\<exists>db es. demo_reachable db \<and>
     poll_server (\<lambda>key _. Inr (Some key)) ''x86-64'' (Inr False)
       (api_active_test (\<lambda>_. []) (answer_reply (fst (respond default_config demo_fs demo_gzip demo_web
          (wire active_test_call) (db, Map.empty))))) (ct_shared (run_start 1))
     = (Inr (), (ct_shared (run_start 1))\<lparr>ru_engines := Some es\<rparr>)"
proof -
  obtain db where db: "demo_reachable db" "demo_started db" by (rule demo_run)
  then obtain t where t: "running_test db = Some t" "t_id t = 1"
    by (auto simp: demo_started_def demo_running_def running_test_def)
  have i: "int64 (t_id t)" by (simp add: t(2) in_int_range_def)
  have w: "w_conn demo_web = Inr ()" by (simp add: demo_web_def)
  obtain a s' where a: "respond default_config demo_fs demo_gzip demo_web (wire active_test_call) (db, Map.empty) = (a, s')"
    by (meson surj_pair)
  let ?st = "ct_shared (run_start 1)"
  have st: "map_option es_test_id (ru_engines ?st) \<noteq> Some (t_id t)" "ru_failed_test ?st \<noteq> Some (t_id t)"
    by (simp_all add: run_start_def)
  from client_plays_running_test [where compile = "\<lambda>key _. Inr (Some key)" and arch = "''x86-64''" and dump = "\<lambda>_. []",
      OF db(1) t(1) i w a st refl refl]
  obtain es where "poll_server (\<lambda>key _. Inr (Some key)) ''x86-64'' (Inr False) (api_active_test (\<lambda>_. []) (answer_reply a)) ?st
      = (Inr (), ?st\<lparr>ru_engines := Some es\<rparr>)" by blast
  then show ?thesis using db(1) a by (intro exI [of _ db] exI [of _ es]) simp
qed

end
