(* ===== verification/Log.thy ===== *)
theory Log
  imports CppStrings
begin

text \<open>
  common/log.hpp: a line of the log, with a UTC timestamp in front. The clock is a parameter: the
  seconds since 1970 that \<^verbatim>\<open>system_clock\<close> gives. \<^verbatim>\<open>gmtime_r\<close> and \<^verbatim>\<open>strftime\<close> are written out for
  the one format used. The mutex makes each line one write, so a log is a sequence of lines.
\<close>

section \<open>The calendar\<close>

definition leap :: "nat \<Rightarrow> bool" where
  "leap y \<longleftrightarrow> y mod 4 = 0 \<and> (y mod 100 \<noteq> 0 \<or> y mod 400 = 0)"

definition month_days :: "nat \<Rightarrow> nat list" where
  "month_days y = [31, if leap y then 29 else 28, 31, 30, 31, 30, 31, 31, 30, 31, 30, 31]"

definition year_days :: "nat \<Rightarrow> nat" where
  "year_days y = (if leap y then 366 else 365)"

text \<open>The year, and the day in it, of a number of days counted from the first of a year.\<close>

function civil_year :: "nat \<Rightarrow> nat \<Rightarrow> nat \<times> nat" where
  "civil_year y d = (if d < year_days y then (y, d) else civil_year (y + 1) (d - year_days y))"
  by auto
termination by (relation "measure snd") (auto simp: year_days_def)

declare civil_year.simps [simp del]

fun civil_month :: "nat list \<Rightarrow> nat \<Rightarrow> nat \<Rightarrow> nat \<times> nat" where
  "civil_month [] m d = (m, d)"
| "civil_month (l # ls) m d = (if d < l then (m, d) else civil_month ls (m + 1) (d - l))"

record broken_time =
  tm_year :: nat
  tm_mon :: nat
  tm_mday :: nat
  tm_hour :: nat
  tm_min :: nat
  tm_sec :: nat

definition gmtime :: "nat \<Rightarrow> broken_time" where
  "gmtime t =
     (let (y, yd) = civil_year 1970 (t div 86400);
          (mon, d) = civil_month (month_days y) 1 yd
      in \<lparr>tm_year = y, tm_mon = mon, tm_mday = d + 1,
          tm_hour = t mod 86400 div 3600, tm_min = t mod 3600 div 60, tm_sec = t mod 60\<rparr>)"

section \<open>A line\<close>

definition two_digits :: "nat \<Rightarrow> string" where
  "two_digits n = [digit_char (n div 10), digit_char (n mod 10)]"

text \<open>The format \<^verbatim>\<open>%Y-%m-%dT%H:%M:%SZ\<close>.\<close>

definition timestamp :: "nat \<Rightarrow> string" where
  "timestamp t =
     (let tm = gmtime t
      in show_nat (tm_year tm) @ ''-'' @ two_digits (tm_mon tm) @ ''-'' @ two_digits (tm_mday tm) @ ''T'' @
         two_digits (tm_hour tm) @ '':'' @ two_digits (tm_min tm) @ '':'' @ two_digits (tm_sec tm) @ ''Z'')"

text \<open>\<^verbatim>\<open>%.*s\<close> of a text of this length: it ends at the first zero byte.\<close>

definition printed :: "string \<Rightarrow> string" where
  "printed s = takeWhile (\<lambda>c. c \<noteq> CHR 0x00) s"

definition log_line :: "nat \<Rightarrow> string \<Rightarrow> string \<Rightarrow> string" where
  "log_line now level msg = timestamp now @ '' ['' @ printed level @ ''] '' @ printed msg @ [newline]"

definition log_info :: "nat \<Rightarrow> string \<Rightarrow> string" where
  "log_info now msg = log_line now ''info'' msg"

definition log_warn :: "nat \<Rightarrow> string \<Rightarrow> string" where
  "log_warn now msg = log_line now ''warn'' msg"

definition log_error :: "nat \<Rightarrow> string \<Rightarrow> string" where
  "log_error now msg = log_line now ''error'' msg"

section \<open>Bounds of the calendar\<close>

lemma month_days_sum: "sum_list (month_days y) = year_days y"
  by (simp add: month_days_def year_days_def)

lemma civil_year_day: "civil_year y d = (a, r) \<Longrightarrow> y \<le> a \<and> r < year_days a"
proof (induction y d rule: civil_year.induct)
  case (1 y d)
  then show ?case by (cases "d < year_days y") (simp_all add: civil_year.simps [of y d])
qed

lemma civil_year_mono:
  "d < d' \<Longrightarrow> civil_year y d = (a, r) \<Longrightarrow> civil_year y d' = (a', r') \<Longrightarrow> a < a' \<or> a = a' \<and> r < r'"
proof (induction y d arbitrary: d' rule: civil_year.induct)
  case (1 y d)
  show ?case
  proof (cases "d < year_days y")
    case True
    then have ar: "a = y" "r = d" using 1(3) by (simp_all add: civil_year.simps [of y d])
    show ?thesis
    proof (cases "d' < year_days y")
      case False
      then have "civil_year (y + 1) (d' - year_days y) = (a', r')" using 1(4) by (simp add: civil_year.simps [of y d'])
      then show ?thesis using civil_year_day ar by fastforce
    qed (use 1 ar in \<open>simp add: civil_year.simps [of y d']\<close>)
  next
    case False
    then have "civil_year (y + 1) (d - year_days y) = (a, r)" "civil_year (y + 1) (d' - year_days y) = (a', r')"
      using 1(2-4) by (simp_all add: civil_year.simps [of y d] civil_year.simps [of y d'])
    then show ?thesis using 1(1) [OF False, of "d' - year_days y"] 1(2) False by simp
  qed
qed

lemma civil_month_bounds:
  "civil_month ls m d = (a, r) \<Longrightarrow> d < sum_list ls \<Longrightarrow> \<forall>l \<in> set ls. l \<le> b \<Longrightarrow>
     m \<le> a \<and> a < m + length ls \<and> r < b"
  by (induction ls m d rule: civil_month.induct) (fastforce split: if_splits)+

lemma civil_month_mono:
  "d < d' \<Longrightarrow> d' < sum_list ls \<Longrightarrow> civil_month ls m d = (a, r) \<Longrightarrow> civil_month ls m d' = (a', r') \<Longrightarrow>
     a < a' \<or> a = a' \<and> r < r'"
proof (induction ls m d arbitrary: d' rule: civil_month.induct)
  case (2 l ls m d)
  show ?case
  proof (cases "d < l")
    case True
    then have ar: "a = m" "r = d" using 2(4) by simp_all
    show ?thesis
    proof (cases "d' < l")
      case False
      then have "civil_month ls (m + 1) (d' - l) = (a', r')" "d' - l < sum_list ls" using 2(3,5) by auto
      from civil_month_bounds [OF this] have "m + 1 \<le> a'" using member_le_sum_list by blast
      then show ?thesis using ar by simp
    qed (use 2 ar in simp)
  qed (use 2(1) [of "d' - l"] 2(2-) in auto)
qed simp

section \<open>Lines sort by time\<close>

text \<open>The order of texts by their bytes, as \<^verbatim>\<open>sort\<close> and \<^verbatim>\<open>memcmp\<close> compare them.\<close>

fun text_less :: "string \<Rightarrow> string \<Rightarrow> bool" where
  "text_less s [] = False"
| "text_less [] (c # t) = True"
| "text_less (b # s) (c # t) = (byte b < byte c \<or> b = c \<and> text_less s t)"

lemma text_less_prefix [simp]: "text_less (p @ s) (p @ t) = text_less s t"
  by (induction p) auto

lemma text_less_same: "text_less (c # s) (c # t) = text_less s t"
  by simp

lemma div_mod_less: "0 < b \<Longrightarrow> m < n \<longleftrightarrow> m div b < n div b \<or> m div b = n div b \<and> m mod b < (n mod b :: nat)"
proof -
  assume "0 < b"
  then have "k mod b < b" for k by simp
  have eq: "m = m div b * b + m mod b" "n = n div b * b + n mod b" by simp_all
  have le: "m div b \<le> n div b" if "m < n" using that by (simp add: div_le_mono)
  have lt: "m < n" if "m div b < n div b" using that by (metis div_le_mono linorder_not_less)
  show ?thesis
  proof (cases "m div b = n div b")
    case True
    then have "m < n \<longleftrightarrow> m mod b < n mod b" using eq by (metis nat_add_left_cancel_less)
    then show ?thesis using True by simp
  next
    case False
    then show ?thesis using le lt by fastforce
  qed
qed

lemma div_mod_eq: "m = n \<longleftrightarrow> m div b = n div b \<and> m mod b = (n mod b :: nat)"
  by (metis div_mult_mod_eq)

lemma digit_byte: "m < 10 \<Longrightarrow> n < 10 \<Longrightarrow> digit_char m = digit_char n \<longleftrightarrow> m = n"
  by (metis byte_digit_char add_left_cancel)

lemma digits_less:
  "m < 10 \<Longrightarrow> n < 10 \<Longrightarrow> text_less (digit_char m # s) (digit_char n # t) \<longleftrightarrow> m < n \<or> m = n \<and> text_less s t"
  by (simp add: byte_digit_char digit_byte)

lemma two_digits_less:
  assumes "m < 100" and "n < 100"
  shows "text_less (two_digits m @ s) (two_digits n @ t) \<longleftrightarrow> m < n \<or> m = n \<and> text_less s t"
proof -
  have "m div 10 < 10" "n div 10 < 10" "m mod 10 < 10" "n mod 10 < 10" using assms by simp_all
  then show ?thesis
    using div_mod_less [of 10 m n] div_mod_eq [of m n 10]
    by (auto simp add: two_digits_def digits_less simp del: text_less.simps)
qed

lemma show_two: "10 \<le> n \<Longrightarrow> n < 100 \<Longrightarrow> show_nat n = two_digits n"
  using show_nat.simps [of n] show_nat.simps [of "n div 10"]
  by (simp add: two_digits_def less_mult_imp_div_less)

lemma show_year:
  assumes "1000 \<le> y" and "y < 10000"
  shows "show_nat y = two_digits (y div 100) @ two_digits (y mod 100)"
proof -
  have d: "y div 10 div 10 = y div 100" "y mod 100 div 10 = y div 10 mod 10" "y mod 100 mod 10 = y mod 10"
    using div_mult2_eq [of y 10 10] mod_mult2_eq [of y 10 10] mod_mod_cancel [of 10 100 y] by simp_all
  have "show_nat y = show_nat (y div 10) @ [digit_char (y mod 10)]"
    using assms by (simp add: show_nat.simps [of y])
  moreover have "show_nat (y div 10) = show_nat (y div 10 div 10) @ [digit_char (y div 10 mod 10)]"
    using div_le_mono [OF assms(1), of 10] by (simp add: show_nat.simps [of "y div 10"])
  moreover have "show_nat (y div 100) = two_digits (y div 100)" using div_le_mono [OF assms(1), of 100] assms(2) by (intro show_two) simp_all
  ultimately show ?thesis by (simp add: d two_digits_def)
qed

lemma years_less:
  assumes "1000 \<le> y" "y < 10000" "1000 \<le> z" "z < 10000"
  shows "text_less (show_nat y @ s) (show_nat z @ t) \<longleftrightarrow> y < z \<or> y = z \<and> text_less s t"
proof -
  have "y div 100 < 100" "z div 100 < 100" "y mod 100 < 100" "z mod 100 < 100" using assms by simp_all
  then show ?thesis
    using div_mod_less [of 100 y z] div_mod_eq [of y z 100] assms
    by (auto simp: show_year two_digits_less)
qed

lemma gmtime_bounds:
  "1970 \<le> tm_year (gmtime t) \<and> tm_mon (gmtime t) < 100 \<and> tm_mday (gmtime t) < 100 \<and>
   tm_hour (gmtime t) < 100 \<and> tm_min (gmtime t) < 100 \<and> tm_sec (gmtime t) < 100"
proof -
  obtain y yd where y: "civil_year 1970 (t div 86400) = (y, yd)" by fastforce
  obtain mon d where m: "civil_month (month_days y) 1 yd = (mon, d)" by fastforce
  have yd: "1970 \<le> y" "yd < sum_list (month_days y)" using civil_year_day [OF y] by (simp_all add: month_days_sum)
  have "mon < 1 + length (month_days y)" "d < 31"
    using civil_month_bounds [OF m yd(2), of 31] by (simp_all add: month_days_def)
  moreover have "t mod 86400 div 3600 < 24" "t mod 3600 div 60 < 60"
    by (simp_all add: less_mult_imp_div_less)
  ultimately show ?thesis using y m yd by (simp add: gmtime_def month_days_def)
qed

lemma time_of_day_less:
  assumes "s < (s' :: nat)" and "s div 86400 = s' div 86400"
  shows "s mod 86400 div 3600 < s' mod 86400 div 3600 \<or> s mod 86400 div 3600 = s' mod 86400 div 3600 \<and>
    (s mod 3600 div 60 < s' mod 3600 div 60 \<or> s mod 3600 div 60 = s' mod 3600 div 60 \<and> s mod 60 < s' mod 60)"
proof -
  have "s mod 86400 < s' mod 86400" using div_mod_less [of 86400 s s'] assms by simp
  moreover have "k mod 86400 mod 3600 = k mod 3600" "k mod 3600 mod 60 = k mod 60" for k :: nat
    by (simp_all add: mod_mod_cancel)
  ultimately show ?thesis
    using div_mod_less [of 3600 "s mod 86400" "s' mod 86400"] div_mod_less [of 60 "s mod 3600" "s' mod 3600"] by simp
qed

lemma gmtime_less:
  assumes "s < s'"
  shows "tm_year (gmtime s) < tm_year (gmtime s') \<or> tm_year (gmtime s) = tm_year (gmtime s') \<and>
   (tm_mon (gmtime s) < tm_mon (gmtime s') \<or> tm_mon (gmtime s) = tm_mon (gmtime s') \<and>
   (tm_mday (gmtime s) < tm_mday (gmtime s') \<or> tm_mday (gmtime s) = tm_mday (gmtime s') \<and>
   (tm_hour (gmtime s) < tm_hour (gmtime s') \<or> tm_hour (gmtime s) = tm_hour (gmtime s') \<and>
   (tm_min (gmtime s) < tm_min (gmtime s') \<or> tm_min (gmtime s) = tm_min (gmtime s') \<and>
    tm_sec (gmtime s) < tm_sec (gmtime s')))))"
proof -
  obtain y yd where y: "civil_year 1970 (s div 86400) = (y, yd)" by fastforce
  obtain y' yd' where y': "civil_year 1970 (s' div 86400) = (y', yd')" by fastforce
  obtain mon d where m: "civil_month (month_days y) 1 yd = (mon, d)" by fastforce
  obtain mon' d' where m': "civil_month (month_days y') 1 yd' = (mon', d')" by fastforce
  have dates: "y < y' \<or> y = y' \<and> (mon < mon' \<or> mon = mon' \<and> d < d')" if "s div 86400 < s' div 86400"
  proof (cases "y < y'")
    case False
    then have eq: "y' = y" "yd < yd'" using civil_year_mono [OF that y y'] by auto
    have "yd' < sum_list (month_days y)" using civil_year_day [OF y'] eq by (simp add: month_days_sum)
    then show ?thesis using civil_month_mono [OF eq(2) _ m m' [unfolded eq(1)]] eq by blast
  qed simp
  consider "s div 86400 < s' div 86400" | "s div 86400 = s' div 86400"
    using assms div_mod_less [of 86400 s s'] by auto
  then show ?thesis
  proof cases
    case 1
    then show ?thesis using dates y y' m m' by (auto simp: gmtime_def)
  next
    case 2
    then have "y' = y" "mon' = mon" "d' = d" using y y' m m' by auto
    then show ?thesis using time_of_day_less [OF assms 2] y y' m m' by (simp add: gmtime_def)
  qed
qed

text \<open>
  Up to the year 9999 a log sorts by time: of two lines, the one that was stamped earlier comes
  first in the order of texts, whatever they say, and no two moments share a stamp.
\<close>

lemma log_sorts_by_time:
  assumes "s < s'" and "tm_year (gmtime s') < 10000"
  shows "text_less (log_line s level msg) (log_line s' level' msg')"
proof -
  have "tm_year (gmtime s) < 10000" using gmtime_less [OF assms(1)] assms(2) by linarith
  then show ?thesis
    using gmtime_less [OF assms(1)] gmtime_bounds [of s] gmtime_bounds [of s'] assms(2)
    by (auto simp: log_line_def timestamp_def Let_def years_less two_digits_less text_less_same simp del: text_less.simps)
qed

lemma log_line_sample: "log_info 1700000000 ''listening'' = ''2023-11-14T22:13:20Z [info] listening'' @ [newline]"
proof -
  have "gmtime 1700000000 =
      \<lparr>tm_year = 2023, tm_mon = 11, tm_mday = 14, tm_hour = 22, tm_min = 13, tm_sec = 20\<rparr>"
    by (simp add: gmtime_def civil_year.simps year_days_def leap_def month_days_def)
  moreover have "show_nat 2023 = ''2023''" "two_digits 11 = ''11''" "two_digits 14 = ''14''" "two_digits 22 = ''22''"
    "two_digits 13 = ''13''" "two_digits 20 = ''20''"
    by code_simp+
  ultimately show ?thesis by (simp add: log_info_def log_line_def timestamp_def printed_def)
qed

end
