(* ===== verification/History.thy ===== *)
theory History
  imports Scenario Reports
begin

text \<open>
  The history of a test (the table test_stats_history, written by \<^verbatim>\<open>refresh_test\<close> of
  server/test_lifecycle.cpp and reduced for the page by \<^verbatim>\<open>stats_history\<close> of server/reports.cpp):
  it is only appended to, its numbers of pairs rise from point to point, and its last point is the
  current one.
\<close>

section \<open>The invariant\<close>

definition history_of :: "db \<Rightarrow> int \<Rightarrow> history_row list" where
  "history_of db i = filter (\<lambda>h. h_test h = i) (db_history db)"

definition outcome_count :: "db \<Rightarrow> int \<Rightarrow> int" where
  "outcome_count db i = int (length (test_outcomes db i))"

definition history_inv :: "db \<Rightarrow> bool" where
  "history_inv db \<longleftrightarrow>
     sorted_wrt (<) (map h_id (db_history db)) \<and> (\<forall>h \<in> set (db_history db). h_id h < next_history db) \<and>
     (\<forall>i. sorted_wrt (<) (map h_pairs_valid (history_of db i)) \<and>
          (\<forall>h \<in> set (history_of db i). h_pairs_valid h \<le> outcome_count db i)) \<and>
     (\<forall>s \<in> set (db_stats db). history_of db (st_test s) \<noteq> [] \<and>
          h_pairs_valid (last (history_of db (st_test s))) = st_pairs_valid s)"

lemma history_invD:
  assumes "history_inv db"
  shows "sorted_wrt (<) (map h_id (db_history db))"
    and "h \<in> set (db_history db) \<Longrightarrow> h_id h < next_history db"
    and "sorted_wrt (<) (map h_pairs_valid (history_of db i))"
    and "h \<in> set (history_of db i) \<Longrightarrow> h_pairs_valid h \<le> outcome_count db i"
    and "s \<in> set (db_stats db) \<Longrightarrow> history_of db (st_test s) \<noteq> []"
    and "s \<in> set (db_stats db) \<Longrightarrow> h_pairs_valid (last (history_of db (st_test s))) = st_pairs_valid s"
  using assms unfolding history_inv_def by blast+

lemma history_inv_empty: "history_inv empty_db"
  by (simp add: history_inv_def history_of_def empty_db_def)

lemma sorted_less_le: "sorted_wrt (<) xs \<Longrightarrow> sorted (xs :: int list)"
  by (induction xs) (auto simp: less_imp_le)

text \<open>The ids rise, so the order by id is the order of the rows.\<close>

lemma sorted_history:
  assumes "sorted_wrt (<) (map h_id (db_history db))"
  shows "sort_key h_id (history_of db i) = history_of db i"
proof (rule sort_key_id_if_sorted)
  have "sorted_wrt (\<lambda>g h. h_id g < h_id h) (history_of db i)"
    using assms unfolding history_of_def sorted_wrt_map by (rule sorted_wrt_filter)
  then show "sorted (map h_id (history_of db i))"
    by (intro sorted_less_le) (simp only: sorted_wrt_map)
qed

lemma last_history_last:
  assumes "sorted_wrt (<) (map h_id (db_history db))"
  shows "last_history db i = (if history_of db i = [] then None else Some (last (history_of db i)))"
proof -
  have "sort_key h_id (filter (\<lambda>h. h_test h = i) (db_history db)) = history_of db i"
    using sorted_history [OF assms] by (simp add: history_of_def)
  then show ?thesis
    by (cases "history_of db i" rule: rev_cases) (simp_all add: last_history_def)
qed

section \<open>Changes outside the statistics\<close>

definition quiet :: "db \<Rightarrow> db \<Rightarrow> bool" where
  "quiet db db' \<longleftrightarrow> db_stats db' = db_stats db \<and> db_history db' = db_history db \<and>
     next_history db' = next_history db \<and> (\<forall>i. outcome_count db i \<le> outcome_count db' i)"

lemma quiet_keeps: "quiet db db' \<Longrightarrow> history_inv db \<Longrightarrow> history_inv db'"
  unfolding quiet_def history_inv_def history_of_def by (fastforce intro: order_trans)

lemma outcome_count_cong:
  "db_pairs db' = db_pairs db \<Longrightarrow> db_games db' = db_games db \<Longrightarrow> outcome_count db' i = outcome_count db i"
  using outcomes_cong [of db' db] by (simp add: outcome_count_def test_outcomes_def)

lemma quiet_same:
  "db_stats db' = db_stats db \<Longrightarrow> db_history db' = db_history db \<Longrightarrow> next_history db' = next_history db \<Longrightarrow>
     db_pairs db' = db_pairs db \<Longrightarrow> db_games db' = db_games db \<Longrightarrow> quiet db db'"
  using outcome_count_cong [of db' db] by (simp add: quiet_def)

lemma quiet_trans: "quiet a b \<Longrightarrow> quiet b c \<Longrightarrow> quiet a c"
  by (auto simp: quiet_def) (meson order_trans)

lemma quiet_update_test: "quiet db (update_test i f db)"
  by (rule quiet_same) simp_all

lemma quiet_promote: "quiet db (snd (promote_next_test now db))"
  by (auto simp: promote_next_test_def quiet_update_test quiet_same split: list.split)

lemma quiet_decision: "quiet db (apply_decision now t d db)"
proof (cases rule: apply_decision_cases [of now t d db])
  case (2 res)
  then show ?thesis
    using quiet_update_test quiet_promote quiet_trans by (simp add: finish_test_alt) blast
qed (simp add: quiet_same)

lemma quiet_update_pairs:
  assumes "\<And>p. p \<in> set (db_pairs db) \<Longrightarrow> P p \<Longrightarrow> jp_status p \<noteq> Completed \<and> jp_status (f p) \<noteq> Completed"
  shows "quiet db (update_pairs P f db)"
  using update_pairs_outcomes [of db P f] assms
  by (simp add: quiet_def outcome_count_def test_outcomes_def update_pairs_def)

lemma filter_concat_grows:
  assumes "\<And>x. x \<in> set xs \<Longrightarrow> length (filter P (f x)) \<le> length (filter P (g x))"
  shows "length (filter P (concat (map f xs))) \<le> length (filter P (concat (map g xs)))"
  using assms by (induction xs) (auto intro: add_mono)

text \<open>The pair that is completed had no outcome before, and every other pair keeps its own.\<close>

lemma quiet_with_result:
  assumes rows: "g_pair (fst rows) = pair" "g_pair (snd rows) = pair"
    and open_pair: "\<And>p. p \<in> set (db_pairs db) \<Longrightarrow> jp_id p = pair \<Longrightarrow> jp_status p \<noteq> Completed"
  shows "quiet db (with_result now pair rows gzs db)"
proof -
  let ?d = "with_result now pair rows gzs db"
  have "length (filter P (pair_outcomes db)) \<le> length (filter P (pair_outcomes ?d))" for P
    unfolding pair_outcomes_def with_result_fields update_where_def map_map
  proof (rule filter_concat_grows)
    fix p assume p: "p \<in> set (db_pairs db)"
    show "length (filter P (pair_outcome_rows db p))
        \<le> length (filter P ((pair_outcome_rows ?d \<circ> (\<lambda>p. if jp_id p = pair then completed_row now p else p)) p))"
    proof (cases "jp_id p = pair")
      case True
      then show ?thesis using open_pair [OF p] by (simp add: pair_outcome_rows_def)
    next
      case False
      then show ?thesis using with_result_rows [OF rows False] by simp
    qed
  qed
  then show ?thesis
    by (simp add: quiet_def outcome_count_def test_outcomes_def with_result_def complete_pair_alt update_pairs_def add_game_def)
qed

text \<open>New pairs have no outcomes.\<close>

lemma quiet_with_work: "quiet db (with_work test dispatch fens vlog db)"
proof -
  let ?d = "with_work test dispatch fens vlog db"
  let ?new = "pair_rows (next_pair db) dispatch (position_rows (next_position db) test fens)"
  have pairs: "db_pairs ?d = db_pairs db @ ?new" by (simp add: with_work_def Let_def)
  have rows: "pair_outcome_rows ?d p = pair_outcome_rows db p" for p
    by (rule outcome_rows_cong) (simp add: with_work_def Let_def)
  have "pair_outcome_rows db p = []" if "p \<in> set ?new" for p
    using pair_rows_facts [OF that] by (simp add: pair_outcome_rows_def)
  then have "concat (map (pair_outcome_rows db) ?new) = []" by simp
  then have "pair_outcomes ?d = pair_outcomes db"
    unfolding pair_outcomes_def rows pairs by simp
  then show ?thesis by (simp add: quiet_def outcome_count_def test_outcomes_def with_work_def Let_def)
qed

section \<open>A recalculation\<close>

definition records_more :: "db \<Rightarrow> db \<Rightarrow> bool" where
  "records_more db db' \<longleftrightarrow> (\<exists>new. db_history db' = db_history db @ new)"

lemma records_more_same: "db_history db' = db_history db \<Longrightarrow> records_more db db'"
  by (auto simp: records_more_def)

lemma records_more_trans: "records_more a b \<Longrightarrow> records_more b c \<Longrightarrow> records_more a c"
  unfolding records_more_def by (metis append.assoc)

lemma quiet_records: "quiet db db' \<Longrightarrow> records_more db db'"
  by (simp add: quiet_def records_more_same)

lemma store_stats_history:
  assumes inv: "history_inv db" and count: "st_pairs_valid s = outcome_count db (st_test s)"
  shows "history_inv (store_stats now s db) \<and> records_more db (store_stats now s db)"
proof -
  let ?u = "upsert_stats s db"
  let ?d = "store_stats now s db"
  have u: "db_history ?u = db_history db" "next_history ?u = next_history db" "db_pairs ?u = db_pairs db" "db_games ?u = db_games db"
    by (simp_all add: upsert_stats_def)
  have d: "db_pairs ?d = db_pairs db" "db_games ?d = db_games db" "db_stats ?d = db_stats ?u" by simp_all
  note counts = outcome_count_cong [OF d(1,2)]
  have stats: "r = s \<or> r \<in> set (db_stats db) \<and> st_test r \<noteq> st_test s" if "r \<in> set (db_stats ?d)" for r
    using upsert_stats_set that d(3) by simp
  have last: "last_history ?u (st_test s) = (if history_of db (st_test s) = [] then None else Some (last (history_of db (st_test s))))"
    using last_history_last [of ?u] history_invD(1) [OF inv] by (simp add: u history_of_def)
  show ?thesis
  proof (cases "map_option h_pairs_valid (last_history ?u (st_test s)) = Some (st_pairs_valid s)")
    case True
    then have same: "?d = ?u" by (simp add: store_stats_def record_history_def)
    then have h: "db_history ?d = db_history db" "next_history ?d = next_history db" using u by simp_all
    have cur: "history_of db (st_test s) \<noteq> []" "h_pairs_valid (last (history_of db (st_test s))) = st_pairs_valid s"
      using True last by (auto split: if_splits)
    have "history_inv ?d"
      unfolding history_inv_def history_of_def h counts
      using history_invD [OF inv] cur stats unfolding history_of_def by blast
    then show ?thesis using h(1) by (simp add: records_more_same)
  next
    case False
    define new where "new = \<lparr>h_id = next_history db, h_test = st_test s, h_pairs_valid = st_pairs_valid s,
      h_llr = st_llr s, h_elo = st_elo s, h_recorded_at = now\<rparr>"
    have h: "db_history ?d = db_history db @ [new]" "next_history ?d = next_history db + 1"
      using False u by (simp_all add: store_stats_def record_history_def new_def)
    have of_d: "history_of ?d i = history_of db i @ (if i = st_test s then [new] else [])" for i
      by (simp add: history_of_def h new_def)
    have below: "h_pairs_valid g < st_pairs_valid s" if g: "g \<in> set (history_of db (st_test s))" for g
    proof -
      let ?xs = "history_of db (st_test s)"
      have "?xs \<noteq> []" using g by auto
      then have "h_pairs_valid (last ?xs) \<noteq> st_pairs_valid s" using False unfolding last by simp
      moreover have "h_pairs_valid (last ?xs) \<le> st_pairs_valid s"
        using history_invD(4) [OF inv] g count last_in_set by (metis empty_iff list.set(1))
      moreover have "h_pairs_valid g \<le> h_pairs_valid (last ?xs)"
        using sorted_less_le [OF history_invD(3) [OF inv, of "st_test s"]] g
        by (cases ?xs rule: rev_cases) (auto simp: sorted_append)
      ultimately show ?thesis by linarith
    qed
    have ids: "sorted_wrt (<) (map h_id (db_history ?d)) \<and> (\<forall>h \<in> set (db_history ?d). h_id h < next_history ?d)"
      using history_invD(1,2) [OF inv] by (fastforce simp: h sorted_wrt_append new_def)
    have "sorted_wrt (<) (map h_pairs_valid (history_of ?d i))" for i
      using history_invD(3) [OF inv, of i] below by (auto simp: of_d sorted_wrt_append new_def)
    moreover have "\<forall>g \<in> set (history_of ?d i). h_pairs_valid g \<le> outcome_count ?d i" for i
      using history_invD(4) [OF inv] count by (auto simp: of_d counts new_def)
    moreover have "\<forall>r \<in> set (db_stats ?d). history_of ?d (st_test r) \<noteq> [] \<and>
        h_pairs_valid (last (history_of ?d (st_test r))) = st_pairs_valid r"
      using stats history_invD(5,6) [OF inv] by (fastforce simp: of_d new_def)
    ultimately have "history_inv ?d" using ids unfolding history_inv_def by blast
    then show ?thesis using h(1) by (auto simp: records_more_def)
  qed
qed

definition history_ready :: "db \<Rightarrow> bool" where
  "history_ready db \<longleftrightarrow> tests_core db \<and> work_inv db \<and> history_inv db"

lemma refresh_history:
  assumes "history_ready db" and "refresh_test now i db = Inr db'"
  shows "history_ready db' \<and> records_more db db'"
proof -
  have parts: "tests_core db" "work_inv db" "history_inv db" using assms(1) by (simp_all add: history_ready_def)
  note f = refresh_facts [OF assms(2) parts(1)]
  have base: "tests_core db'" "work_inv db'" using f(1) work_inv_frame [OF f(3,4) parts(2)] by blast+
  have "history_inv db' \<and> records_more db db'"
    using assms(2)
  proof (cases rule: refresh_cases)
    case 1
    then show ?thesis using parts(3) by (simp add: records_more_same)
  next
    case (2 t penta e sv s)
    have "stats_current db s" unfolding 2(6) by (rule make_stats_current [OF 2(3)])
    then have "st_pairs_valid s = outcome_count db (st_test s)"
      using score_table_agrees(3) [of db s] parts(2) by (simp add: work_inv_def outcome_count_def)
    from store_stats_history [OF parts(3) this, of now]
    show ?thesis
      using quiet_keeps [OF quiet_decision] quiet_records [OF quiet_decision] records_more_trans
      unfolding 2(7) by blast
  qed
  then show ?thesis using base by (simp add: history_ready_def)
qed

lemma refresh_all_history:
  assumes "foldE (refresh_test now) is db = Inr db'" and "history_ready db"
  shows "history_ready db' \<and> records_more db db'"
  using assms(1)
  by (rule foldE_invariant [where P = "\<lambda>d. history_ready d \<and> records_more db d"])
    (use assms(2) refresh_history records_more_trans in \<open>blast intro: records_more_same\<close>)+

section \<open>Every run\<close>

lemma ready_after:
  assumes "history_inv db" and "quiet db d" and "tests_core d" and "work_inv d"
  shows "history_ready d"
  using quiet_keeps [OF assms(2,1)] assms(3,4) by (simp add: history_ready_def)

lemma quiet_then:
  assumes "quiet db d" and "history_ready db' \<and> records_more d db'"
  shows "history_inv db' \<and> records_more db db'"
  using assms(2) records_more_trans [OF quiet_records [OF assms(1)]] by (simp add: history_ready_def)

lemma quiet_end: "quiet db db' \<Longrightarrow> history_inv db \<Longrightarrow> history_inv db' \<and> records_more db db'"
  using quiet_keeps quiet_records by blast

lemma history_step:
  assumes inv: "db_inv db" and hist: "history_inv db" and "server_step cfg fs build gzip db db'"
  shows "history_inv db' \<and> records_more db db'"
  using assms(3)
proof (cases rule: server_step.cases)
  case (Claim locked now client slots_free cr)
  note parts = db_invD [OF inv]
  show ?thesis
    using Claim(1)
  proof (cases rule: claim_cases)
    case (2 t c est expires)
    have "jp_status p \<noteq> Completed"
      if "p \<in> set (db_pairs db)" "jp_id p \<in> set (map jp_id (picked_pairs locked (t_id t) (min (max slots_free 0) (c_slots c)) db))" for p
      using picked_pairs_facts [OF picked_iff [OF parts(6) that]] by simp
    then have "quiet db db'"
      unfolding 2(6) by (intro quiet_update_pairs) (simp add: lease_pair_def)
    then show ?thesis using hist by (rule quiet_end)
  qed (simp add: hist records_more_same)
next
  case (Submit report now pair sr)
  show ?thesis
    using Submit(2,1)
  proof (cases rule: submit_cases)
    case (2 p t r0 r1 gz)
    let ?d = "with_result now pair (r0, r1) gz db"
    note d = with_result_base [OF inv Submit(1) 2(1-4) 2(8,9), where now = now and gz = gz]
    have "q = p" if "q \<in> set (db_pairs db)" "jp_id q = pair" for q
      using pairs_unique [OF db_invD(6) [OF inv] that(1) 2(1)] that(2) 2(2) by simp
    then have q: "quiet db ?d"
      using 2(3,8,9) by (intro quiet_with_result) (auto simp: row_for_def)
    show ?thesis by (rule quiet_then [OF q refresh_history [OF ready_after [OF hist q d(1,3)] 2(10)]])
  qed (simp add: hist records_more_same)
next
  case (Abandon pair client ok)
  have "db' = update_pairs (held_by pair client) release_pair db" using abandon_pair_alt [of pair client db] Abandon by simp
  moreover have "quiet db (update_pairs (held_by pair client) release_pair db)"
    by (rule quiet_update_pairs) (auto simp: held_by_def release_pair_def)
  ultimately show ?thesis using quiet_end hist by blast
next
  case (Recover locked now lr)
  let ?d = "update_pairs (lease_expired locked now) (expire_pair (max_attempts cfg)) db"
  note parts = db_invD [OF inv]
  have q: "quiet db ?d"
    by (rule quiet_update_pairs) (auto simp: lease_expired_def expire_pair_def release_pair_def)
  have "base_inv ?d"
  proof (rule update_pairs_base)
    show "base_inv db" using inv by (simp add: db_inv_base)
    show "pair_shape (expire_pair (max_attempts cfg) p)" if "p \<in> set (db_pairs db)" "lease_expired locked now p" for p
      using leased_shape [OF parts(6) that(1) lease_expiredD [OF that(2)]]
      by (simp add: pair_shape_def expire_pair_def release_pair_def)
    show "jp_status p \<noteq> Completed \<and> jp_status (expire_pair (max_attempts cfg) p) \<noteq> Completed"
      if "p \<in> set (db_pairs db)" "lease_expired locked now p" for p
      using lease_expiredD [OF that(2)] by (simp add: expire_pair_def release_pair_def)
  qed simp
  then have "tests_core ?d" "work_inv ?d" by (auto simp: base_inv_def tests_inv_def)
  from ready_after [OF hist q this] show ?thesis
    by (intro quiet_then [OF q] refresh_all_history [OF recover_cases [OF Recover(1)]])
next
  case (Promote now i)
  then show ?thesis using quiet_end [OF quiet_promote hist, of now] by simp
next
  case (Smoke test t now dispatch r)
  note parts = db_invD [OF inv]
  show ?thesis
    using Smoke(2) parts(2,5)
  proof (cases rule: smoke_commit_cases)
    case (2 u vlog)
    then show ?thesis using quiet_end [OF quiet_update_test hist] by simp
  next
    case (3 u vlog d)
    let ?v = "smoke_test cfg fs build t"
    let ?w = "with_work test dispatch (sm_positions ?v) vlog db"
    have "test_params_ok t" using find_test_Some [OF Smoke(1)] tests_coreD(3) parts(2) by blast
    then have "sm_positions ?v \<noteq> []" using smoke_test_positions(1) 3(4) by blast
    note w = with_work_base [OF inv 3(1,2,3) this, of dispatch vlog]
    have "history_inv d \<and> records_more db d"
      by (rule quiet_then [OF quiet_with_work refresh_history [OF ready_after [OF hist quiet_with_work w(1,2)] 3(5)]])
    then show ?thesis unfolding 3(6) using quiet_end [OF quiet_promote] records_more_trans by blast
  qed (simp add: hist records_more_same)
next
  case (Stop now test so)
  then show ?thesis
  proof (cases rule: stop_test_cases)
    case (2 t)
    then show ?thesis using quiet_end [OF quiet_trans [OF quiet_update_test quiet_promote] hist] by simp
  next
    case (3 t)
    then show ?thesis using quiet_end [OF quiet_update_test hist] by simp
  qed (simp add: hist records_more_same)
next
  case (Priority test n po)
  then show ?thesis
    by (cases rule: set_priority_cases) (use quiet_end [OF quiet_update_test hist] hist in \<open>auto simp: records_more_same\<close>)
next
  case (Register now reg rc)
  then have "quiet db db'" by (auto simp: register_client_def split: option.splits intro!: quiet_same)
  then show ?thesis using hist by (rule quiet_end)
next
  case (Heartbeat now client factor b)
  then have "quiet db db'" by (auto simp: heartbeat_def split: option.splits intro!: quiet_same)
  then show ?thesis using hist by (rule quiet_end)
next
  case (Create body s now cand base i)
  from Create(2) have "quiet db db'" by (rule insert_test_cases) (simp add: quiet_same)
  then show ?thesis using hist by (rule quiet_end)
qed

interpretation history_system: guarded_system "server_step cfg fs build gzip" "\<lambda>db. db_inv db \<and> history_inv db"
  for cfg fs build gzip
  by unfold_locales (use server_step_inv history_step in blast)

lemma reachable_history: "reachable cfg fs build gzip db \<Longrightarrow> db_inv db \<and> history_inv db"
  using history_system.run_keeps [of cfg fs build gzip empty_db db] db_inv_empty history_inv_empty
  by (simp add: reachable_def)

lemma history_run:
  assumes "server_run cfg fs build gzip db db'" and "db_inv db \<and> history_inv db"
  shows "records_more db db'"
  using assms
proof (induction rule: rtranclp_induct)
  case base
  then show ?case by (simp add: records_more_same)
next
  case (step d d')
  have "db_inv d \<and> history_inv d" using history_system.run_keeps [OF step.hyps(1) step.prems] .
  then show ?case using step.IH [OF step.prems] history_step [OF _ _ step.hyps(2)] records_more_trans by blast
qed

section \<open>What the page shows\<close>

definition point :: "history_row \<Rightarrow> history_point" where
  "point h = \<lparr>hp_pairs = h_pairs_valid h, hp_llr = h_llr h, hp_elo = h_elo h, hp_at = h_recorded_at h\<rparr>"

lemma all_history_points: "history_inv db \<Longrightarrow> all_history db i = map point (history_of db i)"
  using sorted_history [OF history_invD(1)] unfolding all_history_def point_def history_of_def by simp

lemma all_history_rises: "history_inv db \<Longrightarrow> sorted_wrt (<) (map hp_pairs (all_history db i))"
  using history_invD(3) [of db i] by (simp add: all_history_points point_def comp_def)

text \<open>A reduction to two points or more takes points in their order, the first and the last among them.\<close>

lemma reduced_history:
  assumes "2 \<le> m" and "xs \<noteq> []" and "sorted_wrt (<) (map f xs)"
  shows "length (reduce_points xs m) \<le> m \<and> set (reduce_points xs m) \<subseteq> set xs \<and>
    sorted_wrt (<) (map f (reduce_points xs m)) \<and>
    hd (reduce_points xs m) = hd xs \<and> last (reduce_points xs m) = last xs"
proof (cases "m < length xs")
  case False
  then show ?thesis using assms by (simp add: reduce_points_def)
next
  case True
  let ?f = "sample_index (length xs) m"
  note shape = reduce_points_shape [OF assms(1) True] and bounds = sample_index_bounds [OF assms(1) True]
  have less: "?f i < length xs" if "i < m" for i
  proof -
    have "i < m - 1 \<or> i = m - 1" using that by linarith
    then have "?f i \<le> ?f (m - 1)" using bounds(3) [of i "m - 1"] by auto
    moreover have "0 < length xs" using assms(2) by simp
    ultimately show ?thesis using bounds(2) by linarith
  qed
  have "f (xs ! ?f i) < f (xs ! ?f j)" if "i < j" "j < m" for i j
    using assms(3) bounds(3) [OF that(1)] less [OF that(2)] by (auto simp: sorted_wrt_iff_nth_less)
  then have rises: "sorted_wrt (<) (map f (reduce_points xs m))"
    unfolding shape by (simp add: sorted_wrt_iff_nth_less)
  have "last (map (\<lambda>i. xs ! ?f i) [0..<m]) = xs ! ?f (m - 1)" using assms(1) by (simp add: last_map)
  moreover have "hd (map (\<lambda>i. xs ! ?f i) [0..<m]) = xs ! ?f 0" using assms(1) by (simp add: hd_map)
  ultimately have "hd (reduce_points xs m) = hd xs" "last (reduce_points xs m) = last xs"
    unfolding shape using bounds(1,2) assms(2) by (simp_all add: hd_conv_nth last_conv_nth)
  then show ?thesis using rises less unfolding shape by (auto simp: set_conv_nth)
qed

text \<open>
  C36: The history of a test is a true record of its progress. In every database the server reaches,
  the numbers of scored pairs rise strictly from point to point and the last point has as many as
  the current statistics; later runs only add points. What the page is given, when it asks for two
  points or more, is at most as many of these points, in the same order, the first and the last
  among them.
\<close>
theorem history_tells_progress:
  assumes "reachable cfg fs build gzip db" and "server_run cfg fs build gzip db db'"
  shows "sorted_wrt (<) (map hp_pairs (all_history db i)) \<and>
    (\<forall>s \<in> set (db_stats db). st_test s = i \<longrightarrow>
       all_history db i \<noteq> [] \<and> hp_pairs (last (all_history db i)) = st_pairs_valid s) \<and>
    (\<exists>new. all_history db' i = all_history db i @ new) \<and>
    (2 \<le> m \<and> all_history db i \<noteq> [] \<longrightarrow>
       length (stats_history db i m) \<le> m \<and> set (stats_history db i m) \<subseteq> set (all_history db i) \<and>
       sorted_wrt (<) (map hp_pairs (stats_history db i m)) \<and>
       hd (stats_history db i m) = hd (all_history db i) \<and> last (stats_history db i m) = last (all_history db i))"
proof -
  have hist: "db_inv db \<and> history_inv db" by (rule reachable_history [OF assms(1)])
  then have inv: "history_inv db" by blast
  have later: "history_inv db'" using history_system.run_keeps [OF assms(2) hist] by blast
  obtain new where "db_history db' = db_history db @ new"
    using history_run [OF assms(2) hist] by (auto simp: records_more_def)
  then have "history_of db' i = history_of db i @ filter (\<lambda>h. h_test h = i) new" by (simp add: history_of_def)
  then have "\<exists>new. all_history db' i = all_history db i @ new"
    by (simp add: all_history_points [OF inv] all_history_points [OF later])
  moreover have "\<forall>s \<in> set (db_stats db). st_test s = i \<longrightarrow>
      all_history db i \<noteq> [] \<and> hp_pairs (last (all_history db i)) = st_pairs_valid s"
    using history_invD(5,6) [OF inv] by (auto simp: all_history_points [OF inv] last_map point_def)
  ultimately show ?thesis
    using all_history_rises [OF inv] reduced_history [of m "all_history db i" hp_pairs] by (simp add: stats_history_def)
qed

theorem history_tells_progress_witness:
  "\<exists>db db' s. demo_reachable db \<and> demo_step\<^sup>*\<^sup>* db db' \<and> s \<in> set (db_stats db') \<and>
     hp_pairs (last (stats_history db' (st_test s) 2)) = st_pairs_valid s"
proof -
  obtain d1 d2 where d: "demo_reachable d1" "demo_step d1 d2" "demo_reachable d2" "demo_played d2" by (rule demo_run)
  obtain s where s: "s \<in> set (db_stats d2)" using d(4) by (cases "db_stats d2") (auto simp: demo_played_def)
  have "all_history d2 (st_test s) \<noteq> []" "hp_pairs (last (stats_history d2 (st_test s) 2)) = st_pairs_valid s"
    using history_tells_progress [OF d(3) rtranclp.rtrancl_refl, of "st_test s" 2] s by auto
  then show ?thesis using d(1,2) s by blast
qed

end
