(* ===== verification/Interleaving.thy ===== *)
theory Interleaving
  imports Promises History
begin

text \<open>
  Submissions of results under READ COMMITTED (\<^verbatim>\<open>submit_result\<close> of server/queue.cpp). Its
  transaction is two halves: the guard, which locks the row of the pair and reads test and client
  without a lock, and the two games, which no other transaction sees; then the recalculation under
  the lock of the row of the test, and the commit. Between the halves other transactions commit.
  The step relation \<open>conc_step\<close> interleaves any number of submissions in flight with the
  transactions of \<open>server_step\<close>.
\<close>

section \<open>The two halves\<close>

datatype guard = Refuse submit_status | Admit int

definition guard_result :: "int \<Rightarrow> pair_report \<Rightarrow> db \<Rightarrow> guard" where
  "guard_result pair report db =
     (case find_pair db pair of
        None \<Rightarrow> Refuse PairNotFound
      | Some p \<Rightarrow>
        case find_test db (jp_test p) of
          None \<Rightarrow> Refuse PairNotFound
        | Some t \<Rightarrow>
          let mine = (jp_leased_to p = Some (pr_client_id report))
          in case find_client db (pr_client_id report) of
               None \<Rightarrow> Refuse UnknownClient
             | Some c \<Rightarrow>
               if c_status c = Banned then Refuse ClientBanned
               else if jp_status p = Completed \<and> mine then Refuse AlreadyCompleted
               else if t_status t \<noteq> Running then Refuse TestFinished
               else if jp_status p \<noteq> Leased \<or> \<not> mine then Refuse LeaseLost
               else Admit (jp_test p))"

text \<open>
  What a submission in flight has written and nobody else sees: the rows of its games and PGNs.
  \<open>fl_now\<close> is the \<^verbatim>\<open>now()\<close> of its transaction.
\<close>

record flight =
  fl_now :: real
  fl_test :: int
  fl_games :: "game_row list"
  fl_pgns :: "pgn_row list"
  fl_valid :: int

definition store_games ::
  "(string \<Rightarrow> string result) \<Rightarrow> real \<Rightarrow> int \<Rightarrow> int \<Rightarrow> pair_report \<Rightarrow> db \<Rightarrow> db result" where
  "store_games gzip now pair test report db =
     foldE (insert_game gzip now pair test (pr_client_id report))
       (zip (pr_games report) (check_pair report)) (complete_pair now pair db)"

definition flight_of :: "real \<Rightarrow> int \<Rightarrow> pair_report \<Rightarrow> db \<Rightarrow> db \<Rightarrow> flight" where
  "flight_of now test report db d =
     \<lparr>fl_now = now, fl_test = test, fl_games = drop (length (db_games db)) (db_games d),
      fl_pgns = drop (length (db_pgns db)) (db_pgns d), fl_valid = count_valid (check_pair report)\<rparr>"

text \<open>Of the first half the others see only that the sequence of the games has advanced.\<close>

definition take_result ::
  "(string \<Rightarrow> string result) \<Rightarrow> real \<Rightarrow> int \<Rightarrow> pair_report \<Rightarrow> db \<Rightarrow> ((submit_status + flight) \<times> db) result" where
  "take_result gzip now pair report db =
     (case guard_result pair report db of
        Refuse s \<Rightarrow> Inr (Inl s, db)
      | Admit test \<Rightarrow>
          bindE (store_games gzip now pair test report db) (\<lambda>d.
            Inr (Inr (flight_of now test report db d), db\<lparr>next_game := next_game d\<rparr>)))"

definition publish :: "int \<Rightarrow> flight \<Rightarrow> db \<Rightarrow> db" where
  "publish pair f db =
     (complete_pair (fl_now f) pair db)
       \<lparr>db_games := db_games db @ fl_games f, db_pgns := db_pgns db @ fl_pgns f\<rparr>"

definition finish_result :: "int \<Rightarrow> flight \<Rightarrow> db \<Rightarrow> (submit_reply \<times> db) result" where
  "finish_result pair f db =
     bindE (refresh_test (fl_now f) (fl_test f) (publish pair f db)) (\<lambda>db.
       Inr (\<lparr>sr_status = Accepted, sr_valid_games = fl_valid f\<rparr>, db))"

text \<open>Both halves without anything between them are \<^const>\<open>submit_result\<close>.\<close>

lemma store_games_only:
  assumes "foldE (insert_game gzip now pair test client) gvs db = Inr d"
  shows "\<exists>gs ps n. d = db\<lparr>db_games := db_games db @ gs, db_pgns := db_pgns db @ ps, next_game := n\<rparr>"
  using assms
proof (induction gvs arbitrary: db)
  case Nil
  then show ?case by (intro exI [of _ "[]"] exI [of _ "next_game db"]) simp
next
  case (Cons gv gvs)
  obtain g v where gv: "gv = (g, v)" by fastforce
  obtain d0 where d0: "insert_game gzip now pair test client gv db = Inr d0"
    "foldE (insert_game gzip now pair test client) gvs d0 = Inr d"
    using Cons.prems by auto
  obtain row z where "d0 = add_game row z db" by (rule insert_game_Inr [OF d0(1) [unfolded gv]])
  moreover obtain gs ps n where
    "d = d0\<lparr>db_games := db_games d0 @ gs, db_pgns := db_pgns d0 @ ps, next_game := n\<rparr>"
    using Cons.IH [OF d0(2)] by blast
  ultimately have "d = db\<lparr>db_games := db_games db @ (row # gs),
      db_pgns := db_pgns db @ (\<lparr>pg_game = g_id row, pg_pgn_gz = z\<rparr> # ps), next_game := n\<rparr>"
    by (simp add: add_game_def)
  then show ?case by blast
qed

lemma publish_stored:
  assumes "store_games gzip now pair test report db = Inr d"
  shows "publish pair (flight_of now test report db d) (db\<lparr>next_game := next_game d\<rparr>) = d"
proof -
  obtain gs ps n where d: "d = (complete_pair now pair db)\<lparr>db_games := db_games (complete_pair now pair db) @ gs,
      db_pgns := db_pgns (complete_pair now pair db) @ ps, next_game := n\<rparr>"
    using store_games_only assms unfolding store_games_def by blast
  show ?thesis unfolding d by (simp add: publish_def flight_of_def complete_pair_def)
qed

lemma halves_compose:
  "submit_result gzip now pair report db =
     bindE (take_result gzip now pair report db) (\<lambda>(x, d).
       case x of Inl s \<Rightarrow> Inr (submit_status_only s, d) | Inr f \<Rightarrow> finish_result pair f d)"
proof -
  have stored: "bindE (store_games gzip now pair test report db) (\<lambda>d.
        bindE (refresh_test now test d) (\<lambda>d. Inr (\<lparr>sr_status = Accepted, sr_valid_games = n\<rparr>, d))) =
      bindE (bindE (store_games gzip now pair test report db) (\<lambda>d.
        Inr (Inr (flight_of now test report db d), db\<lparr>next_game := next_game d\<rparr>)))
      (\<lambda>(x, d). case x of Inl s \<Rightarrow> Inr (submit_status_only s, d) | Inr f \<Rightarrow> finish_result pair f d)"
    if "n = count_valid (check_pair report)" for test n
  proof (cases "store_games gzip now pair test report db")
    case (Inr d)
    then show ?thesis
      using publish_stored [OF Inr] that by (simp add: finish_result_def) (simp add: flight_of_def)
  qed simp
  show ?thesis
    unfolding submit_result_def take_result_def guard_result_def
    by (auto simp: Let_def stored store_games_def [symmetric] split: option.split)
qed

section \<open>What a flight is\<close>

lemma guard_Admit:
  assumes "guard_result pair report db = Admit i"
  obtains p t where "p \<in> set (db_pairs db)" "jp_id p = pair" "jp_status p = Leased"
    "jp_leased_to p = Some (pr_client_id report)" "t \<in> set (db_tests db)" "t_id t = jp_test p"
    "t_status t = Running" "i = jp_test p"
proof -
  obtain p t c where found: "find_pair db pair = Some p" "find_test db (jp_test p) = Some t"
    "find_client db (pr_client_id report) = Some c"
    and "jp_status p = Leased" "jp_leased_to p = Some (pr_client_id report)" "t_status t = Running" "i = jp_test p"
    using assms by (auto simp: guard_result_def Let_def split: option.splits if_splits)
  then show thesis using that find_pair_Some [OF found(1)] find_test_Some [OF found(2)] by blast
qed

lemma guard_Refuse: "guard_result pair report db = Refuse s \<Longrightarrow> s \<noteq> Accepted"
  by (auto simp: guard_result_def Let_def split: option.splits if_splits)

text \<open>
  The pair is leased and its row locked, its two games have ids that nobody else has or will be
  given.
\<close>

definition flight_ok :: "db \<Rightarrow> int \<Rightarrow> flight \<Rightarrow> bool" where
  "flight_ok db pair f \<longleftrightarrow> (\<exists>p r0 r1 gz. p \<in> set (db_pairs db) \<and> jp_id p = pair \<and> jp_status p = Leased \<and>
     jp_test p = fl_test f \<and> fl_games f = [r0, r1] \<and>
     fl_pgns f = [\<lparr>pg_game = g_id r0, pg_pgn_gz = fst gz\<rparr>, \<lparr>pg_game = g_id r1, pg_pgn_gz = snd gz\<rparr>] \<and>
     result_row db p 0 r0 \<and> result_row db p 1 r1 \<and> g_id r0 \<noteq> g_id r1 \<and>
     g_id r0 < next_game db \<and> g_id r1 < next_game db)"

lemma take_flight:
  assumes inv: "db_inv db" and wf: "report_wf report" and "take_result gzip now pair report db = Inr (Inr f, db')"
  shows "flight_ok db' pair f" and "db' = db\<lparr>next_game := next_game db + 2\<rparr>"
    and "\<forall>g \<in> set (fl_games f). next_game db \<le> g_id g"
    and "\<exists>t \<in> set (db_tests db). t_id t = fl_test f \<and> t_status t = Running"
proof -
  obtain i d where guard: "guard_result pair report db = Admit i" and d: "store_games gzip now pair i report db = Inr d"
    and f: "f = flight_of now i report db d" and db': "db' = db\<lparr>next_game := next_game d\<rparr>"
    using assms(3) by (auto simp: take_result_def split: guard.splits)
  obtain p t where p: "p \<in> set (db_pairs db)" "jp_id p = pair" "jp_status p = Leased"
    "jp_leased_to p = Some (pr_client_id report)" "i = jp_test p"
    and t: "t \<in> set (db_tests db)" "t_id t = jp_test p" "t_status t = Running"
    using guard_Admit [OF guard] by metis
  obtain r0 r1 z0 z1 where rows: "d = add_game r1 z1 (add_game r0 z0 (complete_pair now pair db))"
    "row_for (next_game (complete_pair now pair db)) pair i (pr_client_id report)
       (pr_games report ! 0) (check_pair report ! 0) r0"
    "row_for (next_game (complete_pair now pair db) + 1) pair i (pr_client_id report)
       (pr_games report ! 1) (check_pair report ! 1) r1"
    by (rule stored_games [OF d [unfolded store_games_def] wf])
  obtain g0 g1 where g: "pr_games report = [g0, g1]" "gr_game_in_pair g0 = 0" "gr_game_in_pair g1 = 1"
    by (rule report_wf_cases [OF wf])
  have f': "fl_games f = [r0, r1]" "fl_test f = jp_test p"
    "fl_pgns f = [\<lparr>pg_game = g_id r0, pg_pgn_gz = z0\<rparr>, \<lparr>pg_game = g_id r1, pg_pgn_gz = z1\<rparr>]"
    by (simp_all add: f flight_of_def rows(1) complete_pair_alt p(5))
  have ids: "g_id r0 = next_game db" "g_id r1 = next_game db + 1"
    using rows(2,3) by (simp_all add: row_for_def complete_pair_alt)
  show n: "db' = db\<lparr>next_game := next_game db + 2\<rparr>"
    by (simp add: db' rows(1) complete_pair_alt)
  have "result_row db p 0 r0" "result_row db p 1 r1"
    using rows(2,3) p g fresh_game_id [OF db_invD(7) [OF inv]]
    by (simp_all add: row_for_def result_row_def complete_pair_alt)
  then have "result_row db' p 0 r0" "result_row db' p 1 r1" by (simp_all add: result_row_def n)
  then show "flight_ok db' pair f"
    unfolding flight_ok_def using p f' ids
    by (intro exI [of _ p] exI [of _ r0] exI [of _ r1] exI [of _ "(z0, z1)"]) (simp add: n)
  show "\<forall>g \<in> set (fl_games f). next_game db \<le> g_id g" using f' ids by simp
  show "\<exists>t \<in> set (db_tests db). t_id t = fl_test f \<and> t_status t = Running" using t f' by auto
qed

text \<open>A flight stays what it is while its row is locked and others are given later ids.\<close>

lemma flight_ok_kept:
  assumes "flight_ok db k f" and "pairs_inv db" and "find_pair db' k = find_pair db k"
    and "next_game db \<le> next_game db'"
    and "\<And>g. g \<in> set (db_games db') \<Longrightarrow> g \<in> set (db_games db) \<or> g_id g \<notin> g_id ` set (fl_games f)"
  shows "flight_ok db' k f"
proof -
  obtain p r0 r1 gz where ok: "p \<in> set (db_pairs db)" "jp_id p = k" "jp_status p = Leased"
     "jp_test p = fl_test f" "fl_games f = [r0, r1]"
     "fl_pgns f = [\<lparr>pg_game = g_id r0, pg_pgn_gz = fst gz\<rparr>, \<lparr>pg_game = g_id r1, pg_pgn_gz = snd gz\<rparr>]"
     "result_row db p 0 r0" "result_row db p 1 r1" "g_id r0 \<noteq> g_id r1"
     "g_id r0 < next_game db" "g_id r1 < next_game db"
    using assms(1) unfolding flight_ok_def by blast
  have "find_pair db k = Some p" using find_pair_iff [OF assms(2)] ok(1,2) by blast
  then have "p \<in> set (db_pairs db')" using find_pair_Some assms(3) by metis
  moreover have "g_id r \<notin> g_id ` set (db_games db')" if "r \<in> {r0, r1}" "g_id r \<notin> g_id ` set (db_games db)" for r
    using that assms(5) ok(5) by force
  then have "result_row db' p 0 r0" "result_row db' p 1 r1"
    using ok(7,8) by (simp_all add: result_row_def)
  moreover have "g_id r0 < next_game db'" "g_id r1 < next_game db'" using ok(10,11) assms(4) by simp_all
  ultimately show ?thesis using ok(2-6,9) unfolding flight_ok_def by blast
qed

text \<open>The second half keeps the invariant.\<close>

lemma publish_alt:
  assumes "fl_games f = [r0, r1]"
    and "fl_pgns f = [\<lparr>pg_game = g_id r0, pg_pgn_gz = fst gz\<rparr>, \<lparr>pg_game = g_id r1, pg_pgn_gz = snd gz\<rparr>]"
  shows "publish pair f db = (with_result (fl_now f) pair (r0, r1) gz db)\<lparr>next_game := next_game db\<rparr>"
  using assms by (simp add: publish_def with_result_def add_game_def complete_pair_def)

lemma publish_base:
  assumes inv: "db_inv db" and ok: "flight_ok db k f"
  shows "tests_core (publish k f db)" "tests_inv (publish k f db)" "work_inv (publish k f db)"
    "stats_inv {fl_test f} (publish k f db)" "live_inv {fl_test f} (publish k f db)"
    and "db_games (publish k f db) = db_games db @ fl_games f" "db_tests (publish k f db) = db_tests db"
    and "next_game (publish k f db) = next_game db"
    and "db_pairs (publish k f db) = update_where (\<lambda>p. jp_id p = k) (completed_row (fl_now f)) (db_pairs db)"
    and "find_test db (fl_test f) \<noteq> None"
proof -
  obtain p r0 r1 gz where p: "p \<in> set (db_pairs db)" "jp_id p = k" "jp_status p = Leased" "jp_test p = fl_test f"
    and f: "fl_games f = [r0, r1]"
     "fl_pgns f = [\<lparr>pg_game = g_id r0, pg_pgn_gz = fst gz\<rparr>, \<lparr>pg_game = g_id r1, pg_pgn_gz = snd gz\<rparr>]"
    and rows: "result_row db p 0 r0" "result_row db p 1 r1" "g_id r0 \<noteq> g_id r1"
     and n: "next_game db \<le> next_game db" "g_id r0 < next_game db" "g_id r1 < next_game db"
    using ok unfolding flight_ok_def by blast
  note base = result_base [OF inv p(1-3) rows n, where now = "fl_now f" and gz = gz,
      unfolded publish_alt [OF f, symmetric], unfolded p(4)]
  show "tests_core (publish k f db)" "tests_inv (publish k f db)" "work_inv (publish k f db)"
    "stats_inv {fl_test f} (publish k f db)" "live_inv {fl_test f} (publish k f db)"
    by (fact base)+
  show "db_games (publish k f db) = db_games db @ fl_games f" "db_tests (publish k f db) = db_tests db"
    "next_game (publish k f db) = next_game db"
    "db_pairs (publish k f db) = update_where (\<lambda>p. jp_id p = k) (completed_row (fl_now f)) (db_pairs db)"
    by (simp_all add: publish_alt [OF f] f(1))
  obtain t where "t \<in> set (db_tests db)" "t_id t = fl_test f"
    using db_invD(6) [OF inv] p(1,4) unfolding pairs_inv_def prepared_def by metis
  then show "find_test db (fl_test f) \<noteq> None"
    using find_test_unique [OF db_invD(2) [OF inv], of t] by simp
qed

lemma finish_facts:
  assumes inv: "db_inv db" and ok: "flight_ok db k f" and "finish_result k f db = Inr (r, db')"
  shows "db_inv db'" and "db_games db' = db_games db @ fl_games f" and "next_game db' = next_game db"
    and "db_pairs db' = update_where (\<lambda>p. jp_id p = k) (completed_row (fl_now f)) (db_pairs db)"
    and "refresh_test (fl_now f) (fl_test f) (publish k f db) = Inr db'" and "sr_status r = Accepted"
proof -
  note base = publish_base [OF inv ok]
  show ref: "refresh_test (fl_now f) (fl_test f) (publish k f db) = Inr db'" and "sr_status r = Accepted"
    using assms(3) by (auto simp: finish_result_def)
  note facts = refresh_facts [OF ref base(1)]
  have "find_test (publish k f db) (fl_test f) \<noteq> None" using base(7,10) by (simp add: find_test_def)
  then have "stats_inv ({fl_test f} - {fl_test f}) db'"
    by (intro refresh_stats [OF ref base(1,4)])
  moreover have "work_inv db'" by (rule work_inv_frame [OF facts(3,4) base(3)])
  ultimately show "db_inv db'" using facts(2) [OF base(2)] facts(5) [OF base(5)] by (simp add: db_inv_split)
  show "db_games db' = db_games db @ fl_games f" "next_game db' = next_game db"
    "db_pairs db' = update_where (\<lambda>p. jp_id p = k) (completed_row (fl_now f)) (db_pairs db)"
    using facts(3) base(6,8,9) by (simp_all add: same_work_def)
qed

text \<open>As in one transaction, only the likelihood ratio of an SPRT test can stop the second half.\<close>

lemma finish_total:
  assumes inv: "db_inv db" and ok: "flight_ok db k f"
    and "\<And>t. t \<in> set (db_tests db) \<Longrightarrow> t_id t = fl_test f \<Longrightarrow> t_kind t \<noteq> Sprt"
  shows "\<exists>db'. finish_result k f db = Inr (\<lparr>sr_status = Accepted, sr_valid_games = fl_valid f\<rparr>, db')"
proof (cases "refresh_test (fl_now f) (fl_test f) (publish k f db)")
  case (Inl e)
  note base = publish_base [OF inv ok]
  have "pairs_inv (publish k f db)" "games_inv (publish k f db)" using base(3) by (simp_all add: work_inv_def)
  from refresh_fails [OF this base(1) Inl] show ?thesis using assms(3) base(7) by auto
next
  case (Inr d)
  then show ?thesis by (simp add: finish_result_def)
qed

section \<open>Steps\<close>

type_synonym conc = "db \<times> (int \<rightharpoonup> flight)"

text \<open>
  A transaction that would change the row of a pair in flight waits for its lock, or passes over
  it. Ids drawn by a transaction that fails are used up. A submission that is refused changes
  nothing.
\<close>

inductive conc_step ::
  "server_config \<Rightarrow> file_system \<Rightarrow> builder \<Rightarrow> (string \<Rightarrow> string result) \<Rightarrow> conc \<Rightarrow> conc \<Rightarrow> bool"
  for cfg fs build gzip where
  Other: "server_step cfg fs build gzip db db' \<Longrightarrow> \<forall>k \<in> dom F. find_pair db' k = find_pair db k \<Longrightarrow>
    conc_step cfg fs build gzip (db, F) (db', F)"
| Used_Up: "next_game db \<le> n \<Longrightarrow> conc_step cfg fs build gzip (db, F) (db\<lparr>next_game := n\<rparr>, F)"
| Take: "report_wf report \<Longrightarrow> F pair = None \<Longrightarrow> take_result gzip now pair report db = Inr (Inr f, db') \<Longrightarrow>
    conc_step cfg fs build gzip (db, F) (db', F(pair := Some f))"
| Commit: "F pair = Some f \<Longrightarrow> finish_result pair f db = Inr (sr, db') \<Longrightarrow>
    conc_step cfg fs build gzip (db, F) (db', F(pair := None))"
| Roll_Back: "F pair = Some f \<Longrightarrow> conc_step cfg fs build gzip (db, F) (db, F(pair := None))"

abbreviation conc_run ::
  "server_config \<Rightarrow> file_system \<Rightarrow> builder \<Rightarrow> (string \<Rightarrow> string result) \<Rightarrow> conc \<Rightarrow> conc \<Rightarrow> bool" where
  "conc_run cfg fs build gzip \<equiv> (conc_step cfg fs build gzip)\<^sup>*\<^sup>*"

definition conc_reachable ::
  "server_config \<Rightarrow> file_system \<Rightarrow> builder \<Rightarrow> (string \<Rightarrow> string result) \<Rightarrow> conc \<Rightarrow> bool" where
  "conc_reachable cfg fs build gzip s \<longleftrightarrow> conc_run cfg fs build gzip (empty_db, Map.empty) s"

text \<open>With nothing in flight this is the system of atomic transactions.\<close>

lemma serial_run:
  "server_run cfg fs build gzip db db' \<Longrightarrow> conc_run cfg fs build gzip (db, Map.empty) (db', Map.empty)"
proof (induction rule: rtranclp_induct)
  case (step d d')
  have "conc_step cfg fs build gzip (d, Map.empty) (d', Map.empty)"
    by (rule conc_step.Other [OF step.hyps(2)]) simp
  with step.IH show ?case by simp
qed simp

section \<open>The invariant\<close>

definition flight_ids :: "flight \<Rightarrow> int set" where
  "flight_ids f = g_id ` set (fl_games f)"

definition conc_inv :: "conc \<Rightarrow> bool" where
  "conc_inv s \<longleftrightarrow> db_inv (fst s) \<and>
     (\<forall>k f. snd s k = Some f \<longrightarrow> flight_ok (fst s) k f) \<and>
     (\<forall>j k f g. j \<noteq> k \<longrightarrow> snd s j = Some f \<longrightarrow> snd s k = Some g \<longrightarrow> flight_ids f \<inter> flight_ids g = {})"

lemma flight_ids_below: "flight_ok db k f \<Longrightarrow> i \<in> flight_ids f \<Longrightarrow> i < next_game db"
  by (auto simp: flight_ok_def flight_ids_def)

lemma refresh_all_work:
  assumes "foldE (refresh_test now) is db = Inr db'" and "tests_core db"
  shows "same_work db db'"
proof -
  have "tests_core db' \<and> same_work db db'"
    by (rule foldE_invariant [OF assms(1), where P = "\<lambda>d. tests_core d \<and> same_work db d"])
      (use assms(2) refresh_facts(1,3) same_work_trans in auto)
  then show ?thesis by blast
qed

lemma same_next_game: "same_work db db' \<Longrightarrow> next_game db' = next_game db"
  by (simp add: same_work_def)

text \<open>No transaction moves the sequence of the games back.\<close>

lemma sequence_step:
  assumes inv: "db_inv db" and "server_step cfg fs build gzip db db'"
  shows "next_game db \<le> next_game db'"
  using assms(2)
proof (cases rule: server_step.cases)
  case (Register now reg rc)
  then show ?thesis by (auto simp: register_client_def split: option.splits)
next
  case (Heartbeat now client factor b)
  then show ?thesis by (auto simp: heartbeat_def split: option.splits)
next
  case (Claim locked now client slots_free cr)
  then show ?thesis by (cases rule: claim_cases) simp_all
next
  case (Submit report now pair sr)
  show ?thesis
    using Submit(2,1)
  proof (cases rule: submit_cases)
    case (2 p t r0 r1 gz)
    have "tests_core (with_result now pair (r0, r1) gz db)"
      using db_invD(2) [OF inv] tests_core_frame [of "with_result now pair (r0, r1) gz db" db] by simp
    from same_next_game [OF refresh_facts(3) [OF 2(10) this]] show ?thesis by simp
  qed simp
next
  case (Abandon pair client ok)
  then show ?thesis by (auto simp: abandon_pair_def)
next
  case (Recover locked now lr)
  let ?d = "update_pairs (lease_expired locked now) (expire_pair (max_attempts cfg)) db"
  have "tests_core ?d" using db_invD(2) [OF inv] tests_core_frame [of ?d db] by simp
  from same_next_game [OF refresh_all_work [OF recover_cases [OF Recover(1)] this]] show ?thesis by simp
next
  case (Smoke test t now dispatch r)
  show ?thesis
    using Smoke(2) db_invD(2) [OF inv] db_invD(5) [OF inv]
  proof (cases rule: smoke_commit_cases)
    case (3 u vlog d)
    let ?w = "with_work test dispatch (sm_positions (smoke_test cfg fs build t)) vlog db"
    have "test_params_ok t" using find_test_Some [OF Smoke(1)] tests_coreD(3) db_invD(2) [OF inv] by blast
    then have "sm_positions (smoke_test cfg fs build t) \<noteq> []" using smoke_test_positions(1) 3(4) by blast
    then have core: "tests_core ?w" using with_work_base(1) [OF inv 3(1,2,3)] by blast
    have "next_game db' = next_game ?w"
      using same_next_game [OF refresh_facts(3) [OF 3(5) core]] same_next_game [OF promote_same_work] 3(6) by simp
    then show ?thesis by (simp add: with_work_def Let_def)
  qed simp_all
next
  case (Promote now i)
  then show ?thesis using promote_idle [OF db_invD(1) [OF inv]] by simp
next
  case (Stop now test so)
  then show ?thesis
    by (cases rule: stop_test_cases) (auto simp: same_next_game [OF promote_same_work])
next
  case (Priority test n po)
  then show ?thesis by (cases rule: set_priority_cases) auto
next
  case (Create body s now cand base i)
  then show ?thesis by (auto elim!: insert_test_cases)
qed

lemma advance_inv:
  assumes "db_inv db" and "next_game db \<le> n"
  shows "db_inv (db\<lparr>next_game := n\<rparr>)"
proof -
  let ?d = "db\<lparr>next_game := n\<rparr>"
  note parts = db_invD [OF assms(1)]
  have "tests_inv ?d" using parts(1) tests_inv_frame [of ?d db] by simp
  moreover have "clients_inv ?d" "positions_inv ?d" "pairs_inv ?d"
    using parts(4-6) by (simp_all add: clients_inv_def positions_inv_def pairs_inv_def prepared_def)
  moreover have "games_inv ?d"
    using parts(7) assms(2) by (fastforce simp: games_inv_def pair_games_def)
  moreover have "live_inv {} ?d" using parts(8) live_inv_frame [of ?d db] by simp
  moreover have "stats_inv {} ?d" using parts(9) stats_inv_frame [of ?d db] by simp
  ultimately show ?thesis by (simp add: db_inv_def)
qed

text \<open>What every step keeps of a flight that it does not land.\<close>

lemma flight_kept:
  assumes inv: "conc_inv s" and step: "conc_step cfg fs build gzip s s'"
    and "snd s k = Some f" and "snd s' k = Some f"
  shows "flight_ok (fst s') k f"
proof -
  have ok: "flight_ok (fst s) k f" and p: "pairs_inv (fst s)"
    using inv assms(3) db_invD(6) by (auto simp: conc_inv_def)
  show ?thesis
    using step
  proof (cases rule: conc_step.cases)
    case (Other db db' F)
    have dinv: "db_inv db" using inv Other(1) by (simp add: conc_inv_def)
    obtain new where new: "db_games db' = db_games db @ new" "\<forall>g \<in> set new. next_game db \<le> g_id g"
      using games_grow_step [OF dinv Other(3)] unfolding games_grow_def by blast
    have "flight_ok db' k f"
    proof (rule flight_ok_kept [OF _ _ _ sequence_step [OF dinv Other(3)]])
      show "flight_ok db k f" "pairs_inv db" using ok p Other(1) by simp_all
      show "find_pair db' k = find_pair db k" using Other(1,4) assms(3) by auto
      show "g \<in> set (db_games db) \<or> g_id g \<notin> g_id ` set (fl_games f)" if "g \<in> set (db_games db')" for g
        using that new flight_ids_below [OF ok] Other(1) by (fastforce simp: flight_ids_def)
    qed
    then show ?thesis using Other(2) by simp
  next
    case (Used_Up db n F)
    show ?thesis
      by (rule flight_ok_kept [OF ok p]) (use Used_Up in \<open>simp_all add: find_pair_def\<close>)
  next
    case (Take report F pair now db g db')
    have n: "db' = db\<lparr>next_game := next_game db + 2\<rparr>"
      using take_flight(2) Take inv by (simp add: conc_inv_def)
    show ?thesis
      by (rule flight_ok_kept [OF ok p]) (use Take(1,2) n in \<open>simp_all add: find_pair_def\<close>)
  next
    case (Commit F pair g db sr db')
    have k: "k \<noteq> pair" using Commit(2) assms(4) by auto
    have gok: "flight_ok db pair g" and dinv: "db_inv db"
      and apart: "flight_ids f \<inter> flight_ids g = {}"
      using inv Commit(1,3) assms(3) k by (auto simp: conc_inv_def)
    note fin = finish_facts [OF dinv gok Commit(4)]
    have "find_pair db' k = find_pair db k"
      using find_update_key [of jp_id "completed_row (fl_now g)" k "\<lambda>p. jp_id p = pair" "db_pairs db"] fin(4) k
      by (cases "find_pair db k") (auto simp: find_pair_def dest: find_Some_iff [THEN iffD1])
    moreover have "x \<in> set (db_games db) \<or> g_id x \<notin> g_id ` set (fl_games f)" if "x \<in> set (db_games db')" for x
      using that apart unfolding fin(2) flight_ids_def by auto
    ultimately have "flight_ok db' k f"
      using flight_ok_kept [OF ok p, of db'] fin(3) Commit(1) by simp
    then show ?thesis using Commit(2) by simp
  next
    case (Roll_Back F pair g db)
    then show ?thesis using ok by simp
  qed
qed

lemma flight_new:
  assumes inv: "conc_inv s" and step: "conc_step cfg fs build gzip s s'"
    and "snd s' k = Some f" and "snd s k \<noteq> Some f"
  shows "flight_ok (fst s') k f" and "\<forall>i \<in> flight_ids f. next_game (fst s) \<le> i"
    and "\<exists>t \<in> set (db_tests (fst s)). t_id t = fl_test f \<and> t_status t = Running"
proof -
  have "flight_ok (fst s') k f \<and> (\<forall>i \<in> flight_ids f. next_game (fst s) \<le> i) \<and>
      (\<exists>t \<in> set (db_tests (fst s)). t_id t = fl_test f \<and> t_status t = Running)"
    using step
  proof (cases rule: conc_step.cases)
    case (Take report F pair now db g db')
    have dinv: "db_inv db" using inv Take(1) by (simp add: conc_inv_def)
    note new = take_flight [OF dinv Take(3,5)]
    have "k = pair" "f = g" using assms(3,4) Take(1,2) by (auto split: if_splits)
    then show ?thesis using new(1,3,4) Take(1,2) by (simp add: flight_ids_def)
  qed (use assms(3,4) in \<open>auto split: if_splits\<close>)
  then show "flight_ok (fst s') k f" "\<forall>i \<in> flight_ids f. next_game (fst s) \<le> i"
    "\<exists>t \<in> set (db_tests (fst s)). t_id t = fl_test f \<and> t_status t = Running" by blast+
qed

lemma conc_step_inv:
  assumes inv: "conc_inv s" and step: "conc_step cfg fs build gzip s s'"
  shows "conc_inv s'"
  unfolding conc_inv_def
proof (intro conjI allI impI)
  have dinv: "db_inv (fst s)" using inv by (simp add: conc_inv_def)
  show "db_inv (fst s')"
    using step
  proof (cases rule: conc_step.cases)
    case (Other db db' F)
    then show ?thesis using server_step_inv [OF _ Other(3)] dinv by simp
  next
    case (Used_Up db n F)
    then show ?thesis using advance_inv dinv by simp
  next
    case (Take report F pair now db f db')
    then show ?thesis using take_flight(2) [OF _ Take(3,5)] advance_inv dinv by simp
  next
    case (Commit F pair f db sr db')
    have "flight_ok db pair f" using inv Commit(1,3) by (simp add: conc_inv_def)
    then show ?thesis using finish_facts(1) [OF _ _ Commit(4)] dinv Commit(1,2) by simp
  qed (use dinv in simp)
  show "flight_ok (fst s') k f" if "snd s' k = Some f" for k f
    using flight_kept [OF inv step] flight_new(1) [OF inv step] that by blast
  fix j k f g assume fl: "j \<noteq> k" "snd s' j = Some f" "snd s' k = Some g"
  have old: "i < next_game (fst s)" if "snd s l = Some h" "i \<in> flight_ids h" for l h i
    by (rule flight_ids_below [OF _ that(2), of _ l]) (use that(1) inv in \<open>simp add: conc_inv_def\<close>)
  note new = flight_new(2) [OF inv step]
  consider "snd s j = Some f" "snd s k = Some g" | "snd s j = Some f" "snd s k \<noteq> Some g"
    | "snd s j \<noteq> Some f" "snd s k = Some g" | "snd s j \<noteq> Some f" "snd s k \<noteq> Some g" by blast
  then show "flight_ids f \<inter> flight_ids g = {}"
  proof cases
    case 1
    then show ?thesis using inv fl(1) by (auto simp: conc_inv_def)
  next
    case 2
    then show ?thesis using old [OF 2(1)] new [OF fl(3) 2(2)] by fastforce
  next
    case 3
    then show ?thesis using old [OF 3(2)] new [OF fl(2) 3(1)] by fastforce
  next
    case 4
    from step have False
      by (cases rule: conc_step.cases) (use 4 fl in \<open>auto split: if_splits\<close>)
    then show ?thesis ..
  qed
qed

interpretation conc_system: guarded_system "conc_step cfg fs build gzip" conc_inv
  for cfg fs build gzip
  by unfold_locales (rule conc_step_inv)

lemma conc_inv_start: "conc_inv (empty_db, Map.empty)"
  by (simp add: conc_inv_def db_inv_empty)

lemma conc_reachable_inv: "conc_reachable cfg fs build gzip s \<Longrightarrow> conc_inv s"
  unfolding conc_reachable_def using conc_system.run_keeps conc_inv_start by blast

text \<open>The second half completes the pair of the flight and moves tests as a recalculation does.\<close>

lemma finish_moves:
  assumes inv: "db_inv db" and ok: "flight_ok db k f" and "finish_result k f db = Inr (r, db')"
  shows "jobs_move db db'" and "tests_move db db'"
proof -
  note fin = finish_facts [OF inv ok assms(3)]
  obtain p where p: "p \<in> set (db_pairs db)" "jp_id p = k" "jp_status p = Leased"
    using ok unfolding flight_ok_def by blast
  show "jobs_move db db'"
  proof (rule jobs_move_update [OF _ _ fin(4)])
    fix q assume "q \<in> set (db_pairs db)" "jp_id q = k"
    then have "q = p" using pairs_unique [OF db_invD(6) [OF inv] _ p(1)] p(2) by simp
    then show "job_edge (view_of q) (view_of (completed_row (fl_now f) q))"
      using leased_view [OF db_invD(6) [OF inv] p(1,3)] p(3)
      by (auto simp: view_of_def completed_row_def Complete)
  qed simp
  have "tests_move db (publish k f db)" by (rule tests_move_same) (simp add: publish_def complete_pair_def)
  then show "tests_move db db'"
    using tests_move_refresh [OF publish_base(1) [OF inv ok] fin(5)] tests_move_trans by blast
qed

lemma conc_moves:
  assumes inv: "conc_inv s" and step: "conc_step cfg fs build gzip s s'"
  shows "jobs_move (fst s) (fst s')" and "tests_move (fst s) (fst s')"
proof -
  have dinv: "db_inv (fst s)" using inv by (simp add: conc_inv_def)
  have "jobs_move (fst s) (fst s') \<and> tests_move (fst s) (fst s')"
    using step
  proof (cases rule: conc_step.cases)
    case (Other db db' F)
    then show ?thesis using jobs_move_step tests_move_step dinv by (metis fst_conv)
  next
    case (Used_Up db n F)
    then show ?thesis by (simp add: jobs_move_pairs tests_move_same)
  next
    case (Take report F pair now db f db')
    then show ?thesis
      using take_flight(2) [OF _ Take(3,5)] dinv by (simp add: jobs_move_pairs tests_move_same)
  next
    case (Commit F pair f db sr db')
    have "flight_ok db pair f" using inv Commit(1,3) by (simp add: conc_inv_def)
    then show ?thesis using finish_moves [OF _ _ Commit(4)] dinv Commit(1,2) by simp
  next
    case (Roll_Back F pair f db)
    then show ?thesis by (simp add: jobs_move_pairs tests_move_same)
  qed
  then show "jobs_move (fst s) (fst s')" "tests_move (fst s) (fst s')" by blast+
qed

interpretation conc_jobs: object_lifecycle "conc_step cfg fs build gzip" conc_inv "\<lambda>s. job_view (fst s)" job_edge
  for cfg fs build gzip
  by unfold_locales (use conc_moves(1) in \<open>auto simp: jobs_move_def\<close>)

interpretation conc_tests: object_lifecycle "conc_step cfg fs build gzip" conc_inv "\<lambda>s. test_view (fst s)" test_edge
  for cfg fs build gzip
  by unfold_locales (use conc_moves(2) in \<open>auto simp: tests_move_def\<close>)

section \<open>Along a run\<close>

lemma conc_grow_step:
  assumes inv: "conc_inv s" and step: "conc_step cfg fs build gzip s s'"
  shows "\<exists>new. db_games (fst s') = db_games (fst s) @ new \<and> (\<forall>g \<in> set new.
    (\<forall>t \<in> set (db_tests (fst s)). t_id t = g_test g \<longrightarrow> t_status t = Running) \<or>
    (\<exists>k f. snd s k = Some f \<and> g \<in> set (fl_games f)))"
proof -
  have dinv: "db_inv (fst s)" using inv by (simp add: conc_inv_def)
  show ?thesis
    using step
  proof (cases rule: conc_step.cases)
    case (Other db db' F)
    have "db_inv db" using dinv Other(1) by simp
    from games_grow_step [OF this Other(3)] show ?thesis using Other(1,2) unfolding games_grow_def by auto
  next
    case (Take report F pair now db f db')
    have "db_inv db" using dinv Take(1) by simp
    from take_flight(2) [OF this Take(3,5)] show ?thesis using Take(1,2) by simp
  next
    case (Commit F pair f db sr db')
    have "db_inv db" "flight_ok db pair f" using inv Commit(1,3) by (simp_all add: conc_inv_def)
    from finish_facts(2) [OF this Commit(4)] show ?thesis using Commit(1-3) by auto
  qed simp_all
qed

lemma conc_ended_stays:
  assumes "conc_run cfg fs build gzip s s'" "conc_inv s" "t \<in> set (db_tests (fst s))" "test_rank (t_status t) = 3"
  obtains u where "u \<in> set (db_tests (fst s'))" "t_id u = t_id t"
    "\<And>v. v \<in> set (db_tests (fst s')) \<Longrightarrow> t_id v = t_id t \<Longrightarrow> v = u" "t_status u = t_status t"
proof -
  have inv: "db_inv (fst s)" "db_inv (fst s')"
    using assms(2) conc_system.run_keeps [OF assms(1,2)] by (simp_all add: conc_inv_def)
  have v: "test_view (fst s) (t_id t) = Some (status_of t)"
    using assms(3) test_view_row [OF db_invD(2) [OF inv(1)]] by blast
  have "\<not> test_edge (status_of t) x" for x
    using assms(4) by (cases "t_status t") (auto simp: status_of_def test_final)
  from conc_tests.final_frozen [OF assms(1,2) v this] obtain u where
    u: "u \<in> set (db_tests (fst s'))" "t_id u = t_id t" "status_of u = status_of t"
    using test_view_row [OF db_invD(2) [OF inv(2)]] by blast
  show thesis
    by (rule that [OF u(1,2)])
      (use test_unique [OF db_invD(2) [OF inv(2)] _ u(1)] u(2,3) in \<open>auto simp: status_of_def\<close>)
qed

text \<open>No result is taken for a test that has ended, so what reaches it was in flight before.\<close>

lemma flight_games: "flight_ok db k f \<Longrightarrow> g \<in> set (fl_games f) \<Longrightarrow> g_test g = fl_test f \<and> g_pair g = k"
  by (auto simp: flight_ok_def result_row_def)

lemma late_run:
  assumes "conc_run cfg fs build gzip s s'" and "conc_inv s"
  shows "(\<exists>new. db_games (fst s') = db_games (fst s) @ new \<and>
      (\<forall>t \<in> set (db_tests (fst s)). \<forall>g \<in> set new. test_rank (t_status t) = 3 \<longrightarrow> g_test g = t_id t \<longrightarrow>
         (\<exists>k f. snd s k = Some f \<and> g \<in> set (fl_games f)))) \<and>
    (\<forall>t \<in> set (db_tests (fst s)). \<forall>k f. test_rank (t_status t) = 3 \<longrightarrow> snd s' k = Some f \<longrightarrow>
       fl_test f = t_id t \<longrightarrow> snd s k = Some f)"
  using assms
proof (induction rule: rtranclp_induct)
  case base
  then show ?case by simp
next
  case (step m s')
  have inv: "conc_inv m" by (rule conc_system.run_keeps [OF step.hyps(1) step.prems])
  have running: False if t: "t \<in> set (db_tests (fst s))" "test_rank (t_status t) = 3"
    and u: "u \<in> set (db_tests (fst m))" "t_id u = t_id t" "t_status u = Running" for t u
  proof -
    obtain v where "\<And>w. w \<in> set (db_tests (fst m)) \<Longrightarrow> t_id w = t_id t \<Longrightarrow> w = v" "t_status v = t_status t"
      by (rule conc_ended_stays [OF step.hyps(1) step.prems t]) blast
    then show False using t(2) u by fastforce
  qed
  obtain new where new: "db_games (fst m) = db_games (fst s) @ new"
    "\<forall>t \<in> set (db_tests (fst s)). \<forall>g \<in> set new. test_rank (t_status t) = 3 \<longrightarrow> g_test g = t_id t \<longrightarrow>
         (\<exists>k f. snd s k = Some f \<and> g \<in> set (fl_games f))"
    and flights: "\<forall>t \<in> set (db_tests (fst s)). \<forall>k f. test_rank (t_status t) = 3 \<longrightarrow> snd m k = Some f \<longrightarrow>
       fl_test f = t_id t \<longrightarrow> snd s k = Some f"
    using step.IH [OF step.prems] by blast
  obtain more where more: "db_games (fst s') = db_games (fst m) @ more"
    "\<forall>g \<in> set more. (\<forall>t \<in> set (db_tests (fst m)). t_id t = g_test g \<longrightarrow> t_status t = Running) \<or>
       (\<exists>k f. snd m k = Some f \<and> g \<in> set (fl_games f))"
    using conc_grow_step [OF inv step.hyps(2)] by blast
  have "\<exists>k f. snd s k = Some f \<and> g \<in> set (fl_games f)"
    if t: "t \<in> set (db_tests (fst s))" "test_rank (t_status t) = 3" "g \<in> set more" "g_test g = t_id t" for t g
  proof -
    obtain u where "u \<in> set (db_tests (fst m))" "t_id u = t_id t"
      using conc_ended_stays [OF step.hyps(1) step.prems t(1,2)] by metis
    then obtain k f where f: "snd m k = Some f" "g \<in> set (fl_games f)"
      using more(2) t running by metis
    then have "fl_test f = t_id t" using inv flight_games t(4) unfolding conc_inv_def by metis
    then show ?thesis using flights t(1,2) f by blast
  qed
  moreover have "snd s k = Some f"
    if "t \<in> set (db_tests (fst s))" "test_rank (t_status t) = 3" "snd s' k = Some f" "fl_test f = t_id t" for t k f
    using flight_new(3) [OF inv step.hyps(2) that(3)] running [OF that(1,2)] flights that by metis
  ultimately show ?case using new more(1) by (intro conjI exI [of _ "new @ more"]) auto
qed

text \<open>On an open lease a storable report takes off.\<close>

lemma take_open:
  assumes inv: "db_inv db" and wf: "report_wf report" and st: "storable gzip report"
    and ol: "open_lease db pair (pr_client_id report)"
  shows "\<exists>f. take_result gzip now pair report db = Inr (Inr f, db\<lparr>next_game := next_game db + 2\<rparr>)"
proof -
  obtain p t c where p: "p \<in> set (db_pairs db)" "jp_id p = pair" "jp_status p = Leased"
      "jp_leased_to p = Some (pr_client_id report)"
    and t: "t \<in> set (db_tests db)" "t_id t = jp_test p" "t_status t = Running"
    and c: "c \<in> set (db_clients db)" "c_id c = pr_client_id report" "c_status c \<noteq> Banned"
    using ol unfolding open_lease_def by blast
  have "find_pair db pair = Some p" "find_test db (jp_test p) = Some t"
    "find_client db (pr_client_id report) = Some c"
    using p t c find_pair_iff [OF db_invD(6) [OF inv]] find_test_iff [OF db_invD(2) [OF inv]]
      find_client_iff [OF db_invD(4) [OF inv]] by auto
  then have "guard_result pair report db = Admit (jp_test p)"
    using p t c by (simp add: guard_result_def)
  moreover obtain d where "store_games gzip now pair (jp_test p) report db = Inr d"
    using stored_open [OF inv wf st p(1-3)] unfolding store_games_def by blast
  ultimately have "take_result gzip now pair report db
      = Inr (Inr (flight_of now (jp_test p) report db d), db\<lparr>next_game := next_game d\<rparr>)"
    by (simp add: take_result_def)
  with take_flight(2) [OF inv wf this] show ?thesis by metis
qed

section \<open>A sample\<close>

abbreviation demo_conc :: "conc \<Rightarrow> bool" where
  "demo_conc \<equiv> conc_reachable default_config demo_fs demo_build demo_gzip"

abbreviation demo_conc_step :: "conc \<Rightarrow> conc \<Rightarrow> bool" where
  "demo_conc_step \<equiv> conc_step default_config demo_fs demo_build demo_gzip"

lemma conc_reachable_step:
  "conc_reachable cfg fs build gzip s \<Longrightarrow> conc_step cfg fs build gzip s s' \<Longrightarrow> conc_reachable cfg fs build gzip s'"
  unfolding conc_reachable_def by (rule rtranclp.rtrancl_into_rtrancl)

lemma demo_open:
  assumes "demo_leased db" "k = 1 \<or> k = 2"
  shows "open_lease (db\<lparr>next_game := n\<rparr>) k (pr_client_id demo_report)"
proof -
  obtain t where t: "db_tests db = [t]" "demo_running t" using assms(1) by (auto simp: demo_leased_def)
  then show ?thesis
    using assms unfolding open_lease_def
    by (auto simp: demo_leased_def demo_pair_rows lease_pair_def demo_running_def demo_client_def
        insert_client_row_def demo_report_def)
qed

lemma demo_take:
  assumes "demo_conc (db\<lparr>next_game := n\<rparr>, F)" "demo_leased db" "k = 1 \<or> k = 2" "F k = None"
  obtains f where "demo_conc (db\<lparr>next_game := n + 2\<rparr>, F(k := Some f))"
    "fl_test f = 1" "flight_ok (db\<lparr>next_game := n + 2\<rparr>) k f"
proof -
  let ?d = "db\<lparr>next_game := n\<rparr>"
  have inv: "db_inv ?d" using conc_reachable_inv [OF assms(1)] by (simp add: conc_inv_def)
  obtain f where f: "take_result demo_gzip 20 k demo_report ?d = Inr (Inr f, db\<lparr>next_game := n + 2\<rparr>)"
    using take_open [OF inv demo_report_wf demo_report_storable demo_open [OF assms(2,3)], of 20] by auto
  have "demo_conc_step (?d, F) (db\<lparr>next_game := n + 2\<rparr>, F(k := Some f))"
    by (rule conc_step.Take [where F = F and pair = k, OF demo_report_wf assms(4) f])
  moreover obtain t where "t \<in> set (db_tests db)" "t_id t = fl_test f"
    using take_flight(4) [OF inv demo_report_wf f] by auto
  then have "fl_test f = 1" using assms(2) by (auto simp: demo_leased_def demo_running_def)
  ultimately show thesis
    using that [of f] take_flight(1) [OF inv demo_report_wf f] conc_reachable_step [OF assms(1)] by simp
qed

lemma demo_flight:
  obtains db f where "demo_conc (db\<lparr>next_game := 3\<rparr>, Map.empty(1 := Some f))" "demo_leased db" "fl_test f = 1"
    "demo_reachable db"
proof -
  obtain db where db: "demo_reachable db" "demo_leased db" by (rule demo_run)
  have "demo_conc (db, Map.empty)"
    using db(1) serial_run unfolding reachable_def conc_reachable_def by blast
  moreover have "db\<lparr>next_game := 1\<rparr> = db" using db(2) by (simp add: demo_leased_def)
  ultimately have "demo_conc (db\<lparr>next_game := 1\<rparr>, Map.empty)" by simp
  from demo_take [OF this db(2), of 1] obtain f where
    "demo_conc (db\<lparr>next_game := 1 + 2\<rparr>, Map.empty(1 := Some f))" "fl_test f = 1" by auto
  then show thesis using that [of db f] db by simp
qed

text \<open>Both pairs in flight, the second lands first.\<close>

lemma demo_crossed:
  obtains db F f1 f2 r d where "demo_conc (db, F)" "F 1 = Some f1" "F 2 = Some f2" "db_games db = []"
    "finish_result 2 f2 db = Inr (r, d)" "demo_conc (d, F(2 := None))" "map g_pair (db_games d) = [2, 2]"
proof -
  obtain db f1 where a: "demo_conc (db\<lparr>next_game := 3\<rparr>, Map.empty(1 := Some f1))" "demo_leased db"
    by (rule demo_flight)
  from demo_take [OF this, of 2] obtain f2 where
    b: "demo_conc (db\<lparr>next_game := 3 + 2\<rparr>, Map.empty(1 := Some f1, 2 := Some f2))" "fl_test f2 = 1"
    "flight_ok (db\<lparr>next_game := 3 + 2\<rparr>) 2 f2" by auto
  let ?d = "db\<lparr>next_game := 3 + 2\<rparr>" and ?F = "Map.empty(1 := Some f1, 2 := Some f2)"
  have inv: "db_inv ?d" using conc_reachable_inv [OF b(1)] by (simp add: conc_inv_def)
  obtain d where d: "finish_result 2 f2 ?d = Inr (\<lparr>sr_status = Accepted, sr_valid_games = fl_valid f2\<rparr>, d)"
    using finish_total [OF inv b(3)] a(2) by (auto simp: demo_leased_def demo_running_def)
  have "demo_conc_step (?d, ?F) (d, ?F(2 := None))" by (rule conc_step.Commit [OF _ d]) simp
  then have "demo_conc (d, ?F(2 := None))" by (rule conc_reachable_step [OF b(1)])
  moreover have "map g_pair (db_games d) = [2, 2]"
    using finish_facts(2) [OF inv b(3) d] a(2) b(3)
    by (auto simp: demo_leased_def flight_ok_def result_row_def)
  moreover have "db_games ?d = []" using a(2) by (simp add: demo_leased_def)
  ultimately show thesis using that [of ?d ?F f1 f2] b(1) d by simp
qed

text \<open>The test of the sample is stopped while a result for it is in flight.\<close>

definition demo_stopped :: "db \<Rightarrow> db" where
  "demo_stopped db = update_test 1 (\<lambda>t. t\<lparr>t_status := Stopped, t_finished_at := Some 30\<rparr>) db"

lemma demo_stop:
  assumes "demo_leased db"
  shows "\<exists>so. stop_test 30 1 (db\<lparr>next_game := n\<rparr>) = (so, demo_stopped (db\<lparr>next_game := n\<rparr>))"
proof -
  obtain t where t: "db_tests db = [t]" "demo_running t" using assms by (auto simp: demo_leased_def)
  have "promote_next_test 30 (demo_stopped (db\<lparr>next_game := n\<rparr>)) = (None, demo_stopped (db\<lparr>next_game := n\<rparr>))"
    using t by (simp add: promote_next_test_def queue_order_def demo_stopped_def update_where_def demo_running_def)
  then show ?thesis
    using t unfolding demo_stopped_def
    by (simp add: stop_test_def find_test_def demo_running_def Let_def)
qed

section \<open>Properties\<close>

text \<open>
  C2: however submissions and other transactions interleave, every database that is committed
  satisfies the rules of the queue, of the record and of the statistics. At most one test runs and
  it has a pair that is pending or leased (of two last results in flight at once, the
  recalculation of the later one sees both); a completed pair has exactly two games, the first and
  the second, of its test and of the client that held the lease, and no other pair has a game; the
  number of valid pairs is that of the view, the score counts two games per valid pair, and points
  from the score and from the five frequencies are the same.
\<close>

theorem interleaved_rules:
  assumes "conc_reachable cfg fs build gzip (db, F)"
  shows "queue_rules db \<and> record_rules db \<and> list_all (score_rules db) (db_stats db)"
proof -
  have "db_inv db" using conc_reachable_inv [OF assms] by (simp add: conc_inv_def)
  then show ?thesis using queue_rules_inv record_rules_inv score_rules_inv by (simp add: list_all_iff)
qed

theorem interleaved_rules_witness:
  "\<exists>db F f. demo_conc (db, F) \<and> F 1 = Some f \<and> map g_pair (db_games db) = [2, 2] \<and>
     queue_rules db \<and> record_rules db \<and> list_all (score_rules db) (db_stats db)"
proof -
  obtain db F f1 f2 r d where s: "F 1 = Some f1" "demo_conc (d, F(2 := None))" "map g_pair (db_games d) = [2, 2]"
    by (rule demo_crossed)
  show ?thesis using interleaved_rules [OF s(2)] s by (intro exI [of _ d] exI [of _ "F(2 := None)"] exI [of _ f1]) simp
qed

text \<open>
  C5: under interleaving, too, a result counts whole and once: the two games written in the first
  half of a submission are, once it has committed, exactly the games of the pair in every later
  database; the pair stays completed, and no submission for it, of whatever client, gets past the
  guard again.
\<close>

theorem interleaved_result_counts_once:
  assumes "conc_reachable cfg fs build gzip (db, F)" and "F pair = Some f"
    and "finish_result pair f db = Inr (r, d)" and "conc_run cfg fs build gzip (d, F(pair := None)) (db', F')"
  shows "length (fl_games f) = 2 \<and> filter (\<lambda>g. g_pair g = pair) (db_games db') = fl_games f \<and> F' pair = None \<and>
    (\<exists>s. take_result gzip now pair report db' = Inr (Inl s, db') \<and> s \<noteq> Accepted)"
proof -
  note inv = conc_reachable_inv [OF assms(1)]
  have ok: "db_inv db" "flight_ok db pair f" using inv assms(2) by (simp_all add: conc_inv_def)
  note fin = finish_facts [OF ok assms(3)]
  have inv1: "conc_inv (d, F(pair := None))"
    using conc_step_inv [OF inv conc_step.Commit [where F = F and pair = pair, OF assms(2,3)]] .
  note inv2 = conc_system.run_keeps [OF assms(4) inv1]
  have dinv: "db_inv d" "db_inv db'" using inv1 inv2 by (simp_all add: conc_inv_def)
  obtain p where p: "p \<in> set (db_pairs db)" "jp_id p = pair" "jp_status p = Leased"
    using ok(2) unfolding flight_ok_def by blast
  let ?p = "completed_row (fl_now f) p"
  have "?p \<in> set (db_pairs d)" using p unfolding fin(4) by (force simp: set_update_where)
  then have v: "job_view (fst (d, F(pair := None))) pair = Some (view_of ?p)"
    using job_view_row [OF db_invD(6) [OF dinv(1)]] p(2) by (auto intro!: bexI [of _ ?p])
  have "\<not> job_edge (view_of ?p) w" for w by (simp add: view_of_def job_final)
  from conc_jobs.final_frozen [OF assms(4) inv1 v this] obtain q where
    q: "q \<in> set (db_pairs db')" "jp_id q = pair" "view_of q = view_of ?p"
    using job_view_row [OF db_invD(6) [OF dinv(2)]] by auto
  have fin_q: "jp_status q = Completed" using q(3) by (simp add: view_of_def)
  have only: "jp_status x = Completed" if "x \<in> set (db_pairs db')" "jp_id x = pair" for x
    using pairs_unique [OF db_invD(6) [OF dinv(2)] that(1) q(1)] that(2) q(2) fin_q by simp
  obtain new where new: "db_games db' = db_games d @ new" using late_run [OF assms(4) inv1] by auto
  have mine: "filter (\<lambda>g. g_pair g = pair) (fl_games f) = fl_games f" "length (fl_games f) = 2"
    using flight_games [OF ok(2)] ok(2) by (auto simp: filter_id_conv flight_ok_def)
  have "filter (\<lambda>g. g_pair g = pair) (db_games db) = []"
    using no_games_unless_completed [OF db_invD(7) [OF ok(1)] p(1)] p(2,3) by (simp add: pair_games_def)
  then have games: "filter (\<lambda>g. g_pair g = pair) (db_games db')
      = fl_games f @ filter (\<lambda>g. g_pair g = pair) new"
    unfolding new fin(2) using mine(1) by simp
  have "map g_game_in_pair (filter (\<lambda>g. g_pair g = pair) (db_games db')) = [0, 1]"
    using db_invD(7) [OF dinv(2)] q(1,2) fin_q by (auto simp: games_inv_def pair_games_def)
  then have "length (filter (\<lambda>g. g_pair g = pair) (db_games db')) = 2" by (metis length_map length_Cons list.size(3) Suc_1 One_nat_def)
  then have "filter (\<lambda>g. g_pair g = pair) new = []" unfolding games using mine(2) by simp
  moreover have "F' pair = None"
  proof (rule ccontr)
    assume "F' pair \<noteq> None"
    then obtain h where "flight_ok db' pair h" using inv2 by (auto simp: conc_inv_def)
    then show False using only by (auto simp: flight_ok_def)
  qed
  moreover have "\<exists>s. take_result gzip now pair report db' = Inr (Inl s, db') \<and> s \<noteq> Accepted"
  proof (cases "guard_result pair report db'")
    case (Refuse s)
    then show ?thesis using guard_Refuse [OF Refuse] by (simp add: take_result_def)
  next
    case (Admit i)
    then show ?thesis using guard_Admit only by (metis job_status.distinct(7))
  qed
  ultimately show ?thesis using games mine(2) by simp
qed

theorem interleaved_result_counts_once_witness:
  "\<exists>db F f d. demo_conc (db, F) \<and> F 1 \<noteq> None \<and> F 2 = Some f \<and> db_games db = [] \<and>
     demo_conc (d, F(2 := None)) \<and> filter (\<lambda>g. g_pair g = 2) (db_games d) = fl_games f \<and>
     (\<exists>s. take_result demo_gzip 40 2 demo_report d = Inr (Inl s, d) \<and> s \<noteq> Accepted)"
proof -
  obtain db F f1 f2 r d where s: "demo_conc (db, F)" "F 1 = Some f1" "F 2 = Some f2" "db_games db = []"
    "finish_result 2 f2 db = Inr (r, d)" "demo_conc (d, F(2 := None))"
    by (rule demo_crossed)
  show ?thesis
    using interleaved_result_counts_once [OF s(1,3,5) rtranclp.rtrancl_refl, of 40 demo_report] s by blast
qed

text \<open>
  C6: the record is only appended to in every interleaving, and a test that has ended gains a game
  only if it belongs to a submission that was in flight when the test ended; nothing that arrives
  later reaches it.
\<close>

theorem late_results_were_in_flight:
  assumes "conc_reachable cfg fs build gzip (db, F)" and "conc_run cfg fs build gzip (db, F) (db', F')"
  shows "\<exists>new. db_games db' = db_games db @ new \<and>
    (\<forall>t \<in> set (db_tests db). \<forall>g \<in> set new. test_rank (t_status t) = 3 \<longrightarrow> g_test g = t_id t \<longrightarrow>
       (\<exists>k f. F k = Some f \<and> g \<in> set (fl_games f)))"
  using late_run [OF assms(2) conc_reachable_inv [OF assms(1)]] by simp

lemma demo_late:
  obtains db f db' r t where "demo_conc (db, Map.empty(1 := Some f))" "t \<in> set (db_tests db)"
    "t_id t = 1" "t_status t = Stopped" "db_games db = []"
    "finish_result 1 f db = Inr (r, db')" "sr_status r = Accepted"
    "map (\<lambda>g. (g_pair g, g_test g)) (db_games db') = [(1, 1), (1, 1)]"
    "submit_result demo_gzip 30 1 demo_report db = Inr (submit_status_only TestFinished, db)"
    "demo_conc_step (db, Map.empty(1 := Some f)) (db', Map.empty)"
proof -
  obtain d f where a: "demo_conc (d\<lparr>next_game := 3\<rparr>, Map.empty(1 := Some f))" "demo_leased d" "fl_test f = 1"
    by (rule demo_flight)
  let ?d = "d\<lparr>next_game := 3\<rparr>" and ?F = "Map.empty(1 := Some f)"
  let ?s = "demo_stopped ?d"
  obtain so where stop: "stop_test 30 1 ?d = (so, ?s)" using demo_stop [OF a(2)] by blast
  have "demo_conc_step (?d, ?F) (?s, ?F)"
    by (rule conc_step.Other [OF server_step.Stop [OF stop]]) (simp add: find_pair_def demo_stopped_def)
  then have s: "demo_conc (?s, ?F)" by (rule conc_reachable_step [OF a(1)])
  have inv: "db_inv ?s" "flight_ok ?s 1 f" using conc_reachable_inv [OF s] by (simp_all add: conc_inv_def)
  obtain t where t: "db_tests d = [t]" "demo_running t" using a(2) by (auto simp: demo_leased_def)
  let ?t = "t\<lparr>t_status := Stopped, t_finished_at := Some 30\<rparr>"
  have tests: "db_tests ?s = [?t]" "t_id ?t = 1" "t_kind ?t = Gauntlet"
    using t by (simp_all add: demo_stopped_def update_where_def demo_running_def)
  obtain db' where db': "finish_result 1 f ?s = Inr (\<lparr>sr_status = Accepted, sr_valid_games = fl_valid f\<rparr>, db')"
    using finish_total [OF inv] tests by auto
  have games: "db_games ?s = []" using a(2) by (simp add: demo_stopped_def demo_leased_def)
  have "map (\<lambda>g. (g_pair g, g_test g)) (db_games db') = [(1, 1), (1, 1)]"
    using finish_facts(2) [OF inv db'] games inv(2) a(3) by (auto simp: flight_ok_def result_row_def)
  moreover have "submit_result demo_gzip 30 1 demo_report ?s = Inr (submit_status_only TestFinished, ?s)"
    using a(2) t tests
    by (simp add: submit_result_def find_pair_def find_test_def find_client_def demo_stopped_def demo_leased_def
        demo_pair_rows lease_pair_def demo_client_def insert_client_row_def demo_report_def demo_running_def Let_def)
  moreover have "demo_conc_step (?s, ?F) (db', ?F(1 := None))" by (rule conc_step.Commit [OF _ db']) simp
  ultimately show thesis using that [of ?s f ?t] s tests games db' by simp
qed

theorem late_results_were_in_flight_witness:
  "\<exists>db F db' F' t new. demo_conc (db, F) \<and> demo_conc_step (db, F) (db', F') \<and> t \<in> set (db_tests db) \<and>
     t_status t = Stopped \<and> db_games db' = db_games db @ new \<and> map g_test new = [t_id t, t_id t] \<and>
     (\<forall>g \<in> set new. \<exists>k f. F k = Some f \<and> g \<in> set (fl_games f))"
proof -
  obtain db f db' r t where s: "demo_conc (db, Map.empty(1 := Some f))" "t \<in> set (db_tests db)"
    "t_id t = 1" "t_status t = Stopped" "db_games db = []"
    and g: "map (\<lambda>g. (g_pair g, g_test g)) (db_games db') = [(1, 1), (1, 1)]"
    and step: "demo_conc_step (db, Map.empty(1 := Some f)) (db', Map.empty)"
    by (rule demo_late)
  obtain new where new: "db_games db' = db_games db @ new"
    "\<forall>t \<in> set (db_tests db). \<forall>g \<in> set new. test_rank (t_status t) = 3 \<longrightarrow> g_test g = t_id t \<longrightarrow>
       (\<exists>k h. (Map.empty(1 := Some f)) (k :: int) = Some h \<and> g \<in> set (fl_games h))"
    using late_results_were_in_flight [OF s(1) r_into_rtranclp [of "demo_conc_step", OF step]] by blast
  have gt: "map g_test new = [1, 1]" using g new(1) s(5) by auto
  then have "\<forall>g \<in> set new. g_test g = t_id t" using s(3) by auto
  then have "\<forall>g \<in> set new. \<exists>k h. (Map.empty(1 := Some f)) (k :: int) = Some h \<and> g \<in> set (fl_games h)"
    using new(2) s(2,4) by auto
  moreover have "map g_test new = [t_id t, t_id t]" using gt s(3) by simp
  ultimately show ?thesis using s(1,2,4) step new(1) by (intro exI conjI)
qed

text \<open>
  C7: the guard on the state of the test is not under a lock. There is an interleaving in which a
  test is stopped while a result for it is in flight, and the result is then accepted and its games
  are added to the stopped test, where the same submission in one piece is refused as being for a
  finished test.
\<close>

theorem stopped_test_gains_games:
  "\<exists>db f db' r t. demo_conc (db, Map.empty(1 := Some f)) \<and> t \<in> set (db_tests db) \<and> t_status t = Stopped \<and>
     submit_result demo_gzip 30 1 demo_report db = Inr (submit_status_only TestFinished, db) \<and>
     finish_result 1 f db = Inr (r, db') \<and> sr_status r = Accepted \<and> db_games db = [] \<and>
     map g_test (db_games db') = [t_id t, t_id t]"
proof -
  obtain db f db' r t where s: "demo_conc (db, Map.empty(1 := Some f))" "t \<in> set (db_tests db)"
    "t_id t = 1" "t_status t = Stopped" "db_games db = []" "finish_result 1 f db = Inr (r, db')"
    "sr_status r = Accepted" "map (\<lambda>g. (g_pair g, g_test g)) (db_games db') = [(1, 1), (1, 1)]"
    "submit_result demo_gzip 30 1 demo_report db = Inr (submit_status_only TestFinished, db)"
    by (rule demo_late)
  have "map g_test (db_games db') = map snd (map (\<lambda>g. (g_pair g, g_test g)) (db_games db'))" by simp
  then have "map g_test (db_games db') = [t_id t, t_id t]" unfolding s(8) by (simp add: s(3))
  with s(1,2,4-7,9) show ?thesis by (intro exI conjI)
qed

end
