(* ===== verification/Spec2Isabelle.thy ===== *)
theory Spec2Isabelle
  imports Penta Gsprt Elo CppStrings Json Sanity Spec Books Promises Contracts
    Process Github Reports WebRoutes ClientConfig RunnerLoop Pool FastchessSetup Gzip ClientMain
    Workers CliRuns EndToEnd RunnerThreads CliServer Settings WireRuns Log History Interleaving
begin

text \<open>
  capi_net tests chess engines on many hosts. A test compares two commits, the candidate and
  the baseline, by pairs of games from the same opening with colours swapped. The server keeps
  tests, pairs and games in PostgreSQL; clients claim pairs under a lease, build the engines,
  play with fastchess and report; after each accepted pair the server recalculates the score,
  Elo and, for an SPRT test, the likelihood ratio that decides when the test ends. One test runs
  at a time; validated tests queue behind it by priority. This development models the C++ of
  common/, server/, client/ and cli/ and the database of migrations/, and proves what makes
  each part correct and what they promise together.

  \<^bold>\<open>How the code is written here.\<close> A struct is a record, an enum a datatype, an exception
  the \<open>Inl\<close> of a result (\<open>exn\<close>, one constructor per exception type that the code tells
  apart), a database row a record and the database the lists of its rows (\<open>db\<close>). A function
  on a transaction is a function of the database; one that throws gives \<open>Inl\<close> and no new
  database, as the transaction is rolled back. Where effects survive an exception (a disk, a
  log, calls made) the theories use the state-passing \<open>effect\<close> of Effects. Loops that may
  not end, or whose inputs come from outside, take the list of what they meet and answer
  \<^const>\<open>None\<close> when it runs out: such a loop has ended exactly when it does not give
  \<^const>\<open>None\<close>, and that it ends is a theorem where the code promises it. \<^verbatim>\<open>int\<close> and
  \<^verbatim>\<open>long long\<close> are integers with their range tested or wrapped (\<open>wrap_int\<close>) wherever the
  code narrows, sums or parses; the generator of the samples works on 64-bit words. Doubles
  are real numbers. Texts are lists of bytes.

  \<^bold>\<open>Theories and sources.\<close>
  \<^item> Prelude (results, integer ranges, rounding, updates of rows, the locale of a monotone
    search), CppStrings (\<^verbatim>\<open>std::string\<close>, streams, \<^verbatim>\<open>stoi\<close>, paths), Json (documents),
    Effects, Log (common/log.hpp: a line, its timestamp, and that lines sort by time).
  \<^item> Statistics: Penta (common/penta), Gsprt (common/gsprt: secular equation, MLE iteration,
    LLR, Wald bounds), Elo (common/elo: \<^verbatim>\<open>phi_inv\<close>, \<^verbatim>\<open>elo_estimate\<close>).
  \<^item> Inputs of a test: Spec (server/spec: \<^verbatim>\<open>parse_tc\<close>, \<^verbatim>\<open>parse_test_spec\<close>), Books
    (server/books: \<^verbatim>\<open>epd_to_fen\<close>, \<^verbatim>\<open>sample_book\<close>), Sanity (server/sanity:
    \<^verbatim>\<open>check_pair\<close>), ServerConfig (server/config), Github (server/github).
  \<^item> Database and transactions: Database (migrations/, tables, enums, the view
    \<^verbatim>\<open>pair_outcomes\<close>), Lifecycle (server/test_lifecycle: \<^verbatim>\<open>promote_next_test\<close>,
    \<^verbatim>\<open>refresh_test\<close>, \<^verbatim>\<open>finish_test\<close>), Queue (server/queue: register, heartbeat,
    \<^verbatim>\<open>claim_pairs\<close>, \<^verbatim>\<open>submit_result\<close>, abandon, \<^verbatim>\<open>recover_expired_leases\<close>), Admin
    (server/admin), Smoke (server/smoke: \<^verbatim>\<open>process_next\<close> in its three parts), Reports
    (server/reports), Pool (server/db/pool), Gzip (server/gzip).
  \<^item> HTTP: Http (server/http/helpers.hpp), Routes (server/http/routes.cpp), AdminRoutes
    (server/http/admin_routes.cpp), WebRoutes (server/http/web_routes.cpp), HttpServer (the
    effect of a request on the database), Router (the routes as they are registered and a
    request's way through them), Workers (server/main.cpp and the thread of server/smoke.cpp).
  \<^item> Client: Process (common/process: \<^verbatim>\<open>run_process\<close>, its pipes, limits and kill),
    EngineBuild (common/engine_build), FastchessSetup (client/fastchess_setup), Topology
    (client/topology: cores and admission), ClientConfig (client/config), ClientApi
    (client/api), Pgn (client/pgn), Runner and RunnerLoop (client/runner: engines, slots, a
    pair, its delivery), RunnerThreads (the threads of \<^verbatim>\<open>Runner::run\<close>), ClientMain
    (client/main.cpp).
  \<^item> Tool: Cli (cli/main.cpp).

  \<^bold>\<open>What is proved.\<close> Invariants and Preservation state what the database satisfies between
  transactions (\<open>db_inv\<close>) and that every operation keeps it; Scores that a recalculation
  cannot fail on stored games and agrees with them; Transitions holds two interfaces as locales,
  a system that keeps an invariant and a family of objects that move along the edges of an
  abstract machine; Server gives the step relation \<open>server_step\<close>, one constructor per
  transaction, interprets both locales on it and so refines the life cycles of pairs and tests;
  Guarantees adds clients, the record of games and what operations do on every branch. The
  properties are in Promises (the database over every run), Interleaving (submissions in two
  halves, in every interleaving with the other transactions, under the locks the code takes), Settings (the settings of every
  stored test), History (the history of a test rises and ends at its statistics), Contracts
  (reports, downloads, when a child process returns, deliveries, the cores of the slots, the time
  control), EndToEnd (client and server together: every way a claimed pair can go, and that a
  played pair is scored unless the likelihood ratio of its test is undefined), WireRuns (routing, the server on the wire, the client's poll over it up to the command
  line of a game), RunnerThreads (the maximum of pairs and the end of a run, in every
  interleaving), Workers (the threads of the server, the validation of every test in turn, and how
  one text that PostgreSQL refuses stops it), Pool, EngineBuild, ClientMain, CliRuns (the
  tool), CliServer (the tool reads every answer of the server) and at the end of the theories of
  statistics and inputs. Protocol, TimeControl, Downloads and Scenario
  hold the lemmas and the sample run these rest on. HttpServer shows that each handler performs
  at most one step of \<open>server_step\<close>, and Workers that the threads perform runs of it, so
  what is proved of runs holds of the process.

  \<^bold>\<open>Bounds.\<close> The iterations have the bounds of the code: 200 bisections in Gsprt and Elo, 10
  rounds of the MLE; \<^verbatim>\<open>erfc\<close> is its power series. Twenty attempts are enough for a delivery,
  as nineteen of its sleeps take more than its 15 minutes; the loop over the output of a child
  process has ended after the first round in which its output closes or its limit or its
  cancellation is seen, and the call then returns unless the child runs on with its output closed.
  A client of
  \<open>n\<close> slots that is told to stop makes at most \<open>6 + 7 n\<close> more steps. The other
  loops over inputs take lists of any length, so no fuel is chosen for them.

  \<^bold>\<open>Parameters.\<close> The clock, the locks other transactions hold, \<^verbatim>\<open>random()\<close>, the outcome
  of taking a connection, the environment and the files, what child processes, curl, zlib, the
  HTTP library (the transport, the file below the static directory) and the kernel answer, number formatting by the C library, and the value
  \<^verbatim>\<open>std::llround\<close> gives beyond the range of its type (the server's routes use that of
  x86-64, \<open>- (2 ^ 63)\<close>).

  \<^bold>\<open>Not modelled.\<close>
  \<^item> Transactions are atomic steps: the interleavings that READ COMMITTED allows inside one,
    and a connection lost while committing, are left out, as are ids used up by transactions
    that are rolled back. Rows locked by others, which \<^verbatim>\<open>SKIP LOCKED\<close> passes over, are in,
    and so are submissions in two halves (Interleaving). One race is left out by this:
    \<^verbatim>\<open>promote_next_test\<close> chooses the queued test in a subselect that is not evaluated anew
    after a wait for a lock, so that a test that \<^verbatim>\<open>stop_test\<close> has just stopped may be set to
    running.
  \<^item> The files, the builds and zlib are functions that do not change along a run.
  \<^item> Texts that PostgreSQL refuses (invalid UTF-8, NUL bytes), but for those of a validation, which
    Workers has; the length of the commit
    columns, the columns requeued_from, banned_at and ban_reason and the table client_residuals,
    which nothing writes. Times are numbers, and so are their texts in reports.
  \<^item> Rounding of doubles, and infinite or undefined ones; JSON texts themselves (a document is
    its value, a body that does not parse is \<^const>\<open>None\<close>, and the tool's \<open>discarded\<close> value).
  \<^item> How the HTTP library splits a target and searches its routes: it is written out in Router as
    the library documents it, and WireRuns shows that any search for a matching route finds the
    same one.
  \<^item> Which lines are logged when, the length of sleeps, signal threads, what the client's
    \<^verbatim>\<open>main\<close> prints, the part of a line that the
    tool has printed before an exception, failures of file-system calls during builds, the
    stack depth of \<^verbatim>\<open>std::regex\<close>.
  \<^item> zlib's format, the web pages, scripts and test programs.
\<close>

end
